(* ===== verification/Stello_Prelude.thy ===== *)
theory Stello_Prelude
  imports Main "HOL-Library.Log_Nat"
begin

text \<open>
  What every component of the model shares: names for the kinds of data the backend passes
  around, the result type of operations that may throw, the collections of facts the
  component theories extend, and a few generic lemmas on lists and sums.

  A promise that rejects and a call that throws are the same thing in the model: a value
  \<open>Inl e\<close> of the result type \<open>'e + 'a\<close>. Mutable state is passed explicitly.
\<close>

type_synonym wallet = string
type_synonym contract_id = string
type_synonym tx_hash = string
type_synonym stroops = int       \<comment> \<open>a \<open>bigint\<close> amount, 7 decimals\<close>
type_synonym millis = int        \<comment> \<open>a time stamp as \<open>Date.now()\<close> gives it\<close>
type_synonym ledger_no = int

named_theorems exec_simps "equations that evaluate the model on concrete inputs"
named_theorems frame_simps "fields an operation does not touch"
named_theorems inv_intros "operations preserve their component's invariant"

subsection \<open>Results\<close>

text \<open>The exceptions the modelled code raises: those of the language and \<open>new Error(msg)\<close>.\<close>

datatype js_error = RangeError | TypeError | SyntaxError | Err string

abbreviation throw :: "'e \<Rightarrow> 'e + 'a" where "throw \<equiv> Inl"
abbreviation return :: "'a \<Rightarrow> 'e + 'a" where "return \<equiv> Inr"

definition bind_result :: "'e + 'a \<Rightarrow> ('a \<Rightarrow> 'e + 'b) \<Rightarrow> 'e + 'b" where
  "bind_result r f = (case r of Inl e \<Rightarrow> Inl e | Inr a \<Rightarrow> f a)"

lemma bind_result_simps [simp]:
  "bind_result (Inl e) f = Inl e"
  "bind_result (Inr a) f = f a"
  by (simp_all add: bind_result_def)

lemma bind_result_Inr_iff:
  "bind_result r f = Inr b \<longleftrightarrow> (\<exists>a. r = Inr a \<and> f a = Inr b)"
  by (cases r) auto

subsection \<open>Lists\<close>

lemma sum_list_update_int:
  fixes xs :: "int list"
  assumes "i < length xs"
  shows "sum_list (xs[i := v]) = sum_list xs - xs ! i + v"
  using assms
proof (induction xs arbitrary: i)
  case Nil
  then show ?case by simp
next
  case (Cons x xs)
  then show ?case by (cases i) auto
qed

lemma sum_list_map_le:
  fixes f g :: "'a \<Rightarrow> int"
  assumes "\<And>x. x \<in> set xs \<Longrightarrow> f x \<le> g x"
  shows "sum_list (map f xs) \<le> sum_list (map g xs)"
  using assms by (induction xs) (auto intro: add_mono)

lemma sum_list_map_nonneg:
  fixes f :: "'a \<Rightarrow> int"
  assumes "\<And>x. x \<in> set xs \<Longrightarrow> 0 \<le> f x"
  shows "0 \<le> sum_list (map f xs)"
  using assms by (induction xs) auto

lemma filter_length_le: "int (length (filter P xs)) \<le> int (length xs)"
  by simp

lemma fold_max_ge: "(m::int) \<le> fold max xs m" "x \<in> set xs \<Longrightarrow> x \<le> fold max xs m"
proof (induction xs arbitrary: m)
  case (Cons y ys)
  { case 1 show ?case using Cons.IH(1) [of "max y m"] by simp }
  { case 2 then show ?case using Cons.IH(1) [of "max y m"] Cons.IH(2) [of "max y m"] by auto }
qed simp_all

lemma in_take_or_drop: "x \<in> set l \<Longrightarrow> x \<notin> set (take n l) \<Longrightarrow> x \<in> set (drop n l)"
  by (metis Un_iff append_take_drop_id set_append)

lemma sorted_take_drop:
  assumes "sorted (map f l)" "v \<in> set (take n l)" "w \<in> set (drop n l)"
  shows "f v \<le> f w"
proof -
  have "sorted (map f (take n l) @ map f (drop n l))"
    using assms(1) by (metis append_take_drop_id map_append)
  then show ?thesis using assms(2,3) by (auto simp: sorted_append)
qed

lemma sorted_map_last:
  "sorted (map f xs) \<Longrightarrow> x \<in> set xs \<Longrightarrow> f x \<le> f (last xs)"
  by (induction xs) auto

lemma filter_keeps_last:
  "xs \<noteq> [] \<Longrightarrow> Q (last xs) \<Longrightarrow> filter Q xs \<noteq> [] \<and> last (filter Q xs) = last xs"
  by (induction xs) (auto split: if_splits)

subsection \<open>Strings\<close>

text \<open>\<open>s.startsWith(p)\<close> and \<open>s.includes(p)\<close>.\<close>

fun startsWith :: "string \<Rightarrow> string \<Rightarrow> bool" where
  "startsWith s [] = True"
| "startsWith [] (p # ps) = False"
| "startsWith (c # cs) (p # ps) = (c = p \<and> startsWith cs ps)"

fun hasSubstring :: "string \<Rightarrow> string \<Rightarrow> bool" where
  "hasSubstring [] p = (p = [])"
| "hasSubstring (c # cs) p = (startsWith (c # cs) p \<or> hasSubstring cs p)"

lemma startsWith_append: "startsWith s p \<longleftrightarrow> (\<exists>t. s = p @ t)"
  by (induction s p rule: startsWith.induct) auto

lemma hasSubstring_iff: "hasSubstring s p \<longleftrightarrow> (\<exists>u v. s = u @ p @ v)"
proof (induction s p rule: hasSubstring.induct)
  case (1 p)
  then show ?case by auto
next
  case (2 c cs p)
  show ?case
  proof
    assume "hasSubstring (c # cs) p"
    then consider "startsWith (c # cs) p" | "hasSubstring cs p" by auto
    then show "\<exists>u v. c # cs = u @ p @ v"
    proof cases
      case 1
      then obtain t where "c # cs = [] @ p @ t" by (auto simp: startsWith_append)
      then show ?thesis by blast
    next
      case 2
      then obtain u v where "cs = u @ p @ v" using "2.IH" by blast
      then have "c # cs = (c # u) @ p @ v" by simp
      then show ?thesis by blast
    qed
  next
    assume "\<exists>u v. c # cs = u @ p @ v"
    then obtain u v where uv: "c # cs = u @ p @ v" by blast
    show "hasSubstring (c # cs) p"
    proof (cases u)
      case Nil
      then have "startsWith (c # cs) p" using uv unfolding startsWith_append by simp
      then show ?thesis by simp
    next
      case (Cons d u')
      then have "\<exists>u v. cs = u @ p @ v" using uv by auto
      then show ?thesis using "2.IH" by simp
    qed
  qed
qed

subsection \<open>Tables with a unique key\<close>

text \<open>An upsert by a unique key and the lookup of a key, as the database client offers them.\<close>

definition upsert_by :: "('a \<Rightarrow> 'k) \<Rightarrow> 'a \<Rightarrow> 'a list \<Rightarrow> 'a list" where
  "upsert_by key r rows =
     (if key r \<in> key ` set rows then map (\<lambda>x. if key x = key r then r else x) rows else rows @ [r])"

definition lookup_by :: "('a \<Rightarrow> 'k) \<Rightarrow> 'k \<Rightarrow> 'a list \<Rightarrow> 'a option" where
  "lookup_by key k rows = find (\<lambda>x. key x = k) rows"

lemma upsert_by_keys [simp]: "key ` set (upsert_by key r rows) = insert (key r) (key ` set rows)"
  by (auto simp: upsert_by_def image_iff)

lemma upsert_by_map_key: "key r \<in> key ` set rows \<Longrightarrow> map key (upsert_by key r rows) = map key rows"
  by (simp add: upsert_by_def comp_def)

lemma upsert_by_distinct [intro]: "distinct (map key rows) \<Longrightarrow> distinct (map key (upsert_by key r rows))"
  by (cases "key r \<in> key ` set rows") (simp add: upsert_by_map_key, auto simp: upsert_by_def)

lemma upsert_by_mem: "x \<in> set (upsert_by key r rows) \<Longrightarrow> x = r \<or> x \<in> set rows"
  by (auto simp: upsert_by_def split: if_splits)

lemma lookup_by_map_other:
  "k \<noteq> key r \<Longrightarrow> lookup_by key k (map (\<lambda>x. if key x = key r then r else x) rows) = lookup_by key k rows"
  by (induction rows) (auto simp: lookup_by_def)

lemma lookup_by_map_same:
  "key r \<in> key ` set rows \<Longrightarrow> lookup_by key (key r) (map (\<lambda>x. if key x = key r then r else x) rows) = Some r"
  by (induction rows) (auto simp: lookup_by_def)

lemma lookup_by_append:
  "lookup_by key k (xs @ ys) = (case lookup_by key k xs of None \<Rightarrow> lookup_by key k ys | Some x \<Rightarrow> Some x)"
  by (induction xs) (auto simp: lookup_by_def)

lemma lookup_by_None: "lookup_by key k rows = None \<longleftrightarrow> k \<notin> key ` set rows"
  by (auto simp: lookup_by_def find_None_iff)

lemma lookup_by_Some: "lookup_by key k rows = Some x \<Longrightarrow> x \<in> set rows \<and> key x = k"
  by (auto simp: lookup_by_def find_Some_iff in_set_conv_nth)

lemma lookup_by_mem: "distinct (map key rows) \<Longrightarrow> x \<in> set rows \<Longrightarrow> lookup_by key (key x) rows = Some x"
  by (induction rows) (auto simp: lookup_by_def)

lemma lookup_upsert: "lookup_by key k (upsert_by key r rows) = (if k = key r then Some r else lookup_by key k rows)"
proof (cases "key r \<in> key ` set rows")
  case True
  then show ?thesis by (simp add: upsert_by_def lookup_by_map_same lookup_by_map_other)
next
  case False
  have "lookup_by key k [r] = (if k = key r then Some r else None)" by (simp add: lookup_by_def)
  moreover have "lookup_by key (key r) rows = None" using False by (simp add: lookup_by_None)
  ultimately show ?thesis using False
    by (cases "k = key r") (simp_all add: upsert_by_def lookup_by_append split: option.split)
qed

lemma lookup_upserts_other:
  "k \<notin> key ` set rs \<Longrightarrow> lookup_by key k (fold (upsert_by key) rs rows) = lookup_by key k rows"
  by (induction rs arbitrary: rows) (auto simp: lookup_upsert)

lemma lookup_upserts:
  "distinct (map key rs) \<Longrightarrow> r \<in> set rs \<Longrightarrow> lookup_by key (key r) (fold (upsert_by key) rs rows) = Some r"
proof (induction rs arbitrary: rows)
  case (Cons x rs)
  then show ?case by (cases "r = x") (auto simp: lookup_upserts_other lookup_upsert)
qed simp

lemma upserts_distinct: "distinct (map key rows) \<Longrightarrow> distinct (map key (fold (upsert_by key) rs rows))"
  by (induction rs arbitrary: rows) auto

lemma upserts_mem: "x \<in> set (fold (upsert_by key) rs rows) \<Longrightarrow> x \<in> set rs \<or> x \<in> set rows"
proof (induction rs arbitrary: rows)
  case (Cons r rs)
  then have "x \<in> set rs \<or> x \<in> set (upsert_by key r rows)" by auto
  then show ?case using upsert_by_mem by fastforce
qed simp

subsection \<open>Grouping\<close>

text \<open>
  Rows collected under their key, as a loop does it that opens a group where a key occurs first and appends to
  it afterwards; the groups stand in the order of their first rows.\<close>

fun push_row :: "'k \<Rightarrow> 'v \<Rightarrow> ('k \<times> 'v list) list \<Rightarrow> ('k \<times> 'v list) list" where
  "push_row k v [] = [(k, [v])]"
| "push_row k v ((k', vs) # g) = (if k' = k then (k', vs @ [v]) # g else (k', vs) # push_row k v g)"

definition group_rows :: "('r \<Rightarrow> 'k) \<Rightarrow> ('r \<Rightarrow> 'v) \<Rightarrow> 'r list \<Rightarrow> ('k \<times> 'v list) list" where
  "group_rows key val rs = fold (\<lambda>r. push_row (key r) (val r)) rs []"

definition firsts :: "'a list \<Rightarrow> 'a list" where
  "firsts xs = rev (remdups (rev xs))"

lemma firsts_snoc: "firsts (xs @ [x]) = (if x \<in> set xs then firsts xs else firsts xs @ [x])"
  by (simp add: firsts_def)

lemma set_firsts [simp]: "set (firsts xs) = set xs"
  by (simp add: firsts_def)

lemma distinct_firsts [simp]: "distinct (firsts xs)"
  by (simp add: firsts_def)

lemma push_row_map:
  "distinct ks \<Longrightarrow> push_row k v (map (\<lambda>j. (j, f j)) ks) =
     (if k \<in> set ks then map (\<lambda>j. (j, if j = k then f j @ [v] else f j)) ks
      else map (\<lambda>j. (j, f j)) ks @ [(k, [v])])"
  by (induction ks) auto

lemma group_rows_eq:
  "group_rows key val rs = map (\<lambda>k. (k, map val (filter (\<lambda>r. key r = k) rs))) (firsts (map key rs))"
proof (induction rs rule: rev_induct)
  case (snoc r rs)
  have "group_rows key val (rs @ [r]) = push_row (key r) (val r) (group_rows key val rs)"
    by (simp add: group_rows_def)
  moreover have "filter (\<lambda>x. key x = key r) rs = []" if "key r \<notin> key ` set rs"
    using that by (metis (mono_tags, lifting) filter_False image_eqI)
  ultimately show ?case
    by (auto simp: snoc push_row_map firsts_snoc cong: map_cong)
qed (simp add: group_rows_def firsts_def)

lemma firsts_sorted: "sorted xs \<Longrightarrow> firsts xs = sort (remdups xs)"
proof (induction xs rule: rev_induct)
  case (snoc x xs)
  then have s: "sorted xs" "\<forall>y\<in>set xs. y \<le> x" by (auto simp: sorted_append)
  then have "sorted (firsts (xs @ [x]))" using snoc.IH by (auto simp: firsts_snoc sorted_append)
  then show ?case by (intro sorted_distinct_set_unique) simp_all
qed (simp add: firsts_def)

subsection \<open>Tables that copy something, with a generated identifier\<close>

text \<open>
  The first row of a key is updated by its identifier, or a new row inserted with the next one. The
  schema does not make the key unique; these laws say what keeps it so.\<close>

definition next_id :: "('r \<Rightarrow> int) \<Rightarrow> 'r list \<Rightarrow> int" where
  "next_id rid tbl = fold max (map rid tbl) 0 + 1"

definition write_by ::
  "('r \<Rightarrow> int) \<Rightarrow> ('r \<Rightarrow> 'k) \<Rightarrow> ('v \<Rightarrow> 'r \<Rightarrow> 'r) \<Rightarrow> (int \<Rightarrow> 'k \<Rightarrow> 'v \<Rightarrow> 'r) \<Rightarrow> 'k \<Rightarrow> 'v \<Rightarrow> 'r list \<Rightarrow> 'r list" where
  "write_by rid key upd fresh k v tbl =
     (case find (\<lambda>r. key r = k) tbl of
        Some existing \<Rightarrow> map (\<lambda>r. if rid r = rid existing then upd v r else r) tbl
      | None \<Rightarrow> tbl @ [fresh (next_id rid tbl) k v])"

locale copy_table =
  fixes rid :: "'r \<Rightarrow> int" and key :: "'r \<Rightarrow> 'k" and upd :: "'v \<Rightarrow> 'r \<Rightarrow> 'r" and fresh :: "int \<Rightarrow> 'k \<Rightarrow> 'v \<Rightarrow> 'r"
    and ok :: "'r list \<Rightarrow> bool"
  assumes rid_upd: "rid (upd v r) = rid r" and key_upd: "key (upd v r) = key r"
    and rid_fresh: "rid (fresh i k v) = i" and key_fresh: "key (fresh i k v) = k"
    and ok_iff: "ok tbl \<longleftrightarrow> distinct (map rid tbl) \<and> distinct (map key tbl)"
begin

lemma write_is_upsert:
  assumes "ok tbl"
  shows "write_by rid key upd fresh k v tbl =
    upsert_by key (case lookup_by key k tbl of Some r \<Rightarrow> upd v r | None \<Rightarrow> fresh (next_id rid tbl) k v) tbl"
proof (cases "lookup_by key k tbl")
  case None
  then have "k \<notin> key ` set tbl" by (simp add: lookup_by_None)
  then show ?thesis using None by (simp add: write_by_def lookup_by_def upsert_by_def key_fresh)
next
  case (Some e)
  then have e: "e \<in> set tbl" "key e = k" using lookup_by_Some by fast+
  have inj: "inj_on rid (set tbl)" "inj_on key (set tbl)" using assms by (simp_all add: ok_iff distinct_map)
  have "(if rid r = rid e then upd v r else r) = (if key r = key (upd v e) then upd v e else r)" if "r \<in> set tbl" for r
    using inj that e by (auto simp: key_upd dest: inj_onD)
  then have "map (\<lambda>r. if rid r = rid e then upd v r else r) tbl = map (\<lambda>r. if key r = key (upd v e) then upd v e else r) tbl"
    by (intro map_cong refl)
  then show ?thesis using e Some by (auto simp: write_by_def lookup_by_def upsert_by_def key_upd)
qed

lemma write_keeps_ok:
  assumes "ok tbl"
  shows "ok (write_by rid key upd fresh k v tbl)"
proof -
  have "distinct (map key (write_by rid key upd fresh k v tbl))"
    using assms by (auto simp: write_is_upsert ok_iff)
  moreover have "distinct (map rid (write_by rid key upd fresh k v tbl))"
  proof (cases "lookup_by key k tbl")
    case None
    have "x < next_id rid tbl" if "x \<in> rid ` set tbl" for x
      using fold_max_ge(2) [of x "map rid tbl" 0] that by (simp add: next_id_def)
    then have "next_id rid tbl \<notin> rid ` set tbl" by blast
    then show ?thesis using None assms by (simp add: write_by_def lookup_by_def rid_fresh ok_iff)
  next
    case (Some e)
    have "map rid (write_by rid key upd fresh k v tbl) = map rid tbl"
      using Some by (simp add: write_by_def lookup_by_def rid_upd)
    then show ?thesis using assms by (simp add: ok_iff)
  qed
  ultimately show ?thesis by (simp add: ok_iff)
qed

lemma lookup_write:
  assumes "ok tbl"
  shows "lookup_by key j (write_by rid key upd fresh k v tbl) =
    (if j = k then Some (case lookup_by key k tbl of Some r \<Rightarrow> upd v r | None \<Rightarrow> fresh (next_id rid tbl) k v)
     else lookup_by key j tbl)"
proof -
  have "key (case lookup_by key k tbl of Some r \<Rightarrow> upd v r | None \<Rightarrow> fresh (next_id rid tbl) k v) = k"
    using lookup_by_Some [of key k tbl] by (simp add: key_upd key_fresh split: option.split)
  then show ?thesis by (simp add: write_is_upsert [OF assms] lookup_upsert)
qed

end

end
