(* ===== verification/Js_Number.thy ===== *)
theory Js_Number
  imports Stello_Prelude
begin

text \<open>
  The numbers of the source language. A TypeScript \<open>number\<close> is an IEEE 754 binary64 value;
  the model keeps it as \<open>NaN\<close>, an infinity, or the exact rational value, and every arithmetic
  operation rounds its exact result to the nearest double, ties to even, as the language
  standard says. The sign of a zero is not kept: no modelled code divides by a zero it
  computed as a negative one. A \<open>bigint\<close> is an \<open>int\<close>; its division truncates towards zero.
\<close>

subsection \<open>The binary logarithm of a positive rational, executably\<close>

definition ilog2 :: "rat \<Rightarrow> int" where
  "ilog2 q = (let (n, d) = quotient_of q; k = bitlen n - bitlen d
              in if 2 powi k \<le> q then k else k - 1)"

lemma powi_pos [simp]: "(0::rat) < 2 powi k"
  by (simp add: zero_less_power_int)

lemma powi_mono: "i \<le> j \<Longrightarrow> (2::rat) powi i \<le> 2 powi j"
  by (rule power_int_increasing) auto

lemma powi_less_iff: "(2::rat) powi i < 2 powi j \<longleftrightarrow> i < j"
  by (meson linorder_not_le powi_mono power_int_strict_increasing one_less_numeral_iff
      semiring_norm(76))

lemma bitlen_powi:
  assumes "0 < n"
  shows "2 powi (bitlen n - 1) \<le> (of_int n :: rat)" "(of_int n :: rat) < 2 powi bitlen n"
proof -
  have b: "2 ^ nat (bitlen n - 1) \<le> n" "n < 2 ^ nat (bitlen n)"
    using bitlen_bounds [OF assms] by auto
  have p: "0 < bitlen n" using b(2) assms by (cases "bitlen n \<le> 0") auto
  have "(of_int (2 ^ nat (bitlen n - 1)) :: rat) \<le> of_int n"
    using b(1) by (simp only: of_int_le_iff)
  moreover have "2 powi (bitlen n - 1) = (of_int (2 ^ nat (bitlen n - 1)) :: rat)"
    using p by (simp add: power_int_def)
  ultimately show "2 powi (bitlen n - 1) \<le> (of_int n :: rat)" by simp
  have "(of_int n :: rat) < of_int (2 ^ nat (bitlen n))"
    using b(2) by (simp only: of_int_less_iff)
  moreover have "2 powi bitlen n = (of_int (2 ^ nat (bitlen n)) :: rat)"
    using p by (simp add: power_int_def)
  ultimately show "(of_int n :: rat) < 2 powi bitlen n" by simp
qed

lemma ilog2_bounds:
  assumes "0 < q"
  shows "2 powi ilog2 q \<le> q" "q < 2 powi (ilog2 q + 1)"
proof -
  obtain n d where nd: "quotient_of q = (n, d)" by (cases "quotient_of q")
  have d: "0 < d" using quotient_of_denom_pos [OF nd] .
  have q: "q = of_int n / of_int d" using quotient_of_div [OF nd] .
  have n: "0 < n" using assms q d by (simp add: zero_less_divide_iff)
  note bn = bitlen_powi [OF n] and bd = bitlen_powi [OF d]
  let ?a = "bitlen n" and ?b = "bitlen d"
  have dp: "(0::rat) < of_int d" using d by simp
  have "q < 2 powi ?a / 2 powi (?b - 1)"
    unfolding q by (rule frac_less) (use n bn bd in auto)
  also have "\<dots> = 2 powi (?a - ?b + 1)"
    by (simp flip: power_int_diff add: algebra_simps)
  finally have up: "q < 2 powi (?a - ?b + 1)" .
  have "2 powi (?a - 1) / 2 powi ?b \<le> q"
    unfolding q by (rule frac_le) (use n bn bd dp in auto)
  moreover have "2 powi (?a - 1) / 2 powi ?b = (2::rat) powi (?a - ?b - 1)"
    by (simp flip: power_int_diff add: algebra_simps)
  ultimately have lo: "2 powi (?a - ?b - 1) \<le> q" by simp
  show "2 powi ilog2 q \<le> q" "q < 2 powi (ilog2 q + 1)"
    using up lo by (auto simp: ilog2_def nd Let_def algebra_simps)
qed

lemma ilog2_unique:
  assumes "2 powi k \<le> q" "q < 2 powi (k + 1)"
  shows "ilog2 q = k"
proof -
  have q: "0 < q" using assms(1) powi_pos [of k] by linarith
  have "(2::rat) powi k < 2 powi (ilog2 q + 1)" using assms(1) ilog2_bounds(2) [OF q] by linarith
  moreover have "(2::rat) powi ilog2 q < 2 powi (k + 1)" using assms(2) ilog2_bounds(1) [OF q] by linarith
  ultimately show ?thesis by (simp add: powi_less_iff)
qed

lemma ilog2_mono: "0 < x \<Longrightarrow> x \<le> y \<Longrightarrow> ilog2 x \<le> ilog2 y"
proof -
  assume "0 < x" "x \<le> y"
  then have "(2::rat) powi ilog2 x < 2 powi (ilog2 y + 1)"
    using ilog2_bounds(1) [of x] ilog2_bounds(2) [of y] by linarith
  then show ?thesis by (simp add: powi_less_iff)
qed

subsection \<open>Rounding to the nearest integer, ties to even\<close>

definition rhe :: "rat \<Rightarrow> int" where
  "rhe x = (let f = \<lfloor>x\<rfloor>; r = x - of_int f
            in if r < 1/2 then f else if r > 1/2 then f + 1 else if even f then f else f + 1)"

lemma rhe_of_int [simp]: "rhe (of_int n) = n"
  by (simp add: rhe_def)

lemma rhe_bounds: "\<lfloor>x\<rfloor> \<le> rhe x" "rhe x \<le> \<lfloor>x\<rfloor> + 1"
  by (auto simp: rhe_def Let_def)

lemma rhe_error: "\<bar>of_int (rhe x) - x\<bar> \<le> 1/2"
proof -
  have "of_int \<lfloor>x\<rfloor> \<le> x" "x < of_int \<lfloor>x\<rfloor> + 1" by linarith+
  then show ?thesis by (simp add: rhe_def Let_def abs_if) linarith
qed

lemma rhe_mono: "x \<le> y \<Longrightarrow> rhe x \<le> rhe y"
proof -
  assume xy: "x \<le> y"
  then have f: "\<lfloor>x\<rfloor> \<le> \<lfloor>y\<rfloor>" by (rule floor_mono)
  show ?thesis
  proof (cases "\<lfloor>x\<rfloor> = \<lfloor>y\<rfloor>")
    case True
    then show ?thesis using xy by (auto simp: rhe_def Let_def)
  next
    case False
    with f have "\<lfloor>x\<rfloor> + 1 \<le> \<lfloor>y\<rfloor>" by simp
    then show ?thesis using rhe_bounds(2) [of x] rhe_bounds(1) [of y] by linarith
  qed
qed

subsection \<open>Rounding to the nearest double\<close>

text \<open>
  The weight of the last bit of a double next to \<open>x\<close>: 53 bits of precision, and the
  subnormal numbers below, whose last bit weighs \<open>2 powi -1074\<close>.
\<close>

definition uexp :: "rat \<Rightarrow> int" where
  "uexp x = max (ilog2 \<bar>x\<bar> - 52) (-1074)"

definition rndq :: "rat \<Rightarrow> rat" where
  "rndq x = (if x = 0 then 0 else of_int (rhe (x / 2 powi uexp x)) * 2 powi uexp x)"

definition is_double :: "rat \<Rightarrow> bool" where
  "is_double x \<longleftrightarrow> rndq x = x"

lemma rndq_0 [simp]: "rndq 0 = 0"
  by (simp add: rndq_def)

lemma rhe_le_of_int: "x \<le> of_int k \<Longrightarrow> rhe x \<le> k"
  using rhe_mono [of x "of_int k"] by simp

lemma of_int_le_rhe: "of_int k \<le> x \<Longrightarrow> k \<le> rhe x"
  using rhe_mono [of "of_int k" x] by simp

lemma powi_split: "e \<le> f \<Longrightarrow> (2::rat) powi f = of_int (2 ^ nat (f - e)) * 2 powi e"
proof -
  assume "e \<le> f"
  then have "(2::rat) powi f = 2 powi (f - e) * 2 powi e"
    by (simp flip: power_int_add)
  moreover have "(2::rat) powi (f - e) = of_int (2 ^ nat (f - e))"
    using \<open>e \<le> f\<close> by (simp add: power_int_def)
  ultimately show ?thesis by simp
qed

text \<open>A grid point at or above \<open>x\<close> stays above its rounding, and one below stays below.\<close>

lemma rndq_le_grid:
  assumes "x \<le> of_int k * 2 powi e" "uexp x \<le> e"
  shows "rndq x \<le> of_int k * 2 powi e"
proof (cases "x = 0")
  case True
  then show ?thesis using assms by simp
next
  case False
  let ?u = "uexp x" and ?c = "k * 2 ^ nat (e - uexp x)"
  have g: "of_int k * 2 powi e = (of_int ?c :: rat) * 2 powi ?u"
    using powi_split [OF assms(2)] by simp
  have "x / 2 powi ?u \<le> of_int ?c"
    using assms(1) unfolding g by (simp add: pos_divide_le_eq)
  then have "rhe (x / 2 powi ?u) \<le> ?c" by (rule rhe_le_of_int)
  then have "(of_int (rhe (x / 2 powi ?u)) :: rat) \<le> of_int ?c" by (simp only: of_int_le_iff)
  then have "of_int (rhe (x / 2 powi ?u)) * 2 powi ?u \<le> (of_int ?c :: rat) * 2 powi ?u"
    by (rule mult_right_mono) simp
  then show ?thesis using False by (simp add: rndq_def g)
qed

lemma grid_le_rndq:
  assumes "of_int k * 2 powi e \<le> x" "uexp x \<le> e"
  shows "of_int k * 2 powi e \<le> rndq x"
proof (cases "x = 0")
  case True
  then show ?thesis using assms by simp
next
  case False
  let ?u = "uexp x" and ?c = "k * 2 ^ nat (e - uexp x)"
  have g: "of_int k * 2 powi e = (of_int ?c :: rat) * 2 powi ?u"
    using powi_split [OF assms(2)] by simp
  have "of_int ?c \<le> x / 2 powi ?u"
    using assms(1) unfolding g by (simp add: pos_le_divide_eq)
  then have "?c \<le> rhe (x / 2 powi ?u)" by (rule of_int_le_rhe)
  then have "(of_int ?c :: rat) \<le> of_int (rhe (x / 2 powi ?u))" by (simp only: of_int_le_iff)
  then have "(of_int ?c :: rat) * 2 powi ?u \<le> of_int (rhe (x / 2 powi ?u)) * 2 powi ?u"
    by (rule mult_right_mono) simp
  then show ?thesis using False by (simp add: rndq_def g)
qed

lemma rndq_nonneg: "0 \<le> x \<Longrightarrow> 0 \<le> rndq x"
  using grid_le_rndq [of 0 "uexp x" x] by simp

lemma rndq_nonpos: "x \<le> 0 \<Longrightarrow> rndq x \<le> 0"
  using rndq_le_grid [of x 0 "uexp x"] by simp

lemma rhe_minus: "rhe (- x) = - rhe x"
proof (cases "x = of_int \<lfloor>x\<rfloor>")
  case True
  then obtain n where "x = of_int n" by blast
  moreover have "rhe (- of_int n) = - n" using rhe_of_int [of "- n"] by simp
  ultimately show ?thesis by simp
next
  case False
  then have f: "\<lfloor>- x\<rfloor> = - \<lfloor>x\<rfloor> - 1"
    by (simp add: floor_minus ceiling_altdef)
  define g where "g = \<lfloor>x\<rfloor>"
  show ?thesis unfolding rhe_def Let_def f g_def [symmetric] by (simp add: algebra_simps)
qed

lemma rndq_minus: "rndq (- x) = - rndq x"
  by (simp add: rndq_def uexp_def rhe_minus)

lemma uexp_mono: "0 < x \<Longrightarrow> x \<le> y \<Longrightarrow> uexp x \<le> uexp y"
  unfolding uexp_def using ilog2_mono [of x y] by (simp add: max_def)

lemma rndq_mono_pos:
  assumes "0 < x" "x \<le> y"
  shows "rndq x \<le> rndq y"
proof (cases "uexp x = uexp y")
  case True
  have "x / 2 powi uexp y \<le> y / 2 powi uexp y" using assms(2) by (simp add: divide_right_mono)
  then have "rhe (x / 2 powi uexp y) \<le> rhe (y / 2 powi uexp y)" by (rule rhe_mono)
  then show ?thesis using assms True by (simp add: rndq_def)
next
  case False
  then have u: "uexp x < uexp y" using uexp_mono [OF assms] by simp
  then have ey: "uexp y = ilog2 y - 52" and xy: "ilog2 x < ilog2 y" and lo: "-1074 \<le> uexp x"
    using assms by (auto simp: uexp_def max_def split: if_splits)
  let ?b = "ilog2 y"
  have eq: "2 powi ?b = (of_int (2^52) :: rat) * 2 powi (?b - 52)"
    using powi_split [of "?b - 52" ?b] by simp
  have xb: "x \<le> of_int (2^52) * 2 powi (?b - 52)"
  proof -
    have "x < 2 powi (ilog2 x + 1)" using ilog2_bounds(2) assms(1) by blast
    also have "\<dots> \<le> 2 powi ?b" using xy by (intro powi_mono) simp
    finally show ?thesis by (simp add: eq)
  qed
  have by': "of_int (2^52) * 2 powi (?b - 52) \<le> y"
    using ilog2_bounds(1) [of y] assms by (simp add: eq)
  have "rndq x \<le> of_int (2^52) * 2 powi (?b - 52)" using xb u ey by (intro rndq_le_grid) auto
  also have "\<dots> \<le> rndq y" using by' ey by (intro grid_le_rndq) auto
  finally show ?thesis .
qed

lemma rndq_mono: "x \<le> y \<Longrightarrow> rndq x \<le> rndq y"
proof -
  assume xy: "x \<le> y"
  consider "0 < x" | "x \<le> 0" "0 \<le> y" | "y < 0" by linarith
  then show ?thesis
  proof cases
    case 1
    then show ?thesis using xy by (rule rndq_mono_pos)
  next
    case 2
    then show ?thesis using rndq_nonneg rndq_nonpos by (meson order_trans)
  next
    case 3
    then have "rndq (- y) \<le> rndq (- x)" using xy by (intro rndq_mono_pos) auto
    then show ?thesis by (simp add: rndq_minus)
  qed
qed

subsection \<open>Which rationals are doubles\<close>

lemma uexp_le:
  assumes "\<bar>x\<bar> < 2 powi (e + 53)" "-1074 \<le> e" "x \<noteq> 0"
  shows "uexp x \<le> e"
proof -
  have "(2::rat) powi ilog2 \<bar>x\<bar> < 2 powi (e + 53)"
    using ilog2_bounds(1) [of "\<bar>x\<bar>"] assms by linarith
  then show ?thesis using assms(2) by (simp add: powi_less_iff uexp_def)
qed

lemma rndq_grid_small:
  assumes "\<bar>k\<bar> < 2^53" "-1074 \<le> e"
  shows "rndq (of_int k * 2 powi e) = of_int k * 2 powi e"
proof (cases "k = 0")
  case True
  then show ?thesis by simp
next
  case False
  let ?x = "of_int k * 2 powi e :: rat"
  have "\<bar>?x\<bar> = of_int \<bar>k\<bar> * 2 powi e" by (simp add: abs_mult)
  also have "\<dots> < of_int (2^53) * 2 powi e"
    using assms(1) by (intro mult_strict_right_mono) (simp_all only: of_int_less_iff powi_pos)
  also have "\<dots> = 2 powi (e + 53)" using powi_split [of e "e + 53"] by simp
  finally have "uexp ?x \<le> e" using assms(2) False by (intro uexp_le) auto
  then show ?thesis using rndq_le_grid [of ?x k e] grid_le_rndq [of k e ?x] by simp
qed

lemma rndq_grid:
  assumes "\<bar>k\<bar> \<le> 2^53" "-1074 \<le> e"
  shows "rndq (of_int k * 2 powi e) = of_int k * 2 powi e"
proof (cases "\<bar>k\<bar> < 2^53")
  case True
  then show ?thesis using assms(2) by (rule rndq_grid_small)
next
  case False
  with assms(1) have "\<bar>k\<bar> = 2^53" by simp
  then obtain j where j: "k = 2 * j" "\<bar>j\<bar> < 2^53"
    by (cases "k \<ge> 0") (auto intro: that [of "2^52"] that [of "- (2^52)"])
  have "of_int k * 2 powi e = (of_int j * 2 powi (e + 1) :: rat)"
    by (simp add: j(1) power_int_add)
  then show ?thesis using rndq_grid_small [OF j(2), of "e + 1"] assms(2) by simp
qed

lemma rndq_of_int [simp]: "\<bar>n\<bar> \<le> 2^53 \<Longrightarrow> rndq (of_int n) = of_int n"
  using rndq_grid [of n 0] by simp

lemma rndq_numeral [simp]: "(numeral n :: int) \<le> 2^53 \<Longrightarrow> rndq (numeral n) = numeral n"
  using rndq_of_int [of "numeral n"] by simp

lemma rndq_1 [simp]: "rndq 1 = 1"
  using rndq_of_int [of 1] by simp

lemma rndq_eq_grid:
  obtains k where "rndq x = of_int k * 2 powi uexp x" "\<bar>k\<bar> \<le> 2^53"
proof (cases "x = 0")
  case True
  then show ?thesis using that [of 0] by simp
next
  case False
  let ?u = "uexp x"
  have lt: "\<bar>x\<bar> < 2 powi (?u + 53)"
  proof -
    have "\<bar>x\<bar> < 2 powi (ilog2 \<bar>x\<bar> + 1)" using ilog2_bounds(2) [of "\<bar>x\<bar>"] False by simp
    also have "\<dots> \<le> 2 powi (?u + 53)" by (intro powi_mono) (simp add: uexp_def)
    finally show ?thesis .
  qed
  have sp: "2 powi (?u + 53) = (of_int (2^53) :: rat) * 2 powi ?u"
    using powi_split [of ?u "?u + 53"] by simp
  have ab: "\<bar>x / 2 powi ?u\<bar> \<le> of_int (2^53)"
    using lt unfolding sp abs_divide by (simp add: pos_divide_le_eq abs_mult)
  have "x / 2 powi ?u \<le> of_int (2^53)" using ab by (rule abs_le_D1)
  moreover have "of_int (- (2^53)) \<le> x / 2 powi ?u"
    using abs_le_D2 [OF ab] by (simp only: of_int_minus)
  ultimately have "rhe (x / 2 powi ?u) \<le> 2^53" "- (2^53) \<le> rhe (x / 2 powi ?u)"
    using rhe_le_of_int of_int_le_rhe by blast+
  then show ?thesis using that [of "rhe (x / 2 powi ?u)"] False by (simp add: rndq_def)
qed

lemma rndq_idem [simp]: "rndq (rndq x) = rndq x"
proof -
  obtain k where "rndq x = of_int k * 2 powi uexp x" "\<bar>k\<bar> \<le> 2^53" by (rule rndq_eq_grid)
  moreover have "-1074 \<le> uexp x" by (simp add: uexp_def)
  ultimately show ?thesis by (simp add: rndq_grid)
qed

lemma is_double_rndq [simp]: "is_double (rndq x)"
  by (simp add: is_double_def)

lemma is_double_of_int [simp]: "\<bar>n\<bar> \<le> 2^53 \<Longrightarrow> is_double (of_int n)"
  by (simp add: is_double_def)

text \<open>The relative error of one rounding is at most \<open>2 powi -53\<close> for normal values.\<close>

lemma rndq_error:
  assumes "2 powi (-1022) \<le> \<bar>x\<bar>"
  shows "\<bar>rndq x - x\<bar> \<le> \<bar>x\<bar> * 2 powi (-53)"
proof -
  let ?u = "uexp x"
  have x0: "x \<noteq> 0" using assms powi_pos [of "-1022"] by fastforce
  have "ilog2 (2 powi (-1022)) = -1022" by (rule ilog2_unique) (simp_all add: powi_less_iff)
  then have "-1022 \<le> ilog2 \<bar>x\<bar>" using ilog2_mono [OF _ assms] by simp
  then have u: "?u = ilog2 \<bar>x\<bar> - 52" by (simp add: uexp_def)
  have "rndq x - x = (of_int (rhe (x / 2 powi ?u)) - x / 2 powi ?u) * 2 powi ?u"
    using x0 by (simp add: rndq_def left_diff_distrib)
  then have "\<bar>rndq x - x\<bar> = \<bar>of_int (rhe (x / 2 powi ?u)) - x / 2 powi ?u\<bar> * 2 powi ?u"
    by (simp add: abs_mult)
  also have "\<dots> \<le> 1/2 * 2 powi ?u" by (intro mult_right_mono rhe_error) simp
  also have "\<dots> = 2 powi (ilog2 \<bar>x\<bar>) * 2 powi (-53)"
    unfolding u by (simp add: power_int_diff power_int_minus)
  also have "\<dots> \<le> \<bar>x\<bar> * 2 powi (-53)"
    using ilog2_bounds(1) [of "\<bar>x\<bar>"] x0 by (intro mult_right_mono) auto
  finally show ?thesis .
qed

lemma rndq_upper: "2 powi (-1022) \<le> x \<Longrightarrow> rndq x \<le> x * (1 + 2 powi (-53))"
proof -
  assume x: "2 powi (-1022) \<le> x"
  have "0 < x" using x powi_pos [of "-1022"] by linarith
  then show ?thesis using rndq_error [of x] x by (simp add: algebra_simps abs_if split: if_splits)
qed

text \<open>Evaluating one rounding, given the exponent.\<close>

lemma floor_rat_numeral [simp]:
  "\<lfloor>(numeral a / numeral b :: rat)\<rfloor> = numeral a div numeral b"
  "\<lfloor>(1 / numeral b :: rat)\<rfloor> = 1 div numeral b"
  using floor_divide_of_int_eq [of "numeral a" "numeral b", where ?'a = rat]
    floor_divide_of_int_eq [of 1 "numeral b", where ?'a = rat] by simp_all

lemma rndq_at:
  assumes "2 powi (e + 52) \<le> x" "x < 2 powi (e + 52 + 1)" "-1074 \<le> e"
  shows "rndq x = of_int (rhe (x / 2 powi e)) * 2 powi e"
proof -
  have x: "0 < x" using assms(1) powi_pos [of "e + 52"] by linarith
  have "ilog2 x = e + 52" using assms(1,2) by (rule ilog2_unique)
  then have "uexp x = e" using x assms(3) by (simp add: uexp_def)
  then show ?thesis using x by (simp add: rndq_def)
qed

lemma rndq_frac:
  assumes "2^52 \<le> x * 2 ^ k" "x * 2 ^ k < 2^53" "k \<le> 1074"
  shows "rndq x = of_int (rhe (x * 2 ^ k)) / 2 ^ k"
proof -
  have e: "(2::rat) powi (- int k) = 1 / 2 ^ k" by (simp add: power_int_minus_divide)
  have s: "(2::rat) powi (- int k + 52) = 2^52 / 2 ^ k"
    "(2::rat) powi (- int k + 52 + 1) = 2^53 / 2 ^ k"
    by (simp_all add: power_int_diff)
  have "2 powi (- int k + 52) \<le> x" "x < 2 powi (- int k + 52 + 1)"
    unfolding s using assms(1,2) by (simp_all add: pos_divide_le_eq pos_less_divide_eq)
  then show ?thesis using rndq_at [of "- int k" x] assms(3) by (simp add: e)
qed

subsection \<open>The numbers and their operations\<close>

datatype number = NaN | PInf | NInf | Fin rat

definition dbl_limit :: rat where
  "dbl_limit = 2 ^ 1024"

definition rnd :: "rat \<Rightarrow> number" where
  "rnd x = (let r = rndq x
            in if dbl_limit \<le> r then PInf else if r \<le> - dbl_limit then NInf else Fin r)"

text \<open>A numeric literal of the source denotes the double nearest to it.\<close>

abbreviation lit :: "rat \<Rightarrow> number" where "lit \<equiv> rnd"

fun nsgn :: "number \<Rightarrow> int" where
  "nsgn NaN = 0"
| "nsgn PInf = 1"
| "nsgn NInf = -1"
| "nsgn (Fin x) = (if 0 < x then 1 else if x < 0 then -1 else 0)"

definition inf_of_sign :: "int \<Rightarrow> number" where
  "inf_of_sign s = (if s = 0 then NaN else if 0 < s then PInf else NInf)"

instantiation number :: "{zero, one, plus, minus, uminus, times, inverse, ord}"
begin

definition zero_number :: number where "0 = Fin 0"

definition one_number :: number where "1 = Fin 1"

fun uminus_number :: "number \<Rightarrow> number" where
  "- NaN = NaN"
| "- PInf = NInf"
| "- NInf = PInf"
| "- Fin x = Fin (- x)"

fun plus_number :: "number \<Rightarrow> number \<Rightarrow> number" where
  "Fin x + Fin y = rnd (x + y)"
| "NaN + b = NaN"
| "a + NaN = NaN"
| "PInf + NInf = NaN"
| "NInf + PInf = NaN"
| "PInf + b = PInf"
| "NInf + b = NInf"
| "Fin x + b = b"

definition minus_number :: "number \<Rightarrow> number \<Rightarrow> number" where
  "a - b = a + (- b :: number)"

fun times_number :: "number \<Rightarrow> number \<Rightarrow> number" where
  "Fin x * Fin y = rnd (x * y)"
| "NaN * b = NaN"
| "a * NaN = NaN"
| "a * b = inf_of_sign (nsgn a * nsgn b)"

fun divide_number :: "number \<Rightarrow> number \<Rightarrow> number" where
  "Fin x div Fin y = (if y = 0 then inf_of_sign (nsgn (Fin x)) else rnd (x / y))"
| "NaN div b = NaN"
| "a div NaN = NaN"
| "Fin x div b = Fin 0"
| "a div Fin y = (if y < 0 then - a else a)"
| "a div b = NaN"

definition inverse_number :: "number \<Rightarrow> number" where
  "inverse a = (1 :: number) div a"

fun less_number :: "number \<Rightarrow> number \<Rightarrow> bool" where
  "Fin x < Fin y \<longleftrightarrow> x < y"
| "NaN < b \<longleftrightarrow> False"
| "a < NaN \<longleftrightarrow> False"
| "NInf < b \<longleftrightarrow> b \<noteq> NInf"
| "a < PInf \<longleftrightarrow> a \<noteq> PInf"
| "PInf < b \<longleftrightarrow> False"
| "a < NInf \<longleftrightarrow> False"

fun less_eq_number :: "number \<Rightarrow> number \<Rightarrow> bool" where
  "NaN \<le> b \<longleftrightarrow> False"
| "a \<le> NaN \<longleftrightarrow> False"
| "a \<le> b \<longleftrightarrow> a = b \<or> a < (b::number)"

instance ..

end

text \<open>\<open>Math.floor\<close>, \<open>Math.round\<close> (halves towards \<open>+\<infinity>\<close>), \<open>Math.abs\<close>, \<open>Math.min\<close>, \<open>Math.max\<close>.\<close>

fun js_floor :: "number \<Rightarrow> number" where
  "js_floor (Fin x) = Fin (of_int \<lfloor>x\<rfloor>)"
| "js_floor a = a"

fun js_round :: "number \<Rightarrow> number" where
  "js_round (Fin x) = Fin (of_int \<lfloor>x + 1/2\<rfloor>)"
| "js_round a = a"

fun js_abs :: "number \<Rightarrow> number" where
  "js_abs (Fin x) = Fin \<bar>x\<bar>"
| "js_abs NInf = PInf"
| "js_abs a = a"

definition js_max :: "number \<Rightarrow> number \<Rightarrow> number" where
  "js_max a b = (if a = NaN \<or> b = NaN then NaN else if a < b then b else a)"

definition js_min :: "number \<Rightarrow> number \<Rightarrow> number" where
  "js_min a b = (if a = NaN \<or> b = NaN then NaN else if b < a then b else a)"

fun isFinite :: "number \<Rightarrow> bool" where
  "isFinite (Fin x) = True"
| "isFinite a = False"

fun js_eq :: "number \<Rightarrow> number \<Rightarrow> bool" where
  "js_eq NaN b = False"
| "js_eq a b = (a = b)"

text \<open>\<open>Number(n)\<close> of a \<open>bigint\<close>, and \<open>BigInt(a)\<close>, which throws on anything not an integer.\<close>

definition num_of_big :: "int \<Rightarrow> number" where
  "num_of_big n = rnd (of_int n)"

fun big_of_num :: "number \<Rightarrow> js_error + int" where
  "big_of_num (Fin x) = (if x = of_int \<lfloor>x\<rfloor> then Inr \<lfloor>x\<rfloor> else Inl RangeError)"
| "big_of_num a = Inl RangeError"

definition floor_big :: "number \<Rightarrow> js_error + int" where
  "floor_big a = big_of_num (js_floor a)"

text \<open>Division of \<open>bigint\<close>s truncates towards zero and throws on a zero divisor.\<close>

definition bdiv :: "int \<Rightarrow> int \<Rightarrow> int" where
  "bdiv a b = sgn a * sgn b * (\<bar>a\<bar> div \<bar>b\<bar>)"

definition big_div :: "int \<Rightarrow> int \<Rightarrow> js_error + int" where
  "big_div a b = (if b = 0 then Inl RangeError else Inr (bdiv a b))"

subsection \<open>Moderate values never overflow\<close>

lemma dbl_limit_powi: "dbl_limit = 2 powi 1024"
  by (simp only: dbl_limit_def power_int_numeral)

lemma rndq_abs_le_powi:
  assumes "\<bar>x\<bar> \<le> 2 powi e" "-1074 \<le> e"
  shows "\<bar>rndq x\<bar> \<le> 2 powi e"
proof -
  have g: "rndq (2 powi e) = 2 powi e" using rndq_grid [of 1 e] assms(2) by simp
  have "rndq x \<le> 2 powi e" using rndq_mono [of x "2 powi e"] assms(1) g by linarith
  moreover have "- (2 powi e) \<le> rndq x"
    using rndq_mono [of "- (2 powi e)" x] assms(1) g by (simp add: rndq_minus)
  ultimately show ?thesis by simp
qed

lemma rnd_Fin:
  assumes "\<bar>x\<bar> \<le> 2 powi 1000"
  shows "rnd x = Fin (rndq x)"
proof -
  have "\<bar>rndq x\<bar> \<le> 2 powi 1000" using assms by (rule rndq_abs_le_powi) simp
  moreover have "(2::rat) powi 1000 < dbl_limit" unfolding dbl_limit_powi powi_less_iff by simp
  ultimately show ?thesis by (auto simp: rnd_def Let_def)
qed

lemma big_powi: "(2::rat) ^ 300 \<le> 2 powi 1000"
  using powi_mono [of 300 1000] by simp

lemma rnd_Fin_300: "\<bar>x\<bar> \<le> 2 ^ 300 \<Longrightarrow> rnd x = Fin (rndq x)"
  by (rule rnd_Fin) (rule order_trans [OF _ big_powi])

lemma small_le_300:
  assumes "\<bar>x\<bar> \<le> 2 ^ 110"
  shows "\<bar>x\<bar> \<le> (2::rat) ^ 300"
proof -
  have "(2::rat) ^ 110 \<le> 2 ^ 300" by (rule power_increasing) auto
  then show ?thesis using assms by linarith
qed

lemma rnd_of_int [simp]: "\<bar>n\<bar> \<le> 2^53 \<Longrightarrow> rnd (of_int n) = Fin (of_int n)"
proof -
  assume n: "\<bar>n\<bar> \<le> 2^53"
  then have "\<bar>of_int n :: rat\<bar> \<le> of_int (2^53)" by (metis of_int_abs of_int_le_iff)
  then have "\<bar>of_int n :: rat\<bar> \<le> 2 ^ 300" by simp
  then show ?thesis using n by (simp add: rnd_Fin_300 rndq_of_int)
qed

lemma rnd_numeral [simp]: "(numeral n :: int) \<le> 2^53 \<Longrightarrow> rnd (numeral n) = Fin (numeral n)"
  using rnd_of_int [of "numeral n"] by simp

lemma rnd_neg_numeral [simp]:
  "(numeral n :: int) \<le> 2^53 \<Longrightarrow> rnd (- numeral n) = Fin (- numeral n)"
  using rnd_of_int [of "- numeral n"] by simp

lemma rnd_0 [simp]: "rnd 0 = Fin 0" and rnd_1 [simp]: "rnd 1 = Fin 1"
  using rnd_of_int [of 0] rnd_of_int [of 1] by simp_all

lemma half_double [simp]: "rnd (1/2) = Fin (1/2)"
proof -
  have "rndq (1/2) = 1/2" using rndq_grid [of 1 "-1"] by (simp add: power_int_minus_divide)
  moreover have "\<bar>1/2 :: rat\<bar> \<le> 2^110" by simp
  ultimately show ?thesis by (simp add: rnd_Fin_300 small_le_300)
qed

lemma num_of_big_exact: "\<bar>n\<bar> \<le> 2^53 \<Longrightarrow> num_of_big n = Fin (of_int n)"
  by (simp add: num_of_big_def)

lemma floor_big_simps [simp]:
  "floor_big (Fin x) = Inr \<lfloor>x\<rfloor>"
  "floor_big NaN = Inl RangeError"
  "floor_big PInf = Inl RangeError"
  "floor_big NInf = Inl RangeError"
  by (simp_all add: floor_big_def)

lemma floor_big_Inr: "floor_big a = Inr n \<longleftrightarrow> (\<exists>x. a = Fin x \<and> n = \<lfloor>x\<rfloor>)"
  by (cases a) auto

lemma number_ord_simps [simp]:
  "(0::number) < Fin x \<longleftrightarrow> 0 < x" "Fin x < (0::number) \<longleftrightarrow> x < 0"
  "(0::number) \<le> Fin x \<longleftrightarrow> 0 \<le> x" "Fin x \<le> (0::number) \<longleftrightarrow> x \<le> 0"
  "Fin x \<le> Fin y \<longleftrightarrow> x \<le> y"
  by (auto simp: zero_number_def)

lemma Fin_arith [simp]:
  "Fin x - Fin y = rnd (x - y)"
  "y \<noteq> 0 \<Longrightarrow> Fin x / Fin y = rnd (x / y)"
  by (simp_all add: minus_number_def)

lemma bdiv_nonneg: "0 \<le> a \<Longrightarrow> 0 \<le> b \<Longrightarrow> bdiv a b = a div b"
  by (cases "a = 0"; cases "b = 0") (auto simp: bdiv_def sgn_if)

lemma rnd_110: "\<bar>x\<bar> \<le> 2 ^ 110 \<Longrightarrow> rnd x = Fin (rndq x)"
  by (rule rnd_Fin_300) (rule small_le_300)

lemma num_of_big_110:
  assumes "0 \<le> n" "n \<le> 2^100"
  shows "num_of_big n = Fin (rndq (of_int n))" "0 \<le> rndq (of_int n)" "rndq (of_int n) \<le> 2^100"
proof -
  have n: "(of_int n :: rat) \<le> of_int (2^100)" using assms(2) by (simp only: of_int_le_iff)
  then have "\<bar>of_int n :: rat\<bar> \<le> 2 ^ 110" using assms(1) by simp
  then show "num_of_big n = Fin (rndq (of_int n))" unfolding num_of_big_def by (rule rnd_110)
  show "0 \<le> rndq (of_int n)" using assms(1) by (intro rndq_nonneg) simp
  have "rndq (of_int n) \<le> rndq (of_int (2^100))" using n by (rule rndq_mono)
  also have "rndq (of_int (2^100)) = 2^100" using rndq_grid [of 1 100] by simp
  finally show "rndq (of_int n) \<le> 2^100" .
qed

lemma pos_num_of_big: "1 \<le> n \<Longrightarrow> 1 \<le> rndq (of_int n)"
  using rndq_mono [of 1 "of_int n"] by simp

subsection \<open>What client code relies on: a monotone rounding that is exact on integers\<close>

text \<open>
  The amount computations of the backend only use these laws of double arithmetic, so they are
  proved once for any rounding that has them.
\<close>

locale rounding =
  fixes rd :: "rat \<Rightarrow> rat"
  assumes rd_mono: "x \<le> y \<Longrightarrow> rd x \<le> rd y"
    and rd_idem: "rd (rd x) = rd x"
    and rd_int: "\<bar>n\<bar> \<le> 2^53 \<Longrightarrow> rd (of_int n) = of_int n"
begin

lemma rd_zero: "rd 0 = 0"
  using rd_int [of 0] by simp

lemma rd_nonneg: "0 \<le> x \<Longrightarrow> 0 \<le> rd x"
  using rd_mono [of 0 x] rd_zero by simp

lemma rd_le_int: "x \<le> of_int n \<Longrightarrow> \<bar>n\<bar> \<le> 2^53 \<Longrightarrow> rd x \<le> of_int n"
  using rd_mono [of x "of_int n"] rd_int [of n] by simp

lemma int_le_rd: "of_int n \<le> x \<Longrightarrow> \<bar>n\<bar> \<le> 2^53 \<Longrightarrow> of_int n \<le> rd x"
  using rd_mono [of "of_int n" x] rd_int [of n] by simp

text \<open>A nonnegative value scaled by a factor up to one does not grow, even after rounding.\<close>

lemma scale_down: "0 \<le> a \<Longrightarrow> rd a = a \<Longrightarrow> f \<le> 1 \<Longrightarrow> rd (a * f) \<le> a"
  using rd_mono [of "a * f" a] mult_left_le [of f a] by simp

lemma scale_up: "0 \<le> a \<Longrightarrow> rd a = a \<Longrightarrow> 1 \<le> f \<Longrightarrow> a \<le> rd (a * f)"
  using rd_mono [of a "a * f"] mult_left_mono [of 1 f a] by simp

lemma divide_down: "0 \<le> a \<Longrightarrow> rd a = a \<Longrightarrow> 1 \<le> r \<Longrightarrow> rd (a / r) \<le> a"
proof -
  assume a: "0 \<le> a" "rd a = a" "1 \<le> r"
  have "a / r \<le> a" using a divide_left_mono [of 1 r a] by simp
  then show ?thesis using rd_mono [of "a / r" a] a(2) by simp
qed

lemma quotient_le_one: "0 \<le> a \<Longrightarrow> a \<le> b \<Longrightarrow> rd (a / b) \<le> 1"
proof -
  assume ab: "0 \<le> a" "a \<le> b"
  have "a / b \<le> 1" using ab by (cases "b = 0") (auto simp: divide_le_eq_1)
  then show ?thesis using rd_mono [of "a / b" 1] rd_int [of 1] by simp
qed

lemma quotient_nonneg: "0 \<le> a \<Longrightarrow> 0 \<le> b \<Longrightarrow> 0 \<le> rd (a / b)"
  by (rule rd_nonneg) simp

lemma floor_scale_down:
  "0 \<le> n \<Longrightarrow> n \<le> 2^53 \<Longrightarrow> f \<le> 1 \<Longrightarrow> \<lfloor>rd (of_int n * f)\<rfloor> \<le> n"
  using scale_down [of "of_int n" f] rd_int [of n] by (simp add: floor_le_iff)

lemma floor_scale_up:
  "0 \<le> n \<Longrightarrow> n \<le> 2^53 \<Longrightarrow> 1 \<le> f \<Longrightarrow> n \<le> \<lfloor>rd (of_int n * f)\<rfloor>"
  using scale_up [of "of_int n" f] rd_int [of n] by (simp add: le_floor_iff)

lemma floor_rd_nonneg: "0 \<le> x \<Longrightarrow> 0 \<le> \<lfloor>rd x\<rfloor>"
  using rd_nonneg [of x] by simp

lemma floor_rd_mono: "x \<le> y \<Longrightarrow> \<lfloor>rd x\<rfloor> \<le> \<lfloor>rd y\<rfloor>"
  by (rule floor_mono) (rule rd_mono)

end

interpretation dbl: rounding rndq
  by unfold_locales (auto intro: rndq_mono)

end
