(* ===== verification/Js_Value.thy ===== *)
theory Js_Value
  imports Js_Number
begin

text \<open>
  Dynamic values: decimal printing and parsing, the values \<open>scValToNative\<close> produces from a
  contract's data, and the language's conversions \<open>String(v)\<close> and \<open>BigInt(v)\<close> on them.
\<close>

subsection \<open>Decimal numerals\<close>

definition digit :: "nat \<Rightarrow> char" where
  "digit n = ''0123456789'' ! n"

fun dec :: "nat \<Rightarrow> string" where
  "dec n = (if n < 10 then [digit n] else dec (n div 10) @ [digit (n mod 10)])"

declare dec.simps [simp del]

definition dec_int :: "int \<Rightarrow> string" where
  "dec_int i = (if i < 0 then CHR ''-'' # dec (nat (- i)) else dec (nat i))"

definition digit_val :: "char \<Rightarrow> nat option" where
  "digit_val c = (if c \<in> set ''0123456789'' then Some (of_char c - 48) else None)"

fun parse_digits :: "nat \<Rightarrow> string \<Rightarrow> nat option" where
  "parse_digits acc [] = Some acc"
| "parse_digits acc (c # cs) =
     (case digit_val c of None \<Rightarrow> None | Some d \<Rightarrow> parse_digits (10 * acc + d) cs)"

definition parse_nat :: "string \<Rightarrow> nat option" where
  "parse_nat s = (if s = [] then None else parse_digits 0 s)"

text \<open>\<open>padStart(n, '0')\<close> of a decimal numeral.\<close>

definition pad0 :: "nat \<Rightarrow> string \<Rightarrow> string" where
  "pad0 n s = replicate (n - length s) CHR ''0'' @ s"

lemma digit_val_digit [simp]: "n < 10 \<Longrightarrow> digit_val (digit n) = Some n"
proof -
  assume "n < 10"
  then have "n \<in> {0, 1, 2, 3, 4, 5, 6, 7, 8, 9}" by auto
  then show ?thesis by (auto simp: digit_def digit_val_def)
qed

lemma parse_digits_append:
  "parse_digits acc (xs @ ys) = (case parse_digits acc xs of None \<Rightarrow> None | Some a \<Rightarrow> parse_digits a ys)"
  by (induction acc xs rule: parse_digits.induct) (auto split: option.splits)

lemma dec_nonempty [simp]: "dec n \<noteq> []"
  by (subst dec.simps) simp

lemma parse_digits_dec: "parse_digits 0 (dec n) = Some n"
proof (induction n rule: dec.induct)
  case (1 n)
  then show ?case by (subst dec.simps) (simp add: parse_digits_append)
qed

lemma parse_nat_dec [simp]: "parse_nat (dec n) = Some n"
  by (simp add: parse_nat_def parse_digits_dec)

lemma parse_digits_zeros: "parse_digits 0 (replicate k CHR ''0'' @ s) = parse_digits 0 s"
  by (induction k) (simp_all add: digit_val_def)

lemma parse_nat_pad0 [simp]: "parse_nat (pad0 k (dec n)) = Some n"
  by (simp add: parse_nat_def pad0_def parse_digits_zeros parse_digits_dec)

lemma dec_inj: "dec m = dec n \<longleftrightarrow> m = n"
  by (metis option.inject parse_digits_dec)

lemma set_dec: "set (dec n) \<subseteq> set ''0123456789''"
proof (induction n rule: dec.induct)
  case (1 n)
  have "d < 10 \<Longrightarrow> digit d \<in> set ''0123456789''" for d
    unfolding digit_def by (rule nth_mem) simp
  then show ?case using 1 by (subst dec.simps) auto
qed

lemma length_dec_le: "n < 10 ^ k \<Longrightarrow> 0 < k \<Longrightarrow> length (dec n) \<le> k"
proof (induction k arbitrary: n)
  case (Suc k)
  show ?case
  proof (cases "n < 10")
    case True
    then show ?thesis by (subst dec.simps) simp
  next
    case False
    then have "0 < k" using Suc.prems(1) by (cases k) auto
    moreover have "n div 10 < 10 ^ k" using Suc.prems(1) by (simp add: less_mult_imp_div_less)
    ultimately have "length (dec (n div 10)) \<le> k" using Suc.IH by blast
    then show ?thesis using False by (subst dec.simps) simp
  qed
qed simp

subsection \<open>Native values of a contract's data\<close>

text \<open>
  A 32-bit integer is a JavaScript number, a wider one a \<open>bigint\<close>; symbols, strings and addresses
  are strings; a void result is \<open>null\<close>.
\<close>

datatype native =
    N_null
  | N_num int
  | N_big int
  | N_bool bool
  | N_str string
  | N_vec "native list"
  | N_map "(string \<times> native) list"

fun join_with :: "string \<Rightarrow> string list \<Rightarrow> string" where
  "join_with sep [] = []"
| "join_with sep [x] = x"
| "join_with sep (x # y # ys) = x @ sep @ join_with sep (y # ys)"

fun js_string :: "native \<Rightarrow> string" where
  "js_string N_null = ''null''"
| "js_string (N_num n) = dec_int n"
| "js_string (N_big n) = dec_int n"
| "js_string (N_bool b) = (if b then ''true'' else ''false'')"
| "js_string (N_str s) = s"
| "js_string (N_vec vs) = join_with '','' (map (\<lambda>v. if v = N_null then [] else js_string v) vs)"
| "js_string (N_map kvs) = ''[object Object]''"

text \<open>
  \<open>BigInt(s)\<close> of a string: surrounding blanks are dropped, the empty string is zero, a decimal
  numeral may carry a sign, and anything else is a \<open>SyntaxError\<close>. (Numerals in another radix,
  which the language also accepts, never occur in contract data.)
\<close>

definition is_blank :: "char \<Rightarrow> bool" where
  "is_blank c \<longleftrightarrow> c = CHR '' '' \<or> c = CHR 0x09 \<or> c = CHR 0x0A \<or> c = CHR 0x0D"

definition trim :: "string \<Rightarrow> string" where
  "trim s = rev (dropWhile is_blank (rev (dropWhile is_blank s)))"

definition big_of_string :: "string \<Rightarrow> js_error + int" where
  "big_of_string s =
     (case trim s of
        [] \<Rightarrow> return 0
      | c # cs \<Rightarrow>
          (let (sg, ds) = (if c = CHR ''-'' then (-1, cs) else if c = CHR ''+'' then (1, cs) else (1, c # cs))
           in case parse_nat ds of None \<Rightarrow> throw SyntaxError | Some n \<Rightarrow> return (sg * int n)))"

fun big_of_native :: "native \<Rightarrow> js_error + int" where
  "big_of_native N_null = throw TypeError"
| "big_of_native (N_num n) = return n"
| "big_of_native (N_big n) = return n"
| "big_of_native (N_bool b) = return (if b then 1 else 0)"
| "big_of_native (N_str s) = big_of_string s"
| "big_of_native (N_vec vs) = big_of_string (js_string (N_vec vs))"
| "big_of_native (N_map kvs) = throw SyntaxError"

lemma dropWhile_blank_dec: "dropWhile is_blank (dec n) = dec n"
proof (cases "dec n")
  case (Cons c cs)
  then have "c \<in> set ''0123456789''" using set_dec [of n] by auto
  then show ?thesis unfolding Cons by (auto simp: is_blank_def)
qed simp

lemma trim_dec [simp]: "trim (dec n) = dec n"
proof -
  have "dropWhile is_blank (rev (dec n)) = rev (dec n)"
  proof (cases "rev (dec n)")
    case (Cons c cs)
    then have "c \<in> set (dec n)" by (metis list.set_intros(1) set_rev)
    then have "c \<in> set ''0123456789''" using set_dec [of n] by blast
    then show ?thesis unfolding Cons by (auto simp: is_blank_def)
  qed simp
  then show ?thesis by (simp add: trim_def dropWhile_blank_dec)
qed

text \<open>A \<open>bigint\<close> written out in decimal and read back is the same \<open>bigint\<close>.\<close>

lemma big_of_string_dec: "big_of_string (dec n) = Inr (int n)"
proof (cases "dec n")
  case (Cons c cs)
  then have "c \<in> set ''0123456789''" using set_dec [of n] by auto
  then have "c \<noteq> CHR ''-''" "c \<noteq> CHR ''+''" by auto
  moreover have "parse_nat (c # cs) = Some n" using parse_nat_dec [of n] by (simp only: Cons)
  moreover have "trim (c # cs) = c # cs" using trim_dec [of n] by (simp only: Cons)
  ultimately show ?thesis by (simp add: big_of_string_def Cons)
qed simp

lemma big_of_string_dec_int [simp]: "big_of_string (dec_int i) = Inr i"
proof (cases "i < 0")
  case True
  have nb: "\<not> is_blank (CHR ''-'')" by (simp add: is_blank_def)
  have "trim (CHR ''-'' # dec (nat (- i))) = CHR ''-'' # dec (nat (- i))"
  proof -
    have "dropWhile is_blank (rev (dec (nat (- i))) @ [CHR ''-'']) = rev (dec (nat (- i))) @ [CHR ''-'']"
    proof (cases "rev (dec (nat (- i)))")
      case (Cons c cs)
      then have "c \<in> set (dec (nat (- i)))" by (metis list.set_intros(1) set_rev)
      then have "c \<in> set ''0123456789''" using set_dec by blast
      then show ?thesis unfolding Cons by (auto simp: is_blank_def)
    qed simp
    then show ?thesis using nb by (simp add: trim_def)
  qed
  then show ?thesis using True by (simp add: big_of_string_def dec_int_def)
next
  case False
  then show ?thesis by (simp add: dec_int_def big_of_string_dec)
qed

subsection \<open>\<open>Number(v)\<close>\<close>

text \<open>
  A string converts to a number when, up to blanks, it is empty, a decimal literal with an
  optional sign, fraction and exponent, or \<open>Infinity\<close>; the literal's exact value is rounded once.
\<close>

definition is_digit :: "char \<Rightarrow> bool" where
  "is_digit c \<longleftrightarrow> digit_val c \<noteq> None"

definition parse_exponent :: "string \<Rightarrow> int option" where
  "parse_exponent s =
     (case s of
        [] \<Rightarrow> Some 0
      | c # cs \<Rightarrow>
          if c = CHR ''e'' \<or> c = CHR ''E''
          then (case cs of
                  [] \<Rightarrow> None
                | d # ds \<Rightarrow> if d = CHR ''-'' then map_option (\<lambda>n. - int n) (parse_nat ds)
                            else if d = CHR ''+'' then map_option int (parse_nat ds)
                            else map_option int (parse_nat cs))
          else None)"

definition parse_decimal :: "string \<Rightarrow> rat option" where
  "parse_decimal s =
     (let ip = takeWhile is_digit s; r1 = dropWhile is_digit s;
          (fp, r2) = (case r1 of
                        [] \<Rightarrow> ([], [])
                      | c # cs \<Rightarrow> if c = CHR ''.'' then (takeWhile is_digit cs, dropWhile is_digit cs)
                                  else ([], r1))
      in if ip @ fp = [] then None
         else (case parse_exponent r2 of
                 None \<Rightarrow> None
               | Some e \<Rightarrow> map_option (\<lambda>n. of_nat n * 10 powi (e - int (length fp))) (parse_nat (ip @ fp))))"

definition num_of_unsigned :: "string \<Rightarrow> number" where
  "num_of_unsigned s =
     (if s = ''Infinity'' then PInf
      else case parse_decimal s of None \<Rightarrow> NaN | Some q \<Rightarrow> rnd q)"

definition num_of_string :: "string \<Rightarrow> number" where
  "num_of_string s =
     (case trim s of
        [] \<Rightarrow> 0
      | c # cs \<Rightarrow> if c = CHR ''-'' then - num_of_unsigned cs
                  else if c = CHR ''+'' then num_of_unsigned cs
                  else num_of_unsigned (c # cs))"

fun num_of_native :: "native \<Rightarrow> number" where
  "num_of_native N_null = 0"
| "num_of_native (N_num n) = Fin (of_int n)"
| "num_of_native (N_big n) = num_of_big n"
| "num_of_native (N_bool b) = (if b then 1 else 0)"
| "num_of_native (N_str s) = num_of_string s"
| "num_of_native (N_vec vs) = num_of_string (js_string (N_vec vs))"
| "num_of_native (N_map kvs) = NaN"

lemma takeWhile_digits_dec [simp]: "takeWhile is_digit (dec n) = dec n" "dropWhile is_digit (dec n) = []"
proof -
  have a: "is_digit c" if "c \<in> set (dec n)" for c
    using that set_dec [of n] unfolding is_digit_def digit_val_def by (simp only: subsetD) simp
  show "takeWhile is_digit (dec n) = dec n" unfolding takeWhile_eq_all_conv using a by blast
  show "dropWhile is_digit (dec n) = []" unfolding dropWhile_eq_Nil_conv using a by blast
qed

lemma parse_decimal_dec [simp]: "parse_decimal (dec n) = Some (of_nat n)"
  by (simp add: parse_decimal_def Let_def parse_exponent_def)

lemma num_of_string_dec: "num_of_string (dec n) = rnd (of_nat n)"
proof (cases "dec n")
  case (Cons c cs)
  then have "c \<in> set ''0123456789''" using set_dec [of n] by auto
  then have "c \<noteq> CHR ''-''" "c \<noteq> CHR ''+''" "c \<noteq> CHR ''I''" by auto
  moreover have "trim (c # cs) = c # cs" "parse_decimal (c # cs) = Some (of_nat n)"
    using trim_dec [of n] parse_decimal_dec [of n] by (simp_all only: Cons)
  ultimately show ?thesis by (simp add: num_of_string_def num_of_unsigned_def Cons)
qed simp

subsection \<open>\<open>parseInt(s, 10)\<close> and dates\<close>

text \<open>
  \<open>parseInt\<close> skips leading blanks, takes an optional sign and as many digits as follow, and ignores
  the rest of the string; without a digit the result is \<open>NaN\<close>.
\<close>

definition parse_int_prefix :: "string \<Rightarrow> int option" where
  "parse_int_prefix s =
     (let t = dropWhile is_blank s;
          (sg, ds) = (case t of
             [] \<Rightarrow> (1, [])
           | c # cs \<Rightarrow> if c = CHR ''-'' then (-1, cs) else if c = CHR ''+'' then (1, cs) else (1, t))
      in map_option (\<lambda>n. sg * int n) (parse_nat (takeWhile is_digit ds)))"

definition js_parseInt :: "string \<Rightarrow> number" where
  "js_parseInt s = (case parse_int_prefix s of None \<Rightarrow> NaN | Some n \<Rightarrow> num_of_big n)"

lemma parse_int_prefix_dec_int [simp]: "parse_int_prefix (dec_int i) = Some i"
proof (cases "i < 0")
  case True
  then show ?thesis by (simp add: parse_int_prefix_def dec_int_def is_blank_def)
next
  case False
  show ?thesis
  proof (cases "dec (nat i)")
    case (Cons c cs)
    then have "c \<in> set ''0123456789''" using set_dec [of "nat i"] by auto
    then have "c \<noteq> CHR ''-''" "c \<noteq> CHR ''+''" by auto
    moreover have "dropWhile is_blank (c # cs) = c # cs" "takeWhile is_digit (c # cs) = c # cs"
      "parse_nat (c # cs) = Some (nat i)"
      using dropWhile_blank_dec [of "nat i"] takeWhile_digits_dec(1) [of "nat i"] parse_nat_dec [of "nat i"]
      by (simp_all only: Cons)
    ultimately show ?thesis using False by (simp add: parse_int_prefix_def dec_int_def Cons)
  qed simp
qed

lemma js_parseInt_dec: "n \<le> 2^53 \<Longrightarrow> 0 \<le> n \<Longrightarrow> js_parseInt (dec n) = Fin (of_int n)"
  using parse_int_prefix_dec_int [of n] by (simp add: js_parseInt_def dec_int_def num_of_big_exact)

text \<open>
  \<open>parseFloat(s)\<close>: after leading blanks and an optional sign the longest prefix that is a decimal
  literal or \<open>Infinity\<close>.\<close>

fun longest_decimal :: "nat \<Rightarrow> string \<Rightarrow> rat option" where
  "longest_decimal 0 s = None"
| "longest_decimal (Suc n) s =
     (case parse_decimal (take (Suc n) s) of Some q \<Rightarrow> Some q | None \<Rightarrow> longest_decimal n s)"

definition float_prefix :: "string \<Rightarrow> number" where
  "float_prefix s =
     (if startsWith s ''Infinity'' then PInf
      else case longest_decimal (length s) s of None \<Rightarrow> NaN | Some q \<Rightarrow> rnd q)"

definition js_parseFloat :: "string \<Rightarrow> number" where
  "js_parseFloat s =
     (case dropWhile is_blank s of
        [] \<Rightarrow> NaN
      | c # cs \<Rightarrow> if c = CHR ''-'' then - float_prefix cs
                  else if c = CHR ''+'' then float_prefix cs
                  else float_prefix (c # cs))"

text \<open>\<open>new Date(t)\<close>: the time value in milliseconds, \<open>None\<close> for an invalid date.\<close>

fun date_of_num :: "number \<Rightarrow> int option" where
  "date_of_num (Fin t) =
     (if \<bar>t\<bar> \<le> 8640000000000000 then Some (if t < 0 then \<lceil>t\<rceil> else \<lfloor>t\<rfloor>) else None)"
| "date_of_num _ = None"

subsection \<open>Texts of numbers\<close>

text \<open>\<open>s.toLowerCase()\<close> on the letters of the alphabet.\<close>

definition lower_char :: "char \<Rightarrow> char" where
  "lower_char c = (let n = of_char c :: nat in if 65 \<le> n \<and> n \<le> 90 then char_of (n + 32) else c)"

definition lower :: "string \<Rightarrow> string" where
  "lower s = map lower_char s"

text \<open>
  \<open>x.toFixed(f)\<close>: the multiple of \<open>10 ^ -f\<close> nearest to \<open>x\<close>, the larger of two. Values from \<open>10 ^ 21\<close> on
  are shown by \<open>Number::toString\<close>, the parameter \<open>show\<close>.\<close>

definition fixed_units :: "nat \<Rightarrow> rat \<Rightarrow> nat" where
  "fixed_units f x = nat \<lfloor>x * 10 ^ f + 1/2\<rfloor>"

definition fixed_text :: "nat \<Rightarrow> nat \<Rightarrow> string" where
  "fixed_text f n = dec (n div 10 ^ f) @ (if f = 0 then [] else ''.'' @ pad0 f (dec (n mod 10 ^ f)))"

definition toFixed :: "(number \<Rightarrow> string) \<Rightarrow> nat \<Rightarrow> number \<Rightarrow> string" where
  "toFixed show f v =
     (case v of
        Fin x \<Rightarrow> if \<bar>x\<bar> \<ge> 10 ^ 21 then show v
                 else if x < 0 then ''-'' @ fixed_text f (fixed_units f (- x))
                 else fixed_text f (fixed_units f x)
      | NaN \<Rightarrow> ''NaN'' | PInf \<Rightarrow> ''Infinity'' | NInf \<Rightarrow> ''-Infinity'')"

end
