(* ===== verification/Chain_Rpc.thy ===== *)
theory Chain_Rpc
  imports Js_Value
begin

text \<open>
  What the backend sees of the chain: the arguments of contract calls, the replies of the RPC
  endpoint, and the interface every confirmation loop of the backend implements (the loops
  themselves are in the theories of their components).
\<close>

subsection \<open>Calls and replies\<close>

text \<open>An argument as \<open>nativeToScVal(v, {type})\<close> encodes it, and the type it has on chain.\<close>

datatype sc_arg = SC_i128 int | SC_u64 int | SC_u32 int | SC_address string | SC_string string | SC_bool bool

datatype sc_type = T_i128 | T_u64 | T_u32 | T_address | T_string | T_bool

fun sc_type_of :: "sc_arg \<Rightarrow> sc_type" where
  "sc_type_of (SC_i128 n) = T_i128"
| "sc_type_of (SC_u64 n) = T_u64"
| "sc_type_of (SC_u32 n) = T_u32"
| "sc_type_of (SC_address a) = T_address"
| "sc_type_of (SC_string s) = T_string"
| "sc_type_of (SC_bool b) = T_bool"

text \<open>Checked arithmetic on the contracts' signed 128-bit integers: an overflow panics (\<open>None\<close>).\<close>

definition i128 :: "int \<Rightarrow> int option" where
  "i128 n = (if - (2^127) \<le> n \<and> n < 2^127 then Some n else None)"

datatype contract_name = Staking | Sxlm_Token | Lending | Lp_Pool | Governance

record invocation =
  on_contract :: contract_name
  call_method :: string
  call_args :: "sc_arg list"

datatype send_status = PENDING | DUPLICATE | TRY_AGAIN_LATER | SEND_ERROR

record send_reply =
  sent_hash :: tx_hash
  sent_status :: send_status
  sent_error :: string

datatype 'm tx_reply = Tx_success 'm | Tx_failed string | Tx_pending

datatype 'v sim_reply = Sim_error string | Sim_success "'v option"

subsection \<open>Confirmation loops\<close>

text \<open>
  Every loop of the backend that waits for a transaction asks for its status a bounded number of
  times, stops at the first answer that decides, and has a fixed outcome when it gives up.
  \<open>poll ans i n\<close> is the loop with \<open>n\<close> attempts left, the next of them number \<open>i\<close>.
\<close>

locale poll_loop =
  fixes poll :: "(nat \<Rightarrow> 'a) \<Rightarrow> nat \<Rightarrow> nat \<Rightarrow> 'r"
    and decide :: "'a \<Rightarrow> 'r option"
    and expired :: 'r
  assumes poll_0: "poll ans i 0 = expired"
    and poll_Suc: "poll ans i (Suc n) =
      (case decide (ans i) of Some r \<Rightarrow> r | None \<Rightarrow> poll ans (Suc i) n)"
begin

lemma poll_expired:
  "(\<forall>j. i \<le> j \<and> j < i + n \<longrightarrow> decide (ans j) = None) \<Longrightarrow> poll ans i n = expired"
  by (induction n arbitrary: i) (simp_all add: poll_0 poll_Suc)

lemma poll_first:
  assumes "i \<le> k" "k < i + n" "decide (ans k) = Some r"
    "\<forall>j. i \<le> j \<and> j < k \<longrightarrow> decide (ans j) = None"
  shows "poll ans i n = r"
  using assms
proof (induction n arbitrary: i)
  case (Suc n)
  show ?case
  proof (cases "k = i")
    case True
    then show ?thesis using Suc.prems by (simp add: poll_Suc)
  next
    case False
    then have "decide (ans i) = None" "poll ans (Suc i) n = r"
      using Suc.prems by (auto intro: Suc.IH)
    then show ?thesis by (simp add: poll_Suc)
  qed
qed simp

lemma poll_cases:
  obtains (expired) "poll ans i n = expired" "\<forall>j. i \<le> j \<and> j < i + n \<longrightarrow> decide (ans j) = None"
  | (decided) k where "i \<le> k" "k < i + n" "decide (ans k) = Some (poll ans i n)"
      "\<forall>j. i \<le> j \<and> j < k \<longrightarrow> decide (ans j) = None"
proof (cases "\<exists>k. i \<le> k \<and> k < i + n \<and> decide (ans k) \<noteq> None")
  case True
  define k where "k = (LEAST k. i \<le> k \<and> k < i + n \<and> decide (ans k) \<noteq> None)"
  have k: "i \<le> k \<and> k < i + n \<and> decide (ans k) \<noteq> None"
    unfolding k_def using True by (rule LeastI_ex)
  have before: "\<forall>j. i \<le> j \<and> j < k \<longrightarrow> decide (ans j) = None"
    unfolding k_def using k not_less_Least k_def by (metis (mono_tags, lifting) order_less_trans)
  from k obtain r where r: "decide (ans k) = Some r" by auto
  have "poll ans i n = r" using k r before by (intro poll_first) auto
  then show ?thesis using k r before by (intro decided [of k]) auto
next
  case False
  then have "\<forall>j. i \<le> j \<and> j < i + n \<longrightarrow> decide (ans j) = None" by auto
  then show ?thesis using poll_expired expired by blast
qed

text \<open>The loop only looks at the answers of its own attempts.\<close>

lemma poll_cong:
  "(\<forall>j. i \<le> j \<and> j < i + n \<longrightarrow> ans j = ans' j) \<Longrightarrow> poll ans i n = poll ans' i n"
  by (induction n arbitrary: i) (auto simp: poll_0 poll_Suc split: option.splits)

text \<open>An outcome other than giving up comes from an answer that decided it.\<close>

lemma poll_outcome:
  "poll ans i n = r \<Longrightarrow> r \<noteq> expired \<Longrightarrow> \<exists>k. i \<le> k \<and> k < i + n \<and> decide (ans k) = Some r"
  by (rule poll_cases [of ans i n]) auto

end

end
