(* ===== verification/Tx_Executor.thy ===== *)
theory Tx_Executor
  imports Chain_Rpc
begin

text \<open>
  \<open>staking-engine/txExecutor.ts\<close>: building, signing and submitting a transaction with bounded
  retries. Errors are their messages, since the retry decision reads the message. What
  \<open>prepareTransaction\<close> does to a transaction is the SDK's, a parameter; the log records what was
  handed to the network, in order.
\<close>

record transaction =
  tx_source :: string
  tx_sequence :: int
  tx_ops :: "string list"
  tx_timeout :: int
  tx_signers :: "string list"

record tx_result =
  tr_hash :: tx_hash
  tr_status :: string
  tr_ledger :: "int option"

definition MAX_RETRIES :: nat where "MAX_RETRIES = 3"
definition RETRY_DELAY_BASE_MS :: int where "RETRY_DELAY_BASE_MS = 1000"

subsection \<open>Building and signing\<close>

text \<open>\<open>TransactionBuilder.build\<close> uses the account's next sequence number and adds no signature.\<close>

definition build_from :: "string \<Rightarrow> int \<Rightarrow> string list \<Rightarrow> int \<Rightarrow> transaction" where
  "build_from account sequence ops timeout =
     \<lparr>tx_source = account, tx_sequence = sequence + 1, tx_ops = ops, tx_timeout = timeout, tx_signers = []\<rparr>"

definition buildTransaction :: "string \<Rightarrow> string list \<Rightarrow> int option \<Rightarrow> string + int \<Rightarrow> string + transaction" where
  "buildTransaction pubkey ops timeoutSeconds account =
     bind_result account (\<lambda>sequence.
       return (build_from pubkey sequence ops (case timeoutSeconds of None \<Rightarrow> 300 | Some t \<Rightarrow> t)))"

definition signTransaction :: "transaction \<Rightarrow> string \<Rightarrow> transaction" where
  "signTransaction tx keypair = tx\<lparr>tx_signers := tx_signers tx @ [keypair]\<rparr>"

subsection \<open>Confirmation\<close>

text \<open>A final answer carries the ledger, or the text of the failure.\<close>

fun waitForConfirmation_loop ::
  "tx_hash \<Rightarrow> nat \<Rightarrow> (nat \<Rightarrow> string + int tx_reply) \<Rightarrow> nat \<Rightarrow> nat \<Rightarrow> string + tx_result" where
  "waitForConfirmation_loop h maxAttempts ans i 0 =
     throw (''Transaction '' @ h @ '' not confirmed within '' @ dec (maxAttempts * 2) @ ''s'')"
| "waitForConfirmation_loop h maxAttempts ans i (Suc left) =
     (case ans i of
        Inl e \<Rightarrow> throw e
      | Inr (Tx_success l) \<Rightarrow> return \<lparr>tr_hash = h, tr_status = ''SUCCESS'', tr_ledger = Some l\<rparr>
      | Inr (Tx_failed why) \<Rightarrow> throw (''Transaction '' @ h @ '' failed: '' @ why)
      | Inr Tx_pending \<Rightarrow> waitForConfirmation_loop h maxAttempts ans (Suc i) left)"

definition waitForConfirmation :: "tx_hash \<Rightarrow> (nat \<Rightarrow> string + int tx_reply) \<Rightarrow> string + tx_result" where
  "waitForConfirmation h ans = waitForConfirmation_loop h 30 ans 0 30"

definition confirm_decide :: "tx_hash \<Rightarrow> string + int tx_reply \<Rightarrow> (string + tx_result) option" where
  "confirm_decide h a =
     (case a of
        Inl e \<Rightarrow> Some (throw e)
      | Inr (Tx_success l) \<Rightarrow> Some (return \<lparr>tr_hash = h, tr_status = ''SUCCESS'', tr_ledger = Some l\<rparr>)
      | Inr (Tx_failed why) \<Rightarrow> Some (throw (''Transaction '' @ h @ '' failed: '' @ why))
      | Inr Tx_pending \<Rightarrow> None)"

interpretation confirmation: poll_loop
  "waitForConfirmation_loop h maxAttempts" "confirm_decide h"
  "Inl (''Transaction '' @ h @ '' not confirmed within '' @ dec (maxAttempts * 2) @ ''s'')"
  by unfold_locales (simp_all add: confirm_decide_def split: sum.splits tx_reply.splits)

subsection \<open>Submission with retries\<close>

record attempt_env =
  ae_prepare :: "string option"
  ae_send :: "string + send_reply"
  ae_poll :: "nat \<Rightarrow> string + int tx_reply"
  ae_account :: "string + int"        \<comment> \<open>the account reloaded before a retry: its sequence\<close>

definition isRetryable :: "string \<Rightarrow> bool" where
  "isRetryable message \<longleftrightarrow>
     hasSubstring message ''timeout'' \<or> hasSubstring message ''503'' \<or> hasSubstring message ''429'' \<or>
     hasSubstring message ''RESOURCE_LIMIT'' \<or> hasSubstring message ''try again''"

definition send_status_name :: "send_status \<Rightarrow> string" where
  "send_status_name st =
     (case st of PENDING \<Rightarrow> ''PENDING'' | DUPLICATE \<Rightarrow> ''DUPLICATE''
      | TRY_AGAIN_LATER \<Rightarrow> ''TRY_AGAIN_LATER'' | SEND_ERROR \<Rightarrow> ''ERROR'')"

text \<open>One attempt: the \<open>try\<close> block. The first component is the transaction sent, if any.\<close>

definition attempt_once ::
  "(transaction \<Rightarrow> transaction) \<Rightarrow> attempt_env \<Rightarrow> transaction \<Rightarrow> transaction list \<times> (string + tx_result)" where
  "attempt_once prepare ev tx =
     (case ae_prepare ev of Some e \<Rightarrow> ([], throw e) | None \<Rightarrow>
      let preparedTx = prepare tx in
     (case ae_send ev of Inl e \<Rightarrow> ([preparedTx], throw e) | Inr r \<Rightarrow>
        ([preparedTx],
         if sent_status r = SEND_ERROR then throw (''Submit error: '' @ sent_error r)
         else if sent_status r = PENDING then waitForConfirmation (sent_hash r) (ae_poll ev)
         else return \<lparr>tr_hash = sent_hash r, tr_status = send_status_name (sent_status r), tr_ledger = None\<rparr>)))"

text \<open>
  The loop. After a retryable failure it sleeps, reloads the account (an exception there leaves
  the loop, it is not caught) and rebuilds the transaction from the same operations.
\<close>

fun submit_loop ::
  "(transaction \<Rightarrow> transaction) \<Rightarrow> (nat \<Rightarrow> attempt_env) \<Rightarrow> nat \<Rightarrow> nat \<Rightarrow> string option \<Rightarrow> transaction
     \<Rightarrow> transaction list \<times> (string + tx_result)" where
  "submit_loop prepare env attempt 0 lastError tx =
     ([], throw (case lastError of Some e \<Rightarrow> e | None \<Rightarrow> ''Transaction submission failed after retries''))"
| "submit_loop prepare env attempt (Suc left) lastError tx =
     (case attempt_once prepare (env attempt) tx of
        (sent, Inr r) \<Rightarrow> (sent, return r)
      | (sent, Inl e) \<Rightarrow>
          if \<not> isRetryable e \<or> left = 0 then (sent, throw e)
          else (case ae_account (env attempt) of
                  Inl e' \<Rightarrow> (sent, throw e')
                | Inr sequence \<Rightarrow>
                    (let (sent', r) = submit_loop prepare env (Suc attempt) left (Some e)
                           (build_from (tx_source tx) sequence (tx_ops tx) 300)
                     in (sent @ sent', r))))"

definition submitTransaction ::
  "(transaction \<Rightarrow> transaction) \<Rightarrow> (nat \<Rightarrow> attempt_env) \<Rightarrow> nat \<Rightarrow> transaction \<Rightarrow> transaction list \<times> (string + tx_result)" where
  "submitTransaction prepare env retries tx = submit_loop prepare env 0 retries None tx"

text \<open>The pause before attempt number \<open>attempt + 2\<close>, in milliseconds.\<close>

definition retry_delay :: "nat \<Rightarrow> int" where
  "retry_delay attempt = RETRY_DELAY_BASE_MS * 2 ^ attempt"

definition executeContractCall ::
  "(transaction \<Rightarrow> transaction) \<Rightarrow> (nat \<Rightarrow> attempt_env) \<Rightarrow> string \<Rightarrow> string \<Rightarrow> int \<Rightarrow> string + int \<Rightarrow> string option
     \<Rightarrow> transaction list \<times> (string + tx_result)" where
  "executeContractCall prepare env keypair contractOp timeoutSeconds account prepare_fault =
     (case account of Inl e \<Rightarrow> ([], throw e) | Inr sequence \<Rightarrow>
     (case prepare_fault of Some e \<Rightarrow> ([], throw e) | None \<Rightarrow>
        submitTransaction prepare env MAX_RETRIES
          (signTransaction (prepare (build_from keypair sequence [contractOp] timeoutSeconds)) keypair)))"

subsection \<open>Properties\<close>

lemma attempt_once_sent: "fst (attempt_once prepare ev tx) \<in> {[], [prepare tx]}"
  by (simp add: attempt_once_def Let_def split: option.splits sum.splits)

text \<open>The transactions of one round: those of its attempt, then those of the retry if there is one.\<close>

lemma submit_loop_round:
  obtains (stop) "fst (submit_loop prepare env i (Suc n) le tx) = fst (attempt_once prepare (env i) tx)"
  | (retry) e q where
      "snd (attempt_once prepare (env i) tx) = Inl e" "isRetryable e" "ae_account (env i) = Inr q"
      "fst (submit_loop prepare env i (Suc n) le tx) = fst (attempt_once prepare (env i) tx)
         @ fst (submit_loop prepare env (Suc i) n (Some e) (build_from (tx_source tx) q (tx_ops tx) 300))"
proof -
  obtain sent r where a: "attempt_once prepare (env i) tx = (sent, r)" by fastforce
  show ?thesis
  proof (cases r)
    case (Inr v)
    then show ?thesis using a by (intro stop) simp
  next
    case (Inl e)
    show ?thesis
    proof (cases "isRetryable e \<and> n \<noteq> 0 \<and> \<not> isl (ae_account (env i))")
      case True
      then obtain q where "ae_account (env i) = Inr q" by (cases "ae_account (env i)") auto
      then show ?thesis using a Inl True by (intro retry [of e q]) (simp_all add: split_beta)
    next
      case False
      then show ?thesis using a Inl by (intro stop) (cases "ae_account (env i)"; simp)
    qed
  qed
qed

lemma submit_loop_length: "length (fst (submit_loop prepare env i n le tx)) \<le> n"
proof (induction n arbitrary: i le tx)
  case (Suc n)
  have one: "length (fst (attempt_once prepare (env i) tx)) \<le> 1"
    using attempt_once_sent [of prepare "env i" tx] by auto
  show ?case
  proof (rule submit_loop_round [of prepare env i n le tx])
    fix e q
    assume "fst (submit_loop prepare env i (Suc n) le tx) = fst (attempt_once prepare (env i) tx)
         @ fst (submit_loop prepare env (Suc i) n (Some e) (build_from (tx_source tx) q (tx_ops tx) 300))"
    then show ?thesis
      using one Suc.IH [of "Suc i" "Some e" "build_from (tx_source tx) q (tx_ops tx) 300"]
      by (simp del: submit_loop.simps)
  qed (use one in \<open>simp del: submit_loop.simps\<close>)
qed simp

text \<open>Every attempt before the last one sent failed with a retryable error.\<close>

lemma submit_loop_retryable:
  assumes "\<And>j. ae_prepare (env j) = None" "Suc k < length (fst (submit_loop prepare env i n le tx))"
  shows "\<exists>t e. snd (attempt_once prepare (env (i + k)) t) = Inl e \<and> isRetryable e"
  using assms(2)
proof (induction n arbitrary: i le tx k)
  case (Suc n)
  have one: "length (fst (attempt_once prepare (env i) tx)) = 1"
    using assms(1) [of i] by (auto simp: attempt_once_def Let_def split: sum.splits)
  show ?case
  proof (rule submit_loop_round [of prepare env i n le tx])
    assume "fst (submit_loop prepare env i (Suc n) le tx) = fst (attempt_once prepare (env i) tx)"
    then show ?thesis using Suc.prems one by (simp del: submit_loop.simps)
  next
    fix e q
    let ?t = "build_from (tx_source tx) q (tx_ops tx) 300"
    assume e: "snd (attempt_once prepare (env i) tx) = Inl e" "isRetryable e"
      and l: "fst (submit_loop prepare env i (Suc n) le tx) = fst (attempt_once prepare (env i) tx)
         @ fst (submit_loop prepare env (Suc i) n (Some e) ?t)"
    show ?thesis
    proof (cases k)
      case 0
      then show ?thesis using e by (intro exI [of _ tx] exI [of _ e]) simp
    next
      case (Suc k')
      then have "Suc k' < length (fst (submit_loop prepare env (Suc i) n (Some e) ?t))"
        using Suc.prems one l by (simp del: submit_loop.simps)
      from Suc.IH [OF this] show ?thesis using Suc by simp
    qed
  qed
qed simp

text \<open>
  A submission hands at most \<open>retries\<close> transactions to the network, and it goes on to
  another attempt only after an error whose message marks it as transient; with no retries left
  or any other error the last error is thrown.
\<close>

theorem submit_bounded_retries:
  assumes "\<And>j. ae_prepare (env j) = None"
  shows "length (fst (submitTransaction prepare env retries tx)) \<le> retries \<and>
     (\<forall>k. Suc k < length (fst (submitTransaction prepare env retries tx)) \<longrightarrow>
        (\<exists>t e. snd (attempt_once prepare (env k) t) = Inl e \<and> isRetryable e))"
  unfolding submitTransaction_def
  using submit_loop_length submit_loop_retryable [of env _ prepare 0, OF assms] by simp

definition busy_env :: "nat \<Rightarrow> attempt_env" where
  "busy_env i = \<lparr>ae_prepare = None,
     ae_send = (if i = 0 then Inl ''503 Service Unavailable''
                else Inr \<lparr>sent_hash = ''h'', sent_status = DUPLICATE, sent_error = []\<rparr>),
     ae_poll = (\<lambda>_. Inr Tx_pending), ae_account = Inr 41\<rparr>"

definition signed_tx :: transaction where
  "signed_tx = signTransaction (build_from ''G'' 40 [''op''] 300) ''G''"

lemma busy_submit:
  "submitTransaction id busy_env MAX_RETRIES signed_tx =
     ([signed_tx, build_from ''G'' 41 [''op''] 300],
      Inr \<lparr>tr_hash = ''h'', tr_status = ''DUPLICATE'', tr_ledger = None\<rparr>)"
  by (simp add: submitTransaction_def MAX_RETRIES_def eval_nat_numeral attempt_once_def busy_env_def
      isRetryable_def signed_tx_def signTransaction_def build_from_def send_status_name_def)

theorem submit_bounded_retries_witness:
  "length (fst (submitTransaction id busy_env MAX_RETRIES signed_tx)) = 2 \<and>
   (\<exists>t e. snd (attempt_once id (busy_env 0) t) = Inl e \<and> isRetryable e)"
proof -
  have "ae_prepare (busy_env j) = None" for j by (simp add: busy_env_def)
  from submit_bounded_retries [where env = busy_env, OF this, of id MAX_RETRIES signed_tx]
  show ?thesis unfolding busy_submit by simp
qed

lemma submit_loop_unsigned:
  assumes "\<And>t. tx_signers t = [] \<Longrightarrow> tx_signers (prepare t) = []" "tx_signers tx = []"
  shows "\<forall>t\<in>set (fst (submit_loop prepare env i n le tx)). tx_signers t = []"
  using assms(2)
proof (induction n arbitrary: i le tx)
  case (Suc n)
  have one: "\<forall>t\<in>set (fst (attempt_once prepare (env i) tx)). tx_signers t = []"
    using attempt_once_sent [of prepare "env i" tx] assms(1) [OF Suc.prems] by auto
  show ?case
  proof (rule submit_loop_round [of prepare env i n le tx])
    fix e q
    assume "fst (submit_loop prepare env i (Suc n) le tx) = fst (attempt_once prepare (env i) tx)
         @ fst (submit_loop prepare env (Suc i) n (Some e) (build_from (tx_source tx) q (tx_ops tx) 300))"
    then show ?thesis
      using one Suc.IH [of "build_from (tx_source tx) q (tx_ops tx) 300" "Suc i" "Some e"]
      by (auto simp del: submit_loop.simps simp: build_from_def)
  qed (use one in \<open>simp del: submit_loop.simps\<close>)
qed simp

text \<open>
  A retry is never signed: the transaction rebuilt with a fresh sequence number carries no
  signature, and nothing on the way to the network adds one. When \<open>prepareTransaction\<close> does not
  sign by itself, every transaction after the first attempt is sent without a signature, so a
  retry cannot be accepted.
\<close>

theorem retries_are_unsigned:
  assumes "\<And>t. tx_signers t = [] \<Longrightarrow> tx_signers (prepare t) = []"
  shows "\<forall>t\<in>set (drop 1 (fst (submitTransaction prepare env retries tx))). tx_signers t = []"
proof (cases retries)
  case (Suc n)
  have one: "drop 1 (fst (attempt_once prepare (env 0) tx)) = []"
    using attempt_once_sent [of prepare "env 0" tx] by auto
  show ?thesis unfolding submitTransaction_def Suc
  proof (rule submit_loop_round [of prepare env 0 n None tx])
    fix e q
    let ?t = "build_from (tx_source tx) q (tx_ops tx) 300"
    assume l: "fst (submit_loop prepare env 0 (Suc n) None tx) = fst (attempt_once prepare (env 0) tx)
         @ fst (submit_loop prepare env (Suc 0) n (Some e) ?t)"
    have "\<forall>t\<in>set (fst (submit_loop prepare env (Suc 0) n (Some e) ?t)). tx_signers t = []"
      by (rule submit_loop_unsigned [OF assms]) (simp_all add: build_from_def)
    then show "\<forall>t\<in>set (drop 1 (fst (submit_loop prepare env 0 (Suc n) None tx))). tx_signers t = []"
      unfolding l drop_append one by (auto dest: in_set_dropD)
  qed (use one in \<open>simp del: submit_loop.simps\<close>)
qed (simp add: submitTransaction_def)

theorem retries_are_unsigned_witness:
  "map tx_signers (fst (submitTransaction id busy_env MAX_RETRIES signed_tx)) = [[''G''], []]"
proof -
  have "\<forall>t\<in>set (drop 1 (fst (submitTransaction id busy_env MAX_RETRIES signed_tx))). tx_signers t = []"
    by (rule retries_are_unsigned) simp
  then show ?thesis unfolding busy_submit by (simp add: signed_tx_def signTransaction_def build_from_def)
qed

end
