(* ===== verification/Protocol_Config.thy ===== *)
theory Protocol_Config
  imports Js_Number
begin

text \<open>
  The protocol constants of \<open>config/index.ts\<close>, the environment lookup that fills the rest of the
  configuration, and the guard that refuses to start an unsafe production deployment.
\<close>

text \<open>An environment is a partial map from variable names to values.\<close>

type_synonym environment = "string \<rightharpoonup> string"

definition requireEnv :: "environment \<Rightarrow> string \<Rightarrow> string option \<Rightarrow> js_error + string" where
  "requireEnv env key fallback =
     (case (case env key of Some v \<Rightarrow> Some v | None \<Rightarrow> fallback) of
        None \<Rightarrow> throw (Err (''Missing required environment variable: '' @ key))
      | Some value \<Rightarrow> return value)"

definition dev_jwt_secret :: string where
  "dev_jwt_secret = ''sxlm-dev-jwt-secret-change-in-production''"

definition assertProductionConfig :: "string \<Rightarrow> string \<Rightarrow> string \<Rightarrow> js_error + unit" where
  "assertProductionConfig nodeEnv jwtSecret adminSecretKey =
     (if nodeEnv \<noteq> ''production'' then return ()
      else if jwtSecret = dev_jwt_secret
      then throw (Err ''Insecure JWT_SECRET detected in production'')
      else if adminSecretKey = [] then throw (Err ''Missing ADMIN_SECRET_KEY in production'')
      else return ())"

definition unbondingPeriodMs :: millis where "unbondingPeriodMs = 7 * 24 * 60 * 60 * 1000"
definition minStakeAmount :: stroops where "minStakeAmount = 10000000"
definition maxStakeAmount :: stroops where "maxStakeAmount = 100000000000000"
definition rebalanceThreshold :: number where "rebalanceThreshold = lit (1/10)"
definition validatorMinUptime :: number where "validatorMinUptime = lit (95/100)"
definition exchangeRateRefreshIntervalMs :: millis where "exchangeRateRefreshIntervalMs = 60000"
definition rewardSnapshotIntervalMs :: millis where "rewardSnapshotIntervalMs = 5 * 60000"
definition withdrawalPollIntervalMs :: millis where "withdrawalPollIntervalMs = 30000"

text \<open>
  The part of the loaded configuration the services read at run time, and the loading of the two
  secrets the production guard looks at.
\<close>

record secrets =
  nodeEnv :: string
  jwtSecret :: string
  adminSecretKey :: string

definition loadSecrets :: "environment \<Rightarrow> js_error + secrets" where
  "loadSecrets env =
     bind_result (requireEnv env ''NODE_ENV'' (Some ''development'')) (\<lambda>ne.
     bind_result (requireEnv env ''ADMIN_SECRET_KEY'' (Some [])) (\<lambda>ak.
     bind_result (requireEnv env ''JWT_SECRET'' (Some dev_jwt_secret)) (\<lambda>js.
     bind_result (assertProductionConfig ne js ak) (\<lambda>_.
       return \<lparr>nodeEnv = ne, jwtSecret = js, adminSecretKey = ak\<rparr>))))"

lemma requireEnv_default [simp]: "requireEnv env key (Some d) = Inr (case env key of Some v \<Rightarrow> v | None \<Rightarrow> d)"
  by (simp add: requireEnv_def split: option.splits)

lemma assertProductionConfig_ok:
  "assertProductionConfig ne js ak = Inr () \<longleftrightarrow>
     ne \<noteq> ''production'' \<or> (js \<noteq> dev_jwt_secret \<and> ak \<noteq> [])"
  by (simp add: assertProductionConfig_def)

text \<open>
  A backend that comes up in production never runs on the published development secret.\<close>

theorem production_secrets_safe:
  assumes "loadSecrets env = Inr s" "nodeEnv s = ''production''"
  shows "jwtSecret s \<noteq> dev_jwt_secret \<and> adminSecretKey s \<noteq> [] \<and> env ''JWT_SECRET'' = Some (jwtSecret s)"
  using assms by (auto simp: loadSecrets_def bind_result_Inr_iff assertProductionConfig_ok
      split: option.splits)

theorem production_secrets_safe_witness:
  "\<exists>s. loadSecrets [''NODE_ENV'' \<mapsto> ''production'', ''JWT_SECRET'' \<mapsto> ''k'', ''ADMIN_SECRET_KEY'' \<mapsto> ''S''] = Inr s
     \<and> jwtSecret s \<noteq> dev_jwt_secret"
proof -
  let ?env = "[''NODE_ENV'' \<mapsto> ''production'', ''JWT_SECRET'' \<mapsto> ''k'', ''ADMIN_SECRET_KEY'' \<mapsto> ''S'']"
  let ?s = "\<lparr>nodeEnv = ''production'', jwtSecret = ''k'', adminSecretKey = ''S''\<rparr>"
  have l: "loadSecrets ?env = Inr ?s"
    by (simp add: loadSecrets_def bind_result_def assertProductionConfig_def dev_jwt_secret_def)
  then show ?thesis using production_secrets_safe [OF l] by simp
qed

end
