(* ===== verification/Risk_Engine.thy ===== *)
theory Risk_Engine
  imports Protocol_Config
begin

text \<open>
  \<open>risk-engine/index.ts\<close>: the periodic health check with its emergency mode, the deviation check,
  the automatic reallocation of stake and the slashing of validators that are down. What an
  operation does to the outside is the list of its effects; publishing on the event bus and
  writing to the database may fail, and an exception ends the operation after the effects it had.
\<close>

subsection \<open>State and effects\<close>

record validator =
  pubkey :: string
  uptime :: rat
  performanceScore :: rat
  allocatedStake :: stroops
  lastChecked :: millis

record rebalance_item =
  rb_pubkey :: string
  rb_current :: stroops
  rb_target :: stroops

datatype risk_effect =
    Pause_Call
  | Unpause_Call
  | Slash_Call stroops
  | Publish_Rebalance string "rebalance_item list"
  | Publish_Slashing stroops string
  | Notify string

text \<open>An operation: its effects, and its result or the exception that ended it.\<close>

type_synonym 'a run = "risk_effect list \<times> (js_error + 'a)"

definition then_run :: "'a run \<Rightarrow> ('a \<Rightarrow> 'b run) \<Rightarrow> 'b run" where
  "then_run m f = (case m of (es, Inl e) \<Rightarrow> (es, Inl e) | (es, Inr a) \<Rightarrow> (let (es', r) = f a in (es @ es', r)))"

definition emit :: "risk_effect \<Rightarrow> unit run" where
  "emit e = ([e], Inr ())"

definition emit_unless :: "js_error option \<Rightarrow> risk_effect \<Rightarrow> unit run" where
  "emit_unless fault e = (case fault of None \<Rightarrow> ([e], Inr ()) | Some err \<Rightarrow> ([], Inl err))"

lemma then_run_simps [simp]:
  "then_run (es, Inl e) f = (es, Inl e)"
  "then_run (es, Inr a) f = (es @ fst (f a), snd (f a))"
  by (simp_all add: then_run_def split_beta)

fun each_run :: "('a \<Rightarrow> unit run) \<Rightarrow> 'a list \<Rightarrow> unit run" where
  "each_run f [] = ([], Inr ())"
| "each_run f (x # xs) = then_run (f x) (\<lambda>_. each_run f xs)"

subsection \<open>The health check\<close>

definition is_down :: "validator \<Rightarrow> bool" where
  "is_down v \<longleftrightarrow> Fin (uptime v) < validatorMinUptime"

definition too_many_down :: "nat \<Rightarrow> nat \<Rightarrow> bool" where
  "too_many_down d n \<longleftrightarrow> Fin (of_nat n) * lit (3/10) < Fin (of_nat d)"

definition full_exit :: "validator \<Rightarrow> rebalance_item" where
  "full_exit v = \<lparr>rb_pubkey = pubkey v, rb_current = allocatedStake v, rb_target = 0\<rparr>"

text \<open>
  Entering and leaving emergency mode. The result is the new mode; it is set before the calls, and
  a failing pause or unpause call is only logged. \<open>bus\<close> is the failure of the event bus, if any.
\<close>

definition emergency_part :: "js_error option \<Rightarrow> validator list \<Rightarrow> bool \<Rightarrow> bool \<times> unit run" where
  "emergency_part bus vs emergencyMode =
     (let down = filter is_down vs
      in if too_many_down (length down) (length vs)
         then if \<not> emergencyMode
              then (True, then_run (emit Pause_Call) (\<lambda>_.
                          then_run (emit_unless bus (Publish_Rebalance ''emergency'' (map full_exit down))) (\<lambda>_.
                          emit (Notify ''EMERGENCY''))))
              else (True, ([], Inr ()))
         else if emergencyMode \<and> length down = 0
         then (False, then_run (emit Unpause_Call) (\<lambda>_. emit (Notify ''RECOVERY'')))
         else (emergencyMode, ([], Inr ())))"

definition slashing_risk :: "js_error option \<Rightarrow> millis \<Rightarrow> validator \<Rightarrow> unit run" where
  "slashing_risk bus now v =
     (if lit 2 < Fin (of_int (now - lastChecked v)) / lit 3600000 \<and> Fin (uptime v) < lit (9/10)
      then emit_unless bus (Publish_Rebalance ''slashing_risk'' [full_exit v])
      else ([], Inr ()))"

definition sum_scores :: "validator list \<Rightarrow> number" where
  "sum_scores vs = fold (\<lambda>v s. s + Fin (performanceScore v)) vs 0"

definition sum_stake :: "validator list \<Rightarrow> stroops" where
  "sum_stake vs = sum_list (map allocatedStake vs)"

definition deviation_item :: "js_error option \<Rightarrow> number \<Rightarrow> stroops \<Rightarrow> validator \<Rightarrow> unit run" where
  "deviation_item bus totalScore totalStake v =
     (let targetFraction = Fin (performanceScore v) / totalScore;
          actualFraction = num_of_big (allocatedStake v) / num_of_big totalStake
      in if rebalanceThreshold < js_abs (actualFraction - targetFraction)
         then (case floor_big (num_of_big totalStake * targetFraction) of
                 Inl e \<Rightarrow> ([], Inl e)
               | Inr target \<Rightarrow> emit_unless bus (Publish_Rebalance ''allocation_deviation''
                     [\<lparr>rb_pubkey = pubkey v, rb_current = allocatedStake v, rb_target = target\<rparr>]))
         else ([], Inr ()))"

definition checkAllocationDeviation :: "js_error option \<Rightarrow> validator list \<Rightarrow> unit run" where
  "checkAllocationDeviation bus vs =
     (let active = filter (\<lambda>v. validatorMinUptime \<le> Fin (uptime v)) vs;
          totalScore = sum_scores active; totalStake = sum_stake active
      in if active = [] \<or> totalStake = 0 \<or> totalScore = 0 then ([], Inr ())
         else each_run (deviation_item bus totalScore totalStake) active)"

definition runHealthCheck ::
  "js_error option \<Rightarrow> millis \<Rightarrow> validator list \<Rightarrow> bool \<Rightarrow> bool \<times> unit run" where
  "runHealthCheck bus now vs emergencyMode =
     (if vs = [] then (emergencyMode, ([], Inr ()))
      else let (mode, m) = emergency_part bus vs emergencyMode
           in (mode, then_run m (\<lambda>_.
                     then_run (each_run (slashing_risk bus now) (filter is_down vs)) (\<lambda>_.
                     checkAllocationDeviation bus vs))))"

text \<open>Successive checks, each on the validators of its time; an exception is logged by the timer.\<close>

fun health_checks ::
  "(js_error option \<times> millis \<times> validator list) list \<Rightarrow> bool \<Rightarrow> bool \<times> risk_effect list" where
  "health_checks [] mode = (mode, [])"
| "health_checks ((bus, now, vs) # cs) mode =
     (let (mode1, (es, _)) = runHealthCheck bus now vs mode; (mode2, es') = health_checks cs mode1
      in (mode2, es @ es'))"

subsection \<open>Automatic reallocation\<close>

record reallocation =
  fromValidator :: string
  toValidator :: string
  move :: stroops

text \<open>The plans, one target after the other; the source is always the first one with stake.\<close>

fun reallocation_plans ::
  "stroops \<Rightarrow> number \<Rightarrow> validator list \<Rightarrow> validator list \<Rightarrow> js_error + reallocation list" where
  "reallocation_plans pool totalHealthyScore unhealthy [] = return []"
| "reallocation_plans pool totalHealthyScore unhealthy (target # ts) =
     (let fraction = Fin (performanceScore target) / totalHealthyScore
      in bind_result (floor_big (num_of_big pool * fraction)) (\<lambda>allocation.
         bind_result (reallocation_plans pool totalHealthyScore unhealthy ts) (\<lambda>plans.
           return (if 0 < allocation
                   then (case find (\<lambda>s. 0 < allocatedStake s) unhealthy of
                           None \<Rightarrow> plans
                         | Some source \<Rightarrow>
                             \<lparr>fromValidator = pubkey source, toValidator = pubkey target,
                              move = (if allocation < allocatedStake source then allocation else allocatedStake source)\<rparr> # plans)
                   else plans))))"

definition validator_add :: "string \<Rightarrow> stroops \<Rightarrow> validator list \<Rightarrow> validator list" where
  "validator_add k d vs = map (\<lambda>v. if pubkey v = k then v\<lparr>allocatedStake := allocatedStake v + d\<rparr> else v) vs"

text \<open>The two writes of each plan; \<open>db k\<close> is the failure of write number \<open>k\<close>.\<close>

fun apply_plans ::
  "(nat \<Rightarrow> js_error option) \<Rightarrow> nat \<Rightarrow> reallocation list \<Rightarrow> validator list \<Rightarrow> validator list \<times> js_error option" where
  "apply_plans db k [] vs = (vs, None)"
| "apply_plans db k (p # ps) vs =
     (case db k of Some e \<Rightarrow> (vs, Some e) | None \<Rightarrow>
      let vs1 = validator_add (fromValidator p) (- move p) vs in
     (case db (Suc k) of Some e \<Rightarrow> (vs1, Some e) | None \<Rightarrow>
        apply_plans db (k + 2) ps (validator_add (toValidator p) (move p) vs1)))"

definition executeAutoReallocation ::
  "(nat \<Rightarrow> js_error option) \<Rightarrow> validator list \<Rightarrow> validator list \<times> risk_effect list \<times> js_error option" where
  "executeAutoReallocation db table =
     (let vs = sort_key (\<lambda>v. - performanceScore v) table;
          healthy = filter (\<lambda>v. validatorMinUptime \<le> Fin (uptime v)) vs;
          unhealthy = filter (\<lambda>v. is_down v \<and> 0 < allocatedStake v) vs
      in if length vs < 2 \<or> healthy = [] \<or> unhealthy = [] \<or> sum_stake unhealthy = 0 then (table, [], None)
         else case reallocation_plans (sum_stake unhealthy) (sum_scores healthy) unhealthy healthy of
                Inl e \<Rightarrow> (table, [], Some e)
              | Inr plans \<Rightarrow>
                  (case apply_plans db 0 plans table of
                     (table', Some e) \<Rightarrow> (table', [], Some e)
                   | (table', None) \<Rightarrow> (table', [Notify ''REBALANCE''], None)))"

subsection \<open>A validator that is down\<close>

definition slashAmount_for :: "number \<Rightarrow> stroops \<Rightarrow> js_error + stroops" where
  "slashAmount_for up stake =
     (let slashPercent = (if up < lit (1/2) then lit (1/10) else lit (5/100))
      in floor_big (num_of_big stake * slashPercent))"

definition handleValidatorDown ::
  "js_error option \<Rightarrow> js_error option \<Rightarrow> validator list \<Rightarrow> string \<Rightarrow> number \<Rightarrow> unit run" where
  "handleValidatorDown bus chain table key up =
     (if up < lit (85/100)
      then then_run
        (case find (\<lambda>v. pubkey v = key) table of
           None \<Rightarrow> ([], Inr ())
         | Some v \<Rightarrow>
             if 0 < allocatedStake v
             then (case slashAmount_for up (allocatedStake v) of
                     Inl e \<Rightarrow> ([], Inl e)
                   | Inr slash \<Rightarrow>
                       if 0 < slash
                       then (case chain of
                               Some e \<Rightarrow> ([], Inr ())
                             | None \<Rightarrow>
                                 (case bus of
                                    Some e \<Rightarrow> ([Slash_Call slash], Inr ())
                                  | None \<Rightarrow> ([Slash_Call slash, Publish_Slashing slash (''validator_down:'' @ key),
                                             Notify ''SLASHING''], Inr ())))
                       else ([], Inr ()))
             else ([], Inr ()))
        (\<lambda>_. emit_unless bus (Publish_Rebalance ''validator_critical''
                [\<lparr>rb_pubkey = key, rb_current = 0, rb_target = 0\<rparr>]))
      else ([], Inr ()))"

subsection \<open>Emergency mode\<close>

definition pause_calls :: "risk_effect list \<Rightarrow> risk_effect list" where
  "pause_calls es = filter (\<lambda>e. e = Pause_Call \<or> e = Unpause_Call) es"

lemma pause_calls_simps [simp]:
  "pause_calls [] = []" "pause_calls (a @ b) = pause_calls a @ pause_calls b"
  by (simp_all add: pause_calls_def)

lemma pause_calls_then:
  "pause_calls (fst m) = [] \<Longrightarrow> (\<And>a. pause_calls (fst (f a)) = []) \<Longrightarrow> pause_calls (fst (then_run m f)) = []"
  by (cases m; cases "snd m") auto

lemma pause_calls_each: "(\<And>x. pause_calls (fst (f x)) = []) \<Longrightarrow> pause_calls (fst (each_run f xs)) = []"
  by (induction xs) (auto intro: pause_calls_then)

lemma pause_calls_slashing: "pause_calls (fst (slashing_risk bus now v)) = []"
  by (simp add: slashing_risk_def emit_unless_def pause_calls_def split: option.splits)

lemma pause_calls_deviation: "pause_calls (fst (checkAllocationDeviation bus vs)) = []"
  by (auto simp: checkAllocationDeviation_def Let_def deviation_item_def emit_unless_def pause_calls_def
      split: option.splits sum.splits intro!: pause_calls_each [unfolded pause_calls_def])

definition next_mode :: "validator list \<Rightarrow> bool \<Rightarrow> bool" where
  "next_mode vs mode = (if vs = [] then mode
     else too_many_down (length (filter is_down vs)) (length vs) \<or> mode \<and> (\<exists>v\<in>set vs. is_down v))"

lemma runHealthCheck_mode: "fst (runHealthCheck bus now vs mode) = next_mode vs mode"
  by (auto simp: runHealthCheck_def emergency_part_def next_mode_def Let_def split_beta filter_empty_conv)

lemma runHealthCheck_calls:
  "pause_calls (fst (snd (runHealthCheck bus now vs mode))) =
     (if next_mode vs mode = mode then [] else if mode then [Unpause_Call] else [Pause_Call])"
proof -
  have rest: "pause_calls (fst (then_run (each_run (slashing_risk bus now) (filter is_down vs))
      (\<lambda>_. checkAllocationDeviation bus vs))) = []"
    by (intro pause_calls_then pause_calls_each pause_calls_slashing pause_calls_deviation)
  have app: "pause_calls (fst (then_run m (\<lambda>_. then_run (each_run (slashing_risk bus now) (filter is_down vs))
      (\<lambda>_. checkAllocationDeviation bus vs)))) = pause_calls (fst m)" for m :: "unit run"
    using rest by (cases m; cases "snd m") auto
  have "pause_calls (fst (snd (emergency_part bus vs mode))) =
     (if fst (emergency_part bus vs mode) = mode then [] else if mode then [Unpause_Call] else [Pause_Call])"
    by (auto simp: emergency_part_def Let_def emit_def emit_unless_def pause_calls_def split: option.splits)
  moreover have "fst (emergency_part bus vs mode) = next_mode vs mode" if "vs \<noteq> []"
    using runHealthCheck_mode [of bus now vs mode] that by (simp add: runHealthCheck_def split_beta)
  moreover have "pause_calls (fst (snd (runHealthCheck bus now vs mode)))
      = (if vs = [] then [] else pause_calls (fst (snd (emergency_part bus vs mode))))"
    unfolding runHealthCheck_def Let_def split_beta using app by (simp only: if_split snd_conv fst_conv pause_calls_simps) simp
  ultimately show ?thesis by (cases "vs = []") (simp_all add: next_mode_def)
qed

fun alternates :: "bool \<Rightarrow> risk_effect list \<Rightarrow> bool" where
  "alternates mode [] = True"
| "alternates mode (e # es) = ((e = (if mode then Unpause_Call else Pause_Call)) \<and> alternates (\<not> mode) es)"

text \<open>
  Over any sequence of health checks, with any validator data and any failures of the event
  bus, the engine's pause and unpause calls strictly alternate, beginning with a pause; a pause is
  issued exactly when more than 30 percent of the validators go down, an unpause only when no
  validator is down any more, and the engine is in emergency mode exactly when its last call was
  a pause.
\<close>

theorem emergency_calls_alternate:
  shows "alternates mode (pause_calls (snd (health_checks cs mode))) \<and>
    fst (health_checks cs mode) =
      (if pause_calls (snd (health_checks cs mode)) = [] then mode
       else last (pause_calls (snd (health_checks cs mode))) = Pause_Call) \<and>
    fst (health_checks cs mode) = fold (\<lambda>(bus, now, vs). next_mode vs) cs mode"
proof (induction cs arbitrary: mode)
  case (Cons c cs)
  obtain bus now vs where c: "c = (bus, now, vs)" by (cases c)
  obtain m1 es r where r: "runHealthCheck bus now vs mode = (m1, es, r)" by (metis surj_pair)
  have m1: "m1 = next_mode vs mode" using runHealthCheck_mode [of bus now vs mode] r by simp
  have es: "pause_calls es = (if m1 = mode then [] else if mode then [Unpause_Call] else [Pause_Call])"
    using runHealthCheck_calls [of bus now vs mode] r m1 by simp
  obtain m2 es2 where h: "health_checks cs m1 = (m2, es2)" by fastforce
  have "health_checks (c # cs) mode = (m2, es @ es2)" using c r h by simp
  then have calls: "pause_calls (snd (health_checks (c # cs) mode)) = pause_calls es @ pause_calls es2"
    and final: "fst (health_checks (c # cs) mode) = m2" by simp_all
  have ih: "alternates m1 (pause_calls es2)" "m2 = (if pause_calls es2 = [] then m1 else last (pause_calls es2) = Pause_Call)"
    "m2 = fold (\<lambda>(bus, now, vs). next_mode vs) cs m1"
    using Cons.IH [of m1] unfolding h fst_conv snd_conv by blast+
  show ?case
  proof (intro conjI)
    show "alternates mode (pause_calls (snd (health_checks (c # cs) mode)))"
      unfolding calls es using ih(1) by (cases mode; cases m1) simp_all
    show "fst (health_checks (c # cs) mode) =
      (if pause_calls (snd (health_checks (c # cs) mode)) = [] then mode
       else last (pause_calls (snd (health_checks (c # cs) mode))) = Pause_Call)"
      unfolding calls final es using ih(2) by (cases mode; cases m1) simp_all
    show "fst (health_checks (c # cs) mode) = fold (\<lambda>(bus, now, vs). next_mode vs) (c # cs) mode"
      unfolding final using ih(3) by (simp add: c m1)
  qed
qed simp

definition sample_validator :: "string \<Rightarrow> rat \<Rightarrow> stroops \<Rightarrow> validator" where
  "sample_validator k up st =
     \<lparr>pubkey = k, uptime = up, performanceScore = 1, allocatedStake = st, lastChecked = 0\<rparr>"

subsection \<open>Reallocation\<close>

lemma sum_validator_add:
  assumes "distinct (map pubkey vs)" "k \<in> set (map pubkey vs)"
  shows "sum_stake (validator_add k d vs) = sum_stake vs + d"
  using assms
proof (induction vs)
  case (Cons v vs)
  have same: "validator_add k d vs = vs" if "k \<notin> set (map pubkey vs)"
    using that unfolding validator_add_def by (intro map_idI) auto
  show ?case
  proof (cases "pubkey v = k")
    case True
    then have "validator_add k d vs = vs" using Cons.prems(1) same by auto
    then show ?thesis using True by (simp add: sum_stake_def validator_add_def)
  next
    case False
    then show ?thesis using Cons by (simp add: sum_stake_def validator_add_def)
  qed
qed simp

lemma validator_add_keys [simp]: "map pubkey (validator_add k d vs) = map pubkey vs"
  by (simp add: validator_add_def)

lemma apply_plans_sum:
  assumes "distinct (map pubkey vs)"
    "\<forall>p\<in>set ps. fromValidator p \<in> set (map pubkey vs) \<and> toValidator p \<in> set (map pubkey vs)"
  shows "sum_stake (fst (apply_plans (\<lambda>_. None) k ps vs)) = sum_stake vs \<and>
    map pubkey (fst (apply_plans (\<lambda>_. None) k ps vs)) = map pubkey vs \<and>
    snd (apply_plans (\<lambda>_. None) k ps vs) = None"
  using assms
proof (induction ps arbitrary: vs k)
  case (Cons p ps)
  let ?v1 = "validator_add (fromValidator p) (- move p) vs"
  let ?v2 = "validator_add (toValidator p) (move p) ?v1"
  have k: "map pubkey ?v2 = map pubkey vs" by simp
  have "sum_stake ?v2 = sum_stake vs"
    using Cons.prems by (simp add: sum_validator_add)
  moreover have "sum_stake (fst (apply_plans (\<lambda>_. None) (k + 2) ps ?v2)) = sum_stake ?v2 \<and>
    map pubkey (fst (apply_plans (\<lambda>_. None) (k + 2) ps ?v2)) = map pubkey ?v2 \<and>
    snd (apply_plans (\<lambda>_. None) (k + 2) ps ?v2) = None"
    by (rule Cons.IH) (use Cons.prems in \<open>simp_all add: k\<close>)
  ultimately show ?case by (simp add: Let_def)
qed simp

lemma plans_keys:
  assumes "reallocation_plans pool sc unhealthy ts = Inr ps" "p \<in> set ps"
  shows "fromValidator p \<in> pubkey ` set unhealthy \<and> toValidator p \<in> pubkey ` set ts \<and> 0 < move p"
  using assms
proof (induction ts arbitrary: ps)
  case (Cons t ts)
  have "\<exists>qs a. reallocation_plans pool sc unhealthy ts = Inr qs \<and>
    (ps = qs \<or> (\<exists>src. find (\<lambda>s. 0 < allocatedStake s) unhealthy = Some src \<and> 0 < a \<and>
      ps = \<lparr>fromValidator = pubkey src, toValidator = pubkey t,
            move = (if a < allocatedStake src then a else allocatedStake src)\<rparr> # qs))"
    using Cons.prems(1)
    by (cases "reallocation_plans pool sc unhealthy ts")
      (auto simp: Let_def bind_result_Inr_iff split: if_splits option.splits)
  then obtain qs a where q: "reallocation_plans pool sc unhealthy ts = Inr qs"
    "ps = qs \<or> (\<exists>src. find (\<lambda>s. 0 < allocatedStake s) unhealthy = Some src \<and> 0 < a \<and>
      ps = \<lparr>fromValidator = pubkey src, toValidator = pubkey t,
            move = (if a < allocatedStake src then a else allocatedStake src)\<rparr> # qs)" by blast
  have "p \<in> set qs \<Longrightarrow> ?case" using Cons.IH [OF q(1)] by auto
  moreover have ?case if "p \<notin> set qs"
    using q(2) Cons.prems(2) that by (auto simp: find_Some_iff)
  ultimately show ?case by blast
qed simp

text \<open>
  Reallocation moves stake between validators and never creates or destroys any: when the
  database accepts the writes, the sum of the allocated stakes and the set of validators are the
  same afterwards, whatever the scores, and every move goes from a validator that is down to a
  healthy one with a positive amount.
\<close>

theorem reallocation_conserves_stake:
  assumes "distinct (map pubkey table)" "executeAutoReallocation (\<lambda>_. None) table = (table', es, r)"
  shows "sum_stake table' = sum_stake table \<and> map pubkey table' = map pubkey table"
proof -
  let ?vs = "sort_key (\<lambda>v. - performanceScore v) table"
  let ?h = "filter (\<lambda>v. validatorMinUptime \<le> Fin (uptime v)) ?vs"
  let ?u = "filter (\<lambda>v. is_down v \<and> 0 < allocatedStake v) ?vs"
  show ?thesis
  proof (cases "reallocation_plans (sum_stake ?u) (sum_scores ?h) ?u ?h")
    case (Inl e)
    then show ?thesis using assms(2) by (simp add: executeAutoReallocation_def Let_def split: if_splits)
  next
    case (Inr ps)
    have "\<forall>p\<in>set ps. fromValidator p \<in> set (map pubkey table) \<and> toValidator p \<in> set (map pubkey table)"
      using plans_keys [OF Inr] by (auto simp: image_iff)
    from apply_plans_sum [OF assms(1) this, of 0] show ?thesis
      using assms(2) Inr
      by (cases "apply_plans (\<lambda>_. None) 0 ps table")
        (auto simp: executeAutoReallocation_def Let_def split: if_splits option.splits)
  qed
qed

lemma minUptime_value: "\<exists>c. validatorMinUptime = Fin c \<and> 3/4 \<le> c \<and> c \<le> 1"
proof -
  have "rndq (95/100) \<le> 1" using rndq_mono [of "95/100" 1] by simp
  moreover have "3/4 \<le> rndq (95/100)"
    using rndq_mono [of "3/4" "95/100"] rndq_grid [of 3 "-2"] by (simp add: power_int_minus_divide)
  moreover have "\<bar>95/100 :: rat\<bar> \<le> 2^110" by simp
  ultimately show ?thesis unfolding validatorMinUptime_def
    by (intro exI [of _ "rndq (95/100)"]) (simp add: rnd_Fin_300 small_le_300)
qed

lemma is_down_simps [simp]:
  "up \<le> 1/2 \<Longrightarrow> is_down (sample_validator k up st)"
  "\<not> is_down (sample_validator k 1 st)"
  "validatorMinUptime \<le> Fin 1"
  "up \<le> 1/2 \<Longrightarrow> \<not> validatorMinUptime \<le> Fin up"
proof -
  obtain c where c: "validatorMinUptime = Fin c" "3/4 \<le> c" "c \<le> 1" using minUptime_value by blast
  show "up \<le> 1/2 \<Longrightarrow> is_down (sample_validator k up st)" "\<not> is_down (sample_validator k 1 st)"
    "validatorMinUptime \<le> Fin 1" "up \<le> 1/2 \<Longrightarrow> \<not> validatorMinUptime \<le> Fin up"
    using c(2,3) by (auto simp: is_down_def sample_validator_def c(1))
qed

definition sample_table :: "validator list" where
  "sample_table = [sample_validator ''A'' 0 100, sample_validator ''B'' 0 100,
     sample_validator ''X'' 1 0, sample_validator ''Y'' 1 0]"

lemma sample_reallocation:
  "executeAutoReallocation (\<lambda>_. None) sample_table =
     ([sample_validator ''A'' 0 (-100), sample_validator ''B'' 0 100,
       sample_validator ''X'' 1 100, sample_validator ''Y'' 1 100], [Notify ''REBALANCE''], None)"
proof -
  have vs: "sort_key (\<lambda>v. - performanceScore v) sample_table = sample_table"
    by (simp add: sample_table_def sample_validator_def)
  have h: "filter (\<lambda>v. validatorMinUptime \<le> Fin (uptime v)) sample_table
      = [sample_validator ''X'' 1 0, sample_validator ''Y'' 1 0]"
    by (simp add: sample_table_def) (simp add: sample_validator_def)
  have u: "filter (\<lambda>v. is_down v \<and> 0 < allocatedStake v) sample_table
      = [sample_validator ''A'' 0 100, sample_validator ''B'' 0 100]"
    by (simp add: sample_table_def) (simp add: sample_validator_def)
  have tot: "sum_stake [sample_validator ''A'' 0 100, sample_validator ''B'' 0 100] = 200"
    by (simp add: sum_stake_def sample_validator_def)
  have sc: "sum_scores [sample_validator ''X'' 1 0, sample_validator ''Y'' 1 0] = Fin 2"
    by (simp add: sum_scores_def sample_validator_def zero_number_def)
  have plans: "reallocation_plans 200 (Fin 2) [sample_validator ''A'' 0 100, sample_validator ''B'' 0 100]
      [sample_validator ''X'' 1 0, sample_validator ''Y'' 1 0]
    = Inr [\<lparr>fromValidator = ''A'', toValidator = ''X'', move = 100\<rparr>,
           \<lparr>fromValidator = ''A'', toValidator = ''Y'', move = 100\<rparr>]"
    by (simp add: sample_validator_def half_double num_of_big_exact)
  show ?thesis
    unfolding executeAutoReallocation_def Let_def vs h u sc tot plans
    by (simp add: sample_validator_def validator_add_def sample_table_def)
qed

theorem reallocation_conserves_stake_witness:
  "sum_stake (fst (executeAutoReallocation (\<lambda>_. None) sample_table)) = 200"
proof -
  have "distinct (map pubkey sample_table)" by (simp add: sample_table_def sample_validator_def)
  from reallocation_conserves_stake [OF this sample_reallocation]
  show ?thesis unfolding sample_reallocation by (simp add: sample_table_def sum_stake_def sample_validator_def)
qed

text \<open>
  A plan does not account for the plans before it: every target takes its share from the same
  first validator, so with two validators of 100 stroops down and two healthy ones, the first is
  drained twice, to minus 100, while the second keeps all of its stake.
\<close>

theorem reallocation_overdraws_first_source:
  "\<exists>table'. executeAutoReallocation (\<lambda>_. None) sample_table = (table', [Notify ''REBALANCE''], None) \<and>
     map (\<lambda>v. (pubkey v, allocatedStake v)) sample_table = [(''A'', 100), (''B'', 100), (''X'', 0), (''Y'', 0)] \<and>
     map (\<lambda>v. (pubkey v, allocatedStake v)) table' = [(''A'', -100), (''B'', 100), (''X'', 100), (''Y'', 100)]"
  unfolding sample_reallocation by (simp add: sample_table_def sample_validator_def)

subsection \<open>Slashing\<close>

lemma tenth_le_one: "\<exists>q. (if b then lit (1/10) else lit (5/100)) = Fin q \<and> 0 \<le> q \<and> q \<le> 1/8"
proof -
  have "rndq (1/10) \<le> 1/8" "rndq (5/100) \<le> 1/8"
    using rndq_mono [of "1/10" "1/8"] rndq_mono [of "5/100" "1/8"] rndq_grid [of 1 "-3"]
    by (simp_all add: power_int_minus_divide)
  moreover have "0 \<le> rndq (1/10)" "0 \<le> rndq (5/100)" by (simp_all add: rndq_nonneg)
  moreover have "\<bar>1/10 :: rat\<bar> \<le> 2^110" "\<bar>5/100 :: rat\<bar> \<le> 2^110" by simp_all
  ultimately show ?thesis by (auto simp: rnd_Fin_300 small_le_300)
qed

lemma slashAmount_bounds:
  assumes "0 \<le> a" "a \<le> 2^53"
  shows "\<exists>n. slashAmount_for up a = Inr n \<and> 0 \<le> n \<and> 8 * n \<le> a"
proof -
  obtain q where q: "(if up < lit (1/2) then lit (1/10) else lit (5/100)) = Fin q" "0 \<le> q" "q \<le> 1/8"
    using tenth_le_one by blast
  have a: "(of_int a :: rat) \<le> of_int (2^53)" using assms(2) by (simp only: of_int_le_iff)
  have p: "of_int a * q \<le> of_int a * (1/8)" using assms q by (intro mult_left_mono) auto
  then have "\<bar>of_int a * q\<bar> \<le> 2^110" using a assms q by simp
  then have eq: "slashAmount_for up a = Inr \<lfloor>rndq (of_int a * q)\<rfloor>"
    using assms unfolding slashAmount_for_def q(1) by (simp add: num_of_big_exact rnd_Fin_300 small_le_300)
  have g: "rndq (of_int a * (1/8)) = of_int a * (1/8)"
    using rndq_grid [of a "-3"] assms by (simp add: power_int_minus_divide)
  have "rndq (of_int a * q) \<le> of_int a * (1/8)" using rndq_mono [OF p] g by simp
  then have "8 * (of_int \<lfloor>rndq (of_int a * q)\<rfloor> :: rat) \<le> of_int a"
    using of_int_floor_le [of "rndq (of_int a * q)"] by linarith
  then have "(of_int (8 * \<lfloor>rndq (of_int a * q)\<rfloor>) :: rat) \<le> of_int a" by simp
  then have "8 * \<lfloor>rndq (of_int a * q)\<rfloor> \<le> a" by (simp only: of_int_le_iff)
  moreover have "0 \<le> \<lfloor>rndq (of_int a * q)\<rfloor>" using assms q by (intro dbl.floor_rd_nonneg) simp
  ultimately show ?thesis using eq by blast
qed

text \<open>
  A validator-down alert slashes at most once, by a positive amount of at most an eighth of the
  validator's own stake, only below 85 percent uptime and only a known validator; the slashing
  event is published only after the chain accepted the slash, and with the same amount.
\<close>

theorem validator_slash_bounded:
  assumes "\<forall>v\<in>set table. 0 \<le> allocatedStake v \<and> allocatedStake v \<le> 2^53"
    "handleValidatorDown bus chain table key up = (es, r)"
  shows "(\<forall>n. Slash_Call n \<in> set es \<longrightarrow> 0 < n \<and> up < lit (85/100) \<and> chain = None \<and>
        (\<exists>v\<in>set table. pubkey v = key \<and> 8 * n \<le> allocatedStake v)) \<and>
     (\<forall>n why. Publish_Slashing n why \<in> set es \<longrightarrow> Slash_Call n \<in> set es) \<and>
     length (filter (\<lambda>e. \<exists>n. e = Slash_Call n) es) \<le> 1"
proof (cases "find (\<lambda>v. pubkey v = key) table")
  case None
  then show ?thesis using assms(2)
    by (auto simp: handleValidatorDown_def emit_unless_def split: if_splits option.splits)
next
  case (Some v)
  then have v: "v \<in> set table" "pubkey v = key" by (auto simp: find_Some_iff)
  obtain n where n: "slashAmount_for up (allocatedStake v) = Inr n" "0 \<le> n" "8 * n \<le> allocatedStake v"
    using slashAmount_bounds assms(1) v by blast
  show ?thesis using assms(2) Some n v
    by (auto simp: handleValidatorDown_def emit_unless_def split: if_splits option.splits)
qed

theorem validator_slash_bounded_witness:
  "\<exists>es r. handleValidatorDown None None sample_table ''A'' (Fin 0) = (es, r) \<and>
     length (filter (\<lambda>e. \<exists>n. e = Slash_Call n) es) \<le> 1"
proof -
  have "\<forall>v\<in>set sample_table. 0 \<le> allocatedStake v \<and> allocatedStake v \<le> 2^53"
    by (simp add: sample_table_def sample_validator_def)
  moreover obtain es r where "handleValidatorDown None None sample_table ''A'' (Fin 0) = (es, r)" by fastforce
  ultimately show ?thesis using validator_slash_bounded by blast
qed

end
