(* ===== verification/Exchange_Rate.thy ===== *)
theory Exchange_Rate
  imports Protocol_Config
begin

text \<open>
  \<open>staking-engine/exchangeRateManager.ts\<close>: the cached exchange rate, its refresh protocol (an
  asynchronous function that other tasks may interleave with at each \<open>await\<close>), and the two
  conversions between XLM and sXLM stroops.
\<close>

subsection \<open>State\<close>

record cached_rate =
  cr_rate :: number
  cr_fetchedAt :: millis

record rate_state =
  cachedRate :: "cached_rate option"
  refreshTimer :: bool
  isRefreshing :: bool

definition init_rate :: rate_state where
  "init_rate = \<lparr>cachedRate = None, refreshTimer = False, isRefreshing = False\<rparr>"

definition STALE_THRESHOLD_MS :: millis where
  "STALE_THRESHOLD_MS = exchangeRateRefreshIntervalMs * 3"

definition isStale :: "millis \<Rightarrow> cached_rate \<Rightarrow> bool" where
  "isStale now c \<longleftrightarrow> now - cr_fetchedAt c > STALE_THRESHOLD_MS"

subsection \<open>Refreshing\<close>

text \<open>
  \<open>refreshRate\<close> cut at its awaits. \<open>refresh_enter\<close> runs up to the contract call; \<open>None\<close> means
  that another refresh is under way and the call sleeps 500 ms. \<open>refresh_wake\<close> runs after that
  sleep: it returns the cached rate if there is one by then, and otherwise goes on to the
  contract call itself. \<open>refresh_finish\<close> runs when the contract call has settled with
  \<open>fetched\<close>, its \<open>catch\<close> and \<open>finally\<close> blocks included.
\<close>

definition refresh_enter :: "rate_state \<Rightarrow> rate_state option" where
  "refresh_enter s = (if isRefreshing s then None else Some (s\<lparr>isRefreshing := True\<rparr>))"

definition refresh_wake :: "rate_state \<Rightarrow> number option \<times> rate_state" where
  "refresh_wake s =
     (case cachedRate s of
        Some c \<Rightarrow> (Some (cr_rate c), s)
      | None \<Rightarrow> (None, s\<lparr>isRefreshing := True\<rparr>))"

definition valid_rate :: "number \<Rightarrow> bool" where
  "valid_rate r \<longleftrightarrow> \<not> (r \<le> 0 \<or> \<not> isFinite r)"

definition refresh_finish :: "js_error + number \<Rightarrow> millis \<Rightarrow> rate_state \<Rightarrow> number \<times> rate_state" where
  "refresh_finish fetched now s =
     (let s' = s\<lparr>isRefreshing := False\<rparr>;
          failed = (case cachedRate s of Some c \<Rightarrow> (cr_rate c, s') | None \<Rightarrow> (1, s'))
      in case fetched of
           Inl e \<Rightarrow> failed
         | Inr r \<Rightarrow> if valid_rate r
                    then (r, s'\<lparr>cachedRate := Some \<lparr>cr_rate = r, cr_fetchedAt = now\<rparr>\<rparr>)
                    else failed)"

text \<open>
  One whole call. \<open>meanwhile\<close> is what the other tasks do to the module's state during the sleep.
\<close>

definition refreshRate ::
  "(rate_state \<Rightarrow> rate_state) \<Rightarrow> js_error + number \<Rightarrow> millis \<Rightarrow> rate_state \<Rightarrow> number \<times> rate_state" where
  "refreshRate meanwhile fetched now s =
     (case refresh_enter s of
        Some s' \<Rightarrow> refresh_finish fetched now s'
      | None \<Rightarrow> (case refresh_wake (meanwhile s) of
                   (Some r, s') \<Rightarrow> (r, s')
                 | (None, s') \<Rightarrow> refresh_finish fetched now s'))"

definition getCurrentRate ::
  "(rate_state \<Rightarrow> rate_state) \<Rightarrow> js_error + number \<Rightarrow> millis \<Rightarrow> rate_state \<Rightarrow> number \<times> rate_state" where
  "getCurrentRate meanwhile fetched now s =
     (case cachedRate s of
        Some c \<Rightarrow> if isStale now c then refreshRate meanwhile fetched now s else (cr_rate c, s)
      | None \<Rightarrow> refreshRate meanwhile fetched now s)"

definition getCachedRateInfo :: "millis \<Rightarrow> rate_state \<Rightarrow> (number \<times> millis \<times> bool) option" where
  "getCachedRateInfo now s =
     map_option (\<lambda>c. (cr_rate c, cr_fetchedAt c, isStale now c)) (cachedRate s)"

text \<open>The timer; the boolean says whether an initial refresh is started.\<close>

definition startPeriodicRefresh :: "rate_state \<Rightarrow> rate_state \<times> bool" where
  "startPeriodicRefresh s =
     (if refreshTimer s then (s, False) else (s\<lparr>refreshTimer := True\<rparr>, True))"

definition stopPeriodicRefresh :: "rate_state \<Rightarrow> rate_state" where
  "stopPeriodicRefresh s = (if refreshTimer s then s\<lparr>refreshTimer := False\<rparr> else s)"

subsection \<open>Any interleaving of refreshes hands out positive, finite rates\<close>

text \<open>
  One step of the module: what one task does between two awaits. The label is the rate the step
  hands to its caller, if it returns. Which task moves, what the contract answers and when, is
  left open.
\<close>

inductive rate_step :: "rate_state \<Rightarrow> number option \<Rightarrow> rate_state \<Rightarrow> bool" where
  hit: "cachedRate s = Some c \<Longrightarrow> \<not> isStale now c \<Longrightarrow> rate_step s (Some (cr_rate c)) s"
| enter: "refresh_enter s = Some s' \<Longrightarrow> rate_step s None s'"
| wake: "refresh_wake s = (r, s') \<Longrightarrow> rate_step s r s'"
| finish: "refresh_finish fetched now s = (r, s') \<Longrightarrow> rate_step s (Some r) s'"
| start: "startPeriodicRefresh s = (s', b) \<Longrightarrow> rate_step s None s'"
| stop: "rate_step s None (stopPeriodicRefresh s)"

inductive rate_reachable :: "rate_state \<Rightarrow> bool" where
  init: "rate_reachable init_rate"
| step: "rate_reachable s \<Longrightarrow> rate_step s r s' \<Longrightarrow> rate_reachable s'"

inductive_cases rate_stepE: "rate_step s r s'"

definition rate_inv :: "rate_state \<Rightarrow> bool" where
  "rate_inv s \<longleftrightarrow> (\<forall>c. cachedRate s = Some c \<longrightarrow> valid_rate (cr_rate c))"

lemma valid_rate_Fin: "valid_rate r \<longleftrightarrow> (\<exists>q. r = Fin q \<and> 0 < q)"
  by (cases r) (auto simp: valid_rate_def)

lemma valid_rate_1 [simp]: "valid_rate 1"
  by (simp add: valid_rate_Fin one_number_def)

lemma rate_inv_init: "rate_inv init_rate"
  by (simp add: rate_inv_def init_rate_def)

lemma refresh_finish_inv [inv_intros]:
  "rate_inv s \<Longrightarrow> refresh_finish fetched now s = (r, s') \<Longrightarrow> rate_inv s' \<and> valid_rate r"
  by (auto simp: rate_inv_def refresh_finish_def Let_def split: option.splits sum.splits if_splits)

lemma refresh_wake_inv [inv_intros]:
  "rate_inv s \<Longrightarrow> refresh_wake s = (r, s') \<Longrightarrow> rate_inv s' \<and> (\<forall>x. r = Some x \<longrightarrow> valid_rate x)"
  by (auto simp: rate_inv_def refresh_wake_def split: option.splits)

lemma rate_step_inv:
  assumes "rate_step s r s'" "rate_inv s"
  shows "rate_inv s' \<and> (\<forall>x. r = Some x \<longrightarrow> valid_rate x)"
  using assms
proof cases
  case (hit c now)
  then show ?thesis using assms(2) by (simp add: rate_inv_def)
next
  case enter
  then show ?thesis using assms(2) by (auto simp: rate_inv_def refresh_enter_def split: if_splits)
next
  case wake
  then show ?thesis using refresh_wake_inv [OF assms(2)] by simp
next
  case (finish fetched now x)
  then show ?thesis using refresh_finish_inv [OF assms(2)] by simp
next
  case (start b)
  then show ?thesis using assms(2) by (auto simp: rate_inv_def startPeriodicRefresh_def split: if_splits)
next
  case stop
  then show ?thesis using assms(2) by (auto simp: rate_inv_def stopPeriodicRefresh_def)
qed

lemma reachable_rate_inv: "rate_reachable s \<Longrightarrow> rate_inv s"
  by (induction rule: rate_reachable.induct) (auto simp: rate_inv_init dest: rate_step_inv)

text \<open>
  C5. Whatever the staking contract answers (an error, NaN, an infinity, zero, a negative number)
  and however the asynchronous refreshes interleave, every exchange rate that
  \<open>getCurrentRate\<close> or \<open>refreshRate\<close> hands out is a finite number greater than zero, so that
  the divisions by it downstream are defined.
\<close>

theorem rates_handed_out_are_positive:
  assumes "rate_reachable s" "rate_step s (Some r) s'"
  shows "isFinite r \<and> 0 < r"
  using rate_step_inv [OF assms(2) reachable_rate_inv [OF assms(1)]]
  by (auto simp: valid_rate_Fin)

theorem rates_handed_out_are_positive_witness:
  "isFinite (Fin (5/4)) \<and> 0 < Fin (5/4)"
proof -
  let ?s = "init_rate\<lparr>isRefreshing := True\<rparr>"
  have "rate_step init_rate None ?s" by (rule rate_step.enter) (simp add: refresh_enter_def init_rate_def)
  then have r: "rate_reachable ?s" by (rule rate_reachable.step [OF rate_reachable.init])
  have "rate_step ?s (Some (Fin (5/4)))
     (init_rate\<lparr>cachedRate := Some \<lparr>cr_rate = Fin (5/4), cr_fetchedAt = 0\<rparr>\<rparr>)"
    by (rule rate_step.finish [where fetched = "Inr (Fin (5/4))" and now = 0])
      (simp add: refresh_finish_def valid_rate_def init_rate_def Let_def)
  from rates_handed_out_are_positive [OF r this] show ?thesis .
qed

subsection \<open>Conversions\<close>

definition computeExchangeRate :: "stroops \<Rightarrow> stroops \<Rightarrow> number" where
  "computeExchangeRate totalXlmStaked totalSxlmSupply =
     (if totalSxlmSupply = 0 then 1 else num_of_big totalXlmStaked / num_of_big totalSxlmSupply)"

definition xlmToSxlm :: "stroops \<Rightarrow> number \<Rightarrow> js_error + stroops" where
  "xlmToSxlm xlmStroops exchangeRate =
     (if exchangeRate \<le> 0 then throw (Err ''Invalid exchange rate'')
      else floor_big (num_of_big xlmStroops / exchangeRate))"

definition sxlmToXlm :: "stroops \<Rightarrow> number \<Rightarrow> js_error + stroops" where
  "sxlmToXlm sxlmStroops exchangeRate =
     (if exchangeRate \<le> 0 then throw (Err ''Invalid exchange rate'')
      else floor_big (num_of_big sxlmStroops * exchangeRate))"

lemma xlmToSxlm_eq:
  assumes "0 \<le> x" "x \<le> 2^50" "1/4 \<le> q"
  shows "xlmToSxlm x (Fin q) = Inr \<lfloor>rndq (of_int x / q)\<rfloor>"
proof -
  have "of_int x / q \<le> of_int (2^50) / (1/4)" using assms by (intro frac_le) (auto simp flip: of_int_power)
  then have "\<bar>of_int x / q\<bar> \<le> 2 ^ 110" using assms by simp
  then have "rnd (of_int x / q) = Fin (rndq (of_int x / q))" by (intro rnd_Fin_300 small_le_300)
  then show ?thesis using assms by (simp add: xlmToSxlm_def num_of_big_exact)
qed

lemma sxlmToXlm_eq:
  assumes "0 \<le> x" "x \<le> 2^53" "0 < q" "q \<le> 2^50"
  shows "sxlmToXlm x (Fin q) = Inr \<lfloor>rndq (of_int x * q)\<rfloor>"
proof -
  have "(of_int x :: rat) \<le> of_int (2^53)" using assms(2) by (simp only: of_int_le_iff)
  then have "of_int x * q \<le> of_int (2^53) * 2^50" using assms by (intro mult_mono) auto
  then have "\<bar>of_int x * q\<bar> \<le> 2 ^ 110" using assms by simp
  then have "rnd (of_int x * q) = Fin (rndq (of_int x * q))" by (intro rnd_Fin_300 small_le_300)
  then show ?thesis using assms by (simp add: sxlmToXlm_def num_of_big_exact)
qed

lemma powi_m53: "(2::rat) powi (-53) = 1 / 2^53"
  by (simp add: power_int_minus_divide)

lemma tiny_powi: "(1::rat) / 2^60 \<le> x \<Longrightarrow> 2 powi (-1022) \<le> x"
proof -
  assume "1 / 2^60 \<le> x"
  moreover have "(2::rat) powi (-60) = 1 / 2^60" by (simp add: power_int_minus_divide)
  moreover have "(2::rat) powi (-1022) \<le> 2 powi (-60)" by (rule powi_mono) simp
  ultimately show ?thesis by linarith
qed

lemma rndq_upper_60: "1 / 2^60 \<le> x \<Longrightarrow> rndq x \<le> x * (1 + 1 / 2^53)"
  using rndq_upper [OF tiny_powi] by (simp only: powi_m53)

lemma round_trip_bound:
  fixes q :: rat
  assumes x: "0 \<le> x" "x \<le> 2^50" and q: "1/4 \<le> q" "q \<le> 2^50"
  shows "\<lfloor>rndq (of_int \<lfloor>rndq (of_int x / q)\<rfloor> * q)\<rfloor> \<le> x"
proof (cases "\<lfloor>rndq (of_int x / q)\<rfloor> = 0 \<or> x = 0")
  case True
  then show ?thesis using x by auto
next
  case False
  let ?v = "rndq (of_int x / q)" and ?u = "(1::rat) / 2^53"
  have xr: "(1::rat) \<le> of_int x" "(of_int x::rat) \<le> 2^50"
    using x False by (simp_all flip: of_int_power) 
  have vpos: "0 \<le> ?v" using xr q by (intro rndq_nonneg) simp
  have "0 \<le> \<lfloor>?v\<rfloor>" using vpos by (rule zero_le_floor [THEN iffD2])
  moreover have "\<lfloor>?v\<rfloor> \<noteq> 0" using False by (rule contrapos_nn) simp
  ultimately have s1: "1 \<le> \<lfloor>?v\<rfloor>" by presburger
  have "1 / 2^50 \<le> of_int x / q" using xr q by (intro frac_le) auto
  then have "1 / 2^60 \<le> of_int x / q" by (rule order_trans [rotated]) simp
  then have "?v \<le> (of_int x / q) * (1 + ?u)" by (rule rndq_upper_60)
  then have vq: "?v * q \<le> of_int x * (1 + ?u)" using q by (simp add: field_simps)
  have "(of_int \<lfloor>?v\<rfloor> :: rat) * q \<le> ?v * q" using q by (intro mult_right_mono) auto
  with vq have sq: "of_int \<lfloor>?v\<rfloor> * q \<le> of_int x * (1 + ?u)" by linarith
  have "1 * (1/4) \<le> (of_int \<lfloor>?v\<rfloor> :: rat) * q" using s1 q by (intro mult_mono) auto
  then have "1 / 2^60 \<le> (of_int \<lfloor>?v\<rfloor> :: rat) * q" by simp
  then have "rndq (of_int \<lfloor>?v\<rfloor> * q) \<le> of_int \<lfloor>?v\<rfloor> * q * (1 + ?u)"
    by (rule rndq_upper_60)
  also have "\<dots> \<le> of_int x * (1 + ?u) * (1 + ?u)" using sq by (intro mult_right_mono) auto
  also have "\<dots> < of_int x + 1" using xr by (simp add: field_simps)
  finally show ?thesis by (simp add: floor_le_iff)
qed

text \<open>
  C4. Converting XLM to sXLM and back at the same rate never yields more XLM than was put in,
  in spite of the two double roundings, for any amount up to \<open>2^50\<close> stroops (the staking limit
  is \<open>10^14 < 2^50\<close>) and any rate from a quarter up.
\<close>

theorem stake_unstake_no_profit:
  assumes "0 \<le> x" "x \<le> 2^50" "1/4 \<le> q" "q \<le> 2^50"
  shows "\<exists>s y. xlmToSxlm x (Fin q) = Inr s \<and> sxlmToXlm s (Fin q) = Inr y \<and> 0 \<le> s \<and> 0 \<le> y \<and> y \<le> x"
proof -
  let ?v = "rndq (of_int x / q)"
  have v0: "0 \<le> ?v" using assms by (intro rndq_nonneg) simp
  have "(of_int x :: rat) \<le> of_int (2^50)" using assms(2) by (simp only: of_int_le_iff)
  then have "of_int x / q \<le> of_int (2^50) / (1/4)" using assms by (intro frac_le) auto
  then have "?v \<le> of_int (2^52)" by (intro dbl.rd_le_int) simp_all
  then have s: "0 \<le> \<lfloor>?v\<rfloor>" "\<lfloor>?v\<rfloor> \<le> 2^53" using v0 by (simp_all add: floor_le_iff)
  have "sxlmToXlm \<lfloor>?v\<rfloor> (Fin q) = Inr \<lfloor>rndq (of_int \<lfloor>?v\<rfloor> * q)\<rfloor>"
    using s assms by (intro sxlmToXlm_eq) auto
  moreover have "0 \<le> \<lfloor>rndq (of_int \<lfloor>?v\<rfloor> * q)\<rfloor>"
    using s assms by (intro dbl.floor_rd_nonneg) simp
  ultimately show ?thesis
    using xlmToSxlm_eq [OF assms(1-3)] round_trip_bound [OF assms] s(1) by auto
qed

theorem stake_unstake_no_profit_witness:
  "\<exists>s y. xlmToSxlm 10000000 (Fin (3/2)) = Inr s \<and> sxlmToXlm s (Fin (3/2)) = Inr y
     \<and> 0 \<le> s \<and> 0 \<le> y \<and> y \<le> (10000000::int)"
  by (rule stake_unstake_no_profit) simp_all

text \<open>
  At a rate of at least one, staking never mints more sXLM than XLM was deposited, and the
  conversion is monotone in the deposit.
\<close>

theorem xlmToSxlm_no_inflation:
  assumes "0 \<le> x" "x \<le> y" "y \<le> 2^50" "1 \<le> q"
  shows "\<exists>m n. xlmToSxlm x (Fin q) = Inr m \<and> xlmToSxlm y (Fin q) = Inr n \<and> 0 \<le> m \<and> m \<le> n \<and> n \<le> y"
proof -
  have "(of_int x :: rat) / q \<le> of_int y / q" using assms by (intro divide_right_mono) auto
  then have mono: "\<lfloor>rndq (of_int x / q)\<rfloor> \<le> \<lfloor>rndq (of_int y / q)\<rfloor>" by (rule dbl.floor_rd_mono)
  have "rndq (of_int y / q) \<le> of_int y"
    using assms by (intro dbl.divide_down) auto
  then have "\<lfloor>rndq (of_int y / q)\<rfloor> \<le> y" by (simp add: floor_le_iff)
  moreover have "0 \<le> \<lfloor>rndq (of_int x / q)\<rfloor>" using assms by (intro dbl.floor_rd_nonneg) simp
  ultimately show ?thesis using assms mono by (auto simp: xlmToSxlm_eq)
qed

theorem xlmToSxlm_no_inflation_witness:
  "\<exists>m n. xlmToSxlm 3 (Fin (11/8)) = Inr m \<and> xlmToSxlm 10 (Fin (11/8)) = Inr n
     \<and> 0 \<le> m \<and> m \<le> n \<and> n \<le> (10::int)"
  by (rule xlmToSxlm_no_inflation) simp_all

end
