(* ===== verification/Contract_Client.thy ===== *)
theory Contract_Client
  imports Chain_Rpc Protocol_Config
begin

text \<open>
  \<open>staking-engine/contractClient.ts\<close>: the read and write calls the backend makes on the staking,
  token, lending and pool contracts, signed by the administrator's key. A call takes the answers
  of the RPC endpoint from an environment; a write also returns the invocations the network
  accepted for execution.
\<close>

subsection \<open>Waiting for a transaction\<close>

fun pollTransaction_loop ::
  "tx_hash \<Rightarrow> nat \<Rightarrow> (nat \<Rightarrow> js_error + 'm tx_reply) \<Rightarrow> nat \<Rightarrow> nat \<Rightarrow> js_error + 'm" where
  "pollTransaction_loop h maxAttempts ans attempt 0 =
     throw (Err (''Transaction '' @ h @ '' not confirmed after '' @ dec maxAttempts @ '' attempts''))"
| "pollTransaction_loop h maxAttempts ans attempt (Suc left) =
     (case ans attempt of
        Inl e \<Rightarrow> throw e
      | Inr (Tx_success m) \<Rightarrow> return m
      | Inr (Tx_failed why) \<Rightarrow> throw (Err (''Transaction '' @ h @ '' failed: '' @ why))
      | Inr Tx_pending \<Rightarrow> pollTransaction_loop h maxAttempts ans (Suc attempt) left)"

definition pollTransaction :: "tx_hash \<Rightarrow> (nat \<Rightarrow> js_error + 'm tx_reply) \<Rightarrow> js_error + 'm" where
  "pollTransaction h ans = pollTransaction_loop h 30 ans 0 30"

definition poll_decide :: "tx_hash \<Rightarrow> js_error + 'm tx_reply \<Rightarrow> (js_error + 'm) option" where
  "poll_decide h a =
     (case a of
        Inl e \<Rightarrow> Some (Inl e)
      | Inr (Tx_success m) \<Rightarrow> Some (Inr m)
      | Inr (Tx_failed why) \<Rightarrow> Some (Inl (Err (''Transaction '' @ h @ '' failed: '' @ why)))
      | Inr Tx_pending \<Rightarrow> None)"

lemma poll_decide_None: "poll_decide h a = None \<longleftrightarrow> a = Inr Tx_pending"
  by (auto simp: poll_decide_def split: sum.splits tx_reply.splits)

interpretation client_poll: poll_loop
  "pollTransaction_loop h maxAttempts" "poll_decide h"
  "Inl (Err (''Transaction '' @ h @ '' not confirmed after '' @ dec maxAttempts @ '' attempts''))"
  by unfold_locales (simp_all add: poll_decide_def split: sum.splits tx_reply.splits)

subsection \<open>Write calls\<close>

record call_env =
  ce_account :: "js_error option"
  ce_prepare :: "js_error option"
  ce_send :: "js_error + send_reply"
  ce_poll :: "nat \<Rightarrow> js_error + native option tx_reply"

text \<open>
  The shared body of the write calls: load the source account, build, simulate and sign, send,
  poll. The result is the hash and the return value found in the transaction's metadata. The
  first component lists what the network accepted for execution.
\<close>

definition submit_call ::
  "string \<Rightarrow> invocation \<Rightarrow> call_env \<Rightarrow> invocation list \<times> (js_error + tx_hash \<times> native option)" where
  "submit_call label call ev =
     (case ce_account ev of Some e \<Rightarrow> ([], throw e) | None \<Rightarrow>
     (case ce_prepare ev of Some e \<Rightarrow> ([], throw e) | None \<Rightarrow>
     (case ce_send ev of Inl e \<Rightarrow> ([], throw e) | Inr r \<Rightarrow>
        if sent_status r = SEND_ERROR then ([], throw (Err (label @ sent_error r)))
        else ([call], bind_result (pollTransaction (sent_hash r) (ce_poll ev)) (\<lambda>v. return (sent_hash r, v))))))"

record deposit_result =
  dr_txHash :: tx_hash
  dr_sxlmMinted :: int
  dr_exchangeRate :: number

record withdrawal_request_result =
  wr_txHash :: tx_hash
  wr_withdrawalId :: number
  wr_unlockTime :: millis
  wr_isInstant :: "native option"   \<comment> \<open>\<open>None\<close> is \<open>undefined\<close>\<close>
  wr_xlmAmount :: int

record claim_result =
  cr_txHash :: tx_hash
  cr_xlmReturned :: int

definition returned_amount :: "native option \<Rightarrow> js_error + int" where
  "returned_amount v = (case v of None \<Rightarrow> return 0 | Some r \<Rightarrow> big_of_native r)"

definition callDeposit ::
  "wallet \<Rightarrow> stroops \<Rightarrow> call_env \<Rightarrow> js_error + number \<Rightarrow> invocation list \<times> (js_error + deposit_result)" where
  "callDeposit user xlmAmount ev rate =
     (let (sent, r) = submit_call ''Deposit transaction failed: ''
            \<lparr>on_contract = Staking, call_method = ''deposit'', call_args = [SC_address user, SC_i128 xlmAmount]\<rparr> ev
      in (sent, bind_result r (\<lambda>(h, v). bind_result (returned_amount v) (\<lambda>minted.
            bind_result rate (\<lambda>er.
              return \<lparr>dr_txHash = h, dr_sxlmMinted = minted, dr_exchangeRate = er\<rparr>)))))"

fun truthy :: "native option \<Rightarrow> bool" where
  "truthy None = False"
| "truthy (Some N_null) = False"
| "truthy (Some (N_num n)) = (n \<noteq> 0)"
| "truthy (Some (N_big n)) = (n \<noteq> 0)"
| "truthy (Some (N_bool b)) = b"
| "truthy (Some (N_str s)) = (s \<noteq> [])"
| "truthy (Some (N_vec vs)) = True"
| "truthy (Some (N_map kvs)) = True"

definition field :: "string \<Rightarrow> native \<Rightarrow> js_error + native option" where
  "field k v = (case v of N_null \<Rightarrow> throw TypeError | N_map kvs \<Rightarrow> return (map_of kvs k) | _ \<Rightarrow> return None)"

definition callRequestWithdrawal ::
  "wallet \<Rightarrow> stroops \<Rightarrow> millis \<Rightarrow> call_env \<Rightarrow> invocation list \<times> (js_error + withdrawal_request_result)" where
  "callRequestWithdrawal user sxlmAmount now ev =
     (let (sent, r) = submit_call ''Withdrawal request failed: ''
            \<lparr>on_contract = Staking, call_method = ''request_withdrawal'',
             call_args = [SC_address user, SC_i128 sxlmAmount]\<rparr> ev
      in (sent, bind_result r (\<lambda>(h, v).
         case v of
           None \<Rightarrow> return \<lparr>wr_txHash = h, wr_withdrawalId = 0, wr_unlockTime = now + unbondingPeriodMs,
                           wr_isInstant = Some (N_bool False), wr_xlmAmount = 0\<rparr>
         | Some result \<Rightarrow>
             bind_result (field ''withdrawal_id'' result) (\<lambda>i.
             bind_result (field ''is_instant'' result) (\<lambda>inst.
             bind_result (field ''xlm_amount'' result) (\<lambda>x.
             bind_result (case x of None \<Rightarrow> throw TypeError | Some a \<Rightarrow> big_of_native a) (\<lambda>xlm.
               return \<lparr>wr_txHash = h, wr_withdrawalId = (case i of None \<Rightarrow> NaN | Some n \<Rightarrow> num_of_native n),
                 wr_unlockTime = (if truthy inst then now else now + unbondingPeriodMs),
                 wr_isInstant = inst, wr_xlmAmount = xlm\<rparr>)))))))"

definition callClaimWithdrawal ::
  "wallet \<Rightarrow> int \<Rightarrow> call_env \<Rightarrow> invocation list \<times> (js_error + claim_result)" where
  "callClaimWithdrawal user withdrawalId ev =
     (let (sent, r) = submit_call ''Claim failed: ''
            \<lparr>on_contract = Staking, call_method = ''claim_withdrawal'',
             call_args = [SC_address user, SC_u64 withdrawalId]\<rparr> ev
      in (sent, bind_result r (\<lambda>(h, v). bind_result (returned_amount v) (\<lambda>xlm.
            return \<lparr>cr_txHash = h, cr_xlmReturned = xlm\<rparr>))))"

text \<open>
  The admin calls on the three contracts share one shape: a label for the error and the hash as
  the result.
\<close>

definition executeAdminContractCall ::
  "string \<Rightarrow> sc_arg list \<Rightarrow> call_env \<Rightarrow> invocation list \<times> (js_error + tx_hash)" where
  "executeAdminContractCall m args ev =
     (let (sent, r) = submit_call (m @ '' failed: '') \<lparr>on_contract = Staking, call_method = m, call_args = args\<rparr> ev
      in (sent, bind_result r (\<lambda>(h, v). return h)))"

definition executeLpPoolAdminCall ::
  "string \<Rightarrow> sc_arg list \<Rightarrow> call_env \<Rightarrow> invocation list \<times> (js_error + tx_hash)" where
  "executeLpPoolAdminCall m args ev =
     (let (sent, r) = submit_call (''lp_pool::'' @ m @ '' failed: '')
            \<lparr>on_contract = Lp_Pool, call_method = m, call_args = args\<rparr> ev
      in (sent, bind_result r (\<lambda>(h, v). return h)))"

definition executeLendingAdminCall ::
  "string \<Rightarrow> sc_arg list \<Rightarrow> call_env \<Rightarrow> invocation list \<times> (js_error + tx_hash)" where
  "executeLendingAdminCall m args ev =
     (let (sent, r) = submit_call (''lending::'' @ m @ '' failed: '')
            \<lparr>on_contract = Lending, call_method = m, call_args = args\<rparr> ev
      in (sent, bind_result r (\<lambda>(h, v). return h)))"

type_synonym admin_call = "call_env \<Rightarrow> invocation list \<times> (js_error + tx_hash)"

definition callWithdrawFees :: "stroops \<Rightarrow> admin_call" where
  "callWithdrawFees amt = executeAdminContractCall ''withdraw_fees'' [SC_i128 amt]"
definition callAddRewards :: "stroops \<Rightarrow> admin_call" where
  "callAddRewards amt = executeAdminContractCall ''add_rewards'' [SC_i128 amt]"
definition callRecalibrateRate :: admin_call where
  "callRecalibrateRate = executeAdminContractCall ''recalibrate_rate'' []"
definition callApplySlashing :: "stroops \<Rightarrow> admin_call" where
  "callApplySlashing amt = executeAdminContractCall ''apply_slashing'' [SC_i128 amt]"
definition callPause :: admin_call where
  "callPause = executeAdminContractCall ''pause'' []"
definition callUnpause :: admin_call where
  "callUnpause = executeAdminContractCall ''unpause'' []"
definition callSetCooldownPeriod :: "int \<Rightarrow> admin_call" where
  "callSetCooldownPeriod period = executeAdminContractCall ''set_cooldown_period'' [SC_u64 period]"
definition callCollectProtocolFees :: admin_call where
  "callCollectProtocolFees = executeLpPoolAdminCall ''collect_protocol_fees'' []"
definition callSetLpProtocolFeeBps :: "int \<Rightarrow> admin_call" where
  "callSetLpProtocolFeeBps bps = executeLpPoolAdminCall ''set_protocol_fee_bps'' [SC_u32 bps]"
definition callUpdateCollateralFactor :: "int \<Rightarrow> admin_call" where
  "callUpdateCollateralFactor bps = executeLendingAdminCall ''update_collateral_factor'' [SC_u64 bps]"
definition callUpdateBorrowRate :: "int \<Rightarrow> admin_call" where
  "callUpdateBorrowRate bps = executeLendingAdminCall ''update_borrow_rate'' [SC_u64 bps]"
definition callUpdateLiquidationThreshold :: "int \<Rightarrow> admin_call" where
  "callUpdateLiquidationThreshold bps = executeLendingAdminCall ''update_liquidation_threshold'' [SC_u64 bps]"

subsection \<open>Read calls\<close>

record 'v view_env =
  ve_account :: "js_error option"
  ve_sim :: "js_error + 'v sim_reply"

definition simulate_view :: "'v view_env \<Rightarrow> js_error + 'v sim_reply" where
  "simulate_view ev = (case ve_account ev of Some e \<Rightarrow> throw e | None \<Rightarrow> ve_sim ev)"

definition view_or_throw :: "string \<Rightarrow> 'v view_env \<Rightarrow> js_error + 'v" where
  "view_or_throw name ev =
     bind_result (simulate_view ev) (\<lambda>r.
       case r of
         Sim_error e \<Rightarrow> throw (Err (name @ '' simulation failed: '' @ e))
       | Sim_success (Some v) \<Rightarrow> return v
       | Sim_success None \<Rightarrow> throw (Err (name @ '': no result from simulation'')))"

definition getExchangeRate :: "int view_env \<Rightarrow> js_error + number" where
  "getExchangeRate ev =
     bind_result (view_or_throw ''getExchangeRate'' ev) (\<lambda>raw. return (num_of_big raw / lit 10000000))"

definition getTotalStaked :: "int view_env \<Rightarrow> js_error + stroops" where
  "getTotalStaked = view_or_throw ''getTotalStaked''"
definition getTotalSupply :: "int view_env \<Rightarrow> js_error + stroops" where
  "getTotalSupply = view_or_throw ''getTotalSupply''"
definition getLiquidityBuffer :: "int view_env \<Rightarrow> js_error + stroops" where
  "getLiquidityBuffer = view_or_throw ''getLiquidityBuffer''"
definition getTreasuryBalance :: "int view_env \<Rightarrow> js_error + stroops" where
  "getTreasuryBalance = view_or_throw ''getTreasuryBalance''"

definition getIsPaused :: "bool view_env \<Rightarrow> js_error + bool" where
  "getIsPaused ev =
     bind_result (simulate_view ev) (\<lambda>r.
       case r of
         Sim_error e \<Rightarrow> throw (Err (''getIsPaused simulation failed: '' @ e))
       | Sim_success (Some b) \<Rightarrow> return b
       | Sim_success None \<Rightarrow> return False)"

definition getProtocolFeeBps :: "int view_env \<Rightarrow> js_error + number" where
  "getProtocolFeeBps ev =
     bind_result (simulate_view ev) (\<lambda>r.
       case r of
         Sim_error e \<Rightarrow> return (lit 1000)
       | Sim_success (Some v) \<Rightarrow> return (num_of_big v)
       | Sim_success None \<Rightarrow> return (lit 1000))"

definition getLpAccruedProtocolFees :: "int view_env \<Rightarrow> js_error + stroops" where
  "getLpAccruedProtocolFees ev =
     bind_result (simulate_view ev) (\<lambda>r.
       case r of
         Sim_success (Some v) \<Rightarrow> return v
       | _ \<Rightarrow> return 0)"

subsection \<open>Pushing the exchange rate to the lending contract\<close>

text \<open>
  The polling loop of \<open>callUpdateLendingExchangeRate\<close> reads the bare status from the JSON-RPC
  answer (\<open>None\<close>: no status in it). It breaks on success, throws on failure, and falls through
  when its attempts are used up.
\<close>

fun lending_poll :: "tx_hash \<Rightarrow> (nat \<Rightarrow> js_error + string option) \<Rightarrow> nat \<Rightarrow> nat \<Rightarrow> js_error + unit" where
  "lending_poll h ans attempts 0 = return ()"
| "lending_poll h ans attempts (Suc left) =
     (case ans attempts of
        Inl e \<Rightarrow> throw e
      | Inr st \<Rightarrow>
          if st = Some ''SUCCESS'' then return ()
          else if st = Some ''FAILED'' then throw (Err (''update_exchange_rate tx failed: '' @ h))
          else lending_poll h ans (Suc attempts) left)"

definition lending_decide :: "tx_hash \<Rightarrow> js_error + string option \<Rightarrow> (js_error + unit) option" where
  "lending_decide h a =
     (case a of
        Inl e \<Rightarrow> Some (Inl e)
      | Inr st \<Rightarrow> if st = Some ''SUCCESS'' then Some (Inr ())
                  else if st = Some ''FAILED'' then Some (Inl (Err (''update_exchange_rate tx failed: '' @ h)))
                  else None)"

interpretation lending_rate_poll: poll_loop "lending_poll h" "lending_decide h" "Inr ()"
  by unfold_locales (simp_all add: lending_decide_def split: sum.splits)

definition scaledRate :: "number \<Rightarrow> js_error + int" where
  "scaledRate rate = big_of_num (js_round (rate * lit 10000000))"

definition callUpdateLendingExchangeRate ::
  "number \<Rightarrow> call_env \<Rightarrow> (nat \<Rightarrow> js_error + string option) \<Rightarrow> invocation list \<times> (js_error + unit)" where
  "callUpdateLendingExchangeRate rate ev ans =
     (case scaledRate rate of
        Inl e \<Rightarrow> ([], throw e)
      | Inr scaled \<Rightarrow>
          if scaled \<le> 0 then ([], return ())
          else
     (case ce_account ev of Some e \<Rightarrow> ([], throw e) | None \<Rightarrow>
     (case ce_prepare ev of Some e \<Rightarrow> ([], throw e) | None \<Rightarrow>
     (case ce_send ev of Inl e \<Rightarrow> ([], throw e) | Inr r \<Rightarrow>
        if sent_status r = SEND_ERROR
        then ([], throw (Err (''callUpdateLendingExchangeRate failed: '' @ sent_error r)))
        else ([\<lparr>on_contract = Lending, call_method = ''update_exchange_rate'', call_args = [SC_i128 scaled]\<rparr>],
              lending_poll (sent_hash r) ans 0 30)))))"

subsection \<open>Outcomes of the write calls\<close>

lemma submit_call_result:
  assumes "submit_call label call ev = (sent, r)"
  shows "sent = [] \<and> isl r \<or>
     sent = [call] \<and> (\<exists>s. ce_send ev = Inr s \<and>
       r = bind_result (pollTransaction (sent_hash s) (ce_poll ev)) (\<lambda>v. Inr (sent_hash s, v)))"
  using assms by (auto simp: submit_call_def split: option.splits sum.splits if_splits)

text \<open>
  C10. \<open>pollTransaction\<close> returns exactly when one of the first 30 status queries answers success
  and no earlier one threw or reported a failure, and it then returns that answer's metadata:
  a transaction is never reported as done before the network says so, and later answers
  cannot change the outcome.
\<close>

theorem poll_success_iff_network_success:
  "pollTransaction h ans = Inr m \<longleftrightarrow>
     (\<exists>k<30. ans k = Inr (Tx_success m) \<and> (\<forall>j<k. ans j = Inr Tx_pending))"
proof
  assume r: "pollTransaction h ans = Inr m"
  show "\<exists>k<30. ans k = Inr (Tx_success m) \<and> (\<forall>j<k. ans j = Inr Tx_pending)"
  proof (rule client_poll.poll_cases [where ans = ans and i = 0 and n = 30 and h = h and maxAttempts = 30])
    assume "pollTransaction_loop h 30 ans 0 30 =
      Inl (Err (''Transaction '' @ h @ '' not confirmed after '' @ dec 30 @ '' attempts''))"
    then show ?thesis using r by (simp add: pollTransaction_def)
  next
    fix k
    assume k: "k < 0 + 30" "poll_decide h (ans k) = Some (pollTransaction_loop h 30 ans 0 30)"
      "\<forall>j. 0 \<le> j \<and> j < k \<longrightarrow> poll_decide h (ans j) = None"
    have "ans k = Inr (Tx_success m)" using k(2) r
      by (auto simp: poll_decide_def pollTransaction_def split: sum.splits tx_reply.splits)
    moreover have "\<forall>j<k. ans j = Inr Tx_pending" using k(3) by (simp add: poll_decide_None)
    ultimately show ?thesis using k(1) by auto
  qed
next
  assume "\<exists>k<30. ans k = Inr (Tx_success m) \<and> (\<forall>j<k. ans j = Inr Tx_pending)"
  then obtain k where "k < 30" "ans k = Inr (Tx_success m)" "\<forall>j<k. ans j = Inr Tx_pending" by blast
  then show "pollTransaction h ans = Inr m"
    unfolding pollTransaction_def by (intro client_poll.poll_first [where k = k]) (auto simp: poll_decide_def)
qed

theorem poll_success_iff_network_success_witness:
  "pollTransaction ''h'' (\<lambda>i. if i < 2 then Inr Tx_pending else Inr (Tx_success (7::int))) = Inr 7"
proof -
  have "\<exists>k<30. (\<lambda>i::nat. if i < 2 then Inr Tx_pending else Inr (Tx_success (7::int))) k
       = (Inr (Tx_success 7) :: js_error + int tx_reply) \<and>
     (\<forall>j<k. (\<lambda>i::nat. if i < 2 then Inr Tx_pending else Inr (Tx_success (7::int))) j = (Inr Tx_pending :: js_error + int tx_reply))"
    by (intro exI [of _ 2]) simp
  then show ?thesis unfolding poll_success_iff_network_success .
qed

lemma rate_round_trip:
  assumes "1 \<le> raw" "raw \<le> 2^49"
  shows "scaledRate (num_of_big raw / lit 10000000) = Inr raw"
proof -
  let ?u = "(1::rat) / 2^53" and ?q = "(of_int raw :: rat) / 10000000"
  let ?v = "rndq ?q" let ?w = "rndq (?v * 10000000)"
  have r: "(1::rat) \<le> of_int raw" "(of_int raw :: rat) \<le> 2^49"
    using assms by (simp_all flip: of_int_power)
  have small: "(2::rat) powi (-1022) \<le> 1 / 10000000"
  proof -
    have "(2::rat) powi (-1022) \<le> 2 powi (-30)" by (rule powi_mono) simp
    also have "\<dots> = 1 / 2^30" by (simp add: power_int_minus_divide)
    also have "\<dots> \<le> 1 / 10000000" by simp
    finally show ?thesis .
  qed
  have u: "(2::rat) powi (-53) = ?u" by (simp add: power_int_minus_divide)
  have q: "1 / 10000000 \<le> ?q" using r by simp
  have e1: "\<bar>?v - ?q\<bar> \<le> ?q * ?u" using rndq_error [of ?q] small q r by (simp add: u)
  have "?q * ?u \<le> ?q / 2" using r by simp
  then have v: "?q / 2 \<le> ?v" "?v \<le> 2 * ?q" using e1 r by linarith+
  have "1 / 2^30 \<le> ?q / 2" using q by simp
  then have v1: "1 \<le> ?v * 10000000 * 2" using v(1) r by linarith
  have e2: "\<bar>?w - ?v * 10000000\<bar> \<le> ?v * 10000000 * ?u"
  proof -
    have "(2::rat) powi (-1022) \<le> 1 / 10000000" by (rule small)
    also have "\<dots> \<le> ?v * 10000000" using v1 by linarith
    finally have "(2::rat) powi (-1022) \<le> ?v * 10000000" .
    then show ?thesis using rndq_error [of "?v * 10000000"] v1 by (simp add: u)
  qed
  have "?v * 10000000 - of_int raw = (?v - ?q) * 10000000" by (simp add: left_diff_distrib)
  then have "\<bar>?v * 10000000 - of_int raw\<bar> = \<bar>?v - ?q\<bar> * 10000000" by (simp only: abs_mult)
  also have "\<dots> \<le> ?q * ?u * 10000000" using e1 by (intro mult_right_mono) auto
  finally have "\<bar>?v * 10000000 - of_int raw\<bar> \<le> of_int raw * ?u" by simp
  moreover have "?v * 10000000 * ?u \<le> 2 * of_int raw * ?u" using v(2) by simp
  moreover have "3 * of_int raw * ?u < 1 / 2" using r by simp
  ultimately have "\<bar>?w - of_int raw\<bar> < 1 / 2" using e2 by linarith
  then have "?w - of_int raw < 1 / 2" "- (1 / 2) < ?w - of_int raw" unfolding abs_less_iff by linarith+
  then have fl: "\<lfloor>?w + 1 / 2\<rfloor> = raw" unfolding floor_eq_iff by linarith
  have "\<bar>?q\<bar> \<le> 2^110" "\<bar>?v * 10000000\<bar> \<le> 2^110" using r v by simp_all
  then have "rnd ?q = Fin ?v" "rnd (?v * 10000000) = Fin ?w"
    by (simp_all only: rnd_Fin_300 small_le_300)
  then show ?thesis using assms fl by (simp add: scaledRate_def num_of_big_exact)
qed

text \<open>
  The integer rate the staking contract reports is read as a double, scaled up again and
  pushed to the lending contract: despite the two roundings the lending contract receives exactly
  the staking contract's integer, for every rate up to \<open>2^49\<close> (56 million XLM per sXLM).
\<close>

theorem lending_rate_roundtrip:
  assumes "getExchangeRate view = Inr rate" "ve_account view = None" "ve_sim view = Inr (Sim_success (Some raw))"
    "1 \<le> raw" "raw \<le> 2^49"
  shows "fst (callUpdateLendingExchangeRate rate ev ans) =
     (if ce_account ev = None \<and> ce_prepare ev = None \<and> (\<exists>r. ce_send ev = Inr r \<and> sent_status r \<noteq> SEND_ERROR)
      then [\<lparr>on_contract = Lending, call_method = ''update_exchange_rate'', call_args = [SC_i128 raw]\<rparr>]
      else [])"
proof -
  have "rate = num_of_big raw / lit 10000000"
    using assms(1-3) by (simp add: getExchangeRate_def view_or_throw_def simulate_view_def)
  then have "scaledRate rate = Inr raw" using rate_round_trip assms(4,5) by simp
  then show ?thesis using assms(4)
    by (auto simp: callUpdateLendingExchangeRate_def split: option.splits sum.splits)
qed

definition sample_view :: "int view_env" where
  "sample_view = \<lparr>ve_account = None, ve_sim = Inr (Sim_success (Some 10042000))\<rparr>"

definition sample_call :: "(nat \<Rightarrow> js_error + native option tx_reply) \<Rightarrow> call_env" where
  "sample_call poll = \<lparr>ce_account = None, ce_prepare = None,
     ce_send = Inr \<lparr>sent_hash = ''h'', sent_status = PENDING, sent_error = []\<rparr>, ce_poll = poll\<rparr>"

theorem lending_rate_roundtrip_witness:
  "\<exists>rate. getExchangeRate sample_view = Inr rate \<and>
     fst (callUpdateLendingExchangeRate rate (sample_call (\<lambda>_. Inr Tx_pending)) (\<lambda>_. Inr None)) =
       [\<lparr>on_contract = Lending, call_method = ''update_exchange_rate'', call_args = [SC_i128 10042000]\<rparr>]"
proof -
  have "getExchangeRate sample_view = Inr (num_of_big 10042000 / lit 10000000)"
    by (simp add: getExchangeRate_def view_or_throw_def simulate_view_def sample_view_def)
  moreover from lending_rate_roundtrip [OF this, of 10042000]
  have "fst (callUpdateLendingExchangeRate (num_of_big 10042000 / lit 10000000)
       (sample_call (\<lambda>_. Inr Tx_pending)) (\<lambda>_. Inr None)) =
       [\<lparr>on_contract = Lending, call_method = ''update_exchange_rate'', call_args = [SC_i128 10042000]\<rparr>]"
    by (simp add: sample_view_def sample_call_def)
  ultimately show ?thesis by blast
qed

text \<open>
  When the network never answers with a final status, \<open>callUpdateLendingExchangeRate\<close> still
  returns normally after its 30 attempts (its caller takes the rate as updated), while every
  other confirmation loop of the client throws in that case.
\<close>

theorem lending_update_unconfirmed_is_silent:
  assumes "scaledRate rate = Inr n" "0 < n" "ce_account ev = None" "ce_prepare ev = None"
    "ce_send ev = Inr r" "sent_status r \<noteq> SEND_ERROR"
    "\<forall>k<30. ans k = Inr None \<and> ce_poll ev k = Inr Tx_pending"
  shows "snd (callUpdateLendingExchangeRate rate ev ans) = Inr () \<and>
    isl (snd (executeLendingAdminCall m args ev))"
proof
  have "lending_poll (sent_hash r) ans 0 30 = Inr ()"
    by (rule lending_rate_poll.poll_expired) (simp add: assms(7) lending_decide_def)
  then show "snd (callUpdateLendingExchangeRate rate ev ans) = Inr ()"
    using assms by (simp add: callUpdateLendingExchangeRate_def)
  have "pollTransaction (sent_hash r) (ce_poll ev) = Inl (Err (''Transaction '' @ sent_hash r
      @ '' not confirmed after '' @ dec 30 @ '' attempts''))"
    unfolding pollTransaction_def
    by (rule client_poll.poll_expired) (simp add: assms(7) poll_decide_None)
  then show "isl (snd (executeLendingAdminCall m args ev))"
    using assms by (simp add: executeLendingAdminCall_def submit_call_def Let_def)
qed

theorem lending_update_unconfirmed_is_silent_witness:
  "snd (callUpdateLendingExchangeRate 1 (sample_call (\<lambda>_. Inr Tx_pending)) (\<lambda>_. Inr None)) = Inr () \<and>
   isl (snd (executeLendingAdminCall ''update_borrow_rate'' [] (sample_call (\<lambda>_. Inr Tx_pending))))"
proof -
  have "rnd (1 * 10000000) = Fin 10000000" by simp
  then have "scaledRate 1 = Inr 10000000" by (simp add: scaledRate_def one_number_def)
  then show ?thesis
    by (rule lending_update_unconfirmed_is_silent
        [where r = "\<lparr>sent_hash = ''h'', sent_status = PENDING, sent_error = []\<rparr>"])
      (simp_all add: sample_call_def)
qed

subsection \<open>The encodings against the contracts' signatures\<close>

text \<open>
  The parameter types of the contract functions the client calls, from \<open>contracts/staking\<close>,
  \<open>contracts/lending\<close> and \<open>contracts/lp-pool\<close>. The host refuses a call whose argument values do
  not have the declared types.
\<close>

definition staking_signature :: "string \<Rightarrow> sc_type list option" where
  "staking_signature m = map_of
    [(''deposit'', [T_address, T_i128]),
     (''request_withdrawal'', [T_address, T_i128]),
     (''claim_withdrawal'', [T_address, T_u64]),
     (''add_rewards'', [T_i128]),
     (''withdraw_fees'', [T_i128]),
     (''apply_slashing'', [T_i128]),
     (''recalibrate_rate'', []),
     (''pause'', []),
     (''unpause'', []),
     (''set_cooldown_period'', [T_u32])] m"

definition lending_signature :: "string \<Rightarrow> sc_type list option" where
  "lending_signature m = map_of
    [(''update_exchange_rate'', [T_i128]),
     (''update_collateral_factor'', [T_u32]),
     (''update_liquidation_threshold'', [T_u32]),
     (''update_borrow_rate'', [T_u32])] m"

definition lp_pool_signature :: "string \<Rightarrow> sc_type list option" where
  "lp_pool_signature m = map_of
    [(''collect_protocol_fees'', []),
     (''set_protocol_fee_bps'', [T_u32])] m"

definition contract_signature :: "contract_name \<Rightarrow> string \<Rightarrow> sc_type list option" where
  "contract_signature c m =
     (case c of Staking \<Rightarrow> staking_signature m | Lending \<Rightarrow> lending_signature m
      | Lp_Pool \<Rightarrow> lp_pool_signature m | _ \<Rightarrow> None)"

definition well_typed_call :: "invocation \<Rightarrow> bool" where
  "well_typed_call i \<longleftrightarrow>
     contract_signature (on_contract i) (call_method i) = Some (map sc_type_of (call_args i))"

lemma fst_submit:
  "fst (executeAdminContractCall m args ev) = fst (submit_call (m @ '' failed: '') \<lparr>on_contract = Staking, call_method = m, call_args = args\<rparr> ev)"
  "fst (executeLpPoolAdminCall m args ev) = fst (submit_call (''lp_pool::'' @ m @ '' failed: '') \<lparr>on_contract = Lp_Pool, call_method = m, call_args = args\<rparr> ev)"
  "fst (executeLendingAdminCall m args ev) = fst (submit_call (''lending::'' @ m @ '' failed: '') \<lparr>on_contract = Lending, call_method = m, call_args = args\<rparr> ev)"
  by (simp_all add: executeAdminContractCall_def executeLpPoolAdminCall_def executeLendingAdminCall_def
      split_beta Let_def)

lemma submit_call_sent: "set (fst (submit_call label call ev)) \<subseteq> {call}"
  using submit_call_result [of label call ev] by (cases "submit_call label call ev") auto

lemma submit_call_accepted:
  assumes "ce_account ev = None" "ce_prepare ev = None" "ce_send ev = Inr r" "sent_status r \<noteq> SEND_ERROR"
  shows "fst (submit_call label call ev) = [call]"
  using assms by (simp add: submit_call_def)

lemmas admin_calls =
  callWithdrawFees_def callAddRewards_def callRecalibrateRate_def callApplySlashing_def callPause_def
  callUnpause_def callSetCooldownPeriod_def callCollectProtocolFees_def callSetLpProtocolFeeBps_def
  callUpdateCollateralFactor_def callUpdateBorrowRate_def callUpdateLiquidationThreshold_def

text \<open>
  The arguments of the treasury, reward, slashing, pause and pool calls have exactly the types
  the contracts declare, and a call submits nothing else. The four governance setters do not:
  \<open>callSetCooldownPeriod\<close>, \<open>callUpdateCollateralFactor\<close>, \<open>callUpdateBorrowRate\<close> and
  \<open>callUpdateLiquidationThreshold\<close> encode a 64-bit integer where the contracts declare 32 bits,
  so what they submit is never well typed.
\<close>

theorem admin_calls_match_contract_signatures:
  "(\<forall>f \<in> {callWithdrawFees a, callAddRewards a, callRecalibrateRate, callApplySlashing a, callPause,
           callUnpause, callCollectProtocolFees, callSetLpProtocolFeeBps b}.
      \<forall>c \<in> set (fst (f ev)). well_typed_call c) \<and>
   (\<forall>f \<in> {callSetCooldownPeriod b, callUpdateCollateralFactor b, callUpdateBorrowRate b,
           callUpdateLiquidationThreshold b}.
      \<forall>c \<in> set (fst (f ev)). \<not> well_typed_call c)"
proof -
  have all: "\<forall>c\<in>set (fst (submit_call label call ev)). P c" if "P call" for label call and P :: "invocation \<Rightarrow> bool"
    using submit_call_sent [of label call ev] that by auto
  show ?thesis
    unfolding admin_calls ball_simps fst_submit
    by (intro conjI all TrueI)
      (simp_all add: well_typed_call_def contract_signature_def staking_signature_def
        lending_signature_def lp_pool_signature_def)
qed

theorem admin_calls_match_contract_signatures_witness:
  "well_typed_call (hd (fst (callAddRewards 5 (sample_call (\<lambda>_. Inr Tx_pending))))) \<and>
   \<not> well_typed_call (hd (fst (callSetCooldownPeriod 100 (sample_call (\<lambda>_. Inr Tx_pending)))))"
proof -
  let ?ev = "sample_call (\<lambda>_. Inr Tx_pending)"
  have "fst (callAddRewards 5 ?ev) \<noteq> []" "fst (callSetCooldownPeriod 100 ?ev) \<noteq> []"
    unfolding admin_calls fst_submit by (simp_all add: submit_call_def sample_call_def)
  then show ?thesis
    using admin_calls_match_contract_signatures [of 5 100 ?ev] by (simp add: hd_in_set)
qed

text \<open>
  A claim that succeeds on chain is reported as an error: \<open>claim_withdrawal\<close> returns nothing,
  its return value reads as \<open>null\<close>, and the conversion \<open>BigInt(null)\<close> throws, after the network has
  executed the claim.
\<close>

theorem void_claim_throws_after_execution:
  assumes "ce_account ev = None" "ce_prepare ev = None" "ce_send ev = Inr r" "sent_status r \<noteq> SEND_ERROR"
    "pollTransaction (sent_hash r) (ce_poll ev) = Inr (Some N_null)"
  shows "callClaimWithdrawal user i ev =
     ([\<lparr>on_contract = Staking, call_method = ''claim_withdrawal'', call_args = [SC_address user, SC_u64 i]\<rparr>],
      Inl TypeError)"
  using assms by (simp add: callClaimWithdrawal_def submit_call_def returned_amount_def)

theorem void_claim_throws_after_execution_witness:
  "snd (callClaimWithdrawal ''G'' 3 (sample_call (\<lambda>_. Inr (Tx_success (Some N_null))))) = Inl TypeError"
proof -
  let ?ev = "sample_call (\<lambda>_. Inr (Tx_success (Some N_null)))"
  have "pollTransaction ''h'' (ce_poll ?ev) = Inr (Some N_null)"
    by (simp add: pollTransaction_def eval_nat_numeral sample_call_def)
  then have "callClaimWithdrawal ''G'' 3 ?ev =
     ([\<lparr>on_contract = Staking, call_method = ''claim_withdrawal'', call_args = [SC_address ''G'', SC_u64 3]\<rparr>],
      Inl TypeError)"
    by (intro void_claim_throws_after_execution
        [where r = "\<lparr>sent_hash = ''h'', sent_status = PENDING, sent_error = []\<rparr>"])
      (simp_all add: sample_call_def)
  then show ?thesis by simp
qed

end
