(* ===== verification/Event_Bus.thy ===== *)
theory Event_Bus
  imports Js_Value
begin

text \<open>
  \<open>event-bus/index.ts\<close>: the publish/subscribe bus over Redis. Payloads are dynamic values that
  cross the wire as JSON text; Redis itself is a set of subscribed channels that delivers each
  published message to the subscribed instances.
\<close>

subsection \<open>Payloads on the wire\<close>

datatype js_val =
    J_null
  | J_bool bool
  | J_num number
  | J_big int
  | J_str string
  | J_arr "js_val list"
  | J_obj "(string \<times> js_val) list"

text \<open>
  What a payload is after \<open>serializePayload\<close> and \<open>deserializePayload\<close>: a \<open>bigint\<close> becomes its decimal
  string, a number that is not finite becomes \<open>null\<close>.
\<close>

fun wire :: "js_val \<Rightarrow> js_val" where
  "wire J_null = J_null"
| "wire (J_bool b) = J_bool b"
| "wire (J_num x) = (if isFinite x then J_num x else J_null)"
| "wire (J_big n) = J_str (dec_int n)"
| "wire (J_str s) = J_str s"
| "wire (J_arr vs) = J_arr (map wire vs)"
| "wire (J_obj kvs) = J_obj (map (map_prod id wire) kvs)"

text \<open>
  \<open>BigInt(v)\<close> of a value from the wire. (An array converts through its text; no payload field the
  backend converts is one, and the model lets it fail like an object.)
\<close>

fun big_of_js :: "js_val \<Rightarrow> js_error + int" where
  "big_of_js (J_big n) = return n"
| "big_of_js (J_num x) = big_of_num x"
| "big_of_js (J_bool b) = return (if b then 1 else 0)"
| "big_of_js (J_str s) = big_of_string s"
| "big_of_js J_null = throw TypeError"
| "big_of_js (J_arr vs) = throw SyntaxError"
| "big_of_js (J_obj kvs) = throw SyntaxError"

definition get_field :: "string \<Rightarrow> js_val \<Rightarrow> js_val option" where
  "get_field k v = (case v of J_obj kvs \<Rightarrow> map_of kvs k | _ \<Rightarrow> None)"

lemma map_of_map_prod: "map_of (map (map_prod id f) kvs) k = map_option f (map_of kvs k)"
  by (induction kvs) auto

lemma wire_field [simp]: "get_field k (wire v) = map_option wire (get_field k v)"
  by (cases v) (simp_all add: get_field_def map_of_map_prod)

subsection \<open>The bus\<close>

text \<open>
  A handler acts on the world of its subscriber and may throw (or reject, which the bus treats
  alike).
\<close>

type_synonym 'w handler = "js_val \<Rightarrow> 'w \<Rightarrow> 'w \<times> bool"   \<comment> \<open>\<open>True\<close>: it threw\<close>

record 'w bus =
  isConnected :: bool
  handlers :: "string \<rightharpoonup> 'w handler list"
  redis_channels :: "string list"

definition new_bus :: "'w bus" where
  "new_bus = \<lparr>isConnected = False, handlers = Map.empty, redis_channels = []\<rparr>"

definition bus_connect :: "js_error option \<Rightarrow> 'w bus \<Rightarrow> 'w bus \<times> js_error option" where
  "bus_connect fault b =
     (if isConnected b then (b, None)
      else case fault of Some e \<Rightarrow> (b, Some e) | None \<Rightarrow> (b\<lparr>isConnected := True\<rparr>, None))"

text \<open>\<open>None\<close>: published, with the message that goes out.\<close>

definition bus_publish :: "string \<Rightarrow> js_val \<Rightarrow> 'w bus \<Rightarrow> js_error + string \<times> js_val" where
  "bus_publish channel data b =
     (if \<not> isConnected b then throw (Err ''[EventBus] Not connected. Call connect() first.'')
      else return (channel, wire data))"

definition bus_subscribe ::
  "js_error option \<Rightarrow> string \<Rightarrow> 'w handler \<Rightarrow> 'w bus \<Rightarrow> 'w bus \<times> js_error option" where
  "bus_subscribe fault channel callback b =
     (if \<not> isConnected b then (b, Some (Err ''[EventBus] Not connected. Call connect() first.''))
      else case handlers b channel of
             Some existing \<Rightarrow> (b\<lparr>handlers := (handlers b)(channel \<mapsto> existing @ [callback])\<rparr>, None)
           | None \<Rightarrow>
               (let b1 = b\<lparr>handlers := (handlers b)(channel \<mapsto> [callback])\<rparr>
                in case fault of
                     Some e \<Rightarrow> (b1, Some e)
                   | None \<Rightarrow> (b1\<lparr>redis_channels := redis_channels b @ [channel]\<rparr>, None)))"

definition bus_unsubscribe :: "string \<Rightarrow> 'w bus \<Rightarrow> 'w bus" where
  "bus_unsubscribe channel b =
     b\<lparr>handlers := (handlers b)(channel := None),
       redis_channels := filter (\<lambda>c. c \<noteq> channel) (redis_channels b)\<rparr>"

definition bus_disconnect :: "'w bus \<Rightarrow> 'w bus" where
  "bus_disconnect b =
     (if \<not> isConnected b then b
      else b\<lparr>handlers := Map.empty, redis_channels := [], isConnected := False\<rparr>)"

text \<open>The listener of the Redis \<open>message\<close> event: every handler runs, whatever the others do.\<close>

fun run_handlers :: "'w handler list \<Rightarrow> js_val \<Rightarrow> 'w \<Rightarrow> 'w" where
  "run_handlers [] data w = w"
| "run_handlers (h # hs) data w = run_handlers hs data (fst (h data w))"

definition bus_message :: "string \<Rightarrow> js_val \<Rightarrow> 'w bus \<Rightarrow> 'w \<Rightarrow> 'w" where
  "bus_message channel data b w =
     (case handlers b channel of None \<Rightarrow> w | Some hs \<Rightarrow> run_handlers hs data w)"

text \<open>Redis hands a message to the listener when the channel is subscribed.\<close>

definition redis_deliver :: "string \<times> js_val \<Rightarrow> 'w bus \<Rightarrow> 'w \<Rightarrow> 'w" where
  "redis_deliver m b w =
     (if isConnected b \<and> fst m \<in> set (redis_channels b) then bus_message (fst m) (snd m) b w else w)"

subsection \<open>Invariant: Redis and the handler table agree\<close>

datatype 'w bus_op =
    Connect "js_error option"
  | Subscribe "js_error option" string "'w handler"
  | Unsubscribe string
  | Disconnect

fun bus_exec :: "'w bus_op \<Rightarrow> 'w bus \<Rightarrow> 'w bus" where
  "bus_exec (Connect f) b = fst (bus_connect f b)"
| "bus_exec (Subscribe f c h) b = fst (bus_subscribe f c h b)"
| "bus_exec (Unsubscribe c) b = bus_unsubscribe c b"
| "bus_exec Disconnect b = bus_disconnect b"

definition bus_inv :: "'w bus \<Rightarrow> bool" where
  "bus_inv b \<longleftrightarrow> distinct (redis_channels b) \<and> set (redis_channels b) = dom (handlers b) \<and>
     (\<forall>c hs. handlers b c = Some hs \<longrightarrow> hs \<noteq> [])"

fun subscribe_ok :: "'w bus_op \<Rightarrow> bool" where
  "subscribe_ok (Subscribe f c h) = (f = None)"
| "subscribe_ok _ = True"

lemma bus_inv_new: "bus_inv new_bus"
  by (simp add: bus_inv_def new_bus_def)

lemma bus_inv_exec [inv_intros]: "bus_inv b \<Longrightarrow> subscribe_ok x \<Longrightarrow> bus_inv (bus_exec x b)"
  by (cases x)
    (auto simp: bus_inv_def bus_connect_def bus_subscribe_def bus_unsubscribe_def bus_disconnect_def Let_def
      split: option.splits if_splits)

text \<open>
  However connections, subscriptions and unsubscriptions are interleaved, each channel is
  subscribed in Redis at most once, exactly the channels with handlers are subscribed, and no
  channel is left with an empty handler list, provided Redis accepts the subscriptions.
\<close>

theorem bus_subscriptions_consistent:
  assumes "\<forall>x\<in>set ops. subscribe_ok x"
  shows "bus_inv (fold bus_exec ops (new_bus :: 'w bus))"
proof -
  have "\<forall>x\<in>set ops. subscribe_ok x \<Longrightarrow> bus_inv b \<Longrightarrow> bus_inv (fold bus_exec ops b)" for b :: "'w bus"
    by (induction ops arbitrary: b) (auto intro: bus_inv_exec)
  then show ?thesis using assms bus_inv_new by blast
qed

theorem bus_subscriptions_consistent_witness:
  "redis_channels (fold bus_exec
      [Connect None, Subscribe None ''a'' (\<lambda>d w. (w, False)), Subscribe None ''a'' (\<lambda>d w. (w + 1, False))] (new_bus :: nat bus)) = [''a'']
   \<and> bus_inv (fold bus_exec
      [Connect None, Subscribe None ''a'' (\<lambda>d w. (w, False)), Subscribe None ''a'' (\<lambda>d w. (w + 1, False))] (new_bus :: nat bus))"
  using bus_subscriptions_consistent
    [of "[Connect None, Subscribe None ''a'' (\<lambda>d w. (w, False)), Subscribe None ''a'' (\<lambda>d w. (w + 1, False))] :: nat bus_op list"]
  by (simp add: new_bus_def bus_connect_def bus_subscribe_def)

text \<open>A subscription that Redis refused leaves the handler behind, and every later one silent.\<close>

lemma refused_subscription_is_sticky:
  assumes "isConnected b" "handlers b c = None" "c \<notin> set (redis_channels b)"
  shows "let b1 = fst (bus_subscribe (Some e) c h b); (b2, r) = bus_subscribe None c h' b1
     in r = None \<and> redis_deliver (c, d) b2 w = w"
  using assms by (simp add: bus_subscribe_def redis_deliver_def)

subsection \<open>Delivery\<close>

text \<open>
  A published payload reaches every handler of its channel exactly once and in subscription
  order, whichever of them throw, and the amounts in it survive the trip: a \<open>bigint\<close> field
  arrives as a string that \<open>BigInt\<close> turns back into the same integer.
\<close>

theorem publish_reaches_every_handler:
  assumes "bus_inv b" "bus_publish channel data b = Inr m" "handlers b channel = Some hs"
    "get_field k data = Some (J_big n)"
  shows "redis_deliver m b w = fold (\<lambda>h w. fst (h (wire data) w)) hs w \<and>
     map_option big_of_js (get_field k (snd m)) = Some (Inr n)"
proof -
  have m: "m = (channel, wire data)" "isConnected b"
    using assms(2) by (auto simp: bus_publish_def split: if_splits)
  have "channel \<in> set (redis_channels b)" using assms(1,3) by (auto simp: bus_inv_def)
  moreover have "run_handlers hs d w = fold (\<lambda>h w. fst (h d w)) hs w" for d w
    by (induction hs arbitrary: w) simp_all
  ultimately show ?thesis using assms(3,4) m by (simp add: redis_deliver_def bus_message_def)
qed

definition sample_bus :: "nat bus" where
  "sample_bus = fold bus_exec
     [Connect None, Subscribe None ''s'' (\<lambda>d w. (w + 1, True)), Subscribe None ''s'' (\<lambda>d w. (w * 2, False))] new_bus"

theorem publish_reaches_every_handler_witness:
  "redis_deliver (''s'', wire (J_obj [(''amount'', J_big 25)])) sample_bus 3 = 8"
proof -
  let ?d = "J_obj [(''amount'', J_big 25)]"
  have "bus_inv sample_bus" unfolding sample_bus_def by (simp del: bus_exec.simps add: bus_inv_exec bus_inv_new)
  moreover have "bus_publish ''s'' ?d sample_bus = Inr (''s'', wire ?d)"
    by (simp add: bus_publish_def sample_bus_def new_bus_def bus_connect_def bus_subscribe_def)
  moreover have "handlers sample_bus ''s'' = Some [(\<lambda>d w. (w + 1, True)), (\<lambda>d w. (w * 2, False))]"
    by (simp add: sample_bus_def new_bus_def bus_connect_def bus_subscribe_def)
  moreover have "get_field ''amount'' ?d = Some (J_big 25)" by (simp add: get_field_def)
  ultimately show ?thesis using publish_reaches_every_handler by fastforce
qed

end
