(* ===== verification/Withdrawal_Store.thy ===== *)
theory Withdrawal_Store
  imports Protocol_Config
begin

text \<open>
  The \<open>withdrawals\<close> table of \<open>prisma/schema.prisma\<close> and the queries the backend runs on it:
  updates by key, updates by condition, inserts, counts and sums, and the accessors of
  \<open>user-service/index.ts\<close>. A table is the list of its rows in insertion order. A query that the
  database may refuse takes the refusal as an argument, an optional error message.
\<close>

record withdrawal =
  wid :: int
  wallet :: wallet
  amount :: stroops
  status :: string
  unlockTime :: millis
  createdAt :: millis

type_synonym db_failure = "string option"

text \<open>\<open>prisma.withdrawal.update\<close> by primary key: it throws when no row has the key.\<close>

definition withdrawal_update ::
  "db_failure \<Rightarrow> int \<Rightarrow> (withdrawal \<Rightarrow> withdrawal) \<Rightarrow> withdrawal list \<Rightarrow> string + withdrawal list" where
  "withdrawal_update fault i f ws =
     (case fault of
        Some e \<Rightarrow> throw e
      | None \<Rightarrow> if \<exists>w\<in>set ws. wid w = i
                then return (map (\<lambda>w. if wid w = i then f w else w) ws)
                else throw ''Record to update not found.'')"

definition withdrawal_updateMany ::
  "(withdrawal \<Rightarrow> bool) \<Rightarrow> (withdrawal \<Rightarrow> withdrawal) \<Rightarrow> withdrawal list \<Rightarrow> withdrawal list" where
  "withdrawal_updateMany P f ws = map (\<lambda>w. if P w then f w else w) ws"

text \<open>\<open>create\<close>: the database assigns the next identifier and the creation time.\<close>

definition next_wid :: "withdrawal list \<Rightarrow> int" where
  "next_wid ws = fold max (map wid ws) 0 + 1"

definition withdrawal_create ::
  "wallet \<Rightarrow> stroops \<Rightarrow> millis \<Rightarrow> millis \<Rightarrow> withdrawal list \<Rightarrow> withdrawal list" where
  "withdrawal_create wal amt unlock now ws =
     ws @ [\<lparr>wid = next_wid ws, wallet = wal, amount = amt, status = ''pending'',
           unlockTime = unlock, createdAt = now\<rparr>]"

subsection \<open>Accessors of the user service\<close>

definition getWithdrawalsByWallet :: "wallet \<Rightarrow> withdrawal list \<Rightarrow> withdrawal list" where
  "getWithdrawalsByWallet wal ws =
     sort_key (\<lambda>w. - createdAt w) (filter (\<lambda>w. wallet w = wal \<and> status w \<noteq> ''claimed'') ws)"

definition markWithdrawalClaimed :: "wallet \<Rightarrow> int \<Rightarrow> withdrawal list \<Rightarrow> withdrawal list" where
  "markWithdrawalClaimed wal i ws =
     withdrawal_updateMany (\<lambda>w. wid w = i \<and> wallet w = wal) (\<lambda>w. w\<lparr>status := ''claimed''\<rparr>) ws"

record staking_history =
  sh_wallet :: wallet
  sh_withdrawals :: "withdrawal list"
  sh_total :: int
  sh_pending :: int

definition getStakingHistory :: "wallet \<Rightarrow> withdrawal list \<Rightarrow> staking_history" where
  "getStakingHistory wal ws =
     (let rows = sort_key (\<lambda>w. - createdAt w) (filter (\<lambda>w. wallet w = wal) ws)
      in \<lparr>sh_wallet = wal, sh_withdrawals = rows, sh_total = int (length rows),
          sh_pending = int (length (filter (\<lambda>w. status w = ''pending'') rows))\<rparr>)"

subsection \<open>Facts the users of the table share\<close>

definition wids_ok :: "withdrawal list \<Rightarrow> bool" where
  "wids_ok ws \<longleftrightarrow> distinct (map wid ws)"

lemma withdrawal_update_ok:
  assumes "\<exists>w\<in>set ws. wid w = i"
  shows "withdrawal_update None i f ws = Inr (map (\<lambda>w. if wid w = i then f w else w) ws)"
  using assms by (auto simp: withdrawal_update_def)

lemma withdrawal_update_Inr:
  "withdrawal_update fault i f ws = Inr ws' \<Longrightarrow>
     ws' = map (\<lambda>w. if wid w = i then f w else w) ws"
  by (auto simp: withdrawal_update_def split: option.splits if_splits)

lemma map_wid_update [simp]:
  assumes "\<And>w. wid (f w) = wid w"
  shows "map wid (map (\<lambda>w. if P w then f w else w) ws) = map wid ws"
  using assms by (induction ws) auto

lemma updateMany_wids [simp]:
  assumes "\<And>w. wid (f w) = wid w"
  shows "map wid (withdrawal_updateMany P f ws) = map wid ws"
  using assms by (simp add: withdrawal_updateMany_def)

lemma withdrawal_create_wids_ok [inv_intros]:
  assumes "wids_ok ws"
  shows "wids_ok (withdrawal_create wal amt unlock now ws)"
proof -
  have "next_wid ws \<notin> wid ` set ws"
    using fold_max_ge(2) [of _ "map wid ws" 0] by (force simp: next_wid_def)
  then show ?thesis using assms by (simp add: wids_ok_def withdrawal_create_def)
qed

lemma row_of_wid:
  assumes "wids_ok ws" "w \<in> set ws" "v \<in> set ws" "wid w = wid v"
  shows "w = v"
  using assms unfolding wids_ok_def by (metis distinct_map inj_onD)

text \<open>
  \<open>markWithdrawalClaimed\<close> only ever touches a row of the wallet that asks: rows of other
  wallets are unchanged, whatever identifier is sent, and no row is added or removed.
\<close>

theorem mark_claimed_own_rows_only:
  "map wid (markWithdrawalClaimed wal i ws) = map wid ws \<and>
   filter (\<lambda>w. wallet w \<noteq> wal) (markWithdrawalClaimed wal i ws) = filter (\<lambda>w. wallet w \<noteq> wal) ws \<and>
   getWithdrawalsByWallet wal (markWithdrawalClaimed wal i ws)
     = filter (\<lambda>w. wid w \<noteq> i) (getWithdrawalsByWallet wal ws)"
proof (intro conjI)
  show "map wid (markWithdrawalClaimed wal i ws) = map wid ws"
    by (simp add: markWithdrawalClaimed_def)
  show "filter (\<lambda>w. wallet w \<noteq> wal) (markWithdrawalClaimed wal i ws) = filter (\<lambda>w. wallet w \<noteq> wal) ws"
    by (induction ws) (simp_all add: markWithdrawalClaimed_def withdrawal_updateMany_def)
  have "filter (\<lambda>w. wallet w = wal \<and> status w \<noteq> ''claimed'') (markWithdrawalClaimed wal i ws)
      = filter (\<lambda>w. wid w \<noteq> i) (filter (\<lambda>w. wallet w = wal \<and> status w \<noteq> ''claimed'') ws)"
    by (induction ws) (auto simp: markWithdrawalClaimed_def withdrawal_updateMany_def)
  then show "getWithdrawalsByWallet wal (markWithdrawalClaimed wal i ws)
     = filter (\<lambda>w. wid w \<noteq> i) (getWithdrawalsByWallet wal ws)"
    by (simp add: getWithdrawalsByWallet_def filter_sort)
qed

end
