(* ===== verification/Withdrawal_Queue.thy ===== *)
theory Withdrawal_Queue
  imports Withdrawal_Store
begin

text \<open>
  \<open>staking-engine/withdrawalQueueProcessor.ts\<close>: the job that claims unlocked withdrawals on
  chain. A pass takes the outcome of every call it makes (database, chain, event bus) from an
  environment; an escaping exception is the \<open>Some\<close> of the second result.
\<close>

subsection \<open>One pass over the queue\<close>

record queue_state =
  rows :: "withdrawal list"
  claims :: "(wallet \<times> int) list"            \<comment> \<open>claims the chain confirmed, in order\<close>
  ready_events :: "(int \<times> wallet \<times> stroops \<times> tx_hash) list"
  isProcessing :: bool

text \<open>What the calls made for one withdrawal answer.\<close>

record item_env =
  on_mark :: db_failure
  on_claim :: "string + tx_hash"
  on_complete :: db_failure
  on_publish :: "string option"
  on_revert :: db_failure

definition isPermanentFailure :: "string \<Rightarrow> bool" where
  "isPermanentFailure errorMessage \<longleftrightarrow>
     hasSubstring errorMessage ''already claimed'' \<or>
     hasSubstring errorMessage ''not found'' \<or>
     hasSubstring errorMessage ''insufficient''"

definition readyWithdrawals :: "millis \<Rightarrow> withdrawal list \<Rightarrow> withdrawal list" where
  "readyWithdrawals now ws =
     take 50 (sort_key createdAt (filter (\<lambda>w. status w = ''pending'' \<and> unlockTime w \<le> now) ws))"

abbreviation set_status :: "string \<Rightarrow> withdrawal \<Rightarrow> withdrawal" where
  "set_status st w \<equiv> w\<lparr>status := st\<rparr>"

text \<open>The \<open>try\<close> block for one withdrawal, then the whole iteration with its \<open>catch\<close>.\<close>

definition claim_item :: "item_env \<Rightarrow> withdrawal \<Rightarrow> queue_state \<Rightarrow> queue_state \<times> string option" where
  "claim_item ev w s =
     (case withdrawal_update (on_mark ev) (wid w) (set_status ''processing'') (rows s) of
        Inl e \<Rightarrow> (s, Some e)
      | Inr ws1 \<Rightarrow>
     (case on_claim ev of
        Inl e \<Rightarrow> (s\<lparr>rows := ws1\<rparr>, Some e)
      | Inr txHash \<Rightarrow>
     (let s1 = s\<lparr>rows := ws1, claims := claims s @ [(wallet w, wid w)]\<rparr> in
      case withdrawal_update (on_complete ev) (wid w) (set_status ''completed'') ws1 of
        Inl e \<Rightarrow> (s1, Some e)
      | Inr ws2 \<Rightarrow>
     (case on_publish ev of
        Some e \<Rightarrow> (s1\<lparr>rows := ws2\<rparr>, Some e)
      | None \<Rightarrow> (s1\<lparr>rows := ws2,
                    ready_events := ready_events s @ [(wid w, wallet w, amount w, txHash)]\<rparr>, None)))))"

definition process_item :: "item_env \<Rightarrow> withdrawal \<Rightarrow> queue_state \<Rightarrow> queue_state \<times> string option" where
  "process_item ev w s =
     (case claim_item ev w s of
        (s1, None) \<Rightarrow> (s1, None)
      | (s1, Some errorMessage) \<Rightarrow>
          (let st = (if isPermanentFailure errorMessage then ''failed'' else ''pending'')
           in case withdrawal_update (on_revert ev) (wid w) (set_status st) (rows s1) of
                Inl e \<Rightarrow> (s1, Some e)
              | Inr ws \<Rightarrow> (s1\<lparr>rows := ws\<rparr>, None)))"

fun process_batch :: "(int \<Rightarrow> item_env) \<Rightarrow> withdrawal list \<Rightarrow> queue_state \<Rightarrow> queue_state \<times> string option" where
  "process_batch env [] s = (s, None)"
| "process_batch env (w # ws) s =
     (case process_item (env (wid w)) w s of
        (s1, Some e) \<Rightarrow> (s1, Some e)
      | (s1, None) \<Rightarrow> process_batch env ws s1)"

definition processQueue ::
  "db_failure \<Rightarrow> millis \<Rightarrow> (int \<Rightarrow> item_env) \<Rightarrow> queue_state \<Rightarrow> queue_state \<times> string option" where
  "processQueue find_fault now env s =
     (let s0 = s\<lparr>isProcessing := True\<rparr>;
          (s1, r) = (case find_fault of
                       Some e \<Rightarrow> (s0, Some e)
                     | None \<Rightarrow> process_batch env (readyWithdrawals now (rows s)) s0)
      in (s1\<lparr>isProcessing := False\<rparr>, r))"

text \<open>A tick of the timer: it skips while a pass runs and swallows the exception of a pass.\<close>

definition queue_tick ::
  "db_failure \<Rightarrow> millis \<Rightarrow> (int \<Rightarrow> item_env) \<Rightarrow> queue_state \<Rightarrow> queue_state" where
  "queue_tick find_fault now env s =
     (if isProcessing s then s else fst (processQueue find_fault now env s))"

text \<open>Successive ticks.\<close>

fun queue_ticks ::
  "(db_failure \<times> millis \<times> (int \<Rightarrow> item_env)) list \<Rightarrow> queue_state \<Rightarrow> queue_state" where
  "queue_ticks [] s = s"
| "queue_ticks ((ff, now, env) # ps) s = queue_ticks ps (queue_tick ff now env s)"

record queue_stats =
  qs_pending :: int
  qs_processing :: int
  qs_completed :: int
  qs_failed :: int
  qs_totalPendingAmount :: stroops

definition count_status :: "string \<Rightarrow> withdrawal list \<Rightarrow> int" where
  "count_status st ws = int (length (filter (\<lambda>w. status w = st) ws))"

definition getQueueStats :: "withdrawal list \<Rightarrow> queue_stats" where
  "getQueueStats ws =
     \<lparr>qs_pending = count_status ''pending'' ws,
      qs_processing = count_status ''processing'' ws,
      qs_completed = count_status ''completed'' ws,
      qs_failed = count_status ''failed'' ws,
      qs_totalPendingAmount = sum_list (map amount (filter (\<lambda>w. status w = ''pending'') ws))\<rparr>"

subsection \<open>The batch\<close>

lemma readyWithdrawals_subset:
  "w \<in> set (readyWithdrawals now ws) \<Longrightarrow> w \<in> set ws \<and> status w = ''pending'' \<and> unlockTime w \<le> now"
  unfolding readyWithdrawals_def by (auto dest: in_set_takeD)

lemma readyWithdrawals_distinct:
  assumes "wids_ok ws"
  shows "distinct (map wid (readyWithdrawals now ws))"
proof -
  let ?f = "filter (\<lambda>w. status w = ''pending'' \<and> unlockTime w \<le> now) ws"
  have "distinct (map wid ?f)" using assms unfolding wids_ok_def by (rule distinct_map_filter)
  then have "distinct (map wid (sort_key createdAt ?f))"
    by (simp add: distinct_map)
  then show ?thesis unfolding readyWithdrawals_def take_map [symmetric] by (rule distinct_take)
qed

text \<open>
  A pass works on at most 50 withdrawals, all of them pending and past their unlock time, in
  order of creation, and it never skips an older eligible withdrawal for a younger one.
\<close>

theorem ready_batch_oldest_first:
  "length (readyWithdrawals now ws) \<le> 50 \<and>
   sorted (map createdAt (readyWithdrawals now ws)) \<and>
   set (readyWithdrawals now ws) \<subseteq> {w \<in> set ws. status w = ''pending'' \<and> unlockTime w \<le> now} \<and>
   (\<forall>w v. v \<in> set (readyWithdrawals now ws) \<and> w \<in> set ws \<and> status w = ''pending'' \<and> unlockTime w \<le> now
      \<and> w \<notin> set (readyWithdrawals now ws) \<longrightarrow> createdAt v \<le> createdAt w)"
proof (intro conjI allI impI)
  let ?l = "sort_key createdAt (filter (\<lambda>w. status w = ''pending'' \<and> unlockTime w \<le> now) ws)"
  have srt: "sorted (map createdAt ?l)" by simp
  show "length (readyWithdrawals now ws) \<le> 50" by (simp add: readyWithdrawals_def)
  show "sorted (map createdAt (readyWithdrawals now ws))"
    using sorted_wrt_take [OF srt] by (simp add: readyWithdrawals_def take_map)
  show "set (readyWithdrawals now ws) \<subseteq> {w \<in> set ws. status w = ''pending'' \<and> unlockTime w \<le> now}"
    using readyWithdrawals_subset by blast
  fix w v
  assume a: "v \<in> set (readyWithdrawals now ws) \<and> w \<in> set ws \<and> status w = ''pending'' \<and> unlockTime w \<le> now
      \<and> w \<notin> set (readyWithdrawals now ws)"
  then have "w \<in> set ?l" "w \<notin> set (take 50 ?l)" "v \<in> set (take 50 ?l)"
    by (simp_all add: readyWithdrawals_def)
  then show "createdAt v \<le> createdAt w"
    by (intro sorted_take_drop [OF srt _ in_take_or_drop])
qed

theorem ready_batch_oldest_first_witness:
  "length (readyWithdrawals 5 [\<lparr>wid = 1, wallet = ''G'', amount = 7, status = ''pending'', unlockTime = 3, createdAt = 1\<rparr>]) \<le> 50"
  by (rule ready_batch_oldest_first [THEN conjunct1])

subsection \<open>What a pass does to every row\<close>

definition db_ok :: "item_env \<Rightarrow> bool" where
  "db_ok ev \<longleftrightarrow> on_mark ev = None \<and> on_complete ev = None \<and> on_revert ev = None"

definition final_status :: "item_env \<Rightarrow> string" where
  "final_status ev =
     (let failed = (\<lambda>e. if isPermanentFailure e then ''failed'' else ''pending'')
      in case on_claim ev of
           Inl e \<Rightarrow> failed e
         | Inr h \<Rightarrow> (case on_publish ev of Some e \<Rightarrow> failed e | None \<Rightarrow> ''completed''))"

definition claims_of :: "(int \<Rightarrow> item_env) \<Rightarrow> withdrawal list \<Rightarrow> (wallet \<times> int) list" where
  "claims_of env ws = map (\<lambda>w. (wallet w, wid w)) (filter (\<lambda>w. \<not> isl (on_claim (env (wid w)))) ws)"

definition event_of :: "item_env \<Rightarrow> withdrawal \<Rightarrow> (int \<times> wallet \<times> stroops \<times> tx_hash) list" where
  "event_of ev w =
     (case on_claim ev of
        Inl e \<Rightarrow> []
      | Inr h \<Rightarrow> if on_publish ev = None then [(wid w, wallet w, amount w, h)] else [])"

definition settle :: "(int \<Rightarrow> item_env) \<Rightarrow> int set \<Rightarrow> withdrawal list \<Rightarrow> withdrawal list" where
  "settle env ids ws = map (\<lambda>v. if wid v \<in> ids then set_status (final_status (env (wid v))) v else v) ws"

lemma settle_insert:
  "settle env ids (settle env {i} ws) = settle env (insert i ids) ws"
  by (simp add: settle_def)

lemma settle_one:
  "map (\<lambda>v. if wid v = i then set_status (final_status (env i)) v else v) ws = settle env {i} ws"
  by (auto simp: settle_def)

lemma map_wid_settle [simp]: "map wid (settle env ids ws) = map wid ws"
  by (simp add: settle_def)

lemma has_wid: "(\<exists>v\<in>set ws. wid v = i) \<longleftrightarrow> i \<in> set (map wid ws)"
  by auto

lemma has_wid_settle [simp]: "(\<exists>v\<in>set (settle env ids ws). wid v = i) \<longleftrightarrow> (\<exists>v\<in>set ws. wid v = i)"
  by (simp only: has_wid map_wid_settle)

lemma process_item_ok:
  assumes "db_ok ev" "\<exists>v\<in>set (rows s). wid v = wid w"
  shows "process_item ev w s =
     (s\<lparr>rows := map (\<lambda>v. if wid v = wid w then set_status (final_status ev) v else v) (rows s),
        claims := claims s @ (if isl (on_claim ev) then [] else [(wallet w, wid w)]),
        ready_events := ready_events s @ event_of ev w\<rparr>, None)"
proof -
  have mm: "map (\<lambda>v. if wid v = wid w then set_status a v else v)
       (map (\<lambda>v. if wid v = wid w then set_status b v else v) ws)
     = map (\<lambda>v. if wid v = wid w then set_status a v else v) ws" for a b ws
    by simp
  have ex: "\<exists>v\<in>set (map (\<lambda>v. if wid v = wid w then set_status a v else v) ws). wid v = wid w"
    if "\<exists>v\<in>set ws. wid v = wid w" for a ws
    using that unfolding has_wid by (subst map_wid_update) simp_all
  note upd = withdrawal_update_ok [OF assms(2)] withdrawal_update_ok [OF ex [OF assms(2)]]
    withdrawal_update_ok [OF ex [OF ex [OF assms(2)]]]
  show ?thesis
  proof (cases "on_claim ev")
    case (Inl e)
    then show ?thesis using assms(1)
      by (simp add: process_item_def claim_item_def db_ok_def final_status_def event_of_def Let_def upd mm
          del: map_map)
  next
    case (Inr h)
    then show ?thesis using assms(1)
      by (cases "on_publish ev") (simp_all add: process_item_def claim_item_def db_ok_def
          final_status_def event_of_def Let_def upd mm del: map_map)
  qed
qed

lemma process_batch_ok:
  assumes "\<And>i. db_ok (env i)" "\<And>w. w \<in> set ws \<Longrightarrow> \<exists>v\<in>set (rows s). wid v = wid w"
  shows "process_batch env ws s =
     (s\<lparr>rows := settle env (wid ` set ws) (rows s),
        claims := claims s @ claims_of env ws,
        ready_events := ready_events s @ concat (map (\<lambda>w. event_of (env (wid w)) w) ws)\<rparr>, None)"
  using assms(2)
proof (induction ws arbitrary: s)
  case Nil
  then show ?case by (simp add: settle_def claims_of_def)
next
  case (Cons w ws)
  let ?s = "s\<lparr>rows := settle env {wid w} (rows s),
        claims := claims s @ (if isl (on_claim (env (wid w))) then [] else [(wallet w, wid w)]),
        ready_events := ready_events s @ event_of (env (wid w)) w\<rparr>"
  have "process_item (env (wid w)) w s = (?s, None)"
    using process_item_ok [OF assms(1), of s w "wid w"] Cons.prems by (simp add: settle_one)
  moreover have "process_batch env ws ?s =
     (?s\<lparr>rows := settle env (wid ` set ws) (rows ?s), claims := claims ?s @ claims_of env ws,
        ready_events := ready_events ?s @ concat (map (\<lambda>w. event_of (env (wid w)) w) ws)\<rparr>, None)"
    by (rule Cons.IH) (use Cons.prems in simp)
  ultimately show ?case by (simp add: settle_insert claims_of_def)
qed

lemma ready_in_rows: "w \<in> set (readyWithdrawals now ws) \<Longrightarrow> \<exists>v\<in>set ws. wid v = wid w"
  using readyWithdrawals_subset by blast

lemma processQueue_ok:
  assumes "\<And>i. db_ok (env i)"
  shows "processQueue None now env s =
     (s\<lparr>rows := settle env (wid ` set (readyWithdrawals now (rows s))) (rows s),
        claims := claims s @ claims_of env (readyWithdrawals now (rows s)),
        ready_events := ready_events s
          @ concat (map (\<lambda>w. event_of (env (wid w)) w) (readyWithdrawals now (rows s))),
        isProcessing := False\<rparr>, None)"
  using process_batch_ok [OF assms, of "readyWithdrawals now (rows s)" "s\<lparr>isProcessing := True\<rparr>"]
    ready_in_rows by (simp add: processQueue_def Let_def)


definition sample_row :: "int \<Rightarrow> withdrawal" where
  "sample_row i = \<lparr>wid = i, wallet = ''G'', amount = 500, status = ''pending'', unlockTime = 3, createdAt = i\<rparr>"

definition sample_queue :: queue_state where
  "sample_queue = \<lparr>rows = [sample_row 1, sample_row 2], claims = [], ready_events = [], isProcessing = False\<rparr>"

definition sample_env :: "string option \<Rightarrow> int \<Rightarrow> item_env" where
  "sample_env pub i = \<lparr>on_mark = None, on_claim = (if i = 1 then Inr ''h1'' else Inl ''timeout''),
     on_complete = None, on_publish = pub, on_revert = None\<rparr>"

lemma sample_db_ok [simp]: "db_ok (sample_env pub i)"
  by (simp add: db_ok_def sample_env_def)

lemma sample_ready [simp]: "readyWithdrawals 10 (rows sample_queue) = [sample_row 1, sample_row 2]"
  by (simp add: readyWithdrawals_def sample_queue_def sample_row_def)


subsection \<open>No withdrawal is claimed twice\<close>

definition claims_inv :: "queue_state \<Rightarrow> bool" where
  "claims_inv s \<longleftrightarrow> wids_ok (rows s) \<and> distinct (map snd (claims s)) \<and>
     (\<forall>c\<in>set (claims s). \<forall>w\<in>set (rows s). wid w = snd c \<longrightarrow> status w = ''completed'')"

definition good_tick :: "db_failure \<times> millis \<times> (int \<Rightarrow> item_env) \<Rightarrow> bool" where
  "good_tick p = (case p of (ff, now, env) \<Rightarrow> \<forall>i. db_ok (env i) \<and> on_publish (env i) = None)"

lemma claims_inv_pass:
  assumes "claims_inv s" "\<And>i. db_ok (env i)" "\<And>i. on_publish (env i) = None"
  shows "claims_inv (fst (processQueue None now env s))"
proof -
  let ?b = "readyWithdrawals now (rows s)"
  let ?r = "settle env (wid ` set ?b) (rows s)"
  have ids: "wids_ok (rows s)" using assms(1) by (simp add: claims_inv_def)
  then have wr: "wids_ok ?r" by (simp add: wids_ok_def)
  have db: "distinct (map snd (claims_of env ?b))"
    using distinct_map_filter [OF readyWithdrawals_distinct [OF ids]]
    by (simp add: claims_of_def comp_def)
  have pend: "status w = ''pending''" if "w \<in> set (rows s)" "wid w \<in> wid ` set ?b" for w
    using that readyWithdrawals_subset row_of_wid [OF ids] by (metis imageE)
  have old: "wid w \<notin> wid ` set ?b" if "c \<in> set (claims s)" "w \<in> set (rows s)" "wid w = snd c" for c w
    using assms(1) that pend [OF that(2)] unfolding claims_inv_def by fastforce
  have disj: "snd c \<notin> wid ` set ?b" if c: "c \<in> set (claims s)" for c
  proof
    assume "snd c \<in> wid ` set ?b"
    then obtain w where "w \<in> set ?b" "snd c = wid w" by auto
    then have "w \<in> set (rows s)" using readyWithdrawals_subset by blast
    then show False using old [OF c] \<open>snd c = wid w\<close> \<open>w \<in> set ?b\<close> by auto
  qed
  have new: "\<exists>w\<in>set ?b. snd c = wid w \<and> \<not> isl (on_claim (env (wid w)))" if "c \<in> set (claims_of env ?b)" for c
    using that by (auto simp: claims_of_def)
  have dist: "distinct (map snd (claims s @ claims_of env ?b))"
    using assms(1) db disj new unfolding claims_inv_def by (force simp: distinct_append)
  have fin: "status v = ''completed''"
    if c: "c \<in> set (claims s @ claims_of env ?b)" and v: "v \<in> set ?r" and e: "wid v = snd c" for c v
  proof -
    obtain w where w: "w \<in> set (rows s)"
      "v = (if wid w \<in> wid ` set ?b then set_status (final_status (env (wid w))) w else w)"
      using v by (auto simp: settle_def)
    then have wv: "wid w = snd c" using e by (simp split: if_splits)
    show ?thesis
    proof (cases "c \<in> set (claims s)")
      case True
      then have "v = w" using disj wv w(2) by simp
      then show ?thesis using assms(1) True w(1) wv unfolding claims_inv_def by blast
    next
      case False
      then obtain x where x: "x \<in> set ?b" "snd c = wid x" "\<not> isl (on_claim (env (wid x)))"
        using c new [of c] by (auto simp only: set_append Un_iff)
      then have "wid w \<in> wid ` set ?b" using wv by auto
      moreover have "final_status (env (wid w)) = ''completed''"
        using x wv assms(3) by (cases "on_claim (env (wid x))") (simp_all add: final_status_def)
      ultimately show ?thesis using w(2) by simp
    qed
  qed
  show ?thesis unfolding claims_inv_def processQueue_ok [OF assms(2)]
    using wr dist fin by simp
qed

lemma claims_inv_tick:
  assumes "claims_inv s" "good_tick (ff, now, env)"
  shows "claims_inv (queue_tick ff now env s)"
proof (cases ff)
  case None
  then show ?thesis using assms claims_inv_pass [of s env now] by (simp add: queue_tick_def good_tick_def)
next
  case (Some e)
  then show ?thesis using assms(1) by (simp add: queue_tick_def processQueue_def claims_inv_def)
qed



text \<open>
  A claim that the chain confirmed does not protect the withdrawal when the event bus is down:
  if publishing fails after the row was marked completed, the pass puts the row back to pending
  (unless the bus's message happens to look permanent), so the next pass claims it again.
\<close>

theorem publish_failure_reopens_claimed_row:
  assumes "db_ok (env (wid w))" "on_claim (env (wid w)) = Inr h" "on_publish (env (wid w)) = Some e"
    "\<not> isPermanentFailure e" "w \<in> set (rows s)"
  shows "\<exists>s'. process_item (env (wid w)) w s = (s', None) \<and>
     (wallet w, wid w) \<in> set (claims s') \<and>
     (\<forall>v\<in>set (rows s'). wid v = wid w \<longrightarrow> status v = ''pending'')"
proof -
  have "\<exists>v\<in>set (rows s). wid v = wid w" using assms(5) by blast
  from process_item_ok [OF assms(1) this] show ?thesis using assms(2-4) by (auto simp: final_status_def)
qed

theorem publish_failure_reopens_claimed_row_witness:
  "\<exists>s'. process_item (sample_env (Some ''Not connected'') 1) (sample_row 1) sample_queue = (s', None) \<and>
     (''G'', 1) \<in> set (claims s') \<and> (\<forall>v\<in>set (rows s'). wid v = 1 \<longrightarrow> status v = ''pending'')"
  using publish_failure_reopens_claimed_row
    [where env = "sample_env (Some ''Not connected'')" and w = "sample_row 1" and h = "''h1''"
      and e = "''Not connected''" and s = sample_queue]
  by (simp add: sample_env_def sample_row_def sample_queue_def db_ok_def isPermanentFailure_def)

subsection \<open>The timer\<close>

text \<open>
  The interleaving of the processor's life cycle: starting it launches a pass at once (unguarded),
  a timer tick launches one unless \<open>isProcessing\<close> is set, and a pass that ends clears the flag.
  \<open>inflight\<close> counts the passes that have started and not ended.
\<close>

record processor =
  pollTimer :: bool
  flag :: bool
  inflight :: nat

datatype proc_event = Start | Tick | Pass_End | Stop

fun proc_exec :: "proc_event \<Rightarrow> processor \<Rightarrow> processor" where
  "proc_exec Start p =
     (if pollTimer p then p else p\<lparr>pollTimer := True, flag := True, inflight := inflight p + 1\<rparr>)"
| "proc_exec Tick p =
     (if \<not> pollTimer p \<or> flag p then p else p\<lparr>flag := True, inflight := inflight p + 1\<rparr>)"
| "proc_exec Pass_End p =
     (if inflight p = 0 then p else p\<lparr>flag := False, inflight := inflight p - 1\<rparr>)"
| "proc_exec Stop p = p\<lparr>pollTimer := False\<rparr>"

definition idle_processor :: processor where
  "idle_processor = \<lparr>pollTimer = False, flag = False, inflight = 0\<rparr>"

definition proc_ok :: "processor \<Rightarrow> bool" where
  "proc_ok p \<longleftrightarrow> inflight p = (if flag p then 1 else 0) \<and> (\<not> pollTimer p \<longrightarrow> \<not> flag p)"

lemma proc_exec_ok: "e \<noteq> Stop \<Longrightarrow> proc_ok p \<Longrightarrow> proc_ok (proc_exec e p)"
  by (cases e) (auto simp: proc_ok_def split: if_splits)

text \<open>
  As long as the processor is not stopped, two passes never overlap, however starts, timer
  ticks and ends of passes interleave, and the flag says exactly whether a pass is in flight.
\<close>

theorem passes_never_overlap:
  assumes "Stop \<notin> set es"
  shows "inflight (fold proc_exec es idle_processor) = (if flag (fold proc_exec es idle_processor) then 1 else 0)"
proof -
  have "Stop \<notin> set es \<Longrightarrow> proc_ok p \<Longrightarrow> proc_ok (fold proc_exec es p)" for p
    by (induction es arbitrary: p) (auto simp: proc_exec_ok)
  moreover have "proc_ok idle_processor" by (simp add: proc_ok_def idle_processor_def)
  ultimately have "proc_ok (fold proc_exec es idle_processor)" using assms by blast
  then show ?thesis by (simp add: proc_ok_def)
qed

theorem passes_never_overlap_witness:
  "inflight (fold proc_exec [Start, Tick, Pass_End, Tick, Start, Tick] idle_processor) = 1"
  using passes_never_overlap [of "[Start, Tick, Pass_End, Tick, Start, Tick]"]
  by (simp add: idle_processor_def)

text \<open>Stopping and restarting while a pass runs does overlap two passes.\<close>

lemma restart_overlaps: "inflight (fold proc_exec [Start, Stop, Start] idle_processor) = 2"
  by (simp add: idle_processor_def)

end
