(* ===== verification/Staking_Engine.thy ===== *)
theory Staking_Engine
  imports Exchange_Rate Contract_Client Event_Bus Withdrawal_Queue
begin

text \<open>
  \<open>staking-engine/index.ts\<close>: protocol statistics that survive partial failures, the administrator's
  slashing, and the recalculation of the pending withdrawals after a slash.
\<close>

subsection \<open>Statistics\<close>

record protocol_stats =
  ps_totalStaked :: stroops
  ps_totalSupply :: stroops
  ps_exchangeRate :: number
  ps_liquidityBuffer :: stroops
  ps_treasuryBalance :: stroops
  ps_isPaused :: bool
  ps_protocolFeeBps :: number

definition settled :: "js_error + 'a \<Rightarrow> 'a \<Rightarrow> 'a" where
  "settled r fallback = (case r of Inr v \<Rightarrow> v | Inl e \<Rightarrow> fallback)"

definition getProtocolStats ::
  "int view_env \<Rightarrow> int view_env \<Rightarrow> js_error + number \<Rightarrow> int view_env \<Rightarrow> int view_env \<Rightarrow> bool view_env \<Rightarrow>
     int view_env \<Rightarrow> protocol_stats" where
  "getProtocolStats staked supply rate buffer treasury paused fee =
     \<lparr>ps_totalStaked = settled (getTotalStaked staked) 0,
      ps_totalSupply = settled (getTotalSupply supply) 0,
      ps_exchangeRate = settled rate 1,
      ps_liquidityBuffer = settled (getLiquidityBuffer buffer) 0,
      ps_treasuryBalance = settled (getTreasuryBalance treasury) 0,
      ps_isPaused = settled (getIsPaused paused) False,
      ps_protocolFeeBps = settled (getProtocolFeeBps fee) (lit 1000)\<rparr>"

subsection \<open>Recalculating the queue after a slash\<close>

definition reductionFactor :: "stroops \<Rightarrow> stroops \<Rightarrow> stroops \<Rightarrow> number option" where
  "reductionFactor totalStaked totalSupply slashAmount =
     (if totalSupply = 0 then None
      else let newER = num_of_big totalStaked / num_of_big totalSupply;
               oldER = num_of_big (totalStaked + slashAmount) / num_of_big totalSupply
           in if oldER \<le> 0 then None else Some (newER / oldER))"

definition new_amount :: "number \<Rightarrow> stroops \<Rightarrow> js_error + stroops" where
  "new_amount factor amt = floor_big (num_of_big amt * factor)"

text \<open>
  The loop over the pending rows (read once, before it). A conversion that throws, or a database
  error, leaves the rows updated so far.
\<close>

fun recalculate_rows ::
  "(int \<Rightarrow> db_failure) \<Rightarrow> number \<Rightarrow> withdrawal list \<Rightarrow> withdrawal list \<Rightarrow> withdrawal list \<times> js_error option" where
  "recalculate_rows fault factor [] ws = (ws, None)"
| "recalculate_rows fault factor (w # pending) ws =
     (case new_amount factor (amount w) of
        Inl e \<Rightarrow> (ws, Some e)
      | Inr a \<Rightarrow>
          if a \<noteq> amount w
          then (case withdrawal_update (fault (wid w)) (wid w) (\<lambda>v. v\<lparr>amount := a\<rparr>) ws of
                  Inl e \<Rightarrow> (ws, Some (Err e))
                | Inr ws' \<Rightarrow> recalculate_rows fault factor pending ws')
          else recalculate_rows fault factor pending ws)"

definition recalculateWithdrawalQueueAfterSlash ::
  "js_error + stroops \<Rightarrow> js_error + stroops \<Rightarrow> (int \<Rightarrow> db_failure) \<Rightarrow> stroops \<Rightarrow> withdrawal list
     \<Rightarrow> withdrawal list \<times> js_error option" where
  "recalculateWithdrawalQueueAfterSlash staked supply fault slashAmount ws =
     (case staked of Inl e \<Rightarrow> (ws, Some e) | Inr totalStaked \<Rightarrow>
     (case supply of Inl e \<Rightarrow> (ws, Some e) | Inr totalSupply \<Rightarrow>
     (case reductionFactor totalStaked totalSupply slashAmount of
        None \<Rightarrow> (ws, None)
      | Some factor \<Rightarrow> recalculate_rows fault factor (filter (\<lambda>w. status w = ''pending'') ws) ws)))"

text \<open>
  The handler \<open>initialize\<close> subscribes to the slashing channel: it parses the amount of the payload
  and recalculates.
\<close>

definition on_slashing_applied ::
  "js_error + stroops \<Rightarrow> js_error + stroops \<Rightarrow> (int \<Rightarrow> db_failure) \<Rightarrow> withdrawal list handler" where
  "on_slashing_applied staked supply fault data ws =
     (case (case get_field ''amount'' data of None \<Rightarrow> throw TypeError | Some v \<Rightarrow> big_of_js v) of
        Inl e \<Rightarrow> (ws, True)
      | Inr slashAmount \<Rightarrow>
          (let (ws', r) = recalculateWithdrawalQueueAfterSlash staked supply fault slashAmount ws
           in (ws', r \<noteq> None)))"

text \<open>
  \<open>initialize\<close> starts the two timers and subscribes the handler. \<open>shutdown\<close> stops both timers.
\<close>

record engine_state =
  es_rate :: rate_state
  es_queue :: processor
  es_bus :: "withdrawal list bus"

definition initialize_engine ::
  "js_error option \<Rightarrow> withdrawal list handler \<Rightarrow> engine_state \<Rightarrow> engine_state \<times> js_error option" where
  "initialize_engine fault h s =
     (let s1 = s\<lparr>es_rate := fst (startPeriodicRefresh (es_rate s)), es_queue := proc_exec Start (es_queue s)\<rparr>;
          (b, r) = bus_subscribe fault ''slashing:applied'' h (es_bus s)
      in (s1\<lparr>es_bus := b\<rparr>, r))"

definition shutdown_engine :: "engine_state \<Rightarrow> engine_state" where
  "shutdown_engine s =
     s\<lparr>es_rate := stopPeriodicRefresh (es_rate s), es_queue := proc_exec Stop (es_queue s)\<rparr>"

subsection \<open>Admin operations\<close>

text \<open>
  \<open>applySlashing\<close>: the invocations submitted, the message published, and the result. A failed
  recalibration is logged and does not stop the slash; a failed publication is thrown.
\<close>

definition applySlashing ::
  "stroops \<Rightarrow> millis \<Rightarrow> call_env \<Rightarrow> call_env \<Rightarrow> 'w bus
     \<Rightarrow> invocation list \<times> (string \<times> js_val) option \<times> (js_error + tx_hash)" where
  "applySlashing slashAmountStroops now ev_slash ev_recal b =
     (let (sent, r) = callApplySlashing slashAmountStroops ev_slash
      in case r of
           Inl e \<Rightarrow> (sent, None, throw e)
         | Inr txHash \<Rightarrow>
             (let (sent', _) = callRecalibrateRate ev_recal
              in case bus_publish ''slashing:applied''
                       (J_obj [(''amount'', J_big slashAmountStroops), (''reason'', J_str ''admin''),
                               (''timestamp'', J_num (Fin (of_int now)))]) b of
                   Inl e \<Rightarrow> (sent @ sent', None, throw e)
                 | Inr m \<Rightarrow> (sent @ sent', Some m, return txHash)))"

definition pause_protocol :: admin_call where
  "pause_protocol = callPause"

definition unpause_protocol :: admin_call where
  "unpause_protocol = callUnpause"

subsection \<open>A slash never raises a pending amount\<close>

lemma reductionFactor_le_one:
  assumes "0 \<le> t" "0 \<le> s" "t + s \<le> 2^100" "1 \<le> u" "u \<le> 2^100" "reductionFactor t u s = Some f"
  shows "\<exists>q. f = Fin q \<and> 0 \<le> q \<and> q \<le> 1"
proof -
  let ?a = "rndq (of_int t)" and ?b = "rndq (of_int (t + s))" and ?u = "rndq (of_int u)"
  note nt = num_of_big_110 [of t] and nb = num_of_big_110 [of "t + s"] and nu = num_of_big_110 [of u]
  have ab: "?a \<le> ?b" using assms(2) by (intro rndq_mono) simp
  have u: "1 \<le> ?u" using assms(4) by (rule pos_num_of_big)
  have quot: "\<bar>x / ?u\<bar> \<le> 2 ^ 110" if "0 \<le> x" "x \<le> 2^100" for x
  proof -
    have "x / ?u \<le> x" using u that divide_left_mono [of 1 ?u x] by simp
    moreover have "0 \<le> x / ?u" using that u by simp
    ultimately show ?thesis using that by simp
  qed
  let ?n = "rndq (?a / ?u)" and ?o = "rndq (?b / ?u)"
  have n: "num_of_big t / num_of_big u = Fin ?n" "num_of_big (t + s) / num_of_big u = Fin ?o"
    using nt nb nu assms u quot by (simp_all add: rnd_110)
  have no: "0 \<le> ?n" "?n \<le> ?o"
    using nt assms u ab by (auto intro!: rndq_nonneg rndq_mono divide_right_mono)
  have f: "0 < ?o" "f = Fin ?n / Fin ?o"
    using assms(4,6) unfolding reductionFactor_def Let_def n by (auto split: if_splits)
  have "\<bar>?n / ?o\<bar> \<le> 2 ^ 110" using no f(1) by (simp add: pos_divide_le_eq)
  then have "f = Fin (rndq (?n / ?o))" using f by (simp add: rnd_110)
  moreover have "rndq (?n / ?o) \<le> 1" using no by (intro dbl.quotient_le_one)
  moreover have "0 \<le> rndq (?n / ?o)" using no f(1) by (intro rndq_nonneg) simp
  ultimately show ?thesis by blast
qed

lemma new_amount_bounds:
  assumes "0 \<le> q" "q \<le> 1" "0 \<le> a" "a \<le> 2^53"
  shows "\<exists>n. new_amount (Fin q) a = Inr n \<and> 0 \<le> n \<and> n \<le> a"
proof -
  have a: "(of_int a :: rat) \<le> of_int (2^53)" using assms(4) by (simp only: of_int_le_iff)
  have "of_int a * q \<le> of_int a" using assms by (simp add: mult_left_le)
  then have "\<bar>of_int a * q\<bar> \<le> 2 ^ 110" using a assms by simp
  then have "new_amount (Fin q) a = Inr \<lfloor>rndq (of_int a * q)\<rfloor>"
    using assms by (simp add: new_amount_def num_of_big_exact rnd_110)
  moreover have "\<lfloor>rndq (of_int a * q)\<rfloor> \<le> a" using assms by (intro dbl.floor_scale_down)
  moreover have "0 \<le> \<lfloor>rndq (of_int a * q)\<rfloor>" using assms by (intro dbl.floor_rd_nonneg) simp
  ultimately show ?thesis by blast
qed

text \<open>With a database that accepts the writes, the loop updates exactly the rows it was given.\<close>

definition shrunk :: "(withdrawal \<Rightarrow> stroops) \<Rightarrow> int set \<Rightarrow> withdrawal list \<Rightarrow> withdrawal list" where
  "shrunk na D ws = map (\<lambda>v. if wid v \<in> D then v\<lparr>amount := na v\<rparr> else v) ws"

lemma recalculate_rows_ok:
  fixes na :: "withdrawal \<Rightarrow> stroops"
  assumes "wids_ok ws" "set pending \<subseteq> set ws" "\<forall>w\<in>set pending. new_amount f (amount w) = Inr (na w)"
  shows "recalculate_rows (\<lambda>_. None) f pending (shrunk na D ws) = (shrunk na (D \<union> wid ` set pending) ws, None)"
  using assms(2,3)
proof (induction pending arbitrary: D)
  case (Cons w pending)
  have w: "w \<in> set ws" "new_amount f (amount w) = Inr (na w)" using Cons.prems by auto
  have row: "v = w" if "v \<in> set ws" "wid v = wid w" for v using row_of_wid [OF assms(1)] that w by blast
  have rest: "recalculate_rows (\<lambda>_. None) f pending (shrunk na (insert (wid w) D) ws)
      = (shrunk na (insert (wid w) D \<union> wid ` set pending) ws, None)"
    using Cons by simp
  show ?case
  proof (cases "na w = amount w")
    case True
    have id: "w\<lparr>amount := na w\<rparr> = w" using True by (cases w) simp
    have "v\<lparr>amount := na v\<rparr> = v" if "v \<in> set ws" "wid v = wid w" for v
      using row [OF that] id by simp
    then have "shrunk na (insert (wid w) D) ws = shrunk na D ws"
      unfolding shrunk_def by (intro map_cong) auto
    then show ?thesis using True w rest by simp
  next
    case False
    have ex: "\<exists>v\<in>set (shrunk na D ws). wid v = wid w"
      using w(1) unfolding shrunk_def has_wid by (subst map_wid_update) auto
    have "map (\<lambda>v. if wid v = wid w then v\<lparr>amount := na w\<rparr> else v) (shrunk na D ws)
        = shrunk na (insert (wid w) D) ws"
      unfolding shrunk_def map_map by (rule map_cong) (use row in auto)
    then show ?thesis using False w rest withdrawal_update_ok [OF ex] by simp
  qed
qed simp

text \<open>
  After a slash, every pending withdrawal is recalculated and none grows: each pending amount
  becomes a nonnegative amount no larger than before, withdrawals in any other state and all
  other fields are untouched, in spite of the four double roundings in the factor, for totals up
  to \<open>2^100\<close> stroops and amounts up to \<open>2^53\<close> stroops.
\<close>

theorem slash_never_raises_pending:
  assumes "wids_ok ws" "0 \<le> t" "0 \<le> s" "t + s \<le> 2^100" "1 \<le> u" "u \<le> 2^100"
    "\<forall>w\<in>set ws. 0 \<le> amount w \<and> amount w \<le> 2^53"
  shows "\<exists>ws'. recalculateWithdrawalQueueAfterSlash (Inr t) (Inr u) (\<lambda>_. None) s ws = (ws', None) \<and>
    list_all2 (\<lambda>w w'. w' = w\<lparr>amount := amount w'\<rparr> \<and> 0 \<le> amount w' \<and> amount w' \<le> amount w \<and>
      (status w \<noteq> ''pending'' \<longrightarrow> w' = w)) ws ws'"
proof (cases "reductionFactor t u s")
  case None
  then show ?thesis using assms(7)
    by (simp add: recalculateWithdrawalQueueAfterSlash_def list_all2_same)
next
  case (Some f)
  from reductionFactor_le_one [OF assms(2-6) Some] obtain q where q: "f = Fin q" "0 \<le> q" "q \<le> 1" by blast
  define na where "na w = (case new_amount f (amount w) of Inr n \<Rightarrow> n | Inl e \<Rightarrow> 0)" for w :: withdrawal
  have na: "new_amount f (amount w) = Inr (na w) \<and> 0 \<le> na w \<and> na w \<le> amount w" if "w \<in> set ws" for w
    using new_amount_bounds [OF q(2,3), of "amount w"] assms(7) that by (auto simp: na_def q(1))
  let ?p = "filter (\<lambda>w. status w = ''pending'') ws"
  have "recalculate_rows (\<lambda>_. None) f ?p (shrunk na {} ws) = (shrunk na ({} \<union> wid ` set ?p) ws, None)"
    by (rule recalculate_rows_ok) (use assms(1) na in auto)
  then have r: "recalculateWithdrawalQueueAfterSlash (Inr t) (Inr u) (\<lambda>_. None) s ws
      = (shrunk na (wid ` set ?p) ws, None)"
    by (simp add: recalculateWithdrawalQueueAfterSlash_def Some shrunk_def)
  have "status w = ''pending''" if "w \<in> set ws" "wid w \<in> wid ` set ?p" for w
    using that row_of_wid [OF assms(1)] by fastforce
  then have "list_all2 (\<lambda>w w'. w' = w\<lparr>amount := amount w'\<rparr> \<and> 0 \<le> amount w' \<and> amount w' \<le> amount w \<and>
      (status w \<noteq> ''pending'' \<longrightarrow> w' = w)) ws (shrunk na (wid ` set ?p) ws)"
    unfolding shrunk_def list_all2_map2 using na assms(7) by (intro list.rel_refl_strong) auto
  then show ?thesis using r by blast
qed

theorem slash_never_raises_pending_witness:
  "\<exists>ws'. recalculateWithdrawalQueueAfterSlash (Inr 900) (Inr 1000) (\<lambda>_. None) 100 [sample_row 1, sample_row 2] = (ws', None)
     \<and> length ws' = 2"
proof -
  have "wids_ok [sample_row 1, sample_row 2]"
    "\<forall>w\<in>set [sample_row 1, sample_row 2]. 0 \<le> amount w \<and> amount w \<le> 2^53"
    by (simp_all add: wids_ok_def sample_row_def)
  with slash_never_raises_pending [of "[sample_row 1, sample_row 2]" 900 100 1000]
  show ?thesis by (auto dest: list_all2_lengthD)
qed

text \<open>
  A slash that the chain accepted reaches the queue with the very amount that was slashed:
  the message \<open>applySlashing\<close> publishes makes the handler that \<open>initialize\<close> subscribed recalculate
  with that amount, the decimal string on the wire notwithstanding; a slash that failed
  publishes nothing.
\<close>

theorem slash_reaches_queue:
  fixes b :: "withdrawal list bus"
  assumes "isConnected b" "bus_inv b" "handlers b ''slashing:applied'' = Some [on_slashing_applied staked supply fault]"
  shows "case applySlashing n now ev_slash ev_recal b of
     (sent, None, r) \<Rightarrow> isl r
   | (sent, Some m, r) \<Rightarrow> \<not> isl r \<and>
       redis_deliver m b ws = fst (recalculateWithdrawalQueueAfterSlash staked supply fault n ws)"
proof -
  let ?d = "J_obj [(''amount'', J_big n), (''reason'', J_str ''admin''), (''timestamp'', J_num (Fin (of_int now)))]"
  have h: "fst (on_slashing_applied staked supply fault (wire ?d) ws)
      = fst (recalculateWithdrawalQueueAfterSlash staked supply fault n ws)"
    by (simp add: on_slashing_applied_def get_field_def split_beta)
  have pub: "bus_publish ''slashing:applied'' ?d b = Inr (''slashing:applied'', wire ?d)"
    using assms(1) by (simp add: bus_publish_def)
  have "''slashing:applied'' \<in> set (redis_channels b)" using assms(2,3) by (auto simp: bus_inv_def)
  then have "redis_deliver (''slashing:applied'', wire ?d) b ws
      = fst (recalculateWithdrawalQueueAfterSlash staked supply fault n ws)"
    using assms h by (simp add: redis_deliver_def bus_message_def del: wire.simps)
  then show ?thesis unfolding applySlashing_def pub
    by (simp add: split_beta Let_def split: sum.splits del: wire.simps)
qed

definition accepting_call :: call_env where
  "accepting_call = sample_call (\<lambda>_. Inr (Tx_success None))"

lemma accepting_poll: "pollTransaction ''h'' (ce_poll accepting_call) = Inr None"
  by (simp add: pollTransaction_def eval_nat_numeral accepting_call_def sample_call_def)

definition slash_bus :: "withdrawal list bus" where
  "slash_bus = fold bus_exec
     [Connect None, Subscribe None ''slashing:applied'' (on_slashing_applied (Inr 900) (Inr 1000) (\<lambda>_. None))] new_bus"

theorem slash_reaches_queue_witness:
  "\<exists>m. fst (snd (applySlashing 100 7 accepting_call accepting_call slash_bus)) = Some m \<and>
     redis_deliver m slash_bus [sample_row 1]
       = fst (recalculateWithdrawalQueueAfterSlash (Inr 900) (Inr 1000) (\<lambda>_. None) 100 [sample_row 1])"
proof -
  have b: "isConnected slash_bus" "bus_inv slash_bus"
    "handlers slash_bus ''slashing:applied'' = Some [on_slashing_applied (Inr 900) (Inr 1000) (\<lambda>_. None)]"
    by (simp_all add: slash_bus_def bus_inv_def new_bus_def bus_connect_def bus_subscribe_def)
  have ok: "\<not> isl (snd (snd (applySlashing 100 7 accepting_call accepting_call slash_bus)))"
    using accepting_poll b(1)
    by (simp add: applySlashing_def admin_calls executeAdminContractCall_def submit_call_def bus_publish_def
        split_beta Let_def accepting_call_def sample_call_def)
  show ?thesis
    using slash_reaches_queue [OF b, where n = 100 and now = 7 and ev_slash = accepting_call
        and ev_recal = accepting_call and ws = "[sample_row 1]"] ok
    by (cases "applySlashing 100 7 accepting_call accepting_call slash_bus") (auto split: option.splits)
qed

end
