(* ===== verification/Reward_Engine.thy ===== *)
theory Reward_Engine
  imports Staking_Engine
begin

text \<open>
  \<open>reward-engine/index.ts\<close>: periodic snapshots of the exchange rate and the yields derived from
  them. \<open>Math.pow\<close> is only approximated by an implementation, so it is the parameter \<open>pow\<close>; the
  range theorems use what the language promises of it.
\<close>

record snapshot =
  sn_id :: int
  sn_timestamp :: millis
  sn_totalStaked :: stroops
  sn_totalSupply :: stroops
  sn_exchangeRate :: number
  sn_apy :: number

definition day_ms :: millis where "day_ms = 24 * 60 * 60 * 1000"
definition year_ms :: millis where "year_ms = 365 * 24 * 60 * 60 * 1000"

subsection \<open>Queries on the snapshots\<close>

text \<open>\<open>findFirst\<close> from a time on, oldest first; \<open>findFirst\<close> newest first, skipping some.\<close>

definition oldest_since :: "millis \<Rightarrow> snapshot list \<Rightarrow> snapshot option" where
  "oldest_since since snaps =
     (case sort_key sn_timestamp (filter (\<lambda>s. since \<le> sn_timestamp s) snaps) of [] \<Rightarrow> None | s # _ \<Rightarrow> Some s)"

definition latest_skip :: "nat \<Rightarrow> snapshot list \<Rightarrow> snapshot option" where
  "latest_skip k snaps =
     (case drop k (sort_key (\<lambda>s. - sn_timestamp s) snaps) of [] \<Rightarrow> None | s # _ \<Rightarrow> Some s)"

subsection \<open>Yields\<close>

definition annualized :: "(number \<Rightarrow> number \<Rightarrow> number) \<Rightarrow> number \<Rightarrow> number \<Rightarrow> number \<Rightarrow> number" where
  "annualized pow currentRate oldRate exponent =
     (let growth = currentRate / oldRate - 1;
          annualizedReturn = pow (1 + growth) exponent - 1
      in js_max 0 (js_min annualizedReturn (lit (1/2))))"

definition calculateAPY ::
  "(number \<Rightarrow> number \<Rightarrow> number) \<Rightarrow> millis \<Rightarrow> snapshot list \<Rightarrow> number \<Rightarrow> number" where
  "calculateAPY pow now snaps currentRate =
     (case oldest_since (now - year_ms) snaps of
        None \<Rightarrow>
          (case latest_skip 1 snaps of
             None \<Rightarrow> 0
           | Some recent \<Rightarrow>
               (let timeDiffMs = now - sn_timestamp recent
                in if timeDiffMs < 60000 then 0
                   else annualized pow currentRate (sn_exchangeRate recent)
                          (Fin (of_int year_ms) / Fin (of_int timeDiffMs))))
      | Some oldest \<Rightarrow>
          (let timeDiffMs = now - sn_timestamp oldest;
               yearFraction = Fin (of_int timeDiffMs) / Fin (of_int year_ms)
           in if yearFraction < lit (1/1000) then 0
              else annualized pow currentRate (sn_exchangeRate oldest) (1 / yearFraction)))"

definition getCurrentAPY :: "snapshot list \<Rightarrow> number" where
  "getCurrentAPY snaps = (case latest_skip 0 snaps of None \<Rightarrow> 0 | Some s \<Rightarrow> sn_apy s)"

text \<open>One window of \<open>getDerivedAPR\<close>; \<open>None\<close> is the loop's \<open>continue\<close>.\<close>

definition apr_window :: "millis \<Rightarrow> snapshot list \<Rightarrow> int \<Rightarrow> number option" where
  "apr_window now snaps days =
     (case (oldest_since (now - days * day_ms) snaps, latest_skip 0 snaps) of
        (Some oldest, Some latest) \<Rightarrow>
          if sn_id oldest = sn_id latest then None
          else (let daysDiff = Fin (of_int (sn_timestamp latest - sn_timestamp oldest)) / Fin (of_int day_ms)
                in if daysDiff < 1 then None
                   else (let rateGrowth = sn_exchangeRate latest / sn_exchangeRate oldest - 1
                         in if rateGrowth \<le> 0 then Some 0
                            else Some (js_min (rateGrowth * (lit 365 / daysDiff)) (lit (1/2)))))
      | _ \<Rightarrow> None)"

definition getDerivedAPR :: "millis \<Rightarrow> snapshot list \<Rightarrow> number" where
  "getDerivedAPR now snaps =
     (case apr_window now snaps 30 of
        Some a \<Rightarrow> a
      | None \<Rightarrow> (case apr_window now snaps 7 of Some a \<Rightarrow> a | None \<Rightarrow> 0))"

definition getExchangeRateHistory :: "millis \<Rightarrow> snapshot list \<Rightarrow> int \<Rightarrow> (millis \<times> number) list" where
  "getExchangeRateHistory now snaps days =
     map (\<lambda>s. (sn_timestamp s, sn_exchangeRate s))
       (sort_key sn_timestamp (filter (\<lambda>s. now - days * day_ms \<le> sn_timestamp s) snaps))"

definition calculatePeriodYield :: "millis \<Rightarrow> snapshot list \<Rightarrow> int \<Rightarrow> number" where
  "calculatePeriodYield now snaps days =
     (case (oldest_since (now - days * day_ms) snaps, latest_skip 0 snaps) of
        (Some oldest, Some latest) \<Rightarrow>
          if sn_id oldest = sn_id latest then 0
          else js_max 0 (sn_exchangeRate latest / sn_exchangeRate oldest - 1)
      | _ \<Rightarrow> 0)"

definition getTotalRewardsDistributed :: "snapshot list \<Rightarrow> stroops" where
  "getTotalRewardsDistributed snaps =
     (case latest_skip 0 snaps of
        None \<Rightarrow> 0
      | Some latest \<Rightarrow> if sn_totalSupply latest < sn_totalStaked latest
                       then sn_totalStaked latest - sn_totalSupply latest else 0)"

record latest_view =
  lv_snapshot :: snapshot
  lv_yield7d :: number
  lv_yield30d :: number

definition getLatestSnapshot :: "millis \<Rightarrow> snapshot list \<Rightarrow> latest_view option" where
  "getLatestSnapshot now snaps =
     (case latest_skip 0 snaps of
        None \<Rightarrow> None
      | Some latest \<Rightarrow> Some \<lparr>lv_snapshot = latest, lv_yield7d = calculatePeriodYield now snaps 7,
                             lv_yield30d = calculatePeriodYield now snaps 30\<rparr>)"

subsection \<open>Taking a snapshot\<close>

text \<open>
  The result: the table, the invocations sent to the lending contract (their failure is only
  logged), and the exception if one escapes. \<open>db\<close> is the failure of the insert, \<open>bus\<close> that of the
  event bus.
\<close>

definition takeSnapshot ::
  "(number \<Rightarrow> number \<Rightarrow> number) \<Rightarrow> millis \<Rightarrow> js_error + stroops \<Rightarrow> js_error + stroops \<Rightarrow> js_error option \<Rightarrow>
     call_env \<Rightarrow> (nat \<Rightarrow> js_error + string option) \<Rightarrow> js_error option \<Rightarrow> snapshot list \<Rightarrow>
     snapshot list \<times> invocation list \<times> js_error option" where
  "takeSnapshot pow now staked supply db ev ans bus snaps =
     (case staked of Inl e \<Rightarrow> (snaps, [], Some e) | Inr totalStaked \<Rightarrow>
     (case supply of Inl e \<Rightarrow> (snaps, [], Some e) | Inr totalSupply \<Rightarrow>
     (let exchangeRate = computeExchangeRate totalStaked totalSupply;
          apy = calculateAPY pow now snaps exchangeRate
      in case db of Some e \<Rightarrow> (snaps, [], Some e) | None \<Rightarrow>
         (snaps @ [\<lparr>sn_id = int (length snaps) + 1, sn_timestamp = now, sn_totalStaked = totalStaked,
                    sn_totalSupply = totalSupply, sn_exchangeRate = exchangeRate, sn_apy = apy\<rparr>],
          fst (callUpdateLendingExchangeRate exchangeRate ev ans), bus))))"

subsection \<open>Life cycle\<close>

text \<open>What the services answer while one snapshot is taken; its failure is logged and nothing else.\<close>

record snap_env =
  se_now :: millis
  se_staked :: "js_error + stroops"
  se_supply :: "js_error + stroops"
  se_db :: "js_error option"
  se_call :: call_env
  se_ans :: "nat \<Rightarrow> js_error + string option"
  se_bus :: "js_error option"

record reward_engine =
  rw_snapshots :: "snapshot list"
  rw_timer :: bool
  rw_calls :: "invocation list"

definition logged_snapshot :: "(number \<Rightarrow> number \<Rightarrow> number) \<Rightarrow> snap_env \<Rightarrow> reward_engine \<Rightarrow> reward_engine" where
  "logged_snapshot pow ev s =
     (let (snaps, sent, _) = takeSnapshot pow (se_now ev) (se_staked ev) (se_supply ev) (se_db ev) (se_call ev) (se_ans ev)
            (se_bus ev) (rw_snapshots s)
      in s\<lparr>rw_snapshots := snaps, rw_calls := rw_calls s @ sent\<rparr>)"

datatype reward_op = Initialize snap_env | Interval snap_env | Shutdown

text \<open>\<open>initialize\<close> takes a snapshot and sets the timer, whose callbacks run until \<open>shutdown\<close> clears it.\<close>

fun reward_exec :: "(number \<Rightarrow> number \<Rightarrow> number) \<Rightarrow> reward_op \<Rightarrow> reward_engine \<Rightarrow> reward_engine" where
  "reward_exec pow (Initialize ev) s = (logged_snapshot pow ev s)\<lparr>rw_timer := True\<rparr>"
| "reward_exec pow (Interval ev) s = (if rw_timer s then logged_snapshot pow ev s else s)"
| "reward_exec pow Shutdown s = s\<lparr>rw_timer := False\<rparr>"

subsection \<open>Ranges\<close>

definition positive :: "number \<Rightarrow> bool" where
  "positive r \<longleftrightarrow> (\<exists>q. r = Fin q \<and> 0 < q)"

definition apy_ok :: "number \<Rightarrow> bool" where
  "apy_ok a \<longleftrightarrow> (\<exists>q. a = Fin q \<and> 0 \<le> q \<and> q \<le> 1/2)"

text \<open>What the language promises of \<open>Math.pow\<close>: not \<open>NaN\<close> for a base from zero up and a finite exponent.\<close>

definition pow_total :: "(number \<Rightarrow> number \<Rightarrow> number) \<Rightarrow> bool" where
  "pow_total pow \<longleftrightarrow> (\<forall>b e. (b = PInf \<or> (\<exists>q. b = Fin q \<and> 0 \<le> q)) \<and> isFinite e \<longrightarrow> pow b e \<noteq> NaN)"

lemma rnd_cases:
  obtains "rnd x = Fin (rndq x)" | "rnd x = PInf" "0 < rndq x" | "rnd x = NInf" "rndq x < 0"
proof -
  have "0 < dbl_limit" by (simp add: dbl_limit_def)
  then show ?thesis using that unfolding rnd_def Let_def by (smt (verit) neg_less_0_iff_less order_le_less_trans order_less_le_trans)
qed

lemma rnd_nonneg_cases: "0 \<le> x \<Longrightarrow> rnd x = PInf \<or> (\<exists>q. rnd x = Fin q \<and> 0 \<le> q)"
  using rndq_nonneg [of x] by (cases rule: rnd_cases [of x]) auto

lemma rnd_not_NaN [simp]: "rnd x \<noteq> NaN"
  by (cases rule: rnd_cases [of x]) auto

lemma apy_ok_simps [simp]: "apy_ok 0" "apy_ok (Fin (1/2))"
  by (auto simp: apy_ok_def zero_number_def intro: exI [of _ 0] exI [of _ "1/2"])

lemma clamp_ok: "a \<noteq> NaN \<Longrightarrow> apy_ok (js_max 0 (js_min a (Fin (1/2))))"
proof -
  assume a: "a \<noteq> NaN"
  have fin: "apy_ok (Fin q)" if "0 \<le> q" "q \<le> 1/2" for q using that by (auto simp: apy_ok_def)
  show ?thesis
  proof (cases a)
    case (Fin q)
    then show ?thesis using fin [of q] apy_ok_simps by (simp add: js_max_def js_min_def zero_number_def)
  qed (use a apy_ok_simps in \<open>simp_all add: js_max_def js_min_def zero_number_def\<close>)
qed

text \<open>The growth of one rate over another is at least minus one, so \<open>1 + growth\<close> is a valid base.\<close>

definition growth_ok :: "number \<Rightarrow> bool" where
  "growth_ok g \<longleftrightarrow> g = PInf \<or> (\<exists>q. g = Fin q \<and> - 1 \<le> q)"

lemma growth_ok_quotient:
  assumes "positive c" "positive r"
  shows "growth_ok (c / r - 1)"
proof -
  obtain a b where ab: "c = Fin a" "r = Fin b" "0 < a" "0 < b" using assms by (auto simp: positive_def)
  have "c / r = PInf \<or> (\<exists>q. c / r = Fin q \<and> 0 \<le> q)"
    using rnd_nonneg_cases [of "a / b"] ab by simp
  then show ?thesis
  proof
    assume "\<exists>q. c / r = Fin q \<and> 0 \<le> q"
    then obtain q where q: "c / r = Fin q" "0 \<le> q" by blast
    have lo: "- 1 \<le> rndq (q - 1)" using rndq_mono [of "- 1" "q - 1"] q(2) by (simp add: rndq_minus)
    have "(1::rat) < dbl_limit" by (simp add: dbl_limit_def)
    then have "rnd (q - 1) = PInf \<or> rnd (q - 1) = Fin (rndq (q - 1))"
      using lo by (simp add: rnd_def Let_def)
    then show ?thesis using q lo by (auto simp: growth_ok_def one_number_def)
  qed (simp add: growth_ok_def one_number_def minus_number_def)
qed

lemma growth_base:
  assumes "growth_ok g"
  shows "1 + g = PInf \<or> (\<exists>q. 1 + g = Fin q \<and> 0 \<le> q)"
proof (cases g)
  case (Fin q)
  then have "- 1 \<le> q" using assms by (simp add: growth_ok_def)
  then show ?thesis using rnd_nonneg_cases [of "1 + q"] Fin by (simp add: one_number_def)
qed (use assms in \<open>simp_all add: growth_ok_def one_number_def\<close>)

lemma minus_one_not_NaN: "a \<noteq> NaN \<Longrightarrow> a - 1 \<noteq> (NaN :: number)"
  by (cases a) (simp_all add: one_number_def minus_number_def)

lemma annualized_ok:
  assumes "pow_total pow" "positive c" "positive r" "isFinite e"
  shows "apy_ok (annualized pow c r e)"
proof -
  have "pow (1 + (c / r - 1)) e \<noteq> NaN"
    using assms growth_base [OF growth_ok_quotient [OF assms(2,3)]] unfolding pow_total_def by blast
  then show ?thesis unfolding annualized_def Let_def half_double
    by (intro clamp_ok minus_one_not_NaN)
qed

subsection \<open>Snapshots stay sane\<close>

definition snapshots_inv :: "snapshot list \<Rightarrow> bool" where
  "snapshots_inv snaps \<longleftrightarrow> (\<forall>s\<in>set snaps. positive (sn_exchangeRate s) \<and> apy_ok (sn_apy s) \<and> \<bar>sn_timestamp s\<bar> \<le> 2^50)"

lemma oldest_since_in:
  assumes "oldest_since t snaps = Some s"
  shows "s \<in> set snaps \<and> t \<le> sn_timestamp s"
proof -
  obtain xs where "sort_key sn_timestamp (filter (\<lambda>s. t \<le> sn_timestamp s) snaps) = s # xs"
    using assms unfolding oldest_since_def by (auto split: list.splits)
  from arg_cong [OF this, of set] show ?thesis by auto
qed

lemma latest_skip_in:
  assumes "latest_skip k snaps = Some s"
  shows "s \<in> set snaps"
proof -
  obtain xs where xs: "drop k (sort_key (\<lambda>s. - sn_timestamp s) snaps) = s # xs"
    using assms unfolding latest_skip_def by (auto split: list.splits)
  have "s \<in> set (sort_key (\<lambda>s. - sn_timestamp s) snaps)"
    by (rule in_set_dropD [of _ k]) (simp only: xs list.set_intros)
  then show ?thesis by (simp only: set_sort)
qed

lemma exponent_finite:
  assumes "60000 \<le> d"
  shows "isFinite (Fin (of_int year_ms) / Fin (of_int d))"
proof -
  have "(of_int year_ms / of_int d :: rat) \<le> of_int year_ms / 1"
    using assms by (intro divide_left_mono) (simp_all add: year_ms_def)
  then have "\<bar>of_int year_ms / of_int d :: rat\<bar> \<le> 2^110" using assms by (simp add: year_ms_def)
  then show ?thesis using assms by (simp add: rnd_110)
qed

lemma inverse_finite:
  assumes "\<not> y < lit (1/1000)" "y = Fin q"
  shows "isFinite (1 / y)"
proof -
  have "rndq (1 / 2^10) \<le> rndq (1/1000)" by (rule rndq_mono) simp
  moreover have "rndq (1 / 2^10) = 1 / 2^10"
    using rndq_grid [of 1 "-10"] by (simp add: power_int_minus_divide)
  moreover have "\<bar>1/1000 :: rat\<bar> \<le> 2^110" by simp
  ultimately have "1 / 2^10 \<le> q" using assms by (simp add: rnd_110)
  then have "1 / q \<le> 1 / (1 / 2^10)" by (intro divide_left_mono) auto
  then have "\<bar>1 / q\<bar> \<le> 2^110" using \<open>1 / 2^10 \<le> q\<close> by simp
  then show ?thesis using \<open>1 / 2^10 \<le> q\<close> assms(2) by (simp add: one_number_def rnd_110)
qed

lemma yearFraction_fin:
  assumes "\<bar>d\<bar> \<le> 2^52"
  shows "\<exists>q. Fin (of_int d) / Fin (of_int year_ms) = Fin q"
proof -
  have "\<bar>of_int d :: rat\<bar> \<le> of_int (2^52)" using assms by (simp only: of_int_abs [symmetric] of_int_le_iff)
  then have "\<bar>of_int d / of_int year_ms :: rat\<bar> \<le> 2^110" by (simp add: year_ms_def)
  then show ?thesis by (simp add: rnd_110 year_ms_def)
qed

lemma calculateAPY_ok:
  assumes "pow_total pow" "snapshots_inv snaps" "positive r" "\<bar>now\<bar> \<le> 2^50"
  shows "apy_ok (calculateAPY pow now snaps r)"
proof (cases "oldest_since (now - year_ms) snaps")
  case None
  then show ?thesis
  proof (cases "latest_skip 1 snaps")
    case (Some s)
    then have "positive (sn_exchangeRate s)" using latest_skip_in assms(2) by (auto simp: snapshots_inv_def)
    then show ?thesis using None Some assms(1,3) exponent_finite [of "now - sn_timestamp s"]
      by (simp add: calculateAPY_def Let_def annualized_ok)
  qed (simp add: calculateAPY_def)
next
  case (Some s)
  then have s: "positive (sn_exchangeRate s)" "\<bar>sn_timestamp s\<bar> \<le> 2^50"
    using oldest_since_in assms(2) by (auto simp: snapshots_inv_def)
  let ?y = "Fin (of_int (now - sn_timestamp s)) / Fin (of_int year_ms)"
  have "\<bar>now - sn_timestamp s\<bar> \<le> 2^52" using s(2) assms(4) by simp
  then obtain q where "?y = Fin q" using yearFraction_fin by blast
  then have "\<not> ?y < lit (1/1000) \<Longrightarrow> isFinite (1 / ?y)" using inverse_finite by blast
  then have "\<not> ?y < lit (1/1000) \<Longrightarrow> apy_ok (annualized pow r (sn_exchangeRate s) (1 / ?y))"
    by (rule annualized_ok [OF assms(1,3) s(1)])
  moreover have "calculateAPY pow now snaps r
      = (if ?y < lit (1/1000) then 0 else annualized pow r (sn_exchangeRate s) (1 / ?y))"
    by (simp only: calculateAPY_def Some option.case Let_def)
  ultimately show ?thesis by (simp only: apy_ok_simps split: if_split) simp
qed

lemma computeExchangeRate_positive:
  assumes "1 \<le> t" "t \<le> 2^100" "0 \<le> u" "u \<le> 2^100"
  shows "positive (computeExchangeRate t u)"
proof (cases "u = 0")
  case False
  note nt = num_of_big_110 [of t] and nu = num_of_big_110 [of u]
  let ?t = "rndq (of_int t)" and ?u = "rndq (of_int u)"
  have p: "1 \<le> ?t" "1 \<le> ?u" using assms False by (auto intro: pos_num_of_big)
  have "?t / ?u \<le> ?t / 1" using p by (intro divide_left_mono) auto
  then have up: "\<bar>?t / ?u\<bar> \<le> 2^110" using nt p assms by simp
  have "1 / 2^100 \<le> ?t / ?u" using nu p assms by (intro frac_le) auto
  then have "rndq (1 / 2^100) \<le> rndq (?t / ?u)" by (rule rndq_mono)
  moreover have "rndq (1 / 2^100) = 1 / 2^100"
    using rndq_grid [of 1 "-100"] by (simp add: power_int_minus_divide)
  ultimately have "0 < rndq (?t / ?u)" by (simp add: less_le_trans)
  then show ?thesis using False up nt nu p assms
    by (simp add: computeExchangeRate_def positive_def rnd_110)
qed (simp add: computeExchangeRate_def positive_def one_number_def)

lemma takeSnapshot_sane:
  assumes "pow_total pow" "snapshots_inv snaps" "\<bar>now\<bar> \<le> 2^50"
    "\<forall>t. staked = Inr t \<longrightarrow> 1 \<le> t \<and> t \<le> 2^100" "\<forall>u. supply = Inr u \<longrightarrow> 0 \<le> u \<and> u \<le> 2^100"
  shows "snapshots_inv (fst (takeSnapshot pow now staked supply db ev ans bus snaps))"
proof (cases staked)
  case (Inr t)
  show ?thesis
  proof (cases "supply")
    case (Inr u)
    then have r: "positive (computeExchangeRate t u)"
      using assms(4,5) \<open>staked = Inr t\<close> by (intro computeExchangeRate_positive) auto
    then have "apy_ok (calculateAPY pow now snaps (computeExchangeRate t u))"
      using assms by (intro calculateAPY_ok) auto
    then show ?thesis using r assms(2,3) Inr \<open>staked = Inr t\<close>
      by (auto simp: takeSnapshot_def Let_def snapshots_inv_def split: option.splits)
  qed (use assms(2) Inr in \<open>simp add: takeSnapshot_def\<close>)
qed (use assms(2) in \<open>simp add: takeSnapshot_def\<close>)

definition sample_snapshot :: snapshot where
  "sample_snapshot = \<lparr>sn_id = 1, sn_timestamp = 0, sn_totalStaked = 5, sn_totalSupply = 5,
     sn_exchangeRate = 1, sn_apy = 0\<rparr>"

text \<open>The chain reports totals of at least one and at most \<open>2^100\<close> stroops; times are dates.\<close>

definition chain_sane :: "snap_env \<Rightarrow> bool" where
  "chain_sane ev \<longleftrightarrow> \<bar>se_now ev\<bar> \<le> 2^50 \<and> (\<forall>t. se_staked ev = Inr t \<longrightarrow> 1 \<le> t \<and> t \<le> 2^100) \<and>
     (\<forall>u. se_supply ev = Inr u \<longrightarrow> 0 \<le> u \<and> u \<le> 2^100)"

fun op_sane :: "reward_op \<Rightarrow> bool" where
  "op_sane (Initialize ev) = chain_sane ev"
| "op_sane (Interval ev) = chain_sane ev"
| "op_sane Shutdown = True"

lemma logged_snapshot_sane:
  assumes "pow_total pow" "chain_sane ev" "snapshots_inv (rw_snapshots s)"
  shows "snapshots_inv (rw_snapshots (logged_snapshot pow ev s))"
  using takeSnapshot_sane [OF assms(1,3), of "se_now ev" "se_staked ev" "se_supply ev"] assms(2)
  by (simp add: logged_snapshot_def chain_sane_def split_beta)

text \<open>
  However often the engine is started, ticks and is stopped, whatever the RPC endpoint, the database and the event
  bus do, every stored exchange rate is positive and finite and every stored yield lies between 0 and
  one half, never \<open>NaN\<close>: the clamping works for any exponentiation the language allows.\<close>

theorem snapshots_stay_sane:
  assumes "pow_total pow" "list_all op_sane ops" "snapshots_inv (rw_snapshots s)"
  shows "snapshots_inv (rw_snapshots (fold (reward_exec pow) ops s))"
  using assms(2,3)
proof (induction ops arbitrary: s)
  case (Cons x ops)
  then have "snapshots_inv (rw_snapshots (reward_exec pow x s))"
    using logged_snapshot_sane [OF assms(1)] by (cases x) simp_all
  then show ?case using Cons by simp
qed simp

definition demo_snap :: "millis \<Rightarrow> snap_env" where
  "demo_snap now = \<lparr>se_now = now, se_staked = Inr 6, se_supply = Inr 5, se_db = None, se_call = accepting_call,
     se_ans = (\<lambda>_. Inr None), se_bus = None\<rparr>"

theorem snapshots_stay_sane_witness:
  "snapshots_inv (rw_snapshots (fold (reward_exec (\<lambda>b e. 1)) [Initialize (demo_snap 86400000), Interval (demo_snap 86700000), Shutdown]
     \<lparr>rw_snapshots = [sample_snapshot], rw_timer = False, rw_calls = []\<rparr>))"
  by (rule snapshots_stay_sane)
    (simp_all add: pow_total_def snapshots_inv_def sample_snapshot_def positive_def one_number_def chain_sane_def demo_snap_def)

lemma js_min_half:
  assumes "a = PInf \<or> (\<exists>q. a = Fin q \<and> 0 \<le> q)"
  shows "apy_ok (js_min a (Fin (1/2)))"
  using assms apy_ok_simps by (auto simp: js_min_def apy_ok_def)

lemma growth_times:
  assumes "growth_ok g" "\<not> g \<le> 0" "f = Fin y" "0 < y"
  shows "g * f = PInf \<or> (\<exists>q. g * f = Fin q \<and> 0 \<le> q)"
proof (cases g)
  case (Fin q)
  then have "0 < q" using assms(2) by simp
  then show ?thesis using rnd_nonneg_cases [of "q * y"] Fin assms(3,4) by simp
qed (use assms in \<open>simp_all add: growth_ok_def inf_of_sign_def\<close>)

lemma apr_factor:
  assumes "\<not> Fin (of_int d) / Fin (of_int day_ms) < 1" "\<bar>d\<bar> \<le> 2^52"
  shows "\<exists>y. lit 365 / (Fin (of_int d) / Fin (of_int day_ms)) = Fin y \<and> 0 < y"
proof -
  have d: "\<bar>of_int d :: rat\<bar> \<le> of_int (2^52)" using assms(2) by (simp only: of_int_abs [symmetric] of_int_le_iff)
  then have s: "\<bar>of_int d / of_int day_ms :: rat\<bar> \<le> 2^52" by (simp add: day_ms_def)
  then have "\<bar>of_int d / of_int day_ms :: rat\<bar> \<le> 2^110" by simp
  then have q: "Fin (of_int d) / Fin (of_int day_ms) = Fin (rndq (of_int d / of_int day_ms))"
    by (simp add: rnd_110 day_ms_def)
  let ?q = "rndq (of_int d / of_int day_ms)"
  have lo: "1 \<le> ?q" using assms(1) unfolding q by (simp add: one_number_def)
  have "of_int d / of_int day_ms \<le> (of_int (2^52) :: rat)" using s abs_le_D1 by fastforce
  then have "?q \<le> rndq (of_int (2^52))" by (rule rndq_mono)
  then have hi: "?q \<le> 2^52" by (simp add: rndq_of_int)
  have "\<bar>365 / ?q\<bar> \<le> 2^110" using lo by (simp add: pos_divide_le_eq)
  then have "lit 365 / Fin ?q = Fin (rndq (365 / ?q))" using lo by (simp add: rnd_110)
  moreover have "1 / 2^52 \<le> 365 / ?q" using lo hi by (intro frac_le) auto
  then have "rndq (1 / 2^52) \<le> rndq (365 / ?q)" by (rule rndq_mono)
  then have "0 < rndq (365 / ?q)"
    using rndq_grid [of 1 "-52"] by (simp add: power_int_minus_divide less_le_trans)
  ultimately show ?thesis unfolding q by blast
qed

lemma apr_branches:
  "(if b then None else if d then None else if c then Some x else Some y) = Some a
     \<Longrightarrow> a = (if c then x else y) \<and> \<not> d"
  by (auto split: if_splits)

lemma apr_window_ok:
  assumes "snapshots_inv snaps" "apr_window now snaps days = Some a"
  shows "apy_ok a"
proof -
  obtain old new where on: "oldest_since (now - days * day_ms) snaps = Some old" "latest_skip 0 snaps = Some new"
    using assms(2) by (auto simp: apr_window_def split: option.splits)
  then have p: "positive (sn_exchangeRate old)" "positive (sn_exchangeRate new)"
    and ts: "\<bar>sn_timestamp new\<bar> \<le> 2^50" "\<bar>sn_timestamp old\<bar> \<le> 2^50"
    using assms(1) oldest_since_in latest_skip_in unfolding snapshots_inv_def by blast+
  have d: "\<bar>sn_timestamp new - sn_timestamp old\<bar> \<le> 2^52" using ts by simp
  let ?d = "Fin (of_int (sn_timestamp new - sn_timestamp old)) / Fin (of_int day_ms)"
  let ?g = "sn_exchangeRate new / sn_exchangeRate old - 1"
  have a: "a = (if ?g \<le> 0 then 0 else js_min (?g * (lit 365 / ?d)) (lit (1/2)))" "\<not> ?d < 1"
    using apr_branches [OF assms(2) [unfolded apr_window_def on option.case prod.case Let_def]] by blast+
  show ?thesis
  proof (cases "?g \<le> 0")
    case False
    obtain y where "lit 365 / ?d = Fin y" "0 < y" using apr_factor [OF a(2) d] by blast
    then have "?g * (lit 365 / ?d) = PInf \<or> (\<exists>q. ?g * (lit 365 / ?d) = Fin q \<and> 0 \<le> q)"
      by (intro growth_times [OF growth_ok_quotient [OF p(2,1)] False])
    then show ?thesis using False a(1) js_min_half by (simp only: half_double if_False)
  qed (use a(1) in \<open>simp only: if_True apy_ok_simps\<close>)
qed

text \<open>
  On sane snapshots the derived APR is always between 0 and one half and the total of
  distributed rewards and the period yields are never negative.
\<close>

theorem derived_yields_in_range:
  assumes "snapshots_inv snaps"
  shows "apy_ok (getDerivedAPR now snaps) \<and> apy_ok (getCurrentAPY snaps) \<and>
    0 \<le> getTotalRewardsDistributed snaps \<and> \<not> calculatePeriodYield now snaps days < 0"
proof (intro conjI)
  show "apy_ok (getDerivedAPR now snaps)"
    using apr_window_ok [OF assms] by (auto simp: getDerivedAPR_def split: option.splits)
  show "apy_ok (getCurrentAPY snaps)"
    using latest_skip_in assms by (auto simp: getCurrentAPY_def snapshots_inv_def split: option.splits)
  show "0 \<le> getTotalRewardsDistributed snaps"
    by (simp add: getTotalRewardsDistributed_def split: option.splits)
  have "\<not> js_max 0 g < 0" for g
    by (cases g) (auto simp: js_max_def zero_number_def)
  then show "\<not> calculatePeriodYield now snaps days < 0"
    by (auto simp: calculatePeriodYield_def zero_number_def split: option.splits)
qed

theorem derived_yields_in_range_witness:
  "apy_ok (getDerivedAPR 86400000 [sample_snapshot])"
proof -
  have "snapshots_inv [sample_snapshot]"
    by (simp add: snapshots_inv_def sample_snapshot_def positive_def one_number_def)
  from derived_yields_in_range [OF this] show ?thesis by blast
qed

end
