(* ===== verification/Leverage.thy ===== *)
theory Leverage
  imports Js_Number
begin

text \<open>
  \<open>leverage-engine/index.ts\<close> and \<open>restaking-engine/index.ts\<close>: the two simulations of looped staking
  (deposit, borrow against it, deposit what was borrowed), the search for the best number of
  loops, and the restaking position of a wallet. The request checks are those of
  \<open>api-gateway/routes/leverage.ts\<close> and \<open>routes/restaking.ts\<close>.
\<close>

subsection \<open>The leverage simulation\<close>

record leverage_input =
  li_principal :: number
  li_loops :: nat
  li_collateralFactor :: number
  li_stakingAPR :: number
  li_borrowAPR :: number

record loop_detail =
  ld_loop :: nat
  ld_deposited :: number
  ld_borrowed :: number
  ld_totalStaked :: number
  ld_totalBorrowed :: number

record leverage_result =
  lr_maxLeverage :: number
  lr_effectiveLeverage :: number
  lr_totalStaked :: number
  lr_totalBorrowed :: number
  lr_netYieldPercent :: number
  lr_grossYield :: number
  lr_borrowCost :: number
  lr_netYield :: number
  lr_loops :: "loop_detail list"

fun leverage_loop ::
  "number \<Rightarrow> nat \<Rightarrow> nat \<Rightarrow> number \<Rightarrow> number \<Rightarrow> number \<Rightarrow> loop_detail list \<times> number \<times> number" where
  "leverage_loop cf i 0 totalStaked totalBorrowed currentDeposit = ([], totalStaked, totalBorrowed)"
| "leverage_loop cf i (Suc n) totalStaked totalBorrowed currentDeposit =
     (let totalStaked' = totalStaked + currentDeposit;
          borrowed = currentDeposit * cf;
          totalBorrowed' = totalBorrowed + borrowed;
          (ds, s, b) = leverage_loop cf (Suc i) n totalStaked' totalBorrowed' borrowed
      in (\<lparr>ld_loop = i + 1, ld_deposited = currentDeposit, ld_borrowed = borrowed,
            ld_totalStaked = totalStaked', ld_totalBorrowed = totalBorrowed'\<rparr> # ds, s, b))"

definition leverage_simulate :: "leverage_input \<Rightarrow> leverage_result" where
  "leverage_simulate inp =
     (let principal = li_principal inp;
          maxLeverage = 1 / (1 - li_collateralFactor inp);
          (ds, totalStaked, totalBorrowed) =
            leverage_loop (li_collateralFactor inp) 0 (li_loops inp) 0 0 principal;
          effectiveLeverage = totalStaked / principal;
          grossYield = totalStaked * li_stakingAPR inp;
          borrowCost = totalBorrowed * li_borrowAPR inp;
          netYield = grossYield - borrowCost
      in \<lparr>lr_maxLeverage = maxLeverage, lr_effectiveLeverage = effectiveLeverage,
          lr_totalStaked = totalStaked, lr_totalBorrowed = totalBorrowed,
          lr_netYieldPercent = (netYield / principal) * lit 100,
          lr_grossYield = grossYield, lr_borrowCost = borrowCost, lr_netYield = netYield, lr_loops = ds\<rparr>)"

subsection \<open>The best number of loops\<close>

record optimal_result =
  or_collateralFactor :: number
  or_maxLeverage :: number
  or_optimalLoops :: nat
  or_stakingAPR :: number
  or_borrowAPR :: number
  or_netYieldPercent :: number

definition trial :: "number \<Rightarrow> number \<Rightarrow> number \<Rightarrow> nat \<Rightarrow> leverage_result" where
  "trial stakingAPR borrowAPR cf loops =
     leverage_simulate \<lparr>li_principal = lit 1000, li_loops = loops, li_collateralFactor = cf,
       li_stakingAPR = stakingAPR, li_borrowAPR = borrowAPR\<rparr>"

text \<open>The loop of \<open>optimal\<close>, at \<open>loops\<close> with \<open>left\<close> iterations to go.\<close>

fun optimal_loop :: "(nat \<Rightarrow> number) \<Rightarrow> nat \<Rightarrow> nat \<Rightarrow> nat \<Rightarrow> number \<Rightarrow> nat" where
  "optimal_loop netYield loops 0 bestLoops prevNetYield = bestLoops"
| "optimal_loop netYield loops (Suc left) bestLoops prevNetYield =
     (if 1 < loops \<and> netYield loops - prevNetYield < 1 then bestLoops
      else optimal_loop netYield (Suc loops) left loops (netYield loops))"

definition optimal :: "number \<Rightarrow> number \<Rightarrow> number \<Rightarrow> optimal_result" where
  "optimal stakingAPR borrowAPR cf =
     (let bestLoops = optimal_loop (\<lambda>n. lr_netYield (trial stakingAPR borrowAPR cf n)) 1 20 1 0
      in \<lparr>or_collateralFactor = cf, or_maxLeverage = 1 / (1 - cf), or_optimalLoops = bestLoops,
          or_stakingAPR = stakingAPR, or_borrowAPR = borrowAPR,
          or_netYieldPercent = lr_netYieldPercent (trial stakingAPR borrowAPR cf bestLoops)\<rparr>)"

subsection \<open>The restaking simulation\<close>

record restaking_step =
  rs_step :: nat
  rs_action :: string
  rs_amount :: number
  rs_totalStaked :: number
  rs_totalBorrowed :: number
  rs_healthFactor :: number

record restaking_result =
  rr_initialDeposit :: number
  rr_loops :: nat
  rr_totalStaked :: number
  rr_totalBorrowed :: number
  rr_effectiveLeverage :: number
  rr_estimatedNetAPR :: number
  rr_healthFactor :: number
  rr_steps :: "restaking_step list"

definition health_of :: "number \<Rightarrow> number \<Rightarrow> number \<Rightarrow> number" where
  "health_of cf totalStaked totalBorrowed =
     (if 0 < totalBorrowed then (totalStaked * cf) / totalBorrowed else PInf)"

fun restaking_loop ::
  "number \<Rightarrow> nat \<Rightarrow> nat \<Rightarrow> number \<Rightarrow> number \<Rightarrow> number \<Rightarrow> restaking_step list \<times> number \<times> number" where
  "restaking_loop cf i 0 totalStaked totalBorrowed currentAmount = ([], totalStaked, totalBorrowed)"
| "restaking_loop cf i (Suc n) totalStaked totalBorrowed currentAmount =
     (let totalStaked' = totalStaked + currentAmount;
          borrowAmount = currentAmount * cf;
          totalBorrowed' = totalBorrowed + borrowAmount;
          (st, s, b) = restaking_loop cf (Suc i) n totalStaked' totalBorrowed' borrowAmount
      in (\<lparr>rs_step = i * 3 + 1, rs_action = ''stake'', rs_amount = currentAmount,
            rs_totalStaked = totalStaked', rs_totalBorrowed = totalBorrowed,
            rs_healthFactor = health_of cf totalStaked' totalBorrowed\<rparr>
        # \<lparr>rs_step = i * 3 + 2, rs_action = ''deposit_collateral'', rs_amount = currentAmount,
            rs_totalStaked = totalStaked', rs_totalBorrowed = totalBorrowed,
            rs_healthFactor = health_of cf totalStaked' totalBorrowed\<rparr>
        # \<lparr>rs_step = i * 3 + 3, rs_action = ''borrow'', rs_amount = borrowAmount,
            rs_totalStaked = totalStaked', rs_totalBorrowed = totalBorrowed',
            rs_healthFactor = (totalStaked' * cf) / totalBorrowed'\<rparr>
        # st, s, b))"

definition restaking_simulate :: "number \<Rightarrow> nat \<Rightarrow> number \<Rightarrow> number \<Rightarrow> number \<Rightarrow> restaking_result" where
  "restaking_simulate initial loops cf stakingAPR borrowAPR =
     (let (st, totalStaked, totalBorrowed) = restaking_loop cf 0 loops 0 0 initial;
          grossYield = totalStaked * stakingAPR;
          borrowCost = totalBorrowed * borrowAPR
      in \<lparr>rr_initialDeposit = initial, rr_loops = loops, rr_totalStaked = totalStaked,
          rr_totalBorrowed = totalBorrowed, rr_effectiveLeverage = totalStaked / initial,
          rr_estimatedNetAPR = ((grossYield - borrowCost) / initial) * lit 100,
          rr_healthFactor = health_of cf totalStaked totalBorrowed, rr_steps = st\<rparr>)"

subsection \<open>A wallet's restaking position\<close>

text \<open>
  \<open>Math.log\<close> is the parameter \<open>log_fn\<close>. The chain answers with the pair of the lending contract's
  \<open>get_position\<close>; any failure on that path falls through to the newest row of the database.
\<close>

record restaking_position =
  rp_totalStaked :: number
  rp_totalBorrowed :: number
  rp_effectiveLeverage :: number
  rp_healthFactor :: number
  rp_netAPR :: number
  rp_loops :: number

record collateral_row =
  cp_sxlmDeposited :: int
  cp_xlmBorrowed :: int
  cp_healthFactor :: number

definition position_leverage :: "number \<Rightarrow> number \<Rightarrow> number" where
  "position_leverage collateral borrowed =
     (if 0 < collateral \<and> 0 < borrowed then collateral / (collateral - borrowed) else 1)"

definition position_loops :: "(number \<Rightarrow> number) \<Rightarrow> number \<Rightarrow> number" where
  "position_loops log_fn lev = (if 1 < lev then js_round (log_fn lev / log_fn (1 / lit (3/10))) else 0)"

definition position_netAPR :: "number \<Rightarrow> number" where
  "position_netAPR lev = lev * lit 6 - (lev - 1) * lit 4"

definition getPositionFromDB :: "(number \<Rightarrow> number) \<Rightarrow> collateral_row option \<Rightarrow> restaking_position" where
  "getPositionFromDB log_fn row =
     (case row of
        None \<Rightarrow> \<lparr>rp_totalStaked = 0, rp_totalBorrowed = 0, rp_effectiveLeverage = 1,
                 rp_healthFactor = 0, rp_netAPR = 0, rp_loops = 0\<rparr>
      | Some p \<Rightarrow>
          (let collateral = num_of_big (cp_sxlmDeposited p) / lit 10000000;
               borrowed = num_of_big (cp_xlmBorrowed p) / lit 10000000;
               lev = position_leverage collateral borrowed
           in \<lparr>rp_totalStaked = collateral, rp_totalBorrowed = borrowed, rp_effectiveLeverage = lev,
               rp_healthFactor = cp_healthFactor p, rp_netAPR = position_netAPR lev,
               rp_loops = position_loops log_fn lev\<rparr>))"

definition getPosition ::
  "(number \<Rightarrow> number) \<Rightarrow> string \<Rightarrow> js_error + (int \<times> int) option \<Rightarrow> collateral_row option \<Rightarrow> restaking_position" where
  "getPosition log_fn lendingContractId sim row =
     (if lendingContractId = [] then getPositionFromDB log_fn row
      else case sim of
        Inr (Some (c, b)) \<Rightarrow>
          (let collateral = num_of_big c / lit 10000000;
               borrowed = num_of_big b / lit 10000000;
               lev = position_leverage collateral borrowed
           in \<lparr>rp_totalStaked = collateral, rp_totalBorrowed = borrowed, rp_effectiveLeverage = lev,
               rp_healthFactor = (if 0 < borrowed then (collateral * lit (7/10)) / borrowed else PInf),
               rp_netAPR = position_netAPR lev, rp_loops = position_loops log_fn lev\<rparr>)
      | _ \<Rightarrow> getPositionFromDB log_fn row)"

subsection \<open>The two simulations agree\<close>

definition borrow_steps :: "restaking_step list \<Rightarrow> restaking_step list" where
  "borrow_steps st = filter (\<lambda>x. rs_action x = ''borrow'') st"

lemma loops_agree:
  "snd (restaking_loop cf i n s b d) = snd (leverage_loop cf i n s b d) \<and>
   map rs_step (fst (restaking_loop cf i n s b d)) = [i * 3 + 1..<(i + n) * 3 + 1] \<and>
   map (\<lambda>x. (rs_amount x, rs_totalStaked x, rs_totalBorrowed x)) (borrow_steps (fst (restaking_loop cf i n s b d)))
     = map (\<lambda>x. (ld_borrowed x, ld_totalStaked x, ld_totalBorrowed x)) (fst (leverage_loop cf i n s b d))"
proof (induction n arbitrary: i s b d)
  case (Suc n)
  have upt: "[i * 3 + 1..<(i + Suc n) * 3 + 1] = [i * 3 + 1, i * 3 + 2, i * 3 + 3] @ [Suc i * 3 + 1..<(Suc i + n) * 3 + 1]"
    by (simp add: upt_conv_Cons eval_nat_numeral)
  show ?case unfolding upt using Suc.IH [of "Suc i" "s + d" "b + d * cf" "d * cf"]
    by (simp add: Let_def split_beta borrow_steps_def prod_eq_iff)
qed (simp add: borrow_steps_def)

text \<open>
  The two engines simulate the same thing: for every input (even infinite or \<open>NaN\<close>) the
  restaking simulation and the leverage simulation give the same totals, effective leverage and
  net yield, and the borrow steps of the one are the loops of the other; the steps are
  numbered from 1 without a gap, three to a loop.
\<close>

theorem restaking_agrees_with_leverage:
  "let r = restaking_simulate p n cf sAPR bAPR;
       l = leverage_simulate \<lparr>li_principal = p, li_loops = n, li_collateralFactor = cf,
             li_stakingAPR = sAPR, li_borrowAPR = bAPR\<rparr>
   in rr_totalStaked r = lr_totalStaked l \<and> rr_totalBorrowed r = lr_totalBorrowed l \<and>
      rr_effectiveLeverage r = lr_effectiveLeverage l \<and> rr_estimatedNetAPR r = lr_netYieldPercent l \<and>
      map rs_step (rr_steps r) = [1..<3 * n + 1] \<and>
      map (\<lambda>x. (rs_amount x, rs_totalStaked x, rs_totalBorrowed x)) (borrow_steps (rr_steps r))
        = map (\<lambda>x. (ld_borrowed x, ld_totalStaked x, ld_totalBorrowed x)) (lr_loops l)"
proof -
  have a: "snd (restaking_loop cf 0 n 0 0 p) = snd (leverage_loop cf 0 n 0 0 p)"
    "map rs_step (fst (restaking_loop cf 0 n 0 0 p)) = [1..<3 * n + 1]"
    "map (\<lambda>x. (rs_amount x, rs_totalStaked x, rs_totalBorrowed x)) (borrow_steps (fst (restaking_loop cf 0 n 0 0 p)))
       = map (\<lambda>x. (ld_borrowed x, ld_totalStaked x, ld_totalBorrowed x)) (fst (leverage_loop cf 0 n 0 0 p))"
    using loops_agree [of cf 0 n 0 0 p] by (simp_all add: mult.commute)
  show ?thesis unfolding restaking_simulate_def leverage_simulate_def Let_def split_beta
    using a by simp
qed

subsection \<open>Shape and bounds of the simulation\<close>

text \<open>The intended reading of the bounds a request must satisfy.\<close>

definition leverage_input_ok :: "leverage_input \<Rightarrow> bool" where
  "leverage_input_ok inp \<longleftrightarrow>
     0 < li_principal inp \<and> 1 \<le> li_loops inp \<and> li_loops inp \<le> 20 \<and>
     lit (1/10) \<le> li_collateralFactor inp \<and> li_collateralFactor inp \<le> lit (95/100) \<and>
     0 \<le> li_stakingAPR inp \<and> li_stakingAPR inp \<le> 1 \<and> 0 \<le> li_borrowAPR inp \<and> li_borrowAPR inp \<le> 1"

text \<open>The state of the loop with principal \<open>p\<close>, after \<open>k\<close> loops.\<close>

definition loop_bounds :: "rat \<Rightarrow> nat \<Rightarrow> rat \<Rightarrow> rat \<Rightarrow> rat \<Rightarrow> bool" where
  "loop_bounds p k s b d \<longleftrightarrow> p \<le> 2 ^ 200 \<and> rndq p = p \<and>
     0 \<le> b \<and> b \<le> s \<and> s \<le> 2 ^ k * p \<and> rndq s = s \<and> 0 \<le> d \<and> d \<le> p \<and> rndq d = d"

lemma double_scale:
  assumes "rndq p = p"
  shows "rndq (2 ^ k * p) = 2 ^ k * p"
proof -
  obtain m where m: "rndq p = of_int m * 2 powi uexp p" "\<bar>m\<bar> \<le> 2^53" by (rule rndq_eq_grid)
  have "2 ^ k * p = of_int m * (2 powi (uexp p + int k) :: rat)"
    using m(1) assms by (simp add: power_int_add)
  moreover have "-1074 \<le> uexp p + int k" by (simp add: uexp_def)
  ultimately show ?thesis using rndq_grid [OF m(2)] by simp
qed

lemma loop_bounds_step:
  assumes "loop_bounds p k s b d" "k < 50" "0 \<le> c" "c \<le> 1"
  shows "rnd (s + d) = Fin (rndq (s + d))" "rnd (d * c) = Fin (rndq (d * c))"
    "rnd (b + rndq (d * c)) = Fin (rndq (b + rndq (d * c)))"
    "loop_bounds p (Suc k) (rndq (s + d)) (rndq (b + rndq (d * c))) (rndq (d * c))"
    "d \<le> rndq (s + d)" "s \<le> rndq (s + d)"
proof -
  have a: "0 \<le> b" "b \<le> s" "s \<le> 2 ^ k * p" "0 \<le> d" "d \<le> p" "rndq d = d" "rndq s = s" "rndq p = p" "p \<le> 2 ^ 200"
    using assms(1) by (simp_all add: loop_bounds_def)
  have p0: "0 \<le> p" using a by linarith
  have "1 * p \<le> 2 ^ k * p" using p0 by (intro mult_right_mono) simp_all
  then have sd: "0 \<le> s + d" "s + d \<le> 2 ^ Suc k * p" using a by simp_all
  have "2 ^ Suc k * p \<le> 2 ^ 50 * 2 ^ 200"
    using a p0 assms(2) by (intro mult_mono power_increasing) auto
  then have q: "2 ^ Suc k * p \<le> 2 ^ 300" by simp
  have dc: "0 \<le> d * c" "d * c \<le> d" using a assms by (simp_all add: mult_left_le)
  have bo: "0 \<le> rndq (d * c)" "rndq (d * c) \<le> d"
    using dc a by (auto intro: rndq_nonneg dbl.scale_down assms)
  have bb: "0 \<le> b + rndq (d * c)" "b + rndq (d * c) \<le> s + d" using a bo by simp_all
  show "rnd (s + d) = Fin (rndq (s + d))" using sd q by (intro rnd_Fin_300) linarith
  have "(2::rat) ^ 200 \<le> 2 ^ 300" by (rule power_increasing) auto
  then show "rnd (d * c) = Fin (rndq (d * c))" using dc a by (intro rnd_Fin_300) linarith
  show "rnd (b + rndq (d * c)) = Fin (rndq (b + rndq (d * c)))" using bb sd q by (intro rnd_Fin_300) linarith
  have "rndq (s + d) \<le> 2 ^ Suc k * p" using rndq_mono [OF sd(2)] by (simp only: double_scale [OF a(8)])
  then show "loop_bounds p (Suc k) (rndq (s + d)) (rndq (b + rndq (d * c))) (rndq (d * c))"
    using bb bo a rndq_mono [OF bb(2)] by (simp add: loop_bounds_def rndq_nonneg)
  show "d \<le> rndq (s + d)" "s \<le> rndq (s + d)"
    using rndq_mono [of d "s + d"] rndq_mono [of s "s + d"] a by simp_all
qed

lemma leverage_loop_bounds:
  assumes "loop_bounds p k s b d" "k + n \<le> 50" "0 \<le> c" "c \<le> 1"
  shows "\<exists>s' b' d'. snd (leverage_loop (Fin c) i n (Fin s) (Fin b) (Fin d)) = (Fin s', Fin b') \<and>
     loop_bounds p (k + n) s' b' d' \<and> s \<le> s' \<and> (0 < n \<longrightarrow> d \<le> s')"
  using assms(1,2)
proof (induction n arbitrary: i k s b d)
  case 0
  then show ?case by auto
next
  case (Suc n)
  have k: "k < 50" using Suc.prems by simp
  note st = loop_bounds_step [OF Suc.prems(1) k assms(3,4)]
  have "Suc k + n \<le> 50" using Suc.prems by simp
  from Suc.IH [OF st(4) this, of "Suc i"] obtain s' b' d' where r:
    "snd (leverage_loop (Fin c) (Suc i) n (Fin (rndq (s + d))) (Fin (rndq (b + rndq (d * c)))) (Fin (rndq (d * c))))
       = (Fin s', Fin b')" "loop_bounds p (Suc k + n) s' b' d'" "rndq (s + d) \<le> s'" by blast
  have "snd (leverage_loop (Fin c) i (Suc n) (Fin s) (Fin b) (Fin d)) = (Fin s', Fin b')"
    using r(1) by (simp add: Let_def split_beta st(1-3))
  moreover have "loop_bounds p (k + Suc n) s' b' d'" using r(2) by simp
  moreover have "s \<le> s'" "d \<le> s'" using st(5,6) r(3) by linarith+
  ultimately show ?case by blast
qed

lemma funpow_times: "((\<lambda>x. x * c) ^^ k) (d * c) = ((\<lambda>x. x * c) ^^ k) d * (c::number)"
  by (induction k) simp_all

text \<open>Every loop is listed, numbered from one, and borrows its deposit times the factor.\<close>

lemma leverage_loop_shape:
  "map ld_loop (fst (leverage_loop cf i n s b d)) = [i + 1..<i + n + 1] \<and>
   (\<forall>x\<in>set (fst (leverage_loop cf i n s b d)). ld_borrowed x = ld_deposited x * cf) \<and>
   map ld_deposited (fst (leverage_loop cf i n s b d)) = map (\<lambda>k. ((\<lambda>x. x * cf) ^^ k) d) [0..<n]"
proof (induction n arbitrary: i s b d)
  case (Suc n)
  have "map (\<lambda>k. ((\<lambda>x. x * cf) ^^ k) d) [0..<Suc n] = d # map (\<lambda>k. ((\<lambda>x. x * cf) ^^ k) (d * cf)) [0..<n]"
    by (simp only: upt_conv_Cons zero_less_Suc map_Suc_upt [symmetric] list.map map_map)
      (simp add: funpow_times)
  then show ?case using Suc.IH [of "Suc i" "s + d" "b + d * cf" "d * cf"]
    by (simp add: Let_def split_beta upt_conv_Cons del: upt_Suc)
qed simp

text \<open>
  For every request the API accepts (up to a principal of \<open>2^200\<close>), the simulation is finite
  and consistent: it lists the loops 1 to n, each depositing what the one before borrowed; the
  position never owes more than it has staked; and the effective leverage is at least one.
\<close>

theorem leverage_simulation_sound:
  assumes "leverage_input_ok inp" "li_principal inp = Fin p" "p \<le> 2 ^ 200" "is_double p"
  shows "\<exists>s b e. lr_totalStaked (leverage_simulate inp) = Fin s \<and> lr_totalBorrowed (leverage_simulate inp) = Fin b \<and>
     lr_effectiveLeverage (leverage_simulate inp) = Fin e \<and> 0 \<le> b \<and> b \<le> s \<and> p \<le> s \<and> 1 \<le> e \<and>
     map ld_loop (lr_loops (leverage_simulate inp)) = [1..<li_loops inp + 1] \<and>
     map ld_deposited (lr_loops (leverage_simulate inp)) =
       map (\<lambda>k. ((\<lambda>x. x * li_collateralFactor inp) ^^ k) (Fin p)) [0..<li_loops inp]"
proof -
  let ?n = "li_loops inp"
  have n: "1 \<le> ?n" "?n \<le> 20" and p: "0 < p" using assms(1,2) by (auto simp: leverage_input_ok_def)
  have "\<bar>1/10 :: rat\<bar> \<le> 2^110" "\<bar>95/100 :: rat\<bar> \<le> 2^110" by simp_all
  then have lits: "lit (1/10) = Fin (rndq (1/10))" "lit (95/100) = Fin (rndq (95/100))"
    by (simp_all only: rnd_Fin_300 small_le_300)
  have "0 \<le> rndq (1/10)" by (rule rndq_nonneg) simp
  moreover have "rndq (95/100) \<le> 1" using rndq_mono [of "95/100" 1] by simp
  ultimately obtain c where c: "li_collateralFactor inp = Fin c" "0 \<le> c" "c \<le> 1"
    using assms(1) unfolding leverage_input_ok_def lits by (cases "li_collateralFactor inp") auto
  have "loop_bounds p 0 0 0 p" using assms(3,4) p by (simp add: loop_bounds_def is_double_def)
  from leverage_loop_bounds [OF this _ c(2,3), of ?n 0] n obtain s b d where r:
    "snd (leverage_loop (Fin c) 0 ?n (Fin 0) (Fin 0) (Fin p)) = (Fin s, Fin b)"
    "loop_bounds p (0 + ?n) s b d" "p \<le> s" by auto
  have s: "0 \<le> b" "b \<le> s" "s \<le> 2 ^ ?n * p" using r(2) by (simp_all add: loop_bounds_def)
  have tot: "lr_totalStaked (leverage_simulate inp) = Fin s" "lr_totalBorrowed (leverage_simulate inp) = Fin b"
    and eff: "lr_effectiveLeverage (leverage_simulate inp) = rnd (s / p)"
    using r(1) p by (simp_all add: leverage_simulate_def Let_def split_beta assms(2) c(1) zero_number_def)
  have lo: "1 \<le> s / p" using r(3) p by simp
  have "(2::rat) ^ ?n \<le> 2 ^ 110" using n by (intro power_increasing) auto
  moreover have "s / p \<le> 2 ^ ?n" using s(3) p by (simp add: pos_divide_le_eq)
  ultimately have "\<bar>s / p\<bar> \<le> 2 ^ 110" using lo by linarith
  then have "rnd (s / p) = Fin (rndq (s / p))" by (intro rnd_Fin_300 small_le_300)
  moreover have "1 \<le> rndq (s / p)" using rndq_mono [OF lo] by simp
  ultimately have "\<exists>e. rnd (s / p) = Fin e \<and> 1 \<le> e" by blast
  then show ?thesis using tot eff s(1,2) r(3) leverage_loop_shape [of "Fin c" 0 ?n 0 0 "Fin p"]
    by (simp add: leverage_simulate_def Let_def split_beta assms(2) c(1))
qed

theorem leverage_simulation_sound_witness:
  "\<exists>s. lr_totalStaked (leverage_simulate \<lparr>li_principal = Fin 1000, li_loops = 3, li_collateralFactor = lit (1/2),
      li_stakingAPR = 0, li_borrowAPR = 0\<rparr>) = Fin s \<and> 1000 \<le> s"
proof -
  have l: "lit (1/10) = Fin (rndq (1/10))" "lit (95/100) = Fin (rndq (95/100))"
    by (simp_all add: rnd_Fin_300 small_le_300)
  have "rndq (1/10) \<le> 1/2" using rndq_mono [of "1/10" "1/2"] rndq_grid [of 1 "-1"]
    by (simp add: power_int_minus_divide)
  moreover have "1/2 \<le> rndq (95/100)" using rndq_mono [of "1/2" "95/100"] rndq_grid [of 1 "-1"]
    by (simp add: power_int_minus_divide)
  ultimately have ok: "leverage_input_ok \<lparr>li_principal = Fin 1000, li_loops = 3, li_collateralFactor = lit (1/2),
      li_stakingAPR = 0, li_borrowAPR = 0\<rparr>"
    by (auto simp: leverage_input_ok_def rnd_Fin_300 small_le_300 zero_number_def one_number_def order.order_iff_strict)
  have "is_double 1000" using is_double_of_int [of 1000] by simp
  then show ?thesis using leverage_simulation_sound [OF ok, of 1000] by auto
qed

subsection \<open>The search stops at the first small gain\<close>

lemma optimal_loop_spec:
  assumes "1 \<le> l" "l \<le> 20" "left = 20 - l"
    "\<forall>k. 1 < k \<and> k \<le> l \<longrightarrow> \<not> f k - f (k - 1) < 1" "optimal_loop f (Suc l) left l (f l) = r"
  shows "l \<le> r \<and> r \<le> 20 \<and> (\<forall>k. 1 < k \<and> k \<le> r \<longrightarrow> \<not> f k - f (k - 1) < 1) \<and>
    (r < 20 \<longrightarrow> f (Suc r) - f r < (1::number))"
  using assms
proof (induction left arbitrary: l)
  case (Suc left)
  show ?case
  proof (cases "f (Suc l) - f l < 1")
    case True
    then have r: "r = l" using Suc.prems(1,5) by simp
    show ?thesis unfolding r using Suc.prems(2,4) True by simp
  next
    case False
    have all: "\<forall>k. 1 < k \<and> k \<le> Suc l \<longrightarrow> \<not> f k - f (k - 1) < 1"
      using Suc.prems(4) False by (auto simp: le_Suc_eq)
    have "Suc l \<le> r \<and> r \<le> 20 \<and> (\<forall>k. 1 < k \<and> k \<le> r \<longrightarrow> \<not> f k - f (k - 1) < 1) \<and>
      (r < 20 \<longrightarrow> f (Suc r) - f r < 1)"
    proof (rule Suc.IH [rotated 4])
      show "optimal_loop f (Suc (Suc l)) left (Suc l) (f (Suc l)) = r" using Suc.prems(1,5) False by simp
    qed (use Suc.prems(1-3) all in auto)
    then show ?thesis by simp
  qed
qed simp

text \<open>
  The optimal number of loops is between 1 and 20; every loop up to it added at least one unit
  (0.1 percent of the 1000 simulated) to the net yield, and, unless it is 20, the next loop
  would add less.
\<close>

theorem optimal_loops_first_small_gain:
  fixes sAPR bAPR cf :: number
  defines "f \<equiv> \<lambda>n. lr_netYield (trial sAPR bAPR cf n)"
  shows "1 \<le> or_optimalLoops (optimal sAPR bAPR cf) \<and> or_optimalLoops (optimal sAPR bAPR cf) \<le> 20 \<and>
    (\<forall>k. 1 < k \<and> k \<le> or_optimalLoops (optimal sAPR bAPR cf) \<longrightarrow> \<not> f k - f (k - 1) < 1) \<and>
    (or_optimalLoops (optimal sAPR bAPR cf) < 20 \<longrightarrow>
       f (Suc (or_optimalLoops (optimal sAPR bAPR cf))) - f (or_optimalLoops (optimal sAPR bAPR cf)) < 1)"
proof -
  have e: "or_optimalLoops (optimal sAPR bAPR cf) = optimal_loop f (Suc 1) 19 1 (f 1)"
    by (simp add: optimal_def f_def eval_nat_numeral)
  show ?thesis unfolding e by (rule optimal_loop_spec) auto
qed

theorem optimal_loops_first_small_gain_witness:
  "1 \<le> or_optimalLoops (optimal 0 (lit (4/100)) (lit (7/10)))"
  using optimal_loops_first_small_gain [of 0 "lit (4/100)" "lit (7/10)"] by blast

end
