(* ===== verification/Dex_Quote.thy ===== *)
theory Dex_Quote
  imports Chain_Rpc
begin

text \<open>
  Swap quotes of the sXLM/XLM pool: \<open>dex-integration/index.ts\<close> of the backend, \<open>sdk/src/index.ts\<close>,
  and the swap of the pool contract (\<open>contracts/lp-pool/src/lib.rs\<close>) whose outcome both predict.
  Raw amounts are \<open>bigint\<close>s; display amounts are doubles.
\<close>

subsection \<open>The backend's quote\<close>

datatype token = XLM | SXLM

record pool_snapshot =
  reserveXlmRaw :: stroops
  reserveSxlmRaw :: stroops
  totalLpSupplyRaw :: stroops
  feeBps :: int

definition STROOPS_PER_XLM :: number where "STROOPS_PER_XLM = lit 10000000"
definition DEFAULT_SWAP_FEE_BPS :: int where "DEFAULT_SWAP_FEE_BPS = 30"

definition rawAmountToDisplay :: "stroops \<Rightarrow> number" where
  "rawAmountToDisplay raw = num_of_big raw / STROOPS_PER_XLM"

definition displayAmountToRaw :: "number \<Rightarrow> js_error + stroops" where
  "displayAmountToRaw amt =
     (if \<not> isFinite amt \<or> amt < 0 then throw (Err ''Amount must be a non-negative finite number'')
      else floor_big (amt * STROOPS_PER_XLM))"

definition computeSpotPrice :: "pool_snapshot \<Rightarrow> number" where
  "computeSpotPrice s =
     (if reserveSxlmRaw s \<le> 0 then 1 else num_of_big (reserveXlmRaw s) / num_of_big (reserveSxlmRaw s))"

definition after_fee :: "stroops \<Rightarrow> int \<Rightarrow> stroops" where
  "after_fee amountInRaw fee = bdiv (amountInRaw * (10000 - fee)) 10000"

definition applyConstantProductQuote :: "stroops \<Rightarrow> stroops \<Rightarrow> stroops \<Rightarrow> int \<Rightarrow> stroops" where
  "applyConstantProductQuote reserveInRaw reserveOutRaw amountInRaw fee =
     (if reserveInRaw \<le> 0 \<or> reserveOutRaw \<le> 0 \<or> amountInRaw \<le> 0 then 0
      else let amountAfterFee = after_fee amountInRaw fee
           in if amountAfterFee \<le> 0 then 0
              else reserveOutRaw - bdiv (reserveInRaw * reserveOutRaw) (reserveInRaw + amountAfterFee))"

record swap_quote =
  q_tokenIn :: token
  q_tokenOut :: token
  q_amountInRaw :: stroops
  q_amountOutRaw :: stroops
  q_amountIn :: number
  q_amountOut :: number
  q_minimumAmountOutRaw :: stroops
  q_minimumAmountOut :: number
  q_executionPrice :: number
  q_spotPrice :: number
  q_priceImpactBps :: number
  q_feeBps :: int

definition other_token :: "token \<Rightarrow> token" where
  "other_token t = (if t = XLM then SXLM else XLM)"

definition reserve_of :: "token \<Rightarrow> pool_snapshot \<Rightarrow> stroops" where
  "reserve_of t s = (if t = XLM then reserveXlmRaw s else reserveSxlmRaw s)"

definition quoteExactIn :: "pool_snapshot \<Rightarrow> token \<Rightarrow> stroops \<Rightarrow> number \<Rightarrow> js_error + swap_quote" where
  "quoteExactIn s tokenIn amountInRaw slippageBps =
     (if amountInRaw \<le> 0 then throw (Err ''Amount in must be positive'')
      else if reserveXlmRaw s \<le> 0 \<or> reserveSxlmRaw s \<le> 0 then throw (Err ''Pool has no liquidity'')
      else let tokenOut = other_token tokenIn;
               amountOutRaw = applyConstantProductQuote (reserve_of tokenIn s) (reserve_of tokenOut s)
                                amountInRaw (feeBps s)
           in if amountOutRaw \<le> 0 then throw (Err ''Pool has insufficient liquidity for this trade'')
              else let amountIn = rawAmountToDisplay amountInRaw;
                       amountOut = rawAmountToDisplay amountOutRaw;
                       spotPrice = computeSpotPrice s;
                       executionPrice = (if tokenIn = XLM then amountIn / amountOut else amountOut / amountIn);
                       priceImpactBps = (if 0 < spotPrice
                          then js_abs ((executionPrice - spotPrice) / spotPrice) * lit 10000 else 0)
                   in bind_result (big_of_num (js_max 0 (lit 10000 - slippageBps))) (\<lambda>keep.
                      let minOut = bdiv (amountOutRaw * keep) 10000 in
                      return \<lparr>q_tokenIn = tokenIn, q_tokenOut = tokenOut, q_amountInRaw = amountInRaw,
                        q_amountOutRaw = amountOutRaw, q_amountIn = amountIn, q_amountOut = amountOut,
                        q_minimumAmountOutRaw = minOut, q_minimumAmountOut = rawAmountToDisplay minOut,
                        q_executionPrice = executionPrice, q_spotPrice = spotPrice,
                        q_priceImpactBps = priceImpactBps, q_feeBps = feeBps s\<rparr>))"

record dex_route =
  dr_id :: string
  dr_name :: string
  dr_quote :: swap_quote

definition buildDexRoutes :: "swap_quote \<Rightarrow> string list \<Rightarrow> dex_route list" where
  "buildDexRoutes quote preferredDexes =
     map (\<lambda>dexName. \<lparr>dr_id = (if lower dexName = ''stellarx'' then ''stellarx'' else ''lumenswap''),
            dr_name = dexName, dr_quote = quote\<rparr>) preferredDexes"

subsection \<open>The SDK's quote\<close>

record pool_state =
  reserveXlm :: number
  reserveSxlm :: number
  poolFeeBps :: "int option"

record quote_response =
  s_tokenIn :: token
  s_tokenOut :: token
  s_amountIn :: number
  s_amountOut :: number
  s_minimumAmountOut :: number
  s_executionPrice :: number
  s_spotPrice :: number
  s_priceImpactBps :: number

definition toRaw :: "number \<Rightarrow> js_error + stroops" where
  "toRaw amt = floor_big (amt * STROOPS_PER_XLM)"

definition toDisplay :: "stroops \<Rightarrow> number" where
  "toDisplay amt = num_of_big amt / STROOPS_PER_XLM"

definition sdk_computeSpotPrice :: "pool_state \<Rightarrow> number" where
  "sdk_computeSpotPrice pool = (if reserveSxlm pool \<le> 0 then 1 else reserveXlm pool / reserveSxlm pool)"

text \<open>The raw part of \<open>quoteSwap\<close>; the division throws when its divisor is zero.\<close>

definition sdk_amountOutRaw :: "stroops \<Rightarrow> stroops \<Rightarrow> stroops \<Rightarrow> int \<Rightarrow> js_error + stroops" where
  "sdk_amountOutRaw reserveInRaw reserveOutRaw amountInRaw fee =
     bind_result (big_div (reserveInRaw * reserveOutRaw) (reserveInRaw + after_fee amountInRaw fee)) (\<lambda>q.
       let amountOutRaw = reserveOutRaw - q
       in if amountOutRaw \<le> 0 \<or> reserveOutRaw \<le> amountOutRaw
          then throw (Err ''Pool has insufficient liquidity for this trade'')
          else return amountOutRaw)"

definition quoteSwap :: "pool_state \<Rightarrow> token \<Rightarrow> number \<Rightarrow> int option \<Rightarrow> js_error + quote_response" where
  "quoteSwap pool tokenIn amt slippageBps =
     (if \<not> isFinite amt \<or> amt \<le> 0 then throw (Err ''Amount must be positive'')
      else let fee = (case poolFeeBps pool of None \<Rightarrow> DEFAULT_SWAP_FEE_BPS | Some f \<Rightarrow> f);
               reserveIn = (if tokenIn = XLM then reserveXlm pool else reserveSxlm pool);
               reserveOut = (if tokenIn = XLM then reserveSxlm pool else reserveXlm pool)
           in if \<not> isFinite reserveIn \<or> \<not> isFinite reserveOut \<or> reserveIn \<le> 0 \<or> reserveOut \<le> 0
              then throw (Err ''Pool has no liquidity'')
              else bind_result (toRaw amt) (\<lambda>amountInRaw.
                   bind_result (toRaw reserveIn) (\<lambda>reserveInRaw.
                   bind_result (toRaw reserveOut) (\<lambda>reserveOutRaw.
                   bind_result (sdk_amountOutRaw reserveInRaw reserveOutRaw amountInRaw fee) (\<lambda>amountOutRaw.
                     let amountOut = toDisplay amountOutRaw;
                         slip = (case slippageBps of None \<Rightarrow> 50 | Some b \<Rightarrow> b);
                         spotPrice = sdk_computeSpotPrice pool;
                         executionPrice = (if tokenIn = XLM then amt / amountOut else amountOut / amt)
                     in return \<lparr>s_tokenIn = tokenIn, s_tokenOut = other_token tokenIn, s_amountIn = amt,
                          s_amountOut = amountOut,
                          s_minimumAmountOut = toDisplay (bdiv (amountOutRaw * (10000 - slip)) 10000),
                          s_executionPrice = executionPrice, s_spotPrice = spotPrice,
                          s_priceImpactBps = js_abs ((executionPrice - spotPrice) / spotPrice) * lit 10000\<rparr>)))))"

definition buildRouteManifest :: "pool_state \<Rightarrow> token \<Rightarrow> number \<Rightarrow> int option \<Rightarrow> js_error + string list \<times> quote_response" where
  "buildRouteManifest pool tokenIn amt slippageBps =
     bind_result (quoteSwap pool tokenIn amt slippageBps) (\<lambda>quote. return ([''StellarX'', ''Lumenswap''], quote))"

subsection \<open>The contract's swap\<close>

text \<open>
  The arithmetic of the two swap functions on signed 128-bit integers, where an overflow panics
  (\<open>None\<close>): the output, and the reserves and accrued protocol fees afterwards.
\<close>

record lp_state =
  lp_xlm :: int
  lp_sxlm :: int
  lp_fee_bps :: int
  lp_protocol_fee_bps :: int
  lp_accrued :: int

definition checked_mul_div :: "int \<Rightarrow> int \<Rightarrow> int \<Rightarrow> int option" where
  "checked_mul_div a b c =
     (case i128 (a * b) of None \<Rightarrow> None | Some p \<Rightarrow> if c = 0 then None else Some (bdiv p c))"

definition swap_out :: "int \<Rightarrow> int \<Rightarrow> int \<Rightarrow> int \<Rightarrow> int \<Rightarrow> int option" where
  "swap_out reserve_in reserve_out amt fee_bps min_out =
     (if amt \<le> 0 then None else
      case checked_mul_div amt (10000 - fee_bps) 10000 of None \<Rightarrow> None | Some amount_after_fee \<Rightarrow>
      if reserve_in \<le> 0 \<or> reserve_out \<le> 0 then None else
      case checked_mul_div reserve_in reserve_out (reserve_in + amount_after_fee) of None \<Rightarrow> None | Some q \<Rightarrow>
      let out = reserve_out - q in
      if out \<le> 0 \<or> reserve_out \<le> out \<or> out < min_out then None else Some out)"

definition swap_xlm_to_sxlm :: "lp_state \<Rightarrow> int \<Rightarrow> int \<Rightarrow> (int \<times> lp_state) option" where
  "swap_xlm_to_sxlm st xlm_amount min_out =
     (case swap_out (lp_xlm st) (lp_sxlm st) xlm_amount (lp_fee_bps st) min_out of
        None \<Rightarrow> None
      | Some sxlm_out \<Rightarrow>
          let total_fee = xlm_amount - bdiv (xlm_amount * (10000 - lp_fee_bps st)) 10000
          in case checked_mul_div total_fee (lp_protocol_fee_bps st) (lp_fee_bps st) of
               None \<Rightarrow> None
             | Some pcut \<Rightarrow> Some (sxlm_out, st\<lparr>lp_xlm := lp_xlm st + xlm_amount - pcut,
                                          lp_sxlm := lp_sxlm st - sxlm_out, lp_accrued := lp_accrued st + pcut\<rparr>))"

definition swap_sxlm_to_xlm :: "lp_state \<Rightarrow> int \<Rightarrow> int \<Rightarrow> (int \<times> lp_state) option" where
  "swap_sxlm_to_xlm st sxlm_amount min_out =
     (case swap_out (lp_sxlm st) (lp_xlm st) sxlm_amount (lp_fee_bps st) min_out of
        None \<Rightarrow> None
      | Some xlm_out \<Rightarrow> Some (xlm_out, st\<lparr>lp_sxlm := lp_sxlm st + sxlm_amount, lp_xlm := lp_xlm st - xlm_out\<rparr>))"

subsection \<open>The constant product formula\<close>

lemma bdiv_pos: "0 \<le> a \<Longrightarrow> 0 < b \<Longrightarrow> bdiv a b = a div b"
  by (simp add: bdiv_nonneg)

text \<open>The output is the exact quotient \<open>Rout * a / (Rin + a)\<close>, rounded up.\<close>

lemma cp_bounds:
  fixes rin rout a :: int
  assumes "0 < rin" "0 < rout" "0 < a"
  defines "out \<equiv> rout - (rin * rout) div (rin + a)"
  shows "0 < out" "out \<le> rout" "(rin + a) * (rout - out) \<le> rin * rout"
    "rin * rout < (rin + a) * (rout - out + 1)"
proof -
  let ?d = "rin + a" and ?p = "rin * rout"
  have d: "0 < ?d" using assms by simp
  have m: "0 \<le> ?p mod ?d" "?p mod ?d < ?d" using d by simp_all
  have dm: "?d * (?p div ?d) = ?p - ?p mod ?d" by (rule minus_mod_eq_mult_div [symmetric])
  have ro: "rout - out = ?p div ?d" by (simp add: out_def)
  show "(rin + a) * (rout - out) \<le> rin * rout" unfolding ro dm using m by linarith
  have "(rin + a) * (rout - out + 1) = ?p - ?p mod ?d + ?d" unfolding ro distrib_left dm by simp
  then show "rin * rout < (rin + a) * (rout - out + 1)" using m by linarith
  have "?p < ?d * rout" using assms by (simp add: distrib_right)
  then have "?d * (?p div ?d) < ?d * rout" using dm m by linarith
  then have "?p div ?d < rout" using d by simp
  then show "0 < out" by (simp add: out_def)
  have "0 \<le> ?p div ?d" using assms d by (simp add: pos_imp_zdiv_nonneg_iff)
  then show "out \<le> rout" by (simp add: out_def)
qed

text \<open>
  A quote hands out a positive amount, never more than the reserve, and it is the exact
  constant-product output rounded up to a whole stroop: the product of the reserves after the
  trade (with the input after fees) is at most the one before, and taking one stroop less would
  keep it at least as large.
\<close>

theorem quote_is_constant_product:
  assumes "0 < rin" "0 < rout" "0 < amt" "0 < after_fee amt fee"
  shows "let out = applyConstantProductQuote rin rout amt fee; a = after_fee amt fee
     in 0 < out \<and> out \<le> rout \<and> (rin + a) * (rout - out) \<le> rin * rout \<and>
        rin * rout < (rin + a) * (rout - (out - 1))"
proof -
  have q: "applyConstantProductQuote rin rout amt fee = rout - (rin * rout) div (rin + after_fee amt fee)"
    using assms by (simp add: applyConstantProductQuote_def Let_def bdiv_pos)
  have "rout - (x - 1) = rout - x + 1" for x by simp
  then show ?thesis unfolding Let_def q using cp_bounds [OF assms(1,2,4)] by simp
qed

theorem quote_is_constant_product_witness:
  "applyConstantProductQuote 1000 2000 100 30 = 181 \<and> (181::int) \<le> 2000"
proof -
  have "0 < after_fee 100 30" by (simp add: after_fee_def bdiv_def)
  from quote_is_constant_product [OF _ _ _ this, of 1000 2000]
  show ?thesis by (simp add: applyConstantProductQuote_def after_fee_def bdiv_def)
qed

text \<open>
  A larger input never buys less: the quoted output is monotone in the amount, for any pool
  and any fee between 0 and 100 percent.
\<close>

theorem quote_monotone:
  assumes "a \<le> b" "0 \<le> fee" "fee \<le> 10000"
  shows "applyConstantProductQuote rin rout a fee \<le> applyConstantProductQuote rin rout b fee"
proof (cases "rin \<le> 0 \<or> rout \<le> 0 \<or> a \<le> 0")
  case True
  have "0 \<le> applyConstantProductQuote rin rout b fee"
    using cp_bounds(1) [of rin rout "after_fee b fee"]
    by (simp add: applyConstantProductQuote_def Let_def bdiv_pos not_le less_imp_le)
  then show ?thesis using True by (simp add: applyConstantProductQuote_def)
next
  case False
  have fe: "after_fee x fee = x * (10000 - fee) div 10000" if "0 \<le> x" for x
    using that assms by (simp add: after_fee_def bdiv_pos)
  have "a * (10000 - fee) \<le> b * (10000 - fee)" using assms by (intro mult_right_mono) auto
  then have ab: "after_fee a fee \<le> after_fee b fee" using False assms by (simp add: fe zdiv_mono1)
  show ?thesis
  proof (cases "after_fee a fee \<le> 0")
    case True
    then show ?thesis using False assms cp_bounds(1) [of rin rout "after_fee b fee"]
      by (simp add: applyConstantProductQuote_def Let_def bdiv_pos less_imp_le)
  next
    case pos: False
    have "(rin * rout) div (rin + after_fee b fee) \<le> (rin * rout) div (rin + after_fee a fee)"
      using False pos ab by (intro zdiv_mono2) auto
    then show ?thesis using False pos ab assms
      by (simp add: applyConstantProductQuote_def Let_def bdiv_pos)
  qed
qed

theorem quote_monotone_witness:
  "applyConstantProductQuote 1000 2000 100 30 \<le> applyConstantProductQuote 1000 2000 150 30"
  by (rule quote_monotone) simp_all

subsection \<open>Backend, SDK and contract\<close>

lemma backend_out:
  assumes "0 < rin" "0 < rout" "0 < after_fee amt fee" "0 < amt"
  shows "applyConstantProductQuote rin rout amt fee = rout - bdiv (rin * rout) (rin + after_fee amt fee)"
  using assms by (simp add: applyConstantProductQuote_def Let_def)

lemma keep_bounds:
  assumes "big_of_num (js_max 0 (lit 10000 - slip)) = Inr keep"
  shows "0 \<le> keep" "0 \<le> slip \<Longrightarrow> keep \<le> 10000"
proof -
  let ?m = "js_max 0 (lit 10000 - slip)"
  obtain x where x: "?m = Fin x" "x = of_int keep" using assms by (cases ?m) (auto split: if_splits)
  have "0 \<le> x" using x(1) by (cases "lit 10000 - slip") (auto simp: js_max_def zero_number_def split: if_splits)
  then show "0 \<le> keep" using x(2) by simp
  assume s: "0 \<le> slip"
  then have "x \<le> 10000"
  proof (cases slip)
    case (Fin y)
    then have "0 \<le> y" using s by simp
    then have "rndq (10000 - y) \<le> 10000" using rndq_mono [of "10000 - y" 10000] by simp
    moreover have "lit 10000 - slip = Fin (rndq (10000 - y)) \<or> lit 10000 - slip = NInf \<or> x = 0"
    proof -
      have "(10000::rat) < dbl_limit" by (simp add: dbl_limit_def)
      then have "\<not> dbl_limit \<le> rndq (10000 - y)" using calculation by linarith
      then have "rnd (10000 - y) = Fin (rndq (10000 - y)) \<or> rnd (10000 - y) = NInf"
        by (simp add: rnd_def Let_def)
      moreover have "lit 10000 - slip = rnd (10000 - y)" using Fin by simp
      ultimately show ?thesis by metis
    qed
    ultimately show ?thesis using x(1) by (auto simp: js_max_def zero_number_def split: if_splits)
  qed (use x(1) in \<open>auto simp: js_max_def zero_number_def minus_number_def split: if_splits\<close>)
  then show "keep \<le> 10000" using x(2) by simp
qed


definition sample_pool :: pool_snapshot where
  "sample_pool = \<lparr>reserveXlmRaw = 1000, reserveSxlmRaw = 2000, totalLpSupplyRaw = 1, feeBps = 30\<rparr>"

lemma slip_50: "big_of_num (js_max 0 (Fin 9950)) = Inr 9950"
  by (simp add: js_max_def zero_number_def)


text \<open>
  The backend quotes a trade that drains the pool: when the input (after fees) exceeds the
  product of the reserves, it reports the whole output reserve as the amount out, while the pool
  contract and the SDK refuse the trade.
\<close>

theorem backend_quotes_draining_trade:
  assumes "0 < rin" "0 < rout" "0 < amt" "rin * rout < rin + after_fee amt fee"
  shows "applyConstantProductQuote rin rout amt fee = rout \<and>
    isl (sdk_amountOutRaw rin rout amt fee) \<and> swap_out rin rout amt fee m = None"
proof -
  have "0 < rin * rout" using assms by simp
  have a: "0 < after_fee amt fee"
  proof -
    have "rin * 1 \<le> rin * rout" using assms by (intro mult_left_mono) auto
    then have "rin \<le> rin * rout" by simp
    then show ?thesis using assms by linarith
  qed
  have z: "bdiv (rin * rout) (rin + after_fee amt fee) = 0"
    using assms a \<open>0 < rin * rout\<close> by (simp add: bdiv_pos div_pos_pos_trivial)
  have "swap_out rin rout amt fee m = None"
    using z by (auto simp: swap_out_def checked_mul_div_def Let_def after_fee_def i128_def split: option.splits if_splits)
  then show ?thesis using assms a z by (simp add: backend_out sdk_amountOutRaw_def big_div_def)
qed

theorem backend_quotes_draining_trade_witness:
  "applyConstantProductQuote 10 10 1000 0 = 10 \<and> isl (sdk_amountOutRaw 10 10 1000 0)"
  using backend_quotes_draining_trade [of 10 10 1000 0] by (simp add: after_fee_def bdiv_def)

end
