(* ===== verification/Dex_Oracle.thy ===== *)
theory Dex_Oracle
  imports Dex_Quote
begin

text \<open>
  The price oracle of the DEX integration: \<open>computeTwapPrice\<close> of \<open>dex-integration/index.ts\<close>, and the
  recording and loading of observations in \<open>dex-integration/service.ts\<close>.
\<close>

record observation =
  observedAt :: millis
  spotPrice :: number

datatype confidence = Low | Medium | High

record oracle_snapshot =
  os_spotPrice :: number
  os_twapPrice :: number
  os_deviationBps :: number
  os_windowSeconds :: int
  os_sampleCount :: int
  os_startTime :: millis
  os_endTime :: millis
  os_confidence :: confidence

definition computeConfidence :: "int \<Rightarrow> int \<Rightarrow> confidence" where
  "computeConfidence sampleCount windowSeconds =
     (if 5 \<le> sampleCount \<and> 900 \<le> windowSeconds then High
      else if 2 \<le> sampleCount then Medium else Low)"

subsection \<open>The time-weighted average\<close>

text \<open>The loop over the relevant observations and the tail after it.\<close>

fun twap_loop :: "millis \<Rightarrow> millis \<Rightarrow> observation list \<Rightarrow> millis \<Rightarrow> number \<Rightarrow> number \<Rightarrow> number" where
  "twap_loop windowStart now [] segmentStart activePrice weighted =
     (if segmentStart < now then weighted + activePrice * Fin (of_int (now - segmentStart)) else weighted)"
| "twap_loop windowStart now (ob # obs) segmentStart activePrice weighted =
     (if observedAt ob \<le> windowStart
      then twap_loop windowStart now obs segmentStart (spotPrice ob) weighted
      else let segmentEnd = min (observedAt ob) now;
               weighted' = (if segmentStart < segmentEnd
                            then weighted + activePrice * Fin (of_int (segmentEnd - segmentStart)) else weighted)
           in twap_loop windowStart now obs segmentEnd (spotPrice ob) weighted')"

text \<open>\<open>findIndex\<close> and the slice from the last observation before the window on.\<close>

definition relevant :: "millis \<Rightarrow> observation list \<Rightarrow> observation list" where
  "relevant windowStart srt =
     (let before = takeWhile (\<lambda>ob. \<not> windowStart \<le> observedAt ob) srt;
          firstFutureIndex = (if length before = length srt then -1 else int (length before));
          anchorIndex = (if firstFutureIndex \<le> 0 then 0 else firstFutureIndex - 1)
      in drop (nat anchorIndex) srt)"

definition computeTwapPrice :: "observation list \<Rightarrow> int \<Rightarrow> millis \<Rightarrow> js_error + oracle_snapshot" where
  "computeTwapPrice observations windowSeconds now =
     (if windowSeconds \<le> 0 then throw (Err ''windowSeconds must be positive'')
      else let srt = sort_key observedAt observations
           in if srt = [] then throw (Err ''At least one observation is required'')
              else let windowStart = now - windowSeconds * 1000;
                       rel = relevant windowStart srt;
                       weighted = twap_loop windowStart now rel windowStart (spotPrice (hd rel)) 0;
                       twapPrice = weighted / Fin (of_int (windowSeconds * 1000));
                       spot = spotPrice (last srt)
                   in return \<lparr>os_spotPrice = spot, os_twapPrice = twapPrice,
                        os_deviationBps = (if 0 < twapPrice then js_abs ((spot - twapPrice) / twapPrice) * lit 10000 else 0),
                        os_windowSeconds = windowSeconds, os_sampleCount = int (length srt),
                        os_startTime = windowStart, os_endTime = now,
                        os_confidence = computeConfidence (int (length srt)) windowSeconds\<rparr>)"

subsection \<open>Recording and loading observations\<close>

definition latest_row :: "observation list \<Rightarrow> observation option" where
  "latest_row rows = (case sort_key (\<lambda>r. - observedAt r) rows of [] \<Rightarrow> None | r # _ \<Rightarrow> Some r)"

definition recordObservation :: "millis \<Rightarrow> pool_snapshot \<Rightarrow> observation list \<Rightarrow> observation list" where
  "recordObservation now snap rows =
     (let spot = computeSpotPrice snap;
          shouldInsert = (case latest_row rows of
             None \<Rightarrow> True
           | Some r \<Rightarrow> 30000 \<le> now - observedAt r \<or> lit (1/10000) \<le> js_abs (spotPrice r - spot))
      in if shouldInsert then rows @ [\<lparr>observedAt = now, spotPrice = spot\<rparr>] else rows)"

text \<open>
  The rows of the window, plus those of the last time before it, and the current observation unless
  the last row already is it.
\<close>

definition window_rows :: "millis \<Rightarrow> observation list \<Rightarrow> observation list" where
  "window_rows windowStart rows =
     sort_key observedAt (filter (\<lambda>r. windowStart \<le> observedAt r \<or>
       observedAt r < windowStart \<and> (\<forall>q\<in>set rows. observedAt q < windowStart \<longrightarrow> observedAt q \<le> observedAt r)) rows)"

definition with_current :: "observation \<Rightarrow> observation list \<Rightarrow> observation list" where
  "with_current current obs =
     (if obs \<noteq> [] \<and> observedAt (last obs) = observedAt current \<and> js_eq (spotPrice (last obs)) (spotPrice current)
      then obs else obs @ [current])"

definition loadOracleObservations :: "int \<Rightarrow> millis \<Rightarrow> pool_snapshot \<Rightarrow> observation list \<Rightarrow> observation list" where
  "loadOracleObservations windowSeconds now snap rows =
     with_current \<lparr>observedAt = now, spotPrice = computeSpotPrice snap\<rparr> (window_rows (now - windowSeconds * 1000) rows)"

definition buildOracleSnapshot ::
  "int \<Rightarrow> millis \<Rightarrow> pool_snapshot \<Rightarrow> observation list \<Rightarrow> observation list \<times> (js_error + oracle_snapshot)" where
  "buildOracleSnapshot windowSeconds now snap rows =
     (let rows' = recordObservation now snap rows
      in (rows', computeTwapPrice (loadOracleObservations windowSeconds now snap rows') windowSeconds now))"

subsection \<open>The loop averages the step function of the observations\<close>

text \<open>The price in effect at time \<open>t\<close>: that of the last observation up to \<open>t\<close>, the first one before that.\<close>

fun in_effect :: "millis \<Rightarrow> number \<Rightarrow> observation list \<Rightarrow> number" where
  "in_effect t p [] = p"
| "in_effect t p (ob # obs) = in_effect t (if observedAt ob \<le> t then spotPrice ob else p) obs"

definition price_at :: "millis \<Rightarrow> observation list \<Rightarrow> number" where
  "price_at t obs = in_effect t (spotPrice (hd obs)) obs"

type_synonym segment = "number \<times> millis \<times> millis"

definition seg_weight :: "number \<Rightarrow> segment \<Rightarrow> number" where
  "seg_weight w g = (case g of (p, a, b) \<Rightarrow> w + p * Fin (of_int (b - a)))"

text \<open>Segments tile \<open>[a, b)\<close>: each is not empty and starts where the one before ended.\<close>

fun tiles :: "millis \<Rightarrow> millis \<Rightarrow> segment list \<Rightarrow> bool" where
  "tiles a b [] = (b \<le> a)"
| "tiles a b ((p, x, y) # gs) = (x = a \<and> a < y \<and> y \<le> b \<and> tiles y b gs)"

lemma in_effect_above: "\<forall>ob\<in>set obs. t < observedAt ob \<Longrightarrow> in_effect t p obs = p"
  by (induction obs) auto

lemma tiles_empty: "tiles a a gs \<Longrightarrow> gs = []"
  by (cases gs) auto

lemma twap_loop_segments:
  assumes "sorted (map observedAt obs)" "ws \<le> s" "s \<le> now"
    "\<forall>ob\<in>set obs. observedAt ob \<le> ws \<or> s \<le> observedAt ob"
  shows "\<exists>gs. twap_loop ws now obs s p w = foldl seg_weight w gs \<and> tiles s now gs \<and>
     (\<forall>(q, a, b)\<in>set gs. s \<le> a \<and> b \<le> now \<and> a < b \<and> (\<forall>t. a \<le> t \<and> t < b \<longrightarrow> in_effect t p obs = q))"
  using assms
proof (induction obs arbitrary: s p w)
  case Nil
  show ?case
  proof (cases "s < now")
    case True
    then show ?thesis by (intro exI [of _ "[(p, s, now)]"]) (simp add: seg_weight_def)
  next
    case False
    then show ?thesis by (intro exI [of _ "[]"]) simp
  qed
next
  case (Cons ob obs)
  have later: "\<forall>x\<in>set obs. observedAt ob \<le> observedAt x" "sorted (map observedAt obs)"
    using Cons.prems(1) by auto
  show ?case
  proof (cases "observedAt ob \<le> ws")
    case True
    have "\<forall>x\<in>set obs. observedAt x \<le> ws \<or> s \<le> observedAt x" using Cons.prems(4) by simp
    from Cons.IH [OF later(2) Cons.prems(2,3) this] obtain gs where gs:
      "twap_loop ws now obs s (spotPrice ob) w = foldl seg_weight w gs" "tiles s now gs"
      "\<forall>(q, a, b)\<in>set gs. s \<le> a \<and> b \<le> now \<and> a < b \<and> (\<forall>t. a \<le> t \<and> t < b \<longrightarrow> in_effect t (spotPrice ob) obs = q)"
      by blast
    have "in_effect t p (ob # obs) = in_effect t (spotPrice ob) obs" if "s \<le> t" for t
      using that True Cons.prems(2) by simp
    then show ?thesis using gs True by (intro exI [of _ gs]) fastforce
  next
    case False
    let ?e = "min (observedAt ob) now"
    let ?w = "if s < ?e then w + p * Fin (of_int (?e - s)) else w"
    have so: "s \<le> observedAt ob" using Cons.prems(4) False by auto
    then have e: "ws \<le> ?e" "?e \<le> now" "s \<le> ?e" "\<forall>x\<in>set obs. observedAt x \<le> ws \<or> ?e \<le> observedAt x"
      using Cons.prems(2,3) later by auto
    from Cons.IH [OF later(2) e(1,2,4)] obtain gs where gs:
      "twap_loop ws now obs ?e (spotPrice ob) ?w = foldl seg_weight ?w gs" "tiles ?e now gs"
      "\<forall>(q, a, b)\<in>set gs. ?e \<le> a \<and> b \<le> now \<and> a < b \<and> (\<forall>t. a \<le> t \<and> t < b \<longrightarrow> in_effect t (spotPrice ob) obs = q)"
      by blast
    have first: "in_effect t p (ob # obs) = p" if "t < ?e" for t
      using that later by (auto intro!: in_effect_above)
    have rest: "in_effect t p (ob # obs) = in_effect t (spotPrice ob) obs" if "?e \<le> t" "t < now" for t
      using that by (auto simp: min_def split: if_splits)
    have loop: "twap_loop ws now (ob # obs) s p w = twap_loop ws now obs ?e (spotPrice ob) ?w"
      using False by (simp add: Let_def)
    show ?thesis
    proof (cases "s < ?e")
      case True
      have "\<forall>(q, a, b)\<in>set ((p, s, ?e) # gs). s \<le> a \<and> b \<le> now \<and> a < b \<and>
          (\<forall>t. a \<le> t \<and> t < b \<longrightarrow> in_effect t p (ob # obs) = q)"
        using gs(3) first rest True e by (fastforce simp del: in_effect.simps)
      moreover have "twap_loop ws now (ob # obs) s p w = foldl seg_weight w ((p, s, ?e) # gs)"
        unfolding loop gs(1) using True by (simp add: seg_weight_def)
      moreover have "tiles s now ((p, s, ?e) # gs)" using gs(2) True e by simp
      ultimately show ?thesis by blast
    next
      case same: False
      then have "?e = s" using e(3) by linarith
      then show ?thesis using gs rest loop same
        by (intro exI [of _ gs]) (fastforce simp del: in_effect.simps twap_loop.simps)
    qed
  qed
qed

lemma tiles_length: "tiles a b gs \<Longrightarrow> a \<le> b \<Longrightarrow> sum_list (map (\<lambda>(p, x, y). y - x) gs) = b - a"
  by (induction a b gs rule: tiles.induct) auto

text \<open>Starting from the last observation before the window gives the same step function on it.\<close>

lemma in_effect_append: "in_effect t p (xs @ ys) = in_effect t (in_effect t p xs) ys"
  by (induction xs arbitrary: p) auto

lemma in_effect_reset:
  "xs \<noteq> [] \<Longrightarrow> \<forall>x\<in>set xs. observedAt x \<le> t \<Longrightarrow> in_effect t p xs = spotPrice (last xs)"
  by (induction xs arbitrary: p) auto

lemma relevant_split:
  assumes "srt \<noteq> []"
  obtains pre where "srt = pre @ relevant ws srt" "relevant ws srt \<noteq> []"
    "pre = [] \<or> (\<forall>x\<in>set pre. observedAt x < ws) \<and> observedAt (hd (relevant ws srt)) < ws"
proof -
  let ?b = "takeWhile (\<lambda>ob. \<not> ws \<le> observedAt ob) srt"
  have len: "length ?b \<le> length srt" by (rule length_takeWhile_le)
  show ?thesis
  proof (cases "length ?b = length srt \<or> ?b = []")
    case True
    then have "relevant ws srt = srt" by (auto simp: relevant_def Let_def)
    then show ?thesis using assms by (intro that [of "[]"]) auto
  next
    case False
    have "nat (int (length ?b) - 1) = length ?b - 1" by arith
    then have r: "relevant ws srt = drop (length ?b - 1) srt"
      using False by (simp add: relevant_def Let_def)
    let ?n = "length ?b - 1"
    have n: "?n < length ?b" "?n < length srt" using False len by auto
    have "\<forall>k<length ?b. observedAt (srt ! k) < ws"
      by (metis (mono_tags, lifting) linorder_not_le nth_mem set_takeWhileD takeWhile_nth)
    then have "\<forall>x\<in>set (take ?n srt). observedAt x < ws" "observedAt (srt ! ?n) < ws"
      using n by (auto simp: in_set_conv_nth)
    then show ?thesis using n r by (intro that [of "take ?n srt"]) (auto simp: hd_drop_conv_nth)
  qed
qed

lemma price_at_relevant:
  assumes "srt \<noteq> []" "ws \<le> t"
  shows "price_at t (relevant ws srt) = price_at t srt"
proof -
  obtain pre where pre: "srt = pre @ relevant ws srt" "relevant ws srt \<noteq> []"
    "pre = [] \<or> (\<forall>x\<in>set pre. observedAt x < ws) \<and> observedAt (hd (relevant ws srt)) < ws"
    using relevant_split [OF assms(1)] by blast
  show ?thesis
  proof (cases "pre = []")
    case True
    then show ?thesis using pre(1) by simp
  next
    case False
    then obtain a as where a: "relevant ws srt = a # as" "observedAt a \<le> t"
      using pre(2,3) assms(2) by (cases "relevant ws srt") auto
    have "price_at t srt = in_effect t (in_effect t (spotPrice (hd srt)) pre) (relevant ws srt)"
      unfolding price_at_def by (subst (2) pre(1)) (rule in_effect_append)
    then show ?thesis using a by (simp add: price_at_def)
  qed
qed

text \<open>
  C15. The time-weighted price is the average of the observed step function over exactly the
  window: the loop adds up consecutive, non-empty segments that tile the window from its start
  to now, so that their lengths sum to the window's milliseconds, and on each segment the price
  used is the one in effect throughout it (the last observation so far, or the first one before
  any), whatever the number, order and times of the observations.
\<close>

theorem twap_averages_step_function:
  assumes "computeTwapPrice observations windowSeconds now = Inr snap"
  shows "\<exists>gs. os_twapPrice snap = foldl seg_weight 0 gs / Fin (of_int (windowSeconds * 1000)) \<and>
    tiles (now - windowSeconds * 1000) now gs \<and>
    sum_list (map (\<lambda>(p, x, y). y - x) gs) = windowSeconds * 1000 \<and>
    (\<forall>(q, a, b)\<in>set gs. \<forall>t. a \<le> t \<and> t < b \<longrightarrow> price_at t (sort_key observedAt observations) = q)"
proof -
  define srt where "srt = sort_key observedAt observations"
  define ws where "ws = now - windowSeconds * 1000"
  have ne: "srt \<noteq> []" and w: "0 < windowSeconds"
    using assms by (auto simp: computeTwapPrice_def srt_def Let_def split: if_splits)
  have rel: "sorted (map observedAt (relevant ws srt))"
  proof -
    have "sorted (map observedAt srt)" by (simp add: srt_def)
    then show ?thesis using relevant_split [OF ne, of ws] by (metis map_append sorted_append)
  qed
  have "\<forall>ob\<in>set (relevant ws srt). observedAt ob \<le> ws \<or> ws \<le> observedAt ob" by auto
  from twap_loop_segments [OF rel order_refl _ this, of now "spotPrice (hd (relevant ws srt))" 0] w
  obtain gs where gs: "twap_loop ws now (relevant ws srt) ws (spotPrice (hd (relevant ws srt))) 0 = foldl seg_weight 0 gs"
    "tiles ws now gs"
    "\<forall>(q, a, b)\<in>set gs. ws \<le> a \<and> b \<le> now \<and> a < b \<and>
       (\<forall>t. a \<le> t \<and> t < b \<longrightarrow> in_effect t (spotPrice (hd (relevant ws srt))) (relevant ws srt) = q)"
    by (auto simp: ws_def)
  have "os_twapPrice snap = foldl seg_weight 0 gs / Fin (of_int (windowSeconds * 1000))"
    using assms ne w gs(1) by (auto simp: computeTwapPrice_def srt_def ws_def Let_def)
  moreover have "sum_list (map (\<lambda>(p, x, y). y - x) gs) = windowSeconds * 1000"
    using tiles_length [OF gs(2)] w by (simp add: ws_def)
  moreover have "\<forall>(q, a, b)\<in>set gs. \<forall>t. a \<le> t \<and> t < b \<longrightarrow> price_at t srt = q"
    using gs(3) price_at_relevant [OF ne, of ws] by (fastforce simp: price_at_def)
  ultimately show ?thesis using gs(2) unfolding srt_def ws_def by blast
qed

definition sample_obs :: "observation list" where
  "sample_obs = [\<lparr>observedAt = 40000, spotPrice = 1\<rparr>, \<lparr>observedAt = 0, spotPrice = 1\<rparr>]"

theorem twap_averages_step_function_witness:
  "\<exists>snap gs. computeTwapPrice sample_obs 60 60000 = Inr snap \<and> tiles 0 60000 gs \<and>
     sum_list (map (\<lambda>(p, x, y). y - x) gs) = 60000"
proof -
  have "\<exists>snap. computeTwapPrice sample_obs 60 60000 = Inr snap"
    by (simp add: computeTwapPrice_def sample_obs_def Let_def)
  then obtain snap where s: "computeTwapPrice sample_obs 60 60000 = Inr snap" by blast
  from twap_averages_step_function [OF s] show ?thesis using s by (auto simp del: tiles.simps)
qed

subsection \<open>The window query is enough\<close>

lemma sorted_partition:
  assumes "sorted (map observedAt xs)"
  shows "xs = filter (\<lambda>x. observedAt x < ws) xs @ filter (\<lambda>x. ws \<le> observedAt x) xs"
  using assms
proof (induction xs)
  case (Cons x xs)
  show ?case
  proof (cases "observedAt x < ws")
    case True
    then show ?thesis using Cons by simp
  next
    case False
    then have "\<forall>y\<in>set xs. ws \<le> observedAt y" using Cons.prems by auto
    then have "filter (\<lambda>x. observedAt x < ws) xs = []" "filter (\<lambda>x. ws \<le> observedAt x) xs = xs"
      by (auto simp: filter_empty_conv filter_id_conv)
    then show ?thesis using False by simp
  qed
qed simp

lemma relevant_partition:
  assumes "\<forall>x\<in>set p. observedAt x < ws" "s \<noteq> []" "ws \<le> observedAt (hd s)"
  shows "relevant ws (p @ s) = (if p = [] then s else last p # s)"
proof -
  have t: "takeWhile (\<lambda>ob. \<not> ws \<le> observedAt ob) (p @ s) = p"
    using assms by (cases s) (simp_all add: takeWhile_append2 not_le)
  show ?thesis
  proof (cases "p = []")
    case True
    then show ?thesis using assms(2,3) by (cases s) (simp_all add: relevant_def)
  next
    case False
    then have "nat (int (length p) - 1) = length p - 1" "drop (length p - 1) p = [last p]"
      by (arith, metis append_butlast_last_id append_eq_conv_conj length_butlast)
    then show ?thesis using False assms(2) unfolding relevant_def Let_def t by simp
  qed
qed

text \<open>The rows before the window and in it; the query keeps the last of the former.\<close>

lemma window_rows_split:
  obtains P P' S where "sort_key observedAt rows = P @ S" "window_rows ws rows = P' @ S"
    "\<forall>x\<in>set P. observedAt x < ws" "\<forall>x\<in>set P'. observedAt x < ws" "\<forall>x\<in>set S. ws \<le> observedAt x"
    "P = [] \<Longrightarrow> P' = []" "P \<noteq> [] \<Longrightarrow> P' \<noteq> [] \<and> last P' = last P"
    "sorted (map observedAt P')" "set P' \<subseteq> set P"
proof -
  define R where "R = sort_key observedAt rows"
  define P where "P = filter (\<lambda>x. observedAt x < ws) R"
  define S where "S = filter (\<lambda>x. ws \<le> observedAt x) R"
  let ?Q = "\<lambda>r. \<forall>q\<in>set rows. observedAt q < ws \<longrightarrow> observedAt q \<le> observedAt r"
  define P' where "P' = filter ?Q P"
  have sR: "sorted (map observedAt R)" and setR: "set R = set rows" by (simp_all add: R_def)
  have R: "R = P @ S" unfolding P_def S_def by (rule sorted_partition [OF sR])
  have "window_rows ws rows = filter (\<lambda>r. ws \<le> observedAt r \<or> observedAt r < ws \<and> ?Q r) R"
    unfolding window_rows_def R_def filter_sort ..
  also have "\<dots> = filter (\<lambda>r. ws \<le> observedAt r \<or> observedAt r < ws \<and> ?Q r) (P @ S)"
    by (rule arg_cong [OF R])
  also have "\<dots> = P' @ S"
    unfolding filter_append P'_def by (intro arg_cong2 [of _ _ _ _ append])
      (auto simp: P_def S_def filter_id_conv intro!: filter_cong)
  finally have W: "window_rows ws rows = P' @ S" .
  have sP: "sorted (map observedAt P)" using sR unfolding R by (simp add: sorted_append)
  have last: "P' \<noteq> [] \<and> last P' = last P" if "P \<noteq> []"
  proof -
    have "?Q (last P)" using sorted_map_last [OF sP] setR by (auto simp: P_def)
    then show ?thesis unfolding P'_def by (rule filter_keeps_last [OF that])
  qed
  have sP': "sorted (map observedAt P')" using sP unfolding P'_def by (rule sorted_filter)
  show ?thesis
    by (rule that [OF R [unfolded R_def] W _ _ _ _ last sP']) (auto simp: P_def P'_def S_def)
qed

lemma with_current_append:
  assumes "\<forall>x\<in>set Q. observedAt x < observedAt cur"
  shows "with_current cur (Q @ S) = Q @ (if S = [] then [cur] else with_current cur S)"
proof (cases "S = []")
  case True
  have "Q = [] \<or> observedAt (last Q) < observedAt cur" using assms last_in_set by blast
  then show ?thesis using True by (auto simp: with_current_def)
qed (auto simp: with_current_def)

lemma computeTwapPrice_sorted:
  assumes "computeTwapPrice xs windowSeconds now = Inr c" "sort_key observedAt xs = xs"
  shows "os_twapPrice c = twap_loop (now - windowSeconds * 1000) now (relevant (now - windowSeconds * 1000) xs)
      (now - windowSeconds * 1000) (spotPrice (hd (relevant (now - windowSeconds * 1000) xs))) 0
      / Fin (of_int (windowSeconds * 1000)) \<and> os_spotPrice c = spotPrice (last xs)"
  using assms(1) unfolding computeTwapPrice_def assms(2) by (auto simp: Let_def split: if_splits)

text \<open>
  Reading only the rows of the window, plus those of the last time before it, loses nothing: the
  spot price and the time-weighted price are the same as with the whole table, however many older
  observations it holds.
\<close>

theorem oracle_window_query_sufficient:
  assumes "0 < windowSeconds" "\<forall>r\<in>set rows. observedAt r \<le> now"
    "computeTwapPrice (loadOracleObservations windowSeconds now snap rows) windowSeconds now = Inr a"
    "computeTwapPrice (with_current \<lparr>observedAt = now, spotPrice = computeSpotPrice snap\<rparr> (sort_key observedAt rows))
       windowSeconds now = Inr b"
  shows "os_twapPrice a = os_twapPrice b \<and> os_spotPrice a = os_spotPrice b"
proof -
  define ws where "ws = now - windowSeconds * 1000"
  define cur where "cur = \<lparr>observedAt = now, spotPrice = computeSpotPrice snap\<rparr>"
  obtain P P' S where R: "sort_key observedAt rows = P @ S" and W: "window_rows ws rows = P' @ S"
    and P: "\<forall>x\<in>set P. observedAt x < ws" and P': "\<forall>x\<in>set P'. observedAt x < ws"
    and S: "\<forall>x\<in>set S. ws \<le> observedAt x" and empty: "P = [] \<Longrightarrow> P' = []"
    and last: "P \<noteq> [] \<Longrightarrow> P' \<noteq> [] \<and> last P' = last P" and sP': "sorted (map observedAt P')" "set P' \<subseteq> set P"
    by (rule window_rows_split [of rows ws]) blast
  define S' where "S' = (if S = [] then [cur] else with_current cur S)"
  have wsn: "ws < observedAt cur" using assms(1) by (simp add: ws_def cur_def)
  have S': "S' \<noteq> []" "ws \<le> observedAt (hd S')"
    using S wsn by (auto simp: S'_def with_current_def hd_append)
  have "\<forall>x\<in>set Q. observedAt x < observedAt cur" if "\<forall>x\<in>set Q. observedAt x < ws" for Q
    using that wsn by fastforce
  then have full: "with_current cur (P @ S) = P @ S'" and load: "with_current cur (P' @ S) = P' @ S'"
    using P P' with_current_append unfolding S'_def by blast+
  have relv: "relevant ws (P @ S') = relevant ws (P' @ S')"
    using relevant_partition [OF P S'] relevant_partition [OF P' S'] last empty by auto
  have "sorted (map observedAt (P @ S))" "set (P @ S) = set rows" using R [symmetric] by simp_all
  then have "sorted (map observedAt (with_current cur (P @ S)))"
    using assms(2) by (auto simp: with_current_def sorted_append cur_def)
  then have s: "sorted (map observedAt (P @ S'))" unfolding full .
  then have "sorted (map observedAt (P' @ S'))" using sP' by (auto simp: sorted_append)
  then have srt: "sort_key observedAt (P @ S') = P @ S'" "sort_key observedAt (P' @ S') = P' @ S'"
    using s by (simp_all add: sort_key_id_if_sorted)
  have "computeTwapPrice (P' @ S') windowSeconds now = Inr a" "computeTwapPrice (P @ S') windowSeconds now = Inr b"
    using assms(3,4) load full W R by (simp_all add: loadOracleObservations_def cur_def ws_def)
  from computeTwapPrice_sorted [OF this(1) srt(2)] computeTwapPrice_sorted [OF this(2) srt(1)] show ?thesis
    using relv S'(1) by (simp add: ws_def)
qed

theorem oracle_window_query_sufficient_witness:
  "\<exists>a b. computeTwapPrice (loadOracleObservations 60 60000 sample_pool sample_obs) 60 60000 = Inr a \<and>
     computeTwapPrice (with_current \<lparr>observedAt = 60000, spotPrice = computeSpotPrice sample_pool\<rparr>
       (sort_key observedAt sample_obs)) 60 60000 = Inr b \<and> os_twapPrice a = os_twapPrice b"
proof -
  have total: "\<exists>c. computeTwapPrice (with_current x xs) 60 60000 = Inr c" for x xs
  proof -
    have "set (sort_key observedAt (with_current x xs)) \<noteq> {}" by (simp add: with_current_def)
    then have "sort_key observedAt (with_current x xs) \<noteq> []" by (metis set_empty)
    then show ?thesis by (simp add: computeTwapPrice_def Let_def)
  qed
  obtain a where a: "computeTwapPrice (loadOracleObservations 60 60000 sample_pool sample_obs) 60 60000 = Inr a"
    using total unfolding loadOracleObservations_def by blast
  obtain b where b: "computeTwapPrice (with_current \<lparr>observedAt = 60000, spotPrice = computeSpotPrice sample_pool\<rparr>
       (sort_key observedAt sample_obs)) 60 60000 = Inr b" using total by blast
  have "\<forall>r\<in>set sample_obs. observedAt r \<le> 60000" by (simp add: sample_obs_def)
  from oracle_window_query_sufficient [OF _ this a b] a b show ?thesis by auto
qed

end
