(* ===== verification/Keeper.thy ===== *)
theory Keeper
  imports Contract_Client
begin

text \<open>
  \<open>keeper/index.ts\<close>: the bot that collects the pool's protocol fees and the lending interest and
  reports them to the staking contract as rewards, recycles the treasury, and keeps the contracts
  alive. Every run takes the answers of the network from an environment and returns the
  invocations the network accepted, in order; no run throws.
\<close>

subsection \<open>Calls and views of the keeper\<close>

text \<open>The keeper has its own confirmation loop (\<open>pollTransaction\<close>, 30 attempts) and its own call
  and view helpers, which reach any contract.\<close>

fun keeper_poll :: "tx_hash \<Rightarrow> nat \<Rightarrow> (nat \<Rightarrow> js_error + 'm tx_reply) \<Rightarrow> nat \<Rightarrow> nat \<Rightarrow> js_error + unit" where
  "keeper_poll h maxAttempts ans attempt 0 =
     throw (Err (''Transaction '' @ h @ '' not confirmed after '' @ dec maxAttempts @ '' attempts''))"
| "keeper_poll h maxAttempts ans attempt (Suc left) =
     (case ans attempt of
        Inl e \<Rightarrow> throw e
      | Inr (Tx_success m) \<Rightarrow> return ()
      | Inr (Tx_failed why) \<Rightarrow> throw (Err (''Transaction '' @ h @ '' failed''))
      | Inr Tx_pending \<Rightarrow> keeper_poll h maxAttempts ans (Suc attempt) left)"

definition keeper_decide :: "tx_hash \<Rightarrow> js_error + 'm tx_reply \<Rightarrow> (js_error + unit) option" where
  "keeper_decide h a =
     (case a of
        Inl e \<Rightarrow> Some (Inl e)
      | Inr (Tx_success m) \<Rightarrow> Some (Inr ())
      | Inr (Tx_failed why) \<Rightarrow> Some (Inl (Err (''Transaction '' @ h @ '' failed'')))
      | Inr Tx_pending \<Rightarrow> None)"

interpretation keeper_confirmation: poll_loop
  "keeper_poll h maxAttempts" "keeper_decide h"
  "Inl (Err (''Transaction '' @ h @ '' not confirmed after '' @ dec maxAttempts @ '' attempts''))"
  by unfold_locales (simp_all add: keeper_decide_def split: sum.splits tx_reply.splits)

definition executeAdminCall ::
  "(contract_name \<Rightarrow> contract_id) \<Rightarrow> contract_name \<Rightarrow> string \<Rightarrow> sc_arg list \<Rightarrow> call_env \<Rightarrow>
     invocation list \<times> (js_error + tx_hash)" where
  "executeAdminCall contractId c m args ev =
     (case ce_account ev of Some e \<Rightarrow> ([], throw e) | None \<Rightarrow>
     (case ce_prepare ev of Some e \<Rightarrow> ([], throw e) | None \<Rightarrow>
     (case ce_send ev of Inl e \<Rightarrow> ([], throw e) | Inr r \<Rightarrow>
        if sent_status r = SEND_ERROR
        then ([], throw (Err (contractId c @ ''::'' @ m @ '' failed: '' @ sent_error r)))
        else ([\<lparr>on_contract = c, call_method = m, call_args = args\<rparr>],
              bind_result (keeper_poll (sent_hash r) 30 (ce_poll ev) 0 30) (\<lambda>_. return (sent_hash r))))))"

text \<open>\<open>simulateView\<close>: a failed simulation is the value \<open>null\<close>, not an exception.\<close>

definition simulateView :: "native view_env \<Rightarrow> js_error + native option" where
  "simulateView ev =
     bind_result (simulate_view ev) (\<lambda>r.
       case r of Sim_success (Some v) \<Rightarrow> return (Some v) | _ \<Rightarrow> return None)"

subsection \<open>Harvesting\<close>

definition queryLendingAccruedInterest :: "native view_env \<Rightarrow> int" where
  "queryLendingAccruedInterest ev =
     (case simulateView ev of
        Inl e \<Rightarrow> 0
      | Inr None \<Rightarrow> 0
      | Inr (Some N_null) \<Rightarrow> 0
      | Inr (Some v) \<Rightarrow> (case big_of_native v of Inl e \<Rightarrow> 0 | Inr n \<Rightarrow> n))"

text \<open>What the chain answers during one cycle, in the order the keeper asks.\<close>

record harvest_env =
  he_pending :: "native view_env"
  he_lpAccrued :: "int view_env"
  he_collect :: call_env
  he_harvest :: call_env
  he_pendingAfter :: "native view_env"
  he_addRewards :: call_env

definition harvestLendingInterest ::
  "(contract_name \<Rightarrow> contract_id) \<Rightarrow> int \<Rightarrow> harvest_env \<Rightarrow> invocation list \<times> int" where
  "harvestLendingInterest ids pendingBefore ev =
     (let (sent, r) = executeAdminCall ids Lending ''harvest_interest'' [] (he_harvest ev)
      in case r of
           Inl e \<Rightarrow> (sent, 0)
         | Inr h \<Rightarrow>
             let pendingAfter = queryLendingAccruedInterest (he_pendingAfter ev)
             in (sent, if pendingBefore > pendingAfter then pendingBefore - pendingAfter else pendingBefore))"

definition collect_lp_fees :: "harvest_env \<Rightarrow> invocation list \<times> int" where
  "collect_lp_fees ev =
     (case getLpAccruedProtocolFees (he_lpAccrued ev) of
        Inl e \<Rightarrow> ([], 0)
      | Inr accrued \<Rightarrow>
          if accrued > 0
          then let (sent, r) = callCollectProtocolFees (he_collect ev)
               in (sent, case r of Inl e \<Rightarrow> 0 | Inr h \<Rightarrow> accrued)
          else ([], 0))"

definition runHarvestCycle :: "(contract_name \<Rightarrow> contract_id) \<Rightarrow> harvest_env \<Rightarrow> invocation list" where
  "runHarvestCycle ids ev =
     (let pendingInterest = queryLendingAccruedInterest (he_pending ev);
          (collected, lpProtocolFees) = collect_lp_fees ev;
          (harvest, harvested) =
            (if pendingInterest > 0 then harvestLendingInterest ids pendingInterest ev else ([], 0));
          totalYield = harvested + lpProtocolFees
      in if totalYield \<le> 0 then collected @ harvest
         else collected @ harvest @ fst (callAddRewards totalYield (he_addRewards ev)))"

subsection \<open>The other jobs\<close>

definition keeper_contracts :: "contract_name list" where
  "keeper_contracts = [Sxlm_Token, Staking, Lending, Lp_Pool, Governance]"

text \<open>A failing bump is logged and the loop goes on.\<close>

fun bump_contracts ::
  "(contract_name \<Rightarrow> contract_id) \<Rightarrow> (contract_name \<Rightarrow> call_env) \<Rightarrow> contract_name list \<Rightarrow> invocation list" where
  "bump_contracts ids env [] = []"
| "bump_contracts ids env (c # cs) =
     fst (executeAdminCall ids c ''bump_instance'' [] (env c)) @ bump_contracts ids env cs"

definition bumpAllContractTTLs ::
  "(contract_name \<Rightarrow> contract_id) \<Rightarrow> (contract_name \<Rightarrow> call_env) \<Rightarrow> invocation list" where
  "bumpAllContractTTLs ids env = bump_contracts ids env keeper_contracts"

definition recalibrateStakingRate :: "(contract_name \<Rightarrow> contract_id) \<Rightarrow> call_env \<Rightarrow> invocation list" where
  "recalibrateStakingRate ids ev = fst (executeAdminCall ids Staking ''recalibrate_rate'' [] ev)"

definition TREASURY_RECYCLE_THRESHOLD :: stroops where
  "TREASURY_RECYCLE_THRESHOLD = 1000000000"

record recycle_env =
  re_treasury :: "int view_env"
  re_withdraw :: call_env
  re_addRewards :: call_env

definition recycleTreasury :: "recycle_env \<Rightarrow> invocation list" where
  "recycleTreasury ev =
     (case getTreasuryBalance (re_treasury ev) of
        Inl e \<Rightarrow> []
      | Inr treasuryBal \<Rightarrow>
          if treasuryBal < TREASURY_RECYCLE_THRESHOLD then []
          else let (sent, r) = callWithdrawFees treasuryBal (re_withdraw ev)
               in case r of
                    Inl e \<Rightarrow> sent
                  | Inr h \<Rightarrow> sent @ fst (callAddRewards treasuryBal (re_addRewards ev)))"

subsection \<open>Timers\<close>

text \<open>\<open>initialize\<close> and \<open>shutdown\<close>: the four timers, and the runs at start.\<close>

record keeper_timers =
  kt_harvest :: bool
  kt_ttl :: bool
  kt_recalibrate :: bool
  kt_recycle :: bool

definition keeper_initialize ::
  "(contract_name \<Rightarrow> contract_id) \<Rightarrow> harvest_env \<Rightarrow> (contract_name \<Rightarrow> call_env) \<Rightarrow> keeper_timers \<times> invocation list" where
  "keeper_initialize ids hev bev =
     (\<lparr>kt_harvest = True, kt_ttl = True, kt_recalibrate = True, kt_recycle = True\<rparr>,
      runHarvestCycle ids hev @ bumpAllContractTTLs ids bev)"

definition keeper_shutdown :: "keeper_timers \<Rightarrow> keeper_timers" where
  "keeper_shutdown t = \<lparr>kt_harvest = False, kt_ttl = False, kt_recalibrate = False, kt_recycle = False\<rparr>"

subsection \<open>What a run submits\<close>

abbreviation call_of :: "contract_name \<Rightarrow> string \<Rightarrow> sc_arg list \<Rightarrow> invocation" where
  "call_of c m args \<equiv> \<lparr>on_contract = c, call_method = m, call_args = args\<rparr>"

lemma staking_call_sent:
  "fst (executeAdminContractCall m args ev) \<in> {[], [call_of Staking m args]}"
  using submit_call_result [of "m @ '' failed: ''" "call_of Staking m args" ev]
  unfolding fst_submit by (cases "submit_call (m @ '' failed: '') (call_of Staking m args) ev") auto

lemma staking_call_confirmed:
  "snd (executeAdminContractCall m args ev) = Inr h \<Longrightarrow>
   fst (executeAdminContractCall m args ev) = [call_of Staking m args]"
  using submit_call_result [of "m @ '' failed: ''" "call_of Staking m args" ev]
  by (cases "submit_call (m @ '' failed: '') (call_of Staking m args) ev")
    (auto simp: executeAdminContractCall_def isl_def)

lemma pool_call_sent:
  "fst (executeLpPoolAdminCall m args ev) \<in> {[], [call_of Lp_Pool m args]}"
  using submit_call_result [of "''lp_pool::'' @ m @ '' failed: ''" "call_of Lp_Pool m args" ev]
  unfolding fst_submit
  by (cases "submit_call (''lp_pool::'' @ m @ '' failed: '') (call_of Lp_Pool m args) ev") auto

lemma pool_call_confirmed:
  "snd (executeLpPoolAdminCall m args ev) = Inr h \<Longrightarrow>
   fst (executeLpPoolAdminCall m args ev) = [call_of Lp_Pool m args]"
  using submit_call_result [of "''lp_pool::'' @ m @ '' failed: ''" "call_of Lp_Pool m args" ev]
  by (cases "submit_call (''lp_pool::'' @ m @ '' failed: '') (call_of Lp_Pool m args) ev")
    (auto simp: executeLpPoolAdminCall_def isl_def)

lemma admin_call_sent:
  "fst (executeAdminCall ids c m args ev) \<in> {[], [call_of c m args]}"
  by (auto simp: executeAdminCall_def split: option.splits sum.splits)

lemma admin_call_confirmed:
  "snd (executeAdminCall ids c m args ev) = Inr h \<Longrightarrow> fst (executeAdminCall ids c m args ev) = [call_of c m args]"
  by (auto simp: executeAdminCall_def split: option.splits sum.splits if_splits)

text \<open>The two sources of yield: what is reported was collected by a call that the network confirmed.\<close>

lemma collect_lp_fees_cases:
  obtains (none) "snd (collect_lp_fees ev) = 0"
      "fst (collect_lp_fees ev) \<in> {[], [call_of Lp_Pool ''collect_protocol_fees'' []]}"
  | (collected) accrued where "getLpAccruedProtocolFees (he_lpAccrued ev) = Inr accrued" "0 < accrued"
      "snd (collect_lp_fees ev) = accrued" "fst (collect_lp_fees ev) = [call_of Lp_Pool ''collect_protocol_fees'' []]"
proof (cases "getLpAccruedProtocolFees (he_lpAccrued ev)")
  case (Inl e)
  then show ?thesis by (intro none) (simp_all add: collect_lp_fees_def)
next
  case (Inr accrued)
  let ?c = "callCollectProtocolFees (he_collect ev)"
  have sent: "fst ?c \<in> {[], [call_of Lp_Pool ''collect_protocol_fees'' []]}"
    unfolding callCollectProtocolFees_def by (rule pool_call_sent)
  show ?thesis
  proof (cases "0 < accrued \<and> (\<exists>h. snd ?c = Inr h)")
    case True
    then obtain h where "snd ?c = Inr h" "0 < accrued" by blast
    moreover from this(1) have "fst ?c = [call_of Lp_Pool ''collect_protocol_fees'' []]"
      unfolding callCollectProtocolFees_def by (rule pool_call_confirmed)
    ultimately show ?thesis using Inr by (intro collected) (simp_all add: collect_lp_fees_def split_beta Let_def)
  next
    case False
    then show ?thesis using Inr sent
      by (intro none) (auto simp: collect_lp_fees_def split_beta Let_def split: sum.splits)
  qed
qed

lemma harvest_cases:
  obtains (none) "snd (harvestLendingInterest ids p ev) = 0"
      "fst (harvestLendingInterest ids p ev) \<in> {[], [call_of Lending ''harvest_interest'' []]}"
  | (harvested) h where "snd (executeAdminCall ids Lending ''harvest_interest'' [] (he_harvest ev)) = Inr h"
      "snd (harvestLendingInterest ids p ev) =
        (if p > queryLendingAccruedInterest (he_pendingAfter ev)
         then p - queryLendingAccruedInterest (he_pendingAfter ev) else p)"
      "fst (harvestLendingInterest ids p ev) = [call_of Lending ''harvest_interest'' []]"
proof (cases "snd (executeAdminCall ids Lending ''harvest_interest'' [] (he_harvest ev))")
  case (Inl e)
  then show ?thesis using admin_call_sent [of ids Lending "''harvest_interest''" "[]" "he_harvest ev"]
    by (intro none) (simp_all add: harvestLendingInterest_def split_beta Let_def)
next
  case (Inr h)
  then show ?thesis using admin_call_confirmed [OF Inr]
    by (intro harvested) (simp_all add: harvestLendingInterest_def split_beta Let_def)
qed

text \<open>
  C13. A harvest cycle submits at most one \<open>collect_protocol_fees\<close>, then at most one
  \<open>harvest_interest\<close>, then at most one \<open>add_rewards\<close>, and nothing else. The reward it reports is
  positive and never more than what the contracts said was pending before it started: the accrued
  pool fees if the collection was submitted, plus the accrued interest if the harvest was,
  whatever the network answers in between (the interest left is never negative).
\<close>

theorem harvest_reports_at_most_pending:
  assumes "0 \<le> queryLendingAccruedInterest (he_pendingAfter ev)"
    "getLpAccruedProtocolFees (he_lpAccrued ev) = Inr accrued"
  shows "\<exists>c h a. runHarvestCycle ids ev = c @ h @ a \<and>
    c \<in> {[], [\<lparr>on_contract = Lp_Pool, call_method = ''collect_protocol_fees'', call_args = []\<rparr>]} \<and>
    h \<in> {[], [\<lparr>on_contract = Lending, call_method = ''harvest_interest'', call_args = []\<rparr>]} \<and>
    a \<in> {[]} \<union> {[\<lparr>on_contract = Staking, call_method = ''add_rewards'', call_args = [SC_i128 y]\<rparr>] | y.
      0 < y \<and> y \<le> (if c = [] then 0 else accrued) +
                 (if h = [] then 0 else queryLendingAccruedInterest (he_pending ev))}"
proof -
  let ?P = "queryLendingAccruedInterest (he_pending ev)"
  define lh where "lh = (if ?P > 0 then harvestLendingInterest ids ?P ev else ([], 0))"
  define c where "c = fst (collect_lp_fees ev)"
  define y where "y = snd lh + snd (collect_lp_fees ev)"
  define a where "a = (if y \<le> 0 then [] else fst (callAddRewards y (he_addRewards ev)))"
  have run: "runHarvestCycle ids ev = c @ fst lh @ a"
    by (simp add: runHarvestCycle_def Let_def split_beta lh_def c_def y_def a_def)
  have c: "c \<in> {[], [call_of Lp_Pool ''collect_protocol_fees'' []]}
      \<and> snd (collect_lp_fees ev) \<le> (if c = [] then 0 else accrued)"
    unfolding c_def using assms(2)
    by (cases rule: collect_lp_fees_cases [of ev]) (auto simp: collect_lp_fees_def split: if_splits)
  have h: "fst lh \<in> {[], [call_of Lending ''harvest_interest'' []]}
      \<and> snd lh \<le> (if fst lh = [] then 0 else ?P)"
  proof (cases "?P > 0")
    case True
    then show ?thesis using assms(1)
      by (cases rule: harvest_cases [of ids ?P ev]) (auto simp: lh_def)
  qed (simp add: lh_def)
  have "a \<in> {[]} \<union> {[call_of Staking ''add_rewards'' [SC_i128 y]] | y.
      0 < y \<and> y \<le> (if c = [] then 0 else accrued) + (if fst lh = [] then 0 else ?P)}"
  proof (cases "y \<le> 0")
    case False
    then have "y \<le> (if c = [] then 0 else accrued) + (if fst lh = [] then 0 else ?P)"
      unfolding y_def using c h by linarith
    moreover have "a \<in> {[], [call_of Staking ''add_rewards'' [SC_i128 y]]}"
      unfolding a_def callAddRewards_def using False staking_call_sent by auto
    ultimately show ?thesis using False by auto
  qed (simp add: a_def)
  then show ?thesis using run c h by blast
qed

definition sample_harvest :: "int \<Rightarrow> int \<Rightarrow> harvest_env" where
  "sample_harvest before after =
     \<lparr>he_pending = \<lparr>ve_account = None, ve_sim = Inr (Sim_success (Some (N_big before)))\<rparr>,
      he_lpAccrued = \<lparr>ve_account = None, ve_sim = Inr (Sim_success (Some 70))\<rparr>,
      he_collect = sample_call (\<lambda>_. Inr (Tx_success None)),
      he_harvest = sample_call (\<lambda>_. Inr (Tx_success None)),
      he_pendingAfter = \<lparr>ve_account = None, ve_sim = Inr (Sim_success (Some (N_big after)))\<rparr>,
      he_addRewards = sample_call (\<lambda>_. Inr (Tx_success None))\<rparr>"

lemma query_sample:
  "queryLendingAccruedInterest (he_pending (sample_harvest b a)) = b"
  "queryLendingAccruedInterest (he_pendingAfter (sample_harvest b a)) = a"
  by (simp_all add: queryLendingAccruedInterest_def simulateView_def simulate_view_def sample_harvest_def)

theorem harvest_reports_at_most_pending_witness:
  "\<exists>c h a. runHarvestCycle (\<lambda>_. ''C'') (sample_harvest 500 100) = c @ h @ a \<and>
     a \<in> {[]} \<union> {[call_of Staking ''add_rewards'' [SC_i128 y]] | y. 0 < y \<and> y \<le> 570}"
proof -
  have "getLpAccruedProtocolFees (he_lpAccrued (sample_harvest 500 100)) = Inr 70"
    by (simp add: getLpAccruedProtocolFees_def simulate_view_def sample_harvest_def)
  from harvest_reports_at_most_pending [OF _ this, of "\<lambda>_. ''C''"]
  obtain c h a where "runHarvestCycle (\<lambda>_. ''C'') (sample_harvest 500 100) = c @ h @ a"
    "a \<in> {[]} \<union> {[call_of Staking ''add_rewards'' [SC_i128 y]] | y.
      0 < y \<and> y \<le> (if c = [] then 0 else 70) + (if h = [] then 0 else 500)}"
    unfolding query_sample by auto
  moreover from this(2) have "a \<in> {[]} \<union> {[call_of Staking ''add_rewards'' [SC_i128 y]] | y. 0 < y \<and> y \<le> 570}"
    by (auto split: if_splits)
  ultimately show ?thesis by blast
qed

text \<open>
  The interest is reported even when none was harvested. If the confirmed \<open>harvest_interest\<close>
  leaves the interest where it was (the lending pool had nothing to pay it from), or the query
  afterwards fails, the cycle still adds the whole interest pending before to the rewards: the
  branch meant as a fallback for a failed query also takes a harvest of zero.
\<close>

theorem unharvested_interest_is_reported:
  assumes "0 < queryLendingAccruedInterest (he_pending ev)"
    "queryLendingAccruedInterest (he_pendingAfter ev) \<in> {0, queryLendingAccruedInterest (he_pending ev)}"
    "snd (executeAdminCall ids Lending ''harvest_interest'' [] (he_harvest ev)) = Inr h"
    "snd (callAddRewards (queryLendingAccruedInterest (he_pending ev) + snd (collect_lp_fees ev)) (he_addRewards ev)) = Inr h'"
  shows "last (runHarvestCycle ids ev) = \<lparr>on_contract = Staking, call_method = ''add_rewards'',
      call_args = [SC_i128 (queryLendingAccruedInterest (he_pending ev) + snd (collect_lp_fees ev))]\<rparr>"
proof -
  let ?P = "queryLendingAccruedInterest (he_pending ev)"
  have "snd (harvestLendingInterest ids ?P ev) = ?P"
    using assms(1-3) by (auto simp: harvestLendingInterest_def split_beta Let_def)
  moreover have "0 \<le> snd (collect_lp_fees ev)" by (cases rule: collect_lp_fees_cases [of ev]) auto
  moreover have "fst (callAddRewards (?P + snd (collect_lp_fees ev)) (he_addRewards ev)) =
      [call_of Staking ''add_rewards'' [SC_i128 (?P + snd (collect_lp_fees ev))]]"
    using staking_call_confirmed assms(4) unfolding callAddRewards_def .
  ultimately show ?thesis using assms(1) by (simp add: runHarvestCycle_def Let_def split_beta)
qed

lemma sample_confirmed:
  "snd (executeAdminCall ids c m args (sample_call (\<lambda>_. Inr (Tx_success None)))) = Inr ''h''"
  "snd (executeAdminContractCall m args (sample_call (\<lambda>_. Inr (Tx_success None)))) = Inr ''h''"
  "snd (executeLpPoolAdminCall m args (sample_call (\<lambda>_. Inr (Tx_success None)))) = Inr ''h''"
proof -
  have "keeper_poll h 30 (\<lambda>_. Inr (Tx_success x)) 0 30 = Inr ()" for h and x :: "native option"
    by (rule keeper_confirmation.poll_first [where k = 0]) (simp_all add: keeper_decide_def)
  moreover have "pollTransaction h (\<lambda>_. Inr (Tx_success x)) = Inr x" for h and x :: "native option"
    unfolding pollTransaction_def
    by (rule client_poll.poll_first [where k = 0]) (simp_all add: poll_decide_def)
  ultimately show
    "snd (executeAdminCall ids c m args (sample_call (\<lambda>_. Inr (Tx_success None)))) = Inr ''h''"
    "snd (executeAdminContractCall m args (sample_call (\<lambda>_. Inr (Tx_success None)))) = Inr ''h''"
    "snd (executeLpPoolAdminCall m args (sample_call (\<lambda>_. Inr (Tx_success None)))) = Inr ''h''"
    by (simp_all add: executeAdminCall_def executeAdminContractCall_def executeLpPoolAdminCall_def
        submit_call_def sample_call_def Let_def)
qed

theorem unharvested_interest_is_reported_witness:
  "last (runHarvestCycle (\<lambda>_. ''C'') (sample_harvest 500 500)) =
     call_of Staking ''add_rewards'' [SC_i128 570]"
proof -
  have fees: "snd (collect_lp_fees (sample_harvest 500 500)) = 70"
    by (simp add: collect_lp_fees_def getLpAccruedProtocolFees_def simulate_view_def
        callCollectProtocolFees_def sample_harvest_def sample_confirmed split_beta Let_def)
  show ?thesis
    using unharvested_interest_is_reported
      [of "sample_harvest 500 500" "\<lambda>_. ''C''" "''h''" "''h''", unfolded query_sample fees]
    by (simp add: sample_harvest_def sample_confirmed callAddRewards_def)
qed

subsection \<open>The treasury loop against the staking contract\<close>

text \<open>
  The two functions of \<open>contracts/staking/src/lib.rs\<close> the treasury loop calls: what the contract
  holds in XLM, the fees it owes the treasury and the XLM it owes the stakers. A panic (\<open>None\<close>)
  reverts the transaction.
\<close>

record staking_books =
  xlm_held :: int
  treasury :: int
  total_staked :: int

definition PROTOCOL_FEE_BPS :: int where "PROTOCOL_FEE_BPS = 1000"
definition BPS_DENOMINATOR :: int where "BPS_DENOMINATOR = 10000"

definition add_rewards :: "int \<Rightarrow> staking_books \<Rightarrow> staking_books option" where
  "add_rewards amt b =
     (if amt \<le> 0 then None
      else Option.bind (i128 (amt * PROTOCOL_FEE_BPS)) (\<lambda>p.
        let fee = bdiv p BPS_DENOMINATOR; net_reward = amt - fee in
        Option.bind (i128 (treasury b + fee)) (\<lambda>t.
        Option.bind (i128 (total_staked b + net_reward)) (\<lambda>s.
          Some (b\<lparr>treasury := t, total_staked := s\<rparr>)))))"

definition withdraw_fees :: "int \<Rightarrow> staking_books \<Rightarrow> staking_books option" where
  "withdraw_fees amt b =
     (let withdraw_amount = (if amt \<le> 0 then treasury b else amt)
      in if withdraw_amount \<le> 0 \<or> withdraw_amount > treasury b \<or> withdraw_amount > xlm_held b then None
         else Some (b\<lparr>xlm_held := xlm_held b - withdraw_amount, treasury := treasury b - withdraw_amount\<rparr>))"

definition staking_execute :: "invocation \<Rightarrow> staking_books \<Rightarrow> staking_books" where
  "staking_execute i b =
     (if on_contract i \<noteq> Staking then b
      else case call_args i of
        [SC_i128 amt] \<Rightarrow>
          (case (if call_method i = ''add_rewards'' then add_rewards amt b
                 else if call_method i = ''withdraw_fees'' then withdraw_fees amt b else Some b) of
             None \<Rightarrow> b | Some b' \<Rightarrow> b')
      | _ \<Rightarrow> b)"

text \<open>What the contract holds beyond what it owes.\<close>

definition backing :: "staking_books \<Rightarrow> int" where
  "backing b = xlm_held b - treasury b - total_staked b"

lemma tenth: "0 \<le> x \<Longrightarrow> bdiv (x * 1000) 10000 = x div 10" for x :: int
  using div_mult_mult2 [of 1000 x 10] by (simp add: bdiv_nonneg)

lemma i128_Some: "- (2^127) \<le> n \<Longrightarrow> n < 2^127 \<Longrightarrow> i128 n = Some n"
  by (simp add: i128_def)

text \<open>
  C14. Recycling the treasury leaves the staking contract under-collateralised by the whole amount.
  The keeper withdraws the treasury to the administrator and then reports the same amount with
  \<open>add_rewards\<close>, which moves no token: nine tenths are credited to the stakers and a tenth to the
  treasury again, while the XLM has left the contract. When both calls are accepted (and nothing
  overflows), what the contract owes is unchanged and what it holds has dropped by the recycled
  amount; when the second one is not, debts and holdings drop alike and the stakers get nothing.
\<close>

theorem treasury_recycling_is_unbacked:
  assumes "getTreasuryBalance (re_treasury ev) = Inr (treasury b)"
    "TREASURY_RECYCLE_THRESHOLD \<le> treasury b" "treasury b \<le> xlm_held b"
    "treasury b * 1000 < 2 ^ 127" "0 \<le> total_staked b" "total_staked b + treasury b < 2 ^ 127"
    "snd (callWithdrawFees (treasury b) (re_withdraw ev)) = Inr h"
  defines "b' \<equiv> fold staking_execute (recycleTreasury ev) b"
  shows "(case fst (callAddRewards (treasury b) (re_addRewards ev)) of
     [] \<Rightarrow> backing b' = backing b \<and> total_staked b' = total_staked b
   | _ # _ \<Rightarrow> backing b' = backing b - treasury b
        \<and> total_staked b' = total_staked b + (treasury b - treasury b div 10)
        \<and> treasury b' = treasury b div 10)
   \<and> xlm_held b' = xlm_held b - treasury b"
proof -
  define t where "t = treasury b"
  have pos: "0 < t" using assms(2) by (simp add: t_def TREASURY_RECYCLE_THRESHOLD_def)
  have w: "fst (callWithdrawFees t (re_withdraw ev)) = [call_of Staking ''withdraw_fees'' [SC_i128 t]]"
    using staking_call_confirmed assms(7) unfolding callWithdrawFees_def t_def .
  define mid where "mid = b\<lparr>xlm_held := xlm_held b - t, treasury := 0\<rparr>"
  have mid: "staking_execute (call_of Staking ''withdraw_fees'' [SC_i128 t]) b = mid"
    using pos assms(3) by (simp add: staking_execute_def withdraw_fees_def Let_def mid_def t_def)
  have run: "recycleTreasury ev = [call_of Staking ''withdraw_fees'' [SC_i128 t]]
      @ fst (callAddRewards t (re_addRewards ev))"
    using assms(1,2,7) w by (simp add: recycleTreasury_def Let_def split_beta t_def)
  have small: "0 \<le> t div 10" "t div 10 \<le> t" using pos by simp_all
  have "i128 (t * PROTOCOL_FEE_BPS) = Some (t * 1000)" "i128 (t div 10) = Some (t div 10)"
    "i128 (total_staked b + (t - t div 10)) = Some (total_staked b + (t - t div 10))"
    using pos assms(4-6) small
    by (simp_all only: PROTOCOL_FEE_BPS_def t_def [symmetric], (intro i128_Some; linarith)+)
  moreover have "bdiv (t * 1000) BPS_DENOMINATOR = t div 10"
    using pos by (simp add: BPS_DENOMINATOR_def tenth)
  ultimately have add: "staking_execute (call_of Staking ''add_rewards'' [SC_i128 t]) mid =
      mid\<lparr>treasury := t div 10, total_staked := total_staked b + (t - t div 10)\<rparr>"
    using pos by (simp add: staking_execute_def add_rewards_def Let_def mid_def)
  consider "fst (callAddRewards t (re_addRewards ev)) = []"
    | "fst (callAddRewards t (re_addRewards ev)) = [call_of Staking ''add_rewards'' [SC_i128 t]]"
    using staking_call_sent [of "''add_rewards''" "[SC_i128 t]"] unfolding callAddRewards_def by auto
  then show ?thesis
    unfolding b'_def t_def [symmetric]
    by cases (simp_all add: run mid add backing_def, simp_all add: mid_def t_def)
qed

definition sample_books :: staking_books where
  "sample_books = \<lparr>xlm_held = 9000000000, treasury = 1000000000, total_staked = 8000000000\<rparr>"

definition sample_recycle :: recycle_env where
  "sample_recycle =
     \<lparr>re_treasury = \<lparr>ve_account = None, ve_sim = Inr (Sim_success (Some 1000000000))\<rparr>,
      re_withdraw = sample_call (\<lambda>_. Inr (Tx_success None)),
      re_addRewards = sample_call (\<lambda>_. Inr (Tx_success None))\<rparr>"

theorem treasury_recycling_is_unbacked_witness:
  "backing sample_books = 0 \<and>
   backing (fold staking_execute (recycleTreasury sample_recycle) sample_books) = - 1000000000"
proof -
  have view: "getTreasuryBalance (re_treasury sample_recycle) = Inr (treasury sample_books)"
    by (simp add: getTreasuryBalance_def view_or_throw_def simulate_view_def sample_recycle_def sample_books_def)
  have sent: "snd (callWithdrawFees (treasury sample_books) (re_withdraw sample_recycle)) = Inr ''h''"
    by (simp add: callWithdrawFees_def sample_recycle_def sample_confirmed)
  have "fst (callAddRewards (treasury sample_books) (re_addRewards sample_recycle)) =
      [call_of Staking ''add_rewards'' [SC_i128 1000000000]]"
    unfolding callAddRewards_def sample_recycle_def
    using staking_call_confirmed sample_confirmed(2) by (simp add: sample_books_def)
  then show ?thesis
    using treasury_recycling_is_unbacked [OF view _ _ _ _ _ sent]
    by (simp add: sample_books_def backing_def TREASURY_RECYCLE_THRESHOLD_def)
qed

end
