(* ===== verification/Event_Listener.thy ===== *)
theory Event_Listener
  imports Withdrawal_Queue Chain_Rpc
begin

text \<open>
  \<open>event-listener/index.ts\<close>: the job that polls the chain for contract events every five seconds,
  updates the withdrawals table and republishes them on the event bus. Decoding an XDR value is
  the Stellar library's, so it is a parameter (\<open>None\<close>: it throws); the answers of the database and
  the bus come from an environment.
\<close>

subsection \<open>State and effects\<close>

record soroban_event =
  ev_ledger :: ledger_no
  ev_contractId :: contract_id
  ev_topic :: "string list"
  ev_value :: string

datatype bus_note =
    Stake_executed wallet stroops stroops string millis
  | Unstake_executed wallet stroops stroops string millis
  | Withdrawal_ready number wallet stroops string
  | Reward_updated millis

record liquidation =
  li_liquidator :: string
  li_borrower :: string
  li_debtRepaid :: int
  li_collateralSeized :: int
  li_ledger :: ledger_no

record listener =
  lastLedger :: ledger_no
  ledgerFile :: "string option"
  ls_rows :: "withdrawal list"
  ls_liquidations :: "liquidation list"
  ls_notes :: "bus_note list"

text \<open>What the calls made while one event is processed answer; \<open>None\<close> is success.\<close>

record event_env =
  ee_now :: millis
  ee_updateMany :: "js_error option"
  ee_findFirst :: "js_error option"
  ee_create :: "js_error option"
  ee_liquidation :: "js_error option"
  ee_publish :: "bus_note \<Rightarrow> js_error option"

text \<open>An effect: the state it leaves, and the exception it ends with if any.\<close>

type_synonym effect = "listener \<Rightarrow> listener \<times> js_error option"

definition skip_effect :: effect where "skip_effect s = (s, None)"
definition fail_effect :: "js_error \<Rightarrow> effect" where "fail_effect e s = (s, Some e)"
definition seq_effect :: "effect \<Rightarrow> effect \<Rightarrow> effect" where
  "seq_effect p q s = (case p s of (s', Some e) \<Rightarrow> (s', Some e) | (s', None) \<Rightarrow> q s')"
definition try_effect :: "js_error option \<Rightarrow> (listener \<Rightarrow> listener) \<Rightarrow> effect" where
  "try_effect fault f s = (case fault of Some e \<Rightarrow> (s, Some e) | None \<Rightarrow> (f s, None))"
definition with_result :: "js_error + 'a \<Rightarrow> ('a \<Rightarrow> effect) \<Rightarrow> effect" where
  "with_result r k = (case r of Inl e \<Rightarrow> fail_effect e | Inr a \<Rightarrow> k a)"
definition publish_note :: "event_env \<Rightarrow> bus_note \<Rightarrow> effect" where
  "publish_note ev n = try_effect (ee_publish ev n) (\<lambda>s. s\<lparr>ls_notes := ls_notes s @ [n]\<rparr>)"

lemmas effect_defs = skip_effect_def fail_effect_def seq_effect_def try_effect_def with_result_def publish_note_def

subsection \<open>Processing one event\<close>

definition decodeXdrValue :: "(string \<Rightarrow> native option) \<Rightarrow> string \<Rightarrow> native" where
  "decodeXdrValue xdr raw = (case xdr raw of None \<Rightarrow> N_str raw | Some v \<Rightarrow> v)"

definition decodeTopicEntry :: "(string \<Rightarrow> native option) \<Rightarrow> string \<Rightarrow> string" where
  "decodeTopicEntry xdr raw = (case xdr raw of None \<Rightarrow> raw | Some v \<Rightarrow> js_string v)"

text \<open>The elements of a decoded value that is an array of at least \<open>n\<close>.\<close>

definition array_of :: "nat \<Rightarrow> native \<Rightarrow> native list option" where
  "array_of n v = (case v of N_vec vs \<Rightarrow> if length vs \<ge> n then Some vs else None | _ \<Rightarrow> None)"

definition ledger_hash :: "soroban_event \<Rightarrow> string" where
  "ledger_hash e = ''ledger:'' @ dec_int (ev_ledger e)"

definition on_deposit :: "event_env \<Rightarrow> soroban_event \<Rightarrow> native \<Rightarrow> effect" where
  "on_deposit ev e v =
     with_result (case array_of 3 v of
         None \<Rightarrow> return ([], 0, 0)
       | Some vs \<Rightarrow> bind_result (big_of_native (vs ! 1)) (\<lambda>x.
                     bind_result (big_of_native (vs ! 2)) (\<lambda>m. return (js_string (vs ! 0), x, m))))
       (\<lambda>(wal, xlm, minted). publish_note ev (Stake_executed wal xlm minted (ledger_hash e) (ee_now ev)))"

text \<open>The wallet and the amount of an \<open>instant\<close> or \<open>claimed\<close> event.\<close>

definition wallet_amount :: "native \<Rightarrow> js_error + wallet \<times> stroops" where
  "wallet_amount v =
     (case array_of 2 v of
        None \<Rightarrow> return ([], 0)
      | Some vs \<Rightarrow> bind_result (big_of_native (vs ! 1)) (\<lambda>x. return (js_string (vs ! 0), x)))"

definition settle_pending :: "event_env \<Rightarrow> wallet \<Rightarrow> string \<Rightarrow> effect" where
  "settle_pending ev wal st =
     (if wal = [] then skip_effect
      else try_effect (ee_updateMany ev) (\<lambda>s. s\<lparr>ls_rows :=
             withdrawal_updateMany (\<lambda>w. wallet w = wal \<and> status w = ''pending'') (\<lambda>w. w\<lparr>status := st\<rparr>) (ls_rows s)\<rparr>))"

definition on_instant :: "event_env \<Rightarrow> soroban_event \<Rightarrow> native \<Rightarrow> effect" where
  "on_instant ev e v =
     with_result (wallet_amount v) (\<lambda>(wal, xlm).
       seq_effect (settle_pending ev wal ''completed'')
      (seq_effect (publish_note ev (Unstake_executed wal xlm 0 (ledger_hash e) (ee_now ev)))
                  (publish_note ev (Withdrawal_ready 0 wal xlm (ledger_hash e)))))"

definition on_claimed :: "event_env \<Rightarrow> soroban_event \<Rightarrow> native \<Rightarrow> effect" where
  "on_claimed ev e v = with_result (wallet_amount v) (\<lambda>(wal, xlm). settle_pending ev wal ''claimed'')"

text \<open>
  A delayed withdrawal is inserted unless the wallet already has a pending row of that amount. The
  unlock time is \<open>unlockLedger * 5000\<close> milliseconds from now; the database refuses an invalid date.
\<close>

definition record_delayed :: "event_env \<Rightarrow> wallet \<Rightarrow> stroops \<Rightarrow> number \<Rightarrow> effect" where
  "record_delayed ev wal xlm unlockLedger s =
     (case ee_findFirst ev of
        Some e \<Rightarrow> (s, Some e)
      | None \<Rightarrow>
          if (\<exists>w\<in>set (ls_rows s). wallet w = wal \<and> amount w = xlm \<and> status w = ''pending'') \<or> wal = []
          then (s, None)
          else case date_of_num (num_of_big (ee_now ev) + unlockLedger * lit 5000) of
                 None \<Rightarrow> (s, Some (Err ''Invalid Date''))
               | Some t \<Rightarrow> try_effect (ee_create ev)
                   (\<lambda>s. s\<lparr>ls_rows := withdrawal_create wal xlm t (ee_now ev) (ls_rows s)\<rparr>) s)"

definition on_delayed :: "event_env \<Rightarrow> soroban_event \<Rightarrow> native \<Rightarrow> effect" where
  "on_delayed ev e v =
     with_result (case array_of 4 v of
         None \<Rightarrow> return ([], 0, 0)
       | Some vs \<Rightarrow> bind_result (big_of_native (vs ! 1)) (\<lambda>x.
                     return (js_string (vs ! 0), x, num_of_native (vs ! 3))))
       (\<lambda>(wal, xlm, unlockLedger).
         seq_effect (record_delayed ev wal xlm unlockLedger)
           (if xlm > 0 then publish_note ev (Unstake_executed wal xlm 0 (ledger_hash e) (ee_now ev))
            else skip_effect))"

definition on_rewards :: "event_env \<Rightarrow> soroban_event \<Rightarrow> native \<Rightarrow> effect" where
  "on_rewards ev e v =
     with_result (case v of N_big n \<Rightarrow> return n | _ \<Rightarrow> big_of_string (js_string v))
       (\<lambda>amt. publish_note ev (Reward_updated (ee_now ev)))"

text \<open>A liquidation is stored when its four fields convert; any failure is ignored.\<close>

definition on_liq :: "event_env \<Rightarrow> soroban_event \<Rightarrow> native \<Rightarrow> effect" where
  "on_liq ev e v s =
     (case array_of 4 v of
        None \<Rightarrow> (s, None)
      | Some vs \<Rightarrow>
          (case (big_of_native (vs ! 2), big_of_native (vs ! 3), ee_liquidation ev) of
             (Inr d, Inr c, None) \<Rightarrow>
               (s\<lparr>ls_liquidations := ls_liquidations s @
                   [\<lparr>li_liquidator = js_string (vs ! 0), li_borrower = js_string (vs ! 1),
                     li_debtRepaid = d, li_collateralSeized = c, li_ledger = ev_ledger e\<rparr>]\<rparr>, None)
           | _ \<Rightarrow> (s, None)))"

text \<open>The other topics are only logged.\<close>

definition processEvent ::
  "(contract_name \<Rightarrow> contract_id) \<Rightarrow> (string \<Rightarrow> native option) \<Rightarrow> event_env \<Rightarrow> soroban_event \<Rightarrow> effect" where
  "processEvent ids xdr ev e =
     (let topicName = (case ev_topic e of [] \<Rightarrow> [] | t # ts \<Rightarrow> decodeTopicEntry xdr t);
          decoded = decodeXdrValue xdr (ev_value e)
      in if topicName = ''deposit'' \<and> ev_contractId e = ids Staking then on_deposit ev e decoded
         else if topicName = ''instant'' then on_instant ev e decoded
         else if topicName = ''delayed'' then on_delayed ev e decoded
         else if topicName = ''claimed'' then on_claimed ev e decoded
         else if topicName = ''rewards'' then on_rewards ev e decoded
         else if topicName = ''liq'' then on_liq ev e decoded
         else skip_effect)"

subsection \<open>Polling\<close>

datatype events_reply = Fetch_error | Not_ok | No_events | Events "soroban_event list" ledger_no

text \<open>The loop over the events of a reply: an exception leaves it, with the cursor where it was.\<close>

fun process_events ::
  "(contract_name \<Rightarrow> contract_id) \<Rightarrow> (string \<Rightarrow> native option) \<Rightarrow> (nat \<Rightarrow> event_env) \<Rightarrow> nat \<Rightarrow>
     soroban_event list \<Rightarrow> effect" where
  "process_events ids xdr env i [] s = (s, None)"
| "process_events ids xdr env i (e # es) s =
     (case processEvent ids xdr (env i) e s of
        (s', Some x) \<Rightarrow> (s', Some x)
      | (s', None) \<Rightarrow> process_events ids xdr env (Suc i) es
                        (if ev_ledger e > lastLedger s' then s'\<lparr>lastLedger := ev_ledger e\<rparr> else s'))"

definition pollContractEvents ::
  "(contract_name \<Rightarrow> contract_id) \<Rightarrow> (string \<Rightarrow> native option) \<Rightarrow> (nat \<Rightarrow> event_env) \<Rightarrow> bool \<Rightarrow>
     events_reply \<Rightarrow> listener \<Rightarrow> listener" where
  "pollContractEvents ids xdr env file_ok reply s =
     (case reply of
        Events es latestLedger \<Rightarrow>
          (case process_events ids xdr env 0 es s of
             (s1, Some x) \<Rightarrow> s1
           | (s1, None) \<Rightarrow>
               (let s2 = (if latestLedger > lastLedger s1 then s1\<lparr>lastLedger := latestLedger\<rparr> else s1)
                in if file_ok then s2\<lparr>ledgerFile := Some (dec_int (lastLedger s2))\<rparr> else s2))
      | _ \<Rightarrow> s)"

text \<open>\<open>initialize\<close>: the cursor comes back from the file (\<open>parseInt(...) || 0\<close>), if it can be read.\<close>

definition listener_initialize :: "bool \<Rightarrow> listener \<Rightarrow> listener" where
  "listener_initialize readable s =
     (case ledgerFile s of
        Some txt \<Rightarrow> if readable
                    then s\<lparr>lastLedger := (case parse_int_prefix (trim txt) of None \<Rightarrow> 0 | Some n \<Rightarrow> n)\<rparr> else s
      | None \<Rightarrow> s)"

text \<open>
  What \<open>getEvents\<close> answers when the chain has the events \<open>chain\<close>, in order, and its last ledger is
  \<open>tip\<close>: those from \<open>startLedger\<close> on, at most as many as the page limit of 100.
\<close>

definition getEvents_page :: "soroban_event list \<Rightarrow> ledger_no \<Rightarrow> ledger_no \<Rightarrow> events_reply" where
  "getEvents_page chain tip start = Events (take 100 (filter (\<lambda>e. ev_ledger e \<ge> start) chain)) tip"

text \<open>A run of polls against a growing chain; number \<open>k\<close> sees the chain as it is then.\<close>

record network =
  net_env :: "nat \<Rightarrow> nat \<Rightarrow> event_env"
  net_file :: "nat \<Rightarrow> bool"
  net_chain :: "nat \<Rightarrow> soroban_event list"
  net_tip :: "nat \<Rightarrow> ledger_no"

fun listener_polls ::
  "(contract_name \<Rightarrow> contract_id) \<Rightarrow> (string \<Rightarrow> native option) \<Rightarrow> network \<Rightarrow> nat \<Rightarrow> listener \<Rightarrow> listener" where
  "listener_polls ids xdr net 0 s = s"
| "listener_polls ids xdr net (Suc k) s =
     (let s' = listener_polls ids xdr net k s
      in pollContractEvents ids xdr (net_env net k) (net_file net k)
           (getEvents_page (net_chain net k) (net_tip net k) (lastLedger s')) s')"

subsection \<open>The cursor\<close>

lemma effect_cursor:
  "lastLedger (fst (with_result r k s)) = lastLedger s"
  if "\<And>a. lastLedger (fst (k a s)) = lastLedger s"
  using that by (cases r) (simp_all add: with_result_def fail_effect_def)

lemma processEvent_cursor [frame_simps]: "lastLedger (fst (processEvent ids xdr ev e s)) = lastLedger s"
proof -
  have pub: "lastLedger (fst (publish_note ev n s)) = lastLedger s" for n s
    by (simp add: publish_note_def try_effect_def split: option.split)
  have settle: "lastLedger (fst (settle_pending ev w st s)) = lastLedger s" for w st s
    by (simp add: settle_pending_def try_effect_def skip_effect_def split: option.split)
  have sq: "lastLedger (fst (seq_effect p q s)) = lastLedger s"
    if "\<And>s. lastLedger (fst (p s)) = lastLedger s" "\<And>s. lastLedger (fst (q s)) = lastLedger s" for p q s
    using that by (cases "p s"; cases "snd (p s)") (auto simp: seq_effect_def, metis fst_conv, metis fst_conv)
  have rec: "lastLedger (fst (record_delayed ev w x u s)) = lastLedger s" for w x u s
    by (simp add: record_delayed_def try_effect_def split: option.split)
  have "lastLedger (fst (on_deposit ev e v s)) = lastLedger s" for v
    unfolding on_deposit_def by (intro effect_cursor) (simp add: pub split: prod.split)
  moreover have "lastLedger (fst (on_instant ev e v s)) = lastLedger s" for v
    unfolding on_instant_def by (intro effect_cursor) (simp add: sq pub settle split: prod.split)
  moreover have "lastLedger (fst (on_delayed ev e v s)) = lastLedger s" for v
    unfolding on_delayed_def
    by (intro effect_cursor) (simp add: sq pub rec skip_effect_def split: prod.split)
  moreover have "lastLedger (fst (on_claimed ev e v s)) = lastLedger s" for v
    unfolding on_claimed_def by (intro effect_cursor) (simp add: settle split: prod.split)
  moreover have "lastLedger (fst (on_rewards ev e v s)) = lastLedger s" for v
    unfolding on_rewards_def by (intro effect_cursor) (simp add: pub)
  moreover have "lastLedger (fst (on_liq ev e v s)) = lastLedger s" for v
    by (simp add: on_liq_def split: option.split sum.split)
  ultimately show ?thesis by (simp add: processEvent_def Let_def skip_effect_def)
qed

lemma process_events_cursor:
  "lastLedger s \<le> lastLedger (fst (process_events ids xdr env i es s)) \<and>
   (\<forall>L. lastLedger s \<le> L \<and> (\<forall>e\<in>set es. ev_ledger e \<le> L) \<longrightarrow>
        lastLedger (fst (process_events ids xdr env i es s)) \<le> L)"
proof (induction es arbitrary: i s)
  case (Cons e es)
  obtain s' x where p: "processEvent ids xdr (env i) e s = (s', x)" by fastforce
  then have l: "lastLedger s' = lastLedger s" using processEvent_cursor [of ids xdr "env i" e s] by simp
  show ?case
  proof (cases x)
    case None
    let ?t = "if ev_ledger e > lastLedger s' then s'\<lparr>lastLedger := ev_ledger e\<rparr> else s'"
    have "lastLedger s \<le> lastLedger ?t" "lastLedger ?t \<le> max (lastLedger s) (ev_ledger e)" using l by auto
    then show ?thesis using Cons.IH [of ?t "Suc i"] None p by fastforce
  qed (use p l in auto)
qed auto

lemma process_events_append:
  "process_events ids xdr env i (es @ fs) s =
     (case process_events ids xdr env i es s of
        (s', Some x) \<Rightarrow> (s', Some x)
      | (s', None) \<Rightarrow> process_events ids xdr env (i + length es) fs s')"
  by (induction es arbitrary: i s) (auto split: prod.splits option.splits)

lemma poll_cursor_mono: "lastLedger s \<le> lastLedger (pollContractEvents ids xdr env f reply s)"
proof (cases reply)
  case (Events es tip)
  obtain s1 x where "process_events ids xdr env 0 es s = (s1, x)" by fastforce
  then show ?thesis using process_events_cursor [where s = s and ids = ids and xdr = xdr and env = env and i = 0 and es = es]
    by (cases x) (auto simp: pollContractEvents_def Events Let_def)
qed (simp_all add: pollContractEvents_def)

lemma listener_polls_mono: "m \<le> n \<Longrightarrow> lastLedger (listener_polls ids xdr net m s) \<le> lastLedger (listener_polls ids xdr net n s)"
  by (induction n) (auto simp: Let_def le_Suc_eq intro: order.trans [OF _ poll_cursor_mono])

subsection \<open>Reward events\<close>

text \<open>The staking contract publishes \<open>rewards\<close> with the triple \<open>(amount, net_reward, fee)\<close>.\<close>

fun reward_triple :: "native \<Rightarrow> bool" where
  "reward_triple (N_vec [N_big amt, N_big net, N_big fee]) = True"
| "reward_triple _ = False"

definition rewards_event :: "(string \<Rightarrow> native option) \<Rightarrow> soroban_event \<Rightarrow> bool" where
  "rewards_event xdr e \<longleftrightarrow>
     (case ev_topic e of [] \<Rightarrow> False | t # ts \<Rightarrow> decodeTopicEntry xdr t = ''rewards'') \<and>
     reward_triple (decodeXdrValue xdr (ev_value e))"

lemma parse_digits_bad: "c \<in> set s \<Longrightarrow> digit_val c = None \<Longrightarrow> parse_digits acc s = None"
  by (induction acc s rule: parse_digits.induct) (auto split: option.split)

lemma trim_keeps: "c \<in> set s \<Longrightarrow> \<not> is_blank c \<Longrightarrow> c \<in> set (trim s)"
proof -
  have dw: "c \<in> set (dropWhile is_blank t)" if "c \<in> set t" "\<not> is_blank c" for t
    using that by (induction t) auto
  assume "c \<in> set s" "\<not> is_blank c"
  then show ?thesis unfolding trim_def by (simp add: dw)
qed

lemma big_of_string_comma: "CHR '','' \<in> set s \<Longrightarrow> big_of_string s = Inl SyntaxError"
proof -
  assume "CHR '','' \<in> set s"
  then have t: "CHR '','' \<in> set (trim s)" by (rule trim_keeps) (simp add: is_blank_def)
  have bad: "parse_nat u = None" if "CHR '','' \<in> set u" for u
    using that parse_digits_bad [of "CHR '',''" u 0] by (simp add: parse_nat_def digit_val_def)
  obtain c cs where c: "trim s = c # cs" using t by (cases "trim s") auto
  then have t: "CHR '','' \<in> set (c # cs)" using t by simp
  have none: "(case parse_nat ds of None \<Rightarrow> Inl SyntaxError | Some n \<Rightarrow> Inr (sg * int n)) = Inl SyntaxError"
    if "CHR '','' \<in> set ds" for sg ds
    by (simp only: bad [OF that] option.case)
  consider "c = CHR ''-''" | "c \<noteq> CHR ''-''" "c = CHR ''+''" | "c \<noteq> CHR ''-''" "c \<noteq> CHR ''+''" by blast
  then show ?thesis
  proof cases
    case 1
    then have "CHR '','' \<in> set cs" using t by simp
    then show ?thesis
      by (simp only: big_of_string_def c list.case 1 simp_thms if_True Let_def prod.case none)
  next
    case 2
    then have "CHR '','' \<in> set cs" using t by simp
    then show ?thesis using 2(1)
      by (simp only: big_of_string_def c list.case 2 simp_thms if_True if_False Let_def prod.case none)
  next
    case 3
    then show ?thesis
      by (simp only: big_of_string_def c list.case simp_thms if_False Let_def prod.case none [OF t])
  qed
qed

lemma rewards_event_throws:
  assumes "rewards_event xdr e"
  shows "processEvent ids xdr ev e s = (s, Some SyntaxError)"
proof -
  obtain t ts where t: "ev_topic e = t # ts" "decodeTopicEntry xdr t = ''rewards''"
    using assms unfolding rewards_event_def by (cases "ev_topic e") auto
  have "reward_triple (decodeXdrValue xdr (ev_value e))" using assms unfolding rewards_event_def by simp
  then obtain a n f where v: "decodeXdrValue xdr (ev_value e) = N_vec [N_big a, N_big n, N_big f]"
    by (rule reward_triple.elims(2)) blast
  have "CHR '','' \<in> set (js_string (N_vec [N_big a, N_big n, N_big f]))" by simp
  then have "on_rewards ev e (N_vec [N_big a, N_big n, N_big f]) s = (s, Some SyntaxError)"
    by (simp add: on_rewards_def big_of_string_comma with_result_def fail_effect_def del: js_string.simps)
  then show ?thesis using t v by (simp add: processEvent_def)
qed

lemma poll_blocked:
  assumes "rewards_event xdr r" "length pre < 100" "lastLedger s \<le> ev_ledger r"
    "\<And>e. e \<in> set pre \<Longrightarrow> ev_ledger e \<le> ev_ledger r"
  shows "pollContractEvents ids xdr env f (getEvents_page (pre @ r # post) tip (lastLedger s)) s =
     fst (process_events ids xdr env 0 (filter (\<lambda>e. ev_ledger e \<ge> lastLedger s) pre @ [r]) s)"
    (is "?poll = fst ?proc")
    and "lastLedger (pollContractEvents ids xdr env f (getEvents_page (pre @ r # post) tip (lastLedger s)) s)
      \<le> ev_ledger r"
proof -
  define p where "p = filter (\<lambda>e. ev_ledger e \<ge> lastLedger s) pre"
  have "length p < 100" using assms(2) unfolding p_def by (meson length_filter_le order.strict_trans1)
  then obtain m where m: "100 - length p = Suc m" by (cases "100 - length p") auto
  define q where "q = take m (filter (\<lambda>e. ev_ledger e \<ge> lastLedger s) post)"
  have page: "getEvents_page (pre @ r # post) tip (lastLedger s) = Events (p @ [r] @ q) tip"
    using assms(3) m \<open>length p < 100\<close> by (simp add: getEvents_page_def p_def [symmetric] q_def)
  have stop: "\<exists>s' x. process_events ids xdr env 0 (p @ [r]) s = (s', Some x)"
    using rewards_event_throws [OF assms(1)]
    by (auto simp: process_events_append split: prod.splits option.splits)
  then obtain s' x where s': "process_events ids xdr env 0 (p @ [r]) s = (s', Some x)" by blast
  then have "process_events ids xdr env 0 ((p @ [r]) @ q) s = (s', Some x)"
    unfolding process_events_append [of _ _ _ _ "p @ [r]" q] by simp
  then show one: "?poll = fst ?proc"
    using s' unfolding page by (simp add: pollContractEvents_def p_def [symmetric])
  have "\<forall>e\<in>set (p @ [r]). ev_ledger e \<le> ev_ledger r" using assms(4) by (auto simp: p_def)
  then show "lastLedger ?poll \<le> ev_ledger r"
    unfolding one p_def [symmetric]
    using conjunct2 [OF process_events_cursor [of s ids xdr env 0 "p @ [r]"]] assms(3) by blast
qed

text \<open>
  C11. One \<open>rewards\<close> event stops the listener for good. The handler expects a single integer, the
  contract publishes a triple, and converting it throws, so every poll that reaches the event
  leaves the loop before the cursor passes it. As long as the chain keeps that event (the events
  before it are at most its ledger, fewer than a page), however often the listener polls and
  whatever comes after the event, the cursor stays at or below the event's ledger, and the state
  is the one it would have if nothing had come after.
\<close>

theorem rewards_event_stalls_listener:
  assumes "rewards_event xdr r" "length pre < 100" "\<forall>e\<in>set pre. ev_ledger e \<le> ev_ledger r"
    "lastLedger s \<le> ev_ledger r" "\<forall>k. net_chain net k = pre @ r # post k"
  shows "lastLedger (listener_polls ids xdr net n s) \<le> ev_ledger r \<and>
    listener_polls ids xdr net n s = listener_polls ids xdr (net\<lparr>net_chain := \<lambda>k. pre @ [r]\<rparr>) n s"
proof (induction n)
  case (Suc n)
  let ?s = "listener_polls ids xdr net n s"
  have chain: "net_chain net n = pre @ r # post n" using assms(5) by simp
  note blocked = poll_blocked [OF assms(1,2) conjunct1 [OF Suc.IH], where ids = ids and env = "net_env net n"
      and f = "net_file net n" and tip = "net_tip net n"]
  show ?case using blocked [of "post n"] blocked [of "[]"] Suc.IH assms(3)
    by (simp add: Let_def chain)
qed (use assms(4) in simp)

definition sample_xdr :: "string \<Rightarrow> native option" where
  "sample_xdr raw =
     (if raw = ''AAR'' then Some (N_str ''rewards'')
      else if raw = ''AAV'' then Some (N_vec [N_big 1000, N_big 900, N_big 100])
      else if raw = ''AAC'' then Some (N_str ''claimed'')
      else if raw = ''AAW'' then Some (N_vec [N_str ''GW'', N_big 50, N_big 3]) else None)"

definition sample_event :: "string \<Rightarrow> string \<Rightarrow> int \<Rightarrow> soroban_event" where
  "sample_event t v l = \<lparr>ev_ledger = l, ev_contractId = ''C'', ev_topic = [t], ev_value = v\<rparr>"

definition sample_listener :: listener where
  "sample_listener = \<lparr>lastLedger = 5, ledgerFile = None, ls_rows = [sample_row 1], ls_liquidations = [], ls_notes = []\<rparr>"

definition sample_eenv :: event_env where
  "sample_eenv = \<lparr>ee_now = 0, ee_updateMany = None, ee_findFirst = None, ee_create = None,
     ee_liquidation = None, ee_publish = (\<lambda>_. None)\<rparr>"

definition sample_net :: network where
  "sample_net = \<lparr>net_env = (\<lambda>_ _. sample_eenv), net_file = (\<lambda>_. True),
     net_chain = (\<lambda>k. [sample_event ''AAR'' ''AAV'' 7] @ replicate k (sample_event ''AAC'' ''AAW'' (8 + int k))),
     net_tip = (\<lambda>k. 9 + int k)\<rparr>"

theorem rewards_event_stalls_listener_witness:
  "\<forall>n. lastLedger (listener_polls (\<lambda>_. ''C'') sample_xdr sample_net n sample_listener) \<le> 7"
proof
  fix n
  have r: "rewards_event sample_xdr (sample_event ''AAR'' ''AAV'' 7)"
    by (simp add: rewards_event_def sample_event_def decodeTopicEntry_def decodeXdrValue_def sample_xdr_def)
  have seven: "ev_ledger (sample_event ''AAR'' ''AAV'' 7) = 7" by (simp add: sample_event_def)
  have "lastLedger (listener_polls (\<lambda>_. ''C'') sample_xdr sample_net n sample_listener)
      \<le> ev_ledger (sample_event ''AAR'' ''AAV'' 7)"
    by (rule conjunct1, rule rewards_event_stalls_listener
        [where pre = "[]" and post = "\<lambda>k. replicate k (sample_event ''AAC'' ''AAW'' (8 + int k))", OF r])
      (simp_all add: seven, simp_all add: sample_listener_def sample_net_def)
  then show "lastLedger (listener_polls (\<lambda>_. ''C'') sample_xdr sample_net n sample_listener) \<le> 7"
    by (simp only: seven)
qed

subsection \<open>Claims and page boundaries\<close>

text \<open>
  A \<open>claimed\<close> event settles every pending withdrawal of the wallet, not the one that was
  claimed: afterwards the queue never offers any withdrawal of that wallet for processing, at any
  time, although the chain has paid only one of them. The rows of other wallets, and the wallet's
  rows that are not pending, are unchanged, and nothing is inserted or deleted.
\<close>

theorem claim_event_settles_whole_wallet:
  assumes "ev_topic e = t # ts" "decodeTopicEntry xdr t = ''claimed''"
    "decodeXdrValue xdr (ev_value e) = N_vec [N_str wal, N_big x, N_big i]"
    "wal \<noteq> []" "ee_updateMany ev = None"
  shows "\<exists>s'. processEvent ids xdr ev e s = (s', None) \<and>
    (\<forall>now. filter (\<lambda>w. wallet w = wal) (readyWithdrawals now (ls_rows s')) = []) \<and>
    filter (\<lambda>w. wallet w \<noteq> wal) (ls_rows s') = filter (\<lambda>w. wallet w \<noteq> wal) (ls_rows s) \<and>
    map wid (ls_rows s') = map wid (ls_rows s)"
proof -
  let ?f = "\<lambda>w. if wallet w = wal \<and> status w = ''pending'' then w\<lparr>status := ''claimed''\<rparr> else w"
  have "processEvent ids xdr ev e s = on_claimed ev e (N_vec [N_str wal, N_big x, N_big i]) s"
    unfolding processEvent_def by (simp add: assms(1-3))
  also have "\<dots> = settle_pending ev wal ''claimed'' s"
  proof -
    have "wallet_amount (N_vec [N_str wal, N_big x, N_big i]) = Inr (wal, x)"
      by (simp add: wallet_amount_def array_of_def)
    then show ?thesis by (simp only: on_claimed_def with_result_def sum.case prod.case)
  qed
  also have "\<dots> = (s\<lparr>ls_rows := map ?f (ls_rows s)\<rparr>, None)"
    using assms(4,5) by (simp add: settle_pending_def try_effect_def withdrawal_updateMany_def)
  finally have "processEvent ids xdr ev e s = (s\<lparr>ls_rows := map ?f (ls_rows s)\<rparr>, None)" .
  moreover have "filter (\<lambda>w. wallet w = wal) (readyWithdrawals now (map ?f ws)) = []" for now ws
    unfolding filter_empty_conv
  proof
    fix w
    assume "w \<in> set (readyWithdrawals now (map ?f ws))"
    then have "w \<in> ?f ` set ws" and p: "status w = ''pending''"
      using readyWithdrawals_subset [of w now "map ?f ws"] by (simp_all only: set_map)
    then obtain v where w: "w = ?f v" by blast
    show "wallet w \<noteq> wal"
    proof (cases "wallet v = wal \<and> status v = ''pending''")
      case True
      then have "status w = ''claimed''" by (simp add: w)
      then show ?thesis using p by simp
    next
      case False
      then have "w = v" by (simp only: w if_False)
      then show ?thesis using False p by blast
    qed
  qed
  moreover have "filter (\<lambda>w. wallet w \<noteq> wal) (map ?f ws) = filter (\<lambda>w. wallet w \<noteq> wal) ws" for ws
    by (induction ws) auto
  moreover have "map wid (map ?f ws) = map wid ws" for ws by (rule map_wid_update) simp
  ultimately show ?thesis by auto
qed

theorem claim_event_settles_whole_wallet_witness:
  "\<exists>s'. processEvent (\<lambda>_. ''C'') sample_xdr sample_eenv (sample_event ''AAC'' ''AAW'' 7) sample_listener = (s', None) \<and>
     filter (\<lambda>w. wallet w = ''GW'') (readyWithdrawals 1000 (ls_rows s')) = []"
proof -
  have "ee_updateMany sample_eenv = None" by (simp add: sample_eenv_def)
  then show ?thesis
    using claim_event_settles_whole_wallet
      [of "sample_event ''AAC'' ''AAW'' 7" "''AAC''" "[]" sample_xdr "''GW''" 50 3 sample_eenv "\<lambda>_. ''C''" sample_listener]
    by (fastforce simp: sample_event_def decodeTopicEntry_def decodeXdrValue_def sample_xdr_def)
qed

definition page_at ::
  "(contract_name \<Rightarrow> contract_id) \<Rightarrow> (string \<Rightarrow> native option) \<Rightarrow> network \<Rightarrow> listener \<Rightarrow> nat \<Rightarrow> soroban_event list" where
  "page_at ids xdr net s k =
     (case getEvents_page (net_chain net k) (net_tip net k) (lastLedger (listener_polls ids xdr net k s)) of
        Events es tip \<Rightarrow> es | _ \<Rightarrow> [])"

lemma page_at:
  "page_at ids xdr net s k =
     take 100 (filter (\<lambda>e. ev_ledger e \<ge> lastLedger (listener_polls ids xdr net k s)) (net_chain net k))"
  by (simp add: page_at_def getEvents_page_def)

lemma poll_reaches_tip:
  assumes "snd (process_events ids xdr (net_env net m) 0 (page_at ids xdr net s m) (listener_polls ids xdr net m s)) = None"
    "\<forall>e\<in>set (net_chain net m). ev_ledger e \<le> net_tip net m"
    "lastLedger (listener_polls ids xdr net m s) \<le> net_tip net m"
  shows "lastLedger (listener_polls ids xdr net (Suc m) s) = net_tip net m"
proof -
  let ?s = "listener_polls ids xdr net m s" and ?p = "page_at ids xdr net s m"
  obtain s1 where s1: "process_events ids xdr (net_env net m) 0 ?p ?s = (s1, None)"
    using assms(1) by (cases "process_events ids xdr (net_env net m) 0 ?p ?s") auto
  have "\<forall>e\<in>set ?p. ev_ledger e \<le> net_tip net m"
    using assms(2) by (auto simp: page_at dest: in_set_takeD)
  then have "lastLedger s1 \<le> net_tip net m"
    using conjunct2 [OF process_events_cursor [of ?s ids xdr "net_env net m" 0 ?p]] assms(3) s1 by simp
  then show ?thesis using s1 by (simp add: page_at Let_def pollContractEvents_def getEvents_page_def)
qed

text \<open>
  After a poll that processes its page without an exception, the cursor is at the tip of the
  chain. Two things follow. The events of the tip's ledger that were in the page are delivered
  again by the next poll if the chain has not moved on (the start ledger is inclusive), and
  processed twice. And an event that did not fit in the page of 100, below the tip, is in no page
  of any later poll, so it is never processed.
\<close>

theorem page_boundary_repeats_and_loses:
  assumes "snd (process_events ids xdr (net_env net m) 0 (page_at ids xdr net s m) (listener_polls ids xdr net m s)) = None"
    "\<forall>e\<in>set (net_chain net m). ev_ledger e \<le> net_tip net m"
    "lastLedger (listener_polls ids xdr net m s) \<le> net_tip net m"
  shows "lastLedger (listener_polls ids xdr net (Suc m) s) = net_tip net m \<and>
    (net_chain net (Suc m) = net_chain net m \<and> length (net_chain net m) \<le> 100 \<longrightarrow>
       (\<forall>e\<in>set (page_at ids xdr net s m). ev_ledger e = net_tip net m \<longrightarrow> e \<in> set (page_at ids xdr net s (Suc m)))) \<and>
    (\<forall>e n. e \<notin> set (page_at ids xdr net s m) \<and> ev_ledger e < net_tip net m \<and> m \<le> n \<longrightarrow>
       e \<notin> set (page_at ids xdr net s n))"
proof (intro conjI allI impI ballI)
  note at_tip = poll_reaches_tip [OF assms]
  show "lastLedger (listener_polls ids xdr net (Suc m) s) = net_tip net m" by (rule at_tip)
  { fix e
    assume c: "net_chain net (Suc m) = net_chain net m \<and> length (net_chain net m) \<le> 100"
      and e: "e \<in> set (page_at ids xdr net s m)" "ev_ledger e = net_tip net m"
    from e(1) have "e \<in> set (net_chain net m)" by (auto simp: page_at dest: in_set_takeD)
    then show "e \<in> set (page_at ids xdr net s (Suc m))"
      using c e(2) unfolding page_at at_tip by (simp add: order.trans [OF length_filter_le]) }
  { fix e n
    assume e: "e \<notin> set (page_at ids xdr net s m) \<and> ev_ledger e < net_tip net m \<and> m \<le> n"
    show "e \<notin> set (page_at ids xdr net s n)"
    proof (cases "n = m")
      case False
      then have "lastLedger (listener_polls ids xdr net (Suc m) s) \<le> lastLedger (listener_polls ids xdr net n s)"
        using e by (intro listener_polls_mono) simp
      then show ?thesis using at_tip e by (auto simp: page_at dest!: in_set_takeD)
    qed (use e in simp) }
qed

definition tip_net :: network where
  "tip_net = sample_net\<lparr>net_chain := \<lambda>_. [sample_event ''ZZZ'' ''Z'' 9], net_tip := \<lambda>_. 9\<rparr>"

theorem page_boundary_repeats_and_loses_witness:
  "lastLedger (listener_polls (\<lambda>_. ''C'') sample_xdr tip_net 1 sample_listener) = 9 \<and>
   sample_event ''ZZZ'' ''Z'' 9 \<in> set (page_at (\<lambda>_. ''C'') sample_xdr tip_net sample_listener 1)"
proof -
  let ?e = "sample_event ''ZZZ'' ''Z'' 9"
  have page: "page_at (\<lambda>_. ''C'') sample_xdr tip_net sample_listener 0 = [?e]"
    by (simp add: page_at tip_net_def sample_listener_def sample_event_def)
  have "processEvent (\<lambda>_. ''C'') sample_xdr v ?e u = (u, None)" for u v
    by (simp add: processEvent_def Let_def skip_effect_def sample_event_def sample_xdr_def decodeTopicEntry_def)
  then have "snd (process_events (\<lambda>_. ''C'') sample_xdr (net_env tip_net 0) 0
      (page_at (\<lambda>_. ''C'') sample_xdr tip_net sample_listener 0)
      (listener_polls (\<lambda>_. ''C'') sample_xdr tip_net 0 sample_listener)) = None"
    by (simp add: page)
  from page_boundary_repeats_and_loses [OF this] show ?thesis
    by (simp add: page, simp add: tip_net_def sample_listener_def sample_event_def)
qed

end
