(* ===== verification/Bridge_Relayer.thy ===== *)
theory Bridge_Relayer
  imports Chain_Rpc
begin

text \<open>
  \<open>bridge-relayer/index.ts\<close>: the process that mints wrapped sXLM on the EVM chains for every
  \<open>bridge\<close>/\<open>evm\<close> event of the bridge contract, and releases sXLM on Stellar for every burn on an
  EVM chain. The token contract (\<open>evm/contracts/WrappedSXLM.sol\<close>) is modelled with its replay
  protection; the encodings of the two chains' libraries are parameters.
\<close>

subsection \<open>Events of the bridge contract\<close>

text \<open>A decoded contract value; reading an arm that the value does not hold throws.\<close>

datatype sc_val =
    V_account string
  | V_contract string
  | V_bytes "nat list"
  | V_i128 int int     \<comment> \<open>the high part, signed, and the low part, unsigned\<close>
  | V_u64 int
  | V_u32 int
  | V_map "(string \<times> sc_val) list"

record raw_bridge_event =
  rb_value :: "js_error + sc_val"   \<comment> \<open>\<open>ScVal.fromXDR\<close> of the event's value\<close>
  rb_ledger :: ledger_no
  rb_txHash :: tx_hash

record bridge_event =
  be_sender :: string
  be_evmRecipient :: string
  be_amount :: int
  be_nonce :: int
  be_targetChainId :: int
  be_ledger :: ledger_no
  be_txHash :: tx_hash

definition hex_digit :: "nat \<Rightarrow> char" where
  "hex_digit n = ''0123456789abcdef'' ! n"

definition to_hex :: "nat list \<Rightarrow> string" where
  "to_hex bs = concat (map (\<lambda>b. [hex_digit (b div 16 mod 16), hex_digit (b mod 16)]) bs)"

definition i128_of_parts :: "int \<Rightarrow> int \<Rightarrow> int" where
  "i128_of_parts hi lo = hi * 2 ^ 64 + lo"

text \<open>An accessor applied to a field of the map: \<open>None\<close> when the field is missing.\<close>

definition arm :: "(sc_val \<Rightarrow> 'a option) \<Rightarrow> sc_val option \<Rightarrow> js_error + 'a option" where
  "arm f v = (case v of None \<Rightarrow> return None | Some x \<Rightarrow>
                (case f x of None \<Rightarrow> throw TypeError | Some a \<Rightarrow> return (Some a)))"

fun as_account :: "sc_val \<Rightarrow> string option" where
  "as_account (V_account a) = Some a" | "as_account _ = None"
fun as_bytes :: "sc_val \<Rightarrow> nat list option" where
  "as_bytes (V_bytes b) = Some b" | "as_bytes _ = None"
fun as_i128 :: "sc_val \<Rightarrow> (int \<times> int) option" where
  "as_i128 (V_i128 h l) = Some (h, l)" | "as_i128 _ = None"
fun as_u64 :: "sc_val \<Rightarrow> int option" where
  "as_u64 (V_u64 n) = Some n" | "as_u64 _ = None"
fun as_u32 :: "sc_val \<Rightarrow> int option" where
  "as_u32 (V_u32 n) = Some n" | "as_u32 _ = None"

text \<open>Both branches of the sender's conditional are the empty string.\<close>

definition parseBridgeEvent :: "raw_bridge_event \<Rightarrow> js_error + bridge_event option" where
  "parseBridgeEvent e =
     bind_result (rb_value e) (\<lambda>val.
       case val of
         V_map kvs \<Rightarrow>
           bind_result (arm as_account (map_of kvs ''sender'')) (\<lambda>_.
           bind_result (arm as_bytes (map_of kvs ''evm_recipient'')) (\<lambda>evmRecipientBytes.
           bind_result (arm as_i128 (map_of kvs ''amount'')) (\<lambda>amt.
           bind_result (arm as_u64 (map_of kvs ''nonce'')) (\<lambda>nonce.
           bind_result (arm as_u32 (map_of kvs ''target_chain_id'')) (\<lambda>targetChainId.
             return (case (evmRecipientBytes, amt, nonce, targetChainId) of
               (Some r, Some (hi, lo), Some n, Some c) \<Rightarrow>
                 Some \<lparr>be_sender = [], be_evmRecipient = ''0x'' @ to_hex r, be_amount = i128_of_parts hi lo,
                       be_nonce = n, be_targetChainId = c, be_ledger = rb_ledger e, be_txHash = rb_txHash e\<rparr>
             | _ \<Rightarrow> None))))))
       | _ \<Rightarrow> return None)"

text \<open>An event that does not parse is logged and skipped.\<close>

fun parse_all :: "raw_bridge_event list \<Rightarrow> bridge_event list" where
  "parse_all [] = []"
| "parse_all (e # es) = (case parseBridgeEvent e of Inr (Some b) \<Rightarrow> b # parse_all es | _ \<Rightarrow> parse_all es)"

text \<open>
  One poll, with the answers of \<open>getLatestLedger\<close> and \<open>getEvents\<close>: the events and the cursor. The
  first poll only places the cursor; a failing \<open>getEvents\<close> yields no events.
\<close>

definition pollBridgeEvents ::
  "js_error + ledger_no \<Rightarrow> (ledger_no \<Rightarrow> js_error + raw_bridge_event list) \<Rightarrow> ledger_no \<Rightarrow>
     (js_error + bridge_event list) \<times> ledger_no" where
  "pollBridgeEvents latest getEvents lastLedger =
     (case latest of
        Inl e \<Rightarrow> (throw e, lastLedger)
      | Inr latestLedger \<Rightarrow>
          if lastLedger = 0 then (return [], latestLedger)
          else if latestLedger \<le> lastLedger then (return [], lastLedger)
          else (return (case getEvents (lastLedger + 1) of Inl e \<Rightarrow> [] | Inr es \<Rightarrow> parse_all es), latestLedger))"

subsection \<open>Minting on the EVM chains\<close>

text \<open>\<open>WrappedSXLM\<close>: the mints it has accepted, by replay key, recipient and amount.\<close>

record wsxlm =
  minted :: "(string \<times> string \<times> int) list"

definition mintFromStellar :: "string \<Rightarrow> int \<Rightarrow> string \<Rightarrow> wsxlm \<Rightarrow> js_error + wsxlm" where
  "mintFromStellar to_addr amt stellarTxHash w =
     (if amt = 0 then throw (Err ''ZeroAmount'')
      else if stellarTxHash \<in> fst ` set (minted w) then throw (Err ''AlreadyProcessed'')
      else return (w\<lparr>minted := minted w @ [(stellarTxHash, to_addr, amt)]\<rparr>))"

type_synonym evm_chains = "int \<Rightarrow> wsxlm option"   \<comment> \<open>the configured chains\<close>

definition mint ::
  "(string \<Rightarrow> js_error + string) \<Rightarrow> js_error option \<Rightarrow> bridge_event \<Rightarrow> evm_chains \<Rightarrow> js_error + evm_chains" where
  "mint zeroPad fault e evms =
     (case evms (be_targetChainId e) of
        None \<Rightarrow> throw (Err (''no EVM config for chain '' @ dec_int (be_targetChainId e)))
      | Some w \<Rightarrow>
          bind_result (zeroPad (''0x'' @ be_txHash e)) (\<lambda>txHashBytes.
          case fault of Some x \<Rightarrow> throw x | None \<Rightarrow>
          bind_result (mintFromStellar (be_evmRecipient e) (be_amount e * 10 ^ 11) txHashBytes w) (\<lambda>w'.
            return (evms(be_targetChainId e \<mapsto> w')))))"

text \<open>The main loop's body: a failing mint is logged, and the event is not tried again.\<close>

record relayer =
  cursor :: ledger_no
  evm :: evm_chains

fun mint_all ::
  "(string \<Rightarrow> js_error + string) \<Rightarrow> (bridge_event \<Rightarrow> js_error option) \<Rightarrow> bridge_event list \<Rightarrow> evm_chains \<Rightarrow> evm_chains" where
  "mint_all zeroPad fault [] evms = evms"
| "mint_all zeroPad fault (e # es) evms =
     mint_all zeroPad fault es (case mint zeroPad (fault e) e evms of Inl x \<Rightarrow> evms | Inr evms' \<Rightarrow> evms')"

definition relay_poll ::
  "(string \<Rightarrow> js_error + string) \<Rightarrow> (bridge_event \<Rightarrow> js_error option) \<Rightarrow> js_error + ledger_no \<Rightarrow>
     (ledger_no \<Rightarrow> js_error + raw_bridge_event list) \<Rightarrow> relayer \<Rightarrow> relayer" where
  "relay_poll zeroPad fault latest getEvents s =
     (case pollBridgeEvents latest getEvents (cursor s) of
        (Inl x, c) \<Rightarrow> s\<lparr>cursor := c\<rparr>
      | (Inr es, c) \<Rightarrow> \<lparr>cursor = c, evm = mint_all zeroPad fault es (evm s)\<rparr>)"

subsection \<open>Releasing on Stellar\<close>

record burn_event =
  bb_stellarRecipient :: string
  bb_amount :: int
  bb_evmTxHash :: string
  bb_sourceChainId :: int

record release_call =
  rc_recipient :: string
  rc_hi :: int
  rc_lo :: int
  rc_evmTxHash :: string
  rc_sourceChainId :: int

definition uint64_fromString :: "int \<Rightarrow> js_error + int" where
  "uint64_fromString n = (if 0 \<le> n \<and> n < 2 ^ 64 then return n else throw TypeError)"

definition stellar_amount :: "int \<Rightarrow> int" where
  "stellar_amount evmAmount = bdiv evmAmount (10 ^ 11)"

text \<open>\<open>replace("0x", "")\<close> drops the first occurrence.\<close>

fun strip_0x :: "string \<Rightarrow> string" where
  "strip_0x [] = []"
| "strip_0x (c # cs) = (if startsWith (c # cs) ''0x'' then drop 2 (c # cs) else c # strip_0x cs)"

definition release_args :: "(string \<Rightarrow> js_error + string) \<Rightarrow> burn_event \<Rightarrow> js_error + release_call" where
  "release_args decodeKey e =
     bind_result (decodeKey (bb_stellarRecipient e)) (\<lambda>recipient.
     bind_result (uint64_fromString (stellar_amount (bb_amount e))) (\<lambda>lo.
       return \<lparr>rc_recipient = recipient, rc_hi = 0, rc_lo = lo,
               rc_evmTxHash = strip_0x (bb_evmTxHash e), rc_sourceChainId = bb_sourceChainId e\<rparr>))"

fun release_wait :: "tx_hash \<Rightarrow> (nat \<Rightarrow> js_error + unit tx_reply) \<Rightarrow> nat \<Rightarrow> nat \<Rightarrow> js_error + unit" where
  "release_wait h ans i 0 = throw (Err (''[soroban] tx confirmation timeout: '' @ h))"
| "release_wait h ans i (Suc n) =
     (case ans i of
        Inl e \<Rightarrow> throw e
      | Inr (Tx_success m) \<Rightarrow> return ()
      | Inr (Tx_failed why) \<Rightarrow> throw (Err (''[soroban] tx failed: '' @ h))
      | Inr Tx_pending \<Rightarrow> release_wait h ans (Suc i) n)"

definition release_decide :: "tx_hash \<Rightarrow> js_error + unit tx_reply \<Rightarrow> (js_error + unit) option" where
  "release_decide h a =
     (case a of
        Inl e \<Rightarrow> Some (Inl e)
      | Inr (Tx_success m) \<Rightarrow> Some (Inr ())
      | Inr (Tx_failed why) \<Rightarrow> Some (Inl (Err (''[soroban] tx failed: '' @ h)))
      | Inr Tx_pending \<Rightarrow> None)"

interpretation release_confirmation: poll_loop
  "release_wait h" "release_decide h" "Inl (Err (''[soroban] tx confirmation timeout: '' @ h))"
  by unfold_locales (simp_all add: release_decide_def split: sum.splits tx_reply.splits)

record release_env =
  rel_account :: "js_error option"
  rel_prepare :: "js_error option"
  rel_send :: "js_error + tx_hash"
  rel_poll :: "nat \<Rightarrow> js_error + unit tx_reply"

definition releaseFromEvm ::
  "(string \<Rightarrow> js_error + string) \<Rightarrow> release_env \<Rightarrow> burn_event \<Rightarrow> release_call list \<times> (js_error + unit)" where
  "releaseFromEvm decodeKey ev e =
     (case rel_account ev of Some x \<Rightarrow> ([], throw x) | None \<Rightarrow>
     (case release_args decodeKey e of Inl x \<Rightarrow> ([], throw x) | Inr call \<Rightarrow>
     (case rel_prepare ev of Some x \<Rightarrow> ([], throw x) | None \<Rightarrow>
     (case rel_send ev of Inl x \<Rightarrow> ([], throw x) | Inr h \<Rightarrow>
        ([call], release_wait h (rel_poll ev) 0 20)))))"

text \<open>The subscription's handler swallows the exception; nothing keeps the event.\<close>

definition on_burn ::
  "(string \<Rightarrow> js_error + string) \<Rightarrow> release_env \<Rightarrow> burn_event \<Rightarrow> release_call list" where
  "on_burn decodeKey ev e = fst (releaseFromEvm decodeKey ev e)"

subsection \<open>Amounts\<close>

lemma parts_of_i128: "i128_of_parts (n div 2 ^ 64) (n mod 2 ^ 64) = n"
  by (simp add: i128_of_parts_def)

lemma scale_back: "0 \<le> n \<Longrightarrow> stellar_amount (n * 10 ^ 11) = n"
  by (simp add: stellar_amount_def bdiv_nonneg)

text \<open>
  An amount survives the trip. The relayer reads the amount of a bridge event back exactly from
  its two halves, for every signed 128-bit value; scaled up to 18 decimals and scaled back down it
  is unchanged; and the release call encodes it so that its own halves mean the same amount,
  exactly when it fits in 64 bits: the high half is always zero, and a larger amount throws
  before anything is sent.
\<close>

theorem bridge_amount_roundtrip:
  assumes "0 \<le> n" "decodeKey (bb_stellarRecipient e) = Inr key"
    "bb_amount e = i128_of_parts (n div 2 ^ 64) (n mod 2 ^ 64) * 10 ^ 11"
  shows "(case release_args decodeKey e of
       Inr call \<Rightarrow> n < 2 ^ 64 \<and> i128_of_parts (rc_hi call) (rc_lo call) = n
     | Inl x \<Rightarrow> 2 ^ 64 \<le> n \<and> fst (releaseFromEvm decodeKey ev e) = [])"
proof -
  have "stellar_amount (bb_amount e) = n"
    unfolding assms(3) parts_of_i128 using assms(1) by (rule scale_back)
  then show ?thesis
    using assms(1,2) by (auto simp: release_args_def uint64_fromString_def i128_of_parts_def releaseFromEvm_def
        split: option.split)
qed

definition sample_burn :: "int \<Rightarrow> burn_event" where
  "sample_burn a = \<lparr>bb_stellarRecipient = ''G'', bb_amount = a, bb_evmTxHash = ''0xab'', bb_sourceChainId = 1\<rparr>"

theorem bridge_amount_roundtrip_witness:
  "\<exists>call. release_args Inr (sample_burn (25 * 10 ^ 11)) = Inr call \<and>
     i128_of_parts (rc_hi call) (rc_lo call) = 25"
proof -
  let ?ev = "\<lparr>rel_account = None, rel_prepare = None, rel_send = Inr ''h'', rel_poll = (\<lambda>_. Inr Tx_pending)\<rparr>"
  have "bb_amount (sample_burn (25 * 10 ^ 11)) = i128_of_parts (25 div 2 ^ 64) (25 mod 2 ^ 64) * 10 ^ 11"
    unfolding parts_of_i128 by (simp add: sample_burn_def)
  from bridge_amount_roundtrip [OF _ _ this, of Inr "''G''" ?ev]
  show ?thesis by (cases "release_args Inr (sample_burn (25 * 10 ^ 11))") (simp_all add: sample_burn_def)
qed

subsection \<open>Runs of the relayer\<close>

text \<open>
  \<open>events\<close> is the log of the bridge contract. \<open>getEvents\<close> answers with some of the logged events from
  the start ledger on (a page may be incomplete, and the chain may have moved past the latest
  ledger asked for before), or fails; every mint may fail.
\<close>

inductive relay_step ::
  "(string \<Rightarrow> js_error + string) \<Rightarrow> raw_bridge_event set \<Rightarrow> relayer \<Rightarrow> relayer \<Rightarrow> bool"
  for zeroPad events where
  poll: "(\<And>start es. getEvents start = Inr es \<Longrightarrow> set es \<subseteq> {e \<in> events. start \<le> rb_ledger e}) \<Longrightarrow>
     relay_step zeroPad events s (relay_poll zeroPad fault latest getEvents s)"

inductive relay_run ::
  "(string \<Rightarrow> js_error + string) \<Rightarrow> raw_bridge_event set \<Rightarrow> relayer \<Rightarrow> relayer \<Rightarrow> bool"
  for zeroPad events where
  start: "relay_run zeroPad events s s"
| step: "relay_run zeroPad events s t \<Longrightarrow> relay_step zeroPad events t u \<Longrightarrow> relay_run zeroPad events s u"

inductive_cases relay_stepE: "relay_step zeroPad events s t"

definition parsed :: "raw_bridge_event \<Rightarrow> bridge_event \<Rightarrow> bool" where
  "parsed e b \<longleftrightarrow> parseBridgeEvent e = Inr (Some b)"

lemma parse_all_parsed: "b \<in> set (parse_all es) \<Longrightarrow> \<exists>e\<in>set es. parsed e b"
  by (induction es) (auto simp: parsed_def split: sum.splits option.splits)

lemma parsed_fields:
  assumes "parsed e b"
  shows "be_ledger b = rb_ledger e \<and> be_txHash b = rb_txHash e"
proof -
  obtain val where v: "rb_value e = Inr val"
    using assms by (cases "rb_value e") (simp_all add: parsed_def parseBridgeEvent_def)
  show ?thesis
  proof (cases val)
    case (V_map kvs)
    then obtain r a n c where
      "(case (r, a, n, c) of
         (Some r, Some (hi, lo), Some n, Some c) \<Rightarrow>
           Some \<lparr>be_sender = [], be_evmRecipient = ''0x'' @ to_hex r, be_amount = i128_of_parts hi lo,
                 be_nonce = n, be_targetChainId = c, be_ledger = rb_ledger e, be_txHash = rb_txHash e\<rparr>
       | _ \<Rightarrow> None) = Some b"
      using assms v unfolding parsed_def parseBridgeEvent_def
      by (simp only: bind_result_simps sc_val.case bind_result_Inr_iff sum.inject) blast
    then show ?thesis
      by (cases r; cases a; cases n; cases c) (auto simp del: append.simps)
  qed (use assms v in \<open>simp_all add: parsed_def parseBridgeEvent_def\<close>)
qed

text \<open>Every mint pays for a burn: the keys of a chain's mints are distinct, and each belongs to an
  event of the log for that chain, with its recipient and its amount.\<close>

definition mints_ok :: "(string \<Rightarrow> js_error + string) \<Rightarrow> raw_bridge_event set \<Rightarrow> evm_chains \<Rightarrow> bool" where
  "mints_ok zeroPad events evms \<longleftrightarrow>
     (\<forall>c w. evms c = Some w \<longrightarrow> distinct (map fst (minted w)) \<and>
        (\<forall>(k, to_addr, amt) \<in> set (minted w). \<exists>e\<in>events. \<exists>b. parsed e b \<and> be_targetChainId b = c \<and>
           zeroPad (''0x'' @ rb_txHash e) = Inr k \<and> be_evmRecipient b = to_addr \<and> amt = be_amount b * 10 ^ 11))"

lemma mint_cases:
  assumes "mint zeroPad fault b evms = Inr evms'"
  obtains w k where "evms (be_targetChainId b) = Some w" "zeroPad (''0x'' @ be_txHash b) = Inr k"
    "k \<notin> fst ` set (minted w)"
    "evms' = evms(be_targetChainId b \<mapsto> w\<lparr>minted := minted w @ [(k, be_evmRecipient b, be_amount b * 10 ^ 11)]\<rparr>)"
  using assms by (auto simp: mint_def mintFromStellar_def bind_result_Inr_iff split: option.splits if_splits)

lemma mint_ok [inv_intros]:
  assumes "mints_ok zeroPad events evms" "mint zeroPad fault b evms = Inr evms'" "e \<in> events" "parsed e b"
  shows "mints_ok zeroPad events evms'"
proof -
  obtain w k where mc: "evms (be_targetChainId b) = Some w" "zeroPad (''0x'' @ be_txHash b) = Inr k"
      "k \<notin> fst ` set (minted w)"
    "evms' = evms(be_targetChainId b \<mapsto> w\<lparr>minted := minted w @ [(k, be_evmRecipient b, be_amount b * 10 ^ 11)]\<rparr>)"
    using assms(2) by (rule mint_cases)
  have "zeroPad (''0x'' @ rb_txHash e) = Inr k" using mc(2) parsed_fields [OF assms(4)] by simp
  then show ?thesis
    using assms(1,3,4) mc(1,3) unfolding mc(4) mints_ok_def by (auto simp: image_iff)
qed

lemma mint_all_ok:
  "mints_ok zeroPad events evms \<Longrightarrow> (\<And>b. b \<in> set bs \<Longrightarrow> \<exists>e\<in>events. parsed e b) \<Longrightarrow>
   mints_ok zeroPad events (mint_all zeroPad fault bs evms)"
proof (induction bs arbitrary: evms)
  case (Cons b bs)
  obtain e where e: "e \<in> events" "parsed e b" using Cons.prems(2) by auto
  show ?case
  proof (cases "mint zeroPad (fault b) b evms")
    case (Inl x)
    then show ?thesis using Cons by simp
  next
    case (Inr evms')
    then have "mints_ok zeroPad events evms'" using mint_ok [OF Cons.prems(1) _ e] by blast
    then show ?thesis using Inr Cons by simp
  qed
qed simp

lemma relay_step_ok:
  assumes "relay_step zeroPad events s t" "mints_ok zeroPad events (evm s)"
  shows "mints_ok zeroPad events (evm t)"
proof -
  obtain fault latest getEvents where t: "t = relay_poll zeroPad fault latest getEvents s"
    and page: "\<And>start es. getEvents start = Inr es \<Longrightarrow> set es \<subseteq> {e \<in> events. start \<le> rb_ledger e}"
    using assms(1) by (elim relay_stepE) blast
  have "\<exists>e\<in>events. parsed e b" if "b \<in> set (parse_all es)" "getEvents st = Inr es" for st es b
    using parse_all_parsed [OF that(1)] page [OF that(2)] by auto
  then have "mints_ok zeroPad events (mint_all zeroPad fault (parse_all es) (evm s))"
    if "getEvents st = Inr es" for st es
    using that assms(2) by (intro mint_all_ok)
  then show ?thesis using assms(2)
    by (auto simp: t relay_poll_def pollBridgeEvents_def split: sum.splits)
qed

lemma relay_run_ok:
  "relay_run zeroPad events s t \<Longrightarrow> mints_ok zeroPad events (evm s) \<Longrightarrow> mints_ok zeroPad events (evm t)"
  by (induction rule: relay_run.induct) (auto intro: relay_step_ok)

text \<open>What the log asks to be minted on a chain, in the chain's units.\<close>

definition burned_for :: "int \<Rightarrow> raw_bridge_event \<Rightarrow> int" where
  "burned_for c e =
     (case parseBridgeEvent e of
        Inr (Some b) \<Rightarrow> if be_targetChainId b = c then be_amount b * 10 ^ 11 else 0
      | _ \<Rightarrow> 0)"

definition wrapped_supply :: "wsxlm \<Rightarrow> int" where
  "wrapped_supply w = sum_list (map (\<lambda>(k, to_addr, amt). amt) (minted w))"

lemma supply_le_burned:
  assumes "mints_ok zeroPad (set events) evms" "evms c = Some w" "\<And>e. e \<in> set events \<Longrightarrow> 0 \<le> burned_for c e"
  shows "wrapped_supply w \<le> sum_list (map (burned_for c) events)"
proof -
  let ?M = "set (minted w)"
  have "\<forall>x\<in>?M. \<exists>e. e \<in> set events \<and> burned_for c e = snd (snd x)
      \<and> zeroPad (''0x'' @ rb_txHash e) = Inr (fst x)"
    using assms(1,2) by (fastforce simp: mints_ok_def burned_for_def parsed_def)
  then obtain f where f: "\<forall>x\<in>?M. f x \<in> set events \<and> burned_for c (f x) = snd (snd x)
      \<and> zeroPad (''0x'' @ rb_txHash (f x)) = Inr (fst x)"
    by (metis (no_types, lifting))
  have d: "distinct (map fst (minted w))" using assms(1,2) by (auto simp: mints_ok_def)
  have inj: "inj_on f ?M"
  proof (rule inj_onI)
    fix x y
    assume xy: "x \<in> ?M" "y \<in> ?M" "f x = f y"
    then have "Inr (fst x) = (Inr (fst y) :: js_error + string)" using f by metis
    then have "fst x = fst y" by simp
    then show "x = y" using d xy(1,2) by (simp add: distinct_map inj_on_def)
  qed
  have "wrapped_supply w = (\<Sum>x\<in>?M. snd (snd x))"
    using d by (simp add: wrapped_supply_def distinct_map sum_list_distinct_conv_sum_set split_beta)
  also have "\<dots> = (\<Sum>x\<in>?M. burned_for c (f x))" using f by (intro sum.cong) auto
  also have "\<dots> = (\<Sum>e\<in>f ` ?M. burned_for c e)" using inj by (simp add: sum.reindex)
  also have "\<dots> \<le> (\<Sum>e\<in>set events. burned_for c e)"
    using f assms(3) by (intro sum_mono2) auto
  also have "\<dots> \<le> sum_list (map (burned_for c) events)"
    using assms(3)
  proof (induction events)
    case (Cons e es)
    have "(\<Sum>e\<in>set (e # es). burned_for c e) \<le> burned_for c e + (\<Sum>e\<in>set es. burned_for c e)"
      using Cons.prems by (cases "e \<in> set es") (simp_all add: insert_absorb)
    then show ?case using Cons by fastforce
  qed simp
  finally show ?thesis .
qed

text \<open>
  C3. Every wrapped token is backed by a burn. Starting from chains on which nothing is minted,
  after any run of the relayer (polls that overlap, fail or return partial pages; mints that fail)
  a chain's supply is at most what the bridge contract burned for that chain, scaled to the
  chain's decimals, and no replay key is minted twice.
\<close>

theorem wrapped_supply_is_backed:
  assumes "relay_run zeroPad (set events) s t" "\<forall>c w. evm s c = Some w \<longrightarrow> minted w = []"
    "\<forall>e\<in>set events. \<forall>c. 0 \<le> burned_for c e" "evm t c = Some w"
  shows "wrapped_supply w \<le> sum_list (map (burned_for c) events) \<and> distinct (map fst (minted w))"
proof -
  have "mints_ok zeroPad (set events) (evm s)" using assms(2) by (auto simp: mints_ok_def)
  with assms(1) have ok: "mints_ok zeroPad (set events) (evm t)" by (rule relay_run_ok)
  then have "distinct (map fst (minted w))" using assms(4) unfolding mints_ok_def by blast
  then show ?thesis using supply_le_burned [OF ok assms(4)] assms(3) by blast
qed

definition sample_bridge_event :: "string \<Rightarrow> ledger_no \<Rightarrow> raw_bridge_event" where
  "sample_bridge_event h l = \<lparr>rb_value = Inr (V_map [(''sender'', V_account ''G''), (''evm_recipient'', V_bytes [171]),
     (''amount'', V_i128 0 50), (''nonce'', V_u64 1), (''target_chain_id'', V_u32 1)]), rb_ledger = l, rb_txHash = h\<rparr>"

lemma sample_parsed:
  "parseBridgeEvent (sample_bridge_event h l) = Inr (Some \<lparr>be_sender = [], be_evmRecipient = ''0x'' @ to_hex [171],
     be_amount = 50, be_nonce = 1, be_targetChainId = 1, be_ledger = l, be_txHash = h\<rparr>)"
  by (simp add: parseBridgeEvent_def sample_bridge_event_def arm_def i128_of_parts_def)

lemma sample_burned: "burned_for c (sample_bridge_event h l) = (if c = 1 then 5000000000000 else 0)"
  by (simp add: burned_for_def sample_parsed)

definition sample_relayer :: relayer where
  "sample_relayer = \<lparr>cursor = 10, evm = [1 \<mapsto> \<lparr>minted = []\<rparr>]\<rparr>"

theorem wrapped_supply_is_backed_witness:
  "\<exists>w. evm (relay_poll Inr (\<lambda>_. None) (Inr 12) (\<lambda>_. Inr [sample_bridge_event ''ab'' 11]) sample_relayer) 1 = Some w \<and>
     minted w \<noteq> [] \<and> wrapped_supply w \<le> 5000000000000"
proof -
  let ?t = "relay_poll Inr (\<lambda>_. None) (Inr 12) (\<lambda>_. Inr [sample_bridge_event ''ab'' 11]) sample_relayer"
  have w: "evm ?t 1 = Some \<lparr>minted = [(''0xab'', ''0x'' @ to_hex [171], 5000000000000)]\<rparr>"
    by (simp add: relay_poll_def pollBridgeEvents_def sample_relayer_def sample_parsed mint_def mintFromStellar_def)
  have "relay_step Inr (set [sample_bridge_event ''ab'' 11]) sample_relayer
      (relay_poll Inr (\<lambda>_. None) (Inr 12) (\<lambda>st. if st \<le> 11 then Inr [sample_bridge_event ''ab'' 11] else Inr []) sample_relayer)"
    by (rule relay_step.poll) (auto simp: sample_bridge_event_def split: if_splits)
  moreover have "relay_poll Inr (\<lambda>_. None) (Inr 12) (\<lambda>st. if st \<le> 11 then Inr [sample_bridge_event ''ab'' 11] else Inr []) sample_relayer = ?t"
    by (simp add: relay_poll_def pollBridgeEvents_def sample_relayer_def)
  ultimately have "relay_step Inr (set [sample_bridge_event ''ab'' 11]) sample_relayer ?t" by simp
  then have "relay_run Inr (set [sample_bridge_event ''ab'' 11]) sample_relayer ?t"
    by (rule relay_run.step [OF relay_run.start])
  from wrapped_supply_is_backed [OF this _ _ w] have
    "wrapped_supply \<lparr>minted = [(''0xab'', ''0x'' @ to_hex [171], 5000000000000)]\<rparr> \<le> 5000000000000"
    by (simp add: sample_relayer_def sample_burned)
  then show ?thesis using w by simp
qed

subsection \<open>What a failure costs\<close>

definition unminted :: "string \<Rightarrow> evm_chains \<Rightarrow> bool" where
  "unminted k evms \<longleftrightarrow> (\<forall>c w. evms c = Some w \<longrightarrow> k \<notin> fst ` set (minted w))"

lemma mint_all_unminted:
  "unminted k evms \<Longrightarrow> (\<And>b. b \<in> set bs \<Longrightarrow> zeroPad (''0x'' @ be_txHash b) \<noteq> Inr k) \<Longrightarrow>
   unminted k (mint_all zeroPad fault bs evms)"
proof (induction bs arbitrary: evms)
  case (Cons b bs)
  show ?case
  proof (cases "mint zeroPad (fault b) b evms")
    case (Inl x)
    then show ?thesis using Cons by simp
  next
    case (Inr evms')
    then have "unminted k evms'"
    proof (rule mint_cases)
      fix w k'
      assume "evms (be_targetChainId b) = Some w" "zeroPad (''0x'' @ be_txHash b) = Inr k'"
        "evms' = evms(be_targetChainId b \<mapsto> w\<lparr>minted := minted w @ [(k', be_evmRecipient b, be_amount b * 10 ^ 11)]\<rparr>)"
      moreover from this(2) have "k' \<noteq> k" using Cons.prems(2) [of b] by auto
      ultimately show ?thesis using Cons.prems(1) unfolding unminted_def by auto
    qed
    then show ?thesis using Inr Cons by simp
  qed
qed simp

lemma relay_step_past:
  assumes "relay_step zeroPad events s t" "0 < L" "L \<le> cursor s" "unminted k (evm s)"
    "\<And>e. e \<in> events \<Longrightarrow> L < rb_ledger e \<Longrightarrow> zeroPad (''0x'' @ rb_txHash e) \<noteq> Inr k"
  shows "L \<le> cursor t \<and> unminted k (evm t)"
proof -
  obtain fault latest getEvents where t: "t = relay_poll zeroPad fault latest getEvents s"
    and page: "\<And>start es. getEvents start = Inr es \<Longrightarrow> set es \<subseteq> {e \<in> events. start \<le> rb_ledger e}"
    using assms(1) by (elim relay_stepE) blast
  have "unminted k (mint_all zeroPad fault (parse_all es) (evm s))" if g: "getEvents (cursor s + 1) = Inr es" for es
  proof (rule mint_all_unminted [OF assms(4)])
    fix b
    assume "b \<in> set (parse_all es)"
    then obtain e where e: "e \<in> set es" "parsed e b" using parse_all_parsed by blast
    then have "e \<in> events" "L < rb_ledger e" using page [OF g] assms(3) by auto
    then show "zeroPad (''0x'' @ be_txHash b) \<noteq> Inr k" using assms(5) parsed_fields [OF e(2)] by simp
  qed
  then show ?thesis
    using assms(2-4) by (auto simp: t relay_poll_def pollBridgeEvents_def split: sum.splits)
qed

text \<open>
  A failed \<open>getEvents\<close> loses the burns it would have returned. The cursor moves to the latest
  ledger even though nothing was read, so no later run of the relayer, however long, mints for a
  bridge event between the two ledgers: the sXLM burned by it never appears on the other chain
  (its replay key is its own, and had not been minted before).
\<close>

theorem failed_poll_loses_burns:
  assumes "cursor s \<noteq> 0" "0 < L" "cursor s < L" "e \<in> events" "rb_ledger e \<le> L"
    "zeroPad (''0x'' @ rb_txHash e) = Inr k"
    "\<forall>e'\<in>events. zeroPad (''0x'' @ rb_txHash e') = Inr k \<longrightarrow> e' = e"
    "\<forall>c w. evm s c = Some w \<longrightarrow> k \<notin> fst ` set (minted w)"
    "relay_run zeroPad events (relay_poll zeroPad fault (Inr L) (\<lambda>_. Inl x) s) t"
  shows "\<forall>c w. evm t c = Some w \<longrightarrow> k \<notin> fst ` set (minted w)"
proof -
  have later: "zeroPad (''0x'' @ rb_txHash e') \<noteq> Inr k" if "e' \<in> events" "L < rb_ledger e'" for e'
    using assms(5,7) that by (metis linorder_not_less)
  have run: "L \<le> cursor s' \<and> unminted k (evm s') \<Longrightarrow> L \<le> cursor t' \<and> unminted k (evm t')"
    if "relay_run zeroPad events s' t'" for s' t'
    using that by (induction rule: relay_run.induct) (use relay_step_past assms(2) later in blast)+
  have "L \<le> cursor (relay_poll zeroPad fault (Inr L) (\<lambda>_. Inl x) s) \<and>
      unminted k (evm (relay_poll zeroPad fault (Inr L) (\<lambda>_. Inl x) s))"
    using assms(1-3,8) by (simp add: relay_poll_def pollBridgeEvents_def unminted_def)
  from run [OF assms(9) this] have "unminted k (evm t)" by simp
  then show ?thesis by (simp add: unminted_def)
qed

theorem failed_poll_loses_burns_witness:
  "\<exists>w. evm (relay_poll Inr (\<lambda>_. None) (Inr 20) (\<lambda>_. Inr [])
        (relay_poll Inr (\<lambda>_. None) (Inr 12) (\<lambda>_. Inl TypeError) sample_relayer)) 1 = Some w \<and>
     ''0xab'' \<notin> fst ` set (minted w)"
proof -
  let ?E = "{sample_bridge_event ''ab'' 11}"
  let ?u = "relay_poll Inr (\<lambda>_. None) (Inr 12) (\<lambda>_. Inl TypeError) sample_relayer"
  let ?t = "relay_poll Inr (\<lambda>_. None) (Inr 20) (\<lambda>_. Inr []) ?u"
  have "relay_step Inr ?E ?u ?t" by (rule relay_step.poll) simp
  then have run: "relay_run Inr ?E ?u ?t" by (rule relay_run.step [OF relay_run.start])
  have ev: "rb_ledger (sample_bridge_event ''ab'' 11) = 11" "rb_txHash (sample_bridge_event ''ab'' 11) = ''ab''"
    by (simp_all add: sample_bridge_event_def)
  have c: "cursor sample_relayer = 10" "\<forall>c w. evm sample_relayer c = Some w \<longrightarrow> ''0xab'' \<notin> fst ` set (minted w)"
    by (simp_all add: sample_relayer_def)
  have "\<forall>c w. evm ?t c = Some w \<longrightarrow> ''0xab'' \<notin> fst ` set (minted w)"
    by (rule failed_poll_loses_burns [where e = "sample_bridge_event ''ab'' 11", OF _ _ _ _ _ _ _ c(2) run])
      (simp_all add: ev c(1))
  moreover have "evm ?t 1 = Some \<lparr>minted = []\<rparr>"
    by (simp add: relay_poll_def pollBridgeEvents_def sample_relayer_def)
  ultimately show ?thesis by blast
qed

end
