(* ===== verification/Liquidity_Mining.thy ===== *)
theory Liquidity_Mining
  imports Event_Bus Dex_Quote
begin

text \<open>
  Liquidity-mining programs: parsing a governance proposal into a program and estimating a
  provider's rewards (\<open>dex-integration/index.ts\<close>), and the table of programs, its synchronisation
  with the executed proposals and the position query (\<open>dex-integration/service.ts\<close>). \<open>JSON.parse\<close>
  and the database's reading of a time stamp are parameters.
\<close>

subsection \<open>Parsing a proposal\<close>

record lm_program =
  lm_programId :: string
  lm_title :: string
  lm_status :: string
  lm_rewardAsset :: string
  lm_rewardPerDayRaw :: stroops
  lm_startAt :: "string option"       \<comment> \<open>\<open>None\<close>: the time of parsing\<close>
  lm_endAt :: "string option"         \<comment> \<open>\<open>None\<close>: thirty days later\<close>
  lm_minLpTokensRaw :: stroops
  lm_totalRewardsRaw :: stroops
  lm_distributedRewardsRaw :: stroops
  lm_dexes :: "string list"
  lm_proposalId :: int
  lm_metadata :: js_val

definition parseProgramStatus :: "js_val option \<Rightarrow> string" where
  "parseProgramStatus v =
     (case v of
        Some (J_str s) \<Rightarrow>
          if s \<in> {''draft'', ''pending'', ''active'', ''ended'', ''cancelled''} then s else ''pending''
      | _ \<Rightarrow> ''pending'')"

definition normalizeBigIntField :: "js_val \<Rightarrow> string \<Rightarrow> stroops \<Rightarrow> js_error + stroops" where
  "normalizeBigIntField source f fallback =
     (case get_field f source of
        Some (J_str s) \<Rightarrow> big_of_string s
      | Some (J_num x) \<Rightarrow> big_of_num x
      | Some (J_big n) \<Rightarrow> return n
      | _ \<Rightarrow> return fallback)"

definition to_upper :: "char \<Rightarrow> char" where
  "to_upper c = (if of_char c \<ge> (97::nat) \<and> of_char c \<le> (122::nat) then char_of (of_char c - (32::nat)) else c)"

definition normalizeRewardAsset :: "js_val option \<Rightarrow> string" where
  "normalizeRewardAsset v =
     (case v of
        Some (J_str s) \<Rightarrow>
          if trim s = [] then ''sXLM''
          else if map to_upper (trim s) = ''XLM'' then ''XLM'' else trim s
      | _ \<Rightarrow> ''sXLM'')"

text \<open>\<open>s.split(":")[1]\<close>, the empty string when there is none.\<close>

definition key_suffix :: "string \<Rightarrow> string" where
  "key_suffix s = takeWhile (\<lambda>c. c \<noteq> CHR '':'') (drop 1 (dropWhile (\<lambda>c. c \<noteq> CHR '':'') s))"

definition nonempty_str :: "js_val option \<Rightarrow> string option" where
  "nonempty_str v = (case v of Some (J_str s) \<Rightarrow> if s = [] then None else Some s | _ \<Rightarrow> None)"

fun strings_of :: "js_val list \<Rightarrow> string list" where
  "strings_of [] = []"
| "strings_of (J_str s # vs) = s # strings_of vs"
| "strings_of (v # vs) = strings_of vs"

definition program_prefix :: string where "program_prefix = ''liquidity_mining_program''"

text \<open>Reading a field of the JSON value \<open>null\<close> throws, outside the \<open>try\<close> block.\<close>

definition parseLiquidityMiningProgramProposal ::
  "(string \<Rightarrow> js_val option) \<Rightarrow> string \<Rightarrow> string \<Rightarrow> int \<Rightarrow> js_error + lm_program option" where
  "parseLiquidityMiningProgramProposal json paramKey newValue proposalId =
     (if \<not> startsWith paramKey program_prefix then return None
      else case json newValue of
        None \<Rightarrow> return None
      | Some J_null \<Rightarrow> throw TypeError
      | Some parsed \<Rightarrow>
          (let programId = (case nonempty_str (get_field ''programId'' parsed) of
                 Some i \<Rightarrow> i
               | None \<Rightarrow> if key_suffix paramKey \<noteq> [] then key_suffix paramKey
                         else ''proposal-'' @ dec_int proposalId)
           in bind_result (normalizeBigIntField parsed ''rewardPerDayRaw'' 0) (\<lambda>perDay.
              bind_result (normalizeBigIntField parsed ''minLpTokensRaw'' 0) (\<lambda>minLp.
              bind_result (normalizeBigIntField parsed ''totalRewardsRaw'' 0) (\<lambda>tot.
              bind_result (normalizeBigIntField parsed ''distributedRewardsRaw'' 0) (\<lambda>dist.
                return (Some
                  \<lparr>lm_programId = programId,
                   lm_title = (case nonempty_str (get_field ''title'' parsed) of
                       Some t \<Rightarrow> t | None \<Rightarrow> ''Liquidity Mining '' @ programId),
                   lm_status = parseProgramStatus (get_field ''status'' parsed),
                   lm_rewardAsset = normalizeRewardAsset (get_field ''rewardAsset'' parsed),
                   lm_rewardPerDayRaw = perDay,
                   lm_startAt = nonempty_str (get_field ''startAt'' parsed),
                   lm_endAt = nonempty_str (get_field ''endAt'' parsed),
                   lm_minLpTokensRaw = minLp, lm_totalRewardsRaw = tot, lm_distributedRewardsRaw = dist,
                   lm_dexes = (case get_field ''dexes'' parsed of
                       Some (J_arr vs) \<Rightarrow> strings_of vs | _ \<Rightarrow> [''StellarX'', ''Lumenswap'']),
                   lm_proposalId = proposalId, lm_metadata = parsed\<rparr>)))))))"

subsection \<open>The table of programs\<close>

record lm_row =
  row_program :: lm_program
  row_startAt :: millis
  row_endAt :: millis
  row_createdAt :: millis

definition row_key :: "lm_row \<Rightarrow> string" where
  "row_key r = lm_programId (row_program r)"

definition thirty_days :: millis where "thirty_days = 30 * 24 * 60 * 60 * 1000"

text \<open>The row a program is stored as; the database refuses a time stamp it cannot read.\<close>

definition row_of :: "(string \<Rightarrow> millis option) \<Rightarrow> millis \<Rightarrow> lm_program \<Rightarrow> js_error + lm_row" where
  "row_of timestamptz now p =
     (case (case lm_startAt p of None \<Rightarrow> Some now | Some s \<Rightarrow> timestamptz s) of
        None \<Rightarrow> throw (Err ''invalid input syntax for type timestamp'')
      | Some a \<Rightarrow>
     (case (case lm_endAt p of None \<Rightarrow> Some (now + thirty_days) | Some s \<Rightarrow> timestamptz s) of
        None \<Rightarrow> throw (Err ''invalid input syntax for type timestamp'')
      | Some b \<Rightarrow> return \<lparr>row_program = p, row_startAt = a, row_endAt = b, row_createdAt = now\<rparr>))"

text \<open>\<open>INSERT ... ON CONFLICT (program_key) DO UPDATE\<close>: everything but the creation time is replaced.\<close>

definition upsert_program :: "lm_row \<Rightarrow> lm_row list \<Rightarrow> lm_row list" where
  "upsert_program r rs =
     (if \<exists>q\<in>set rs. row_key q = row_key r
      then map (\<lambda>q. if row_key q = row_key r then r\<lparr>row_createdAt := row_createdAt q\<rparr> else q) rs
      else rs @ [r])"

record lm_env =
  le_json :: "string \<Rightarrow> js_val option"
  le_timestamptz :: "string \<Rightarrow> millis option"
  le_now :: millis
  le_write :: "js_error option"

definition applyLiquidityMiningProposal ::
  "lm_env \<Rightarrow> int \<Rightarrow> string \<Rightarrow> string \<Rightarrow> lm_row list \<Rightarrow> js_error + lm_row list" where
  "applyLiquidityMiningProposal ev proposalId paramKey newValue rs =
     bind_result (parseLiquidityMiningProgramProposal (le_json ev) paramKey newValue proposalId) (\<lambda>program.
       case program of
         None \<Rightarrow> return rs
       | Some p \<Rightarrow>
           bind_result (row_of (le_timestamptz ev) (le_now ev) p) (\<lambda>r.
             case le_write ev of Some e \<Rightarrow> throw e | None \<Rightarrow> return (upsert_program r rs)))"

text \<open>The cached governance proposals (\<open>governance_proposals\<close>).\<close>

record gov_row =
  gr_id :: int
  gr_chainProposalId :: "int option"
  gr_proposer :: string
  gr_paramKey :: string
  gr_newValue :: string
  gr_votesFor :: int
  gr_votesAgainst :: int
  gr_status :: string
  gr_appliedAt :: "millis option"
  gr_createdAt :: millis
  gr_expiresAt :: millis

definition executed_programs :: "gov_row list \<Rightarrow> gov_row list" where
  "executed_programs gs =
     sort_key (\<lambda>g. - gr_createdAt g)
       (filter (\<lambda>g. gr_status g = ''executed'' \<and> startsWith (gr_paramKey g) program_prefix) gs)"

definition sync_id :: "gov_row \<Rightarrow> int" where
  "sync_id g = (case gr_chainProposalId g of Some i \<Rightarrow> i | None \<Rightarrow> gr_id g)"

fun sync_programs :: "lm_env \<Rightarrow> gov_row list \<Rightarrow> lm_row list \<Rightarrow> lm_row list \<times> js_error option" where
  "sync_programs ev [] rs = (rs, None)"
| "sync_programs ev (g # gs) rs =
     (case applyLiquidityMiningProposal ev (sync_id g) (gr_paramKey g) (gr_newValue g) rs of
        Inl e \<Rightarrow> (rs, Some e)
      | Inr rs' \<Rightarrow> sync_programs ev gs rs')"

definition syncLiquidityMiningProgramsFromGovernance ::
  "lm_env \<Rightarrow> gov_row list \<Rightarrow> lm_row list \<Rightarrow> lm_row list \<times> js_error option" where
  "syncLiquidityMiningProgramsFromGovernance ev gs rs = sync_programs ev (executed_programs gs) rs"

text \<open>\<open>ORDER BY start_at DESC, created_at DESC\<close> of the rows the synchronisation leaves.\<close>

definition getLiquidityMiningPrograms :: "lm_env \<Rightarrow> gov_row list \<Rightarrow> lm_row list \<Rightarrow> js_error + lm_row list" where
  "getLiquidityMiningPrograms ev gs rs =
     (case syncLiquidityMiningProgramsFromGovernance ev gs rs of
        (rs', Some e) \<Rightarrow> throw e
      | (rs', None) \<Rightarrow> return (sort_key (\<lambda>r. - row_startAt r) (sort_key (\<lambda>r. - row_createdAt r) rs')))"

subsection \<open>Estimates and positions\<close>

record lm_estimate =
  es_programId :: string
  es_title :: string
  es_status :: string
  es_rewardAsset :: string
  es_dailyRaw :: stroops
  es_daily :: number
  es_sharePercent :: number

definition dailyRewardsRaw :: "stroops \<Rightarrow> stroops \<Rightarrow> stroops \<Rightarrow> stroops" where
  "dailyRewardsRaw perDay user supply_raw = (if supply_raw > 0 then bdiv (perDay * user) supply_raw else 0)"

definition estimateLiquidityMiningRewards :: "lm_program \<Rightarrow> stroops \<Rightarrow> stroops \<Rightarrow> lm_estimate" where
  "estimateLiquidityMiningRewards p user supply_raw =
     (let share = (if supply_raw > 0 then num_of_big user / num_of_big supply_raw else 0);
          daily = dailyRewardsRaw (lm_rewardPerDayRaw p) user supply_raw
      in \<lparr>es_programId = lm_programId p, es_title = lm_title p, es_status = lm_status p,
          es_rewardAsset = lm_rewardAsset p, es_dailyRaw = daily, es_daily = rawAmountToDisplay daily,
          es_sharePercent = share * lit 100\<rparr>)"

definition eligible :: "millis \<Rightarrow> stroops \<Rightarrow> lm_row \<Rightarrow> bool" where
  "eligible now user r \<longleftrightarrow>
     row_startAt r \<le> now \<and> row_endAt r \<ge> now \<and> user \<ge> lm_minLpTokensRaw (row_program r)"

definition getLiquidityMiningPosition ::
  "js_error + pool_snapshot \<Rightarrow> js_error + stroops \<Rightarrow> js_error + lm_row list \<Rightarrow> millis \<Rightarrow>
     js_error + (stroops \<times> lm_estimate list)" where
  "getLiquidityMiningPosition snap bal programs now =
     bind_result snap (\<lambda>snapshot. bind_result bal (\<lambda>user. bind_result programs (\<lambda>rs.
       return (user, map (\<lambda>r. estimateLiquidityMiningRewards (row_program r) user (totalLpSupplyRaw snapshot))
                       (filter (eligible now user) rs)))))"

subsection \<open>Rewards stay within the budget\<close>

lemma sum_div_le:
  fixes c :: int
  assumes "0 < c" "\<And>x. x \<in> set xs \<Longrightarrow> 0 \<le> x"
  shows "sum_list (map (\<lambda>x. x div c) xs) \<le> sum_list xs div c"
  using assms(2)
proof (induction xs)
  case (Cons x xs)
  have "x div c + sum_list xs div c \<le> (x + sum_list xs) div c"
    using div_add1_eq [of x "sum_list xs" c] assms(1) by (simp add: pos_imp_zdiv_nonneg_iff)
  then show ?case using Cons by fastforce
qed simp

text \<open>
  The estimates add up. Whatever number of providers share the pool, as long as their LP
  balances sum to at most the supply, the daily rewards estimated for all of them together never
  exceed the program's budget for a day.
\<close>

theorem daily_rewards_within_budget:
  assumes "\<forall>u\<in>set us. 0 \<le> u" "sum_list us \<le> S" "0 \<le> lm_rewardPerDayRaw p"
  shows "sum_list (map (\<lambda>u. es_dailyRaw (estimateLiquidityMiningRewards p u S)) us) \<le> lm_rewardPerDayRaw p"
proof (cases "0 < S")
  case True
  let ?r = "lm_rewardPerDayRaw p"
  have "sum_list (map (\<lambda>u. es_dailyRaw (estimateLiquidityMiningRewards p u S)) us)
      = sum_list (map (\<lambda>x. x div S) (map (\<lambda>u. ?r * u) us))"
    using assms(1,3) True
    by (auto simp: estimateLiquidityMiningRewards_def dailyRewardsRaw_def Let_def bdiv_nonneg
        intro!: arg_cong [where f = sum_list])
  also have "\<dots> \<le> sum_list (map (\<lambda>u. ?r * u) us) div S"
    using assms(1,3) True by (intro sum_div_le) auto
  also have "\<dots> = (?r * sum_list us) div S" by (simp add: sum_list_const_mult)
  also have "\<dots> \<le> (?r * S) div S" using assms(2,3) True by (intro zdiv_mono1) (auto intro: mult_left_mono)
  finally show ?thesis using True by simp
next
  case False
  then have "es_dailyRaw (estimateLiquidityMiningRewards p u S) = 0" for u
    by (simp add: estimateLiquidityMiningRewards_def dailyRewardsRaw_def Let_def)
  then show ?thesis using assms(3) by (simp add: sum_list_triv)
qed

definition sample_json :: "string \<Rightarrow> js_val option" where
  "sample_json s =
     (if s = ''old'' then Some (J_obj [(''programId'', J_str ''p''), (''status'', J_str ''active''), (''rewardPerDayRaw'', J_str ''100'')])
      else if s = ''new'' then Some (J_obj [(''programId'', J_str ''p''), (''status'', J_str ''cancelled'')])
      else None)"

definition sample_lm_env :: lm_env where
  "sample_lm_env = \<lparr>le_json = sample_json, le_timestamptz = (\<lambda>_. None), le_now = 1000, le_write = None\<rparr>"

definition sample_program :: lm_program where
  "sample_program =
     \<lparr>lm_programId = ''p'', lm_title = ''Liquidity Mining p'', lm_status = ''active'', lm_rewardAsset = ''sXLM'',
      lm_rewardPerDayRaw = 100, lm_startAt = None, lm_endAt = None, lm_minLpTokensRaw = 0,
      lm_totalRewardsRaw = 0, lm_distributedRewardsRaw = 0, lm_dexes = [''StellarX'', ''Lumenswap''],
      lm_proposalId = 3,
      lm_metadata = J_obj [(''programId'', J_str ''p''), (''status'', J_str ''active''), (''rewardPerDayRaw'', J_str ''100'')]\<rparr>"

theorem daily_rewards_within_budget_witness:
  "es_dailyRaw (estimateLiquidityMiningRewards sample_program 7 10) +
   es_dailyRaw (estimateLiquidityMiningRewards sample_program 3 10) \<le> 100"
  using daily_rewards_within_budget [of "[7, 3]" 10 sample_program] by (simp add: sample_program_def)

subsection \<open>Which proposal defines a program\<close>

definition holds_program :: "lm_program \<Rightarrow> lm_row list \<Rightarrow> bool" where
  "holds_program p rs \<longleftrightarrow> (\<exists>r\<in>set rs. row_program r = p) \<and>
     (\<forall>r\<in>set rs. row_key r = lm_programId p \<longrightarrow> row_program r = p)"

lemma upsert_same:
  assumes "row_program r = p"
  shows "holds_program p (upsert_program r rs)"
proof (cases "\<exists>q\<in>set rs. row_key q = row_key r")
  case True
  then obtain q where "q \<in> set rs" "row_key q = row_key r" by blast
  then have "r\<lparr>row_createdAt := row_createdAt q\<rparr> \<in> set (upsert_program r rs)"
    by (force simp: upsert_program_def)
  then have "\<exists>r'\<in>set (upsert_program r rs). row_program r' = p" using assms by (intro bexI) simp_all
  then show ?thesis using assms True by (auto simp: holds_program_def upsert_program_def row_key_def)
next
  case False
  then show ?thesis using assms by (auto simp: holds_program_def upsert_program_def row_key_def)
qed

lemma upsert_other:
  assumes "row_key r \<noteq> lm_programId p" "holds_program p rs"
  shows "holds_program p (upsert_program r rs)"
proof -
  obtain q where "q \<in> set rs" "row_program q = p" using assms(2) by (auto simp: holds_program_def)
  moreover from this have "row_key q \<noteq> row_key r" using assms(1) by (simp add: row_key_def)
  ultimately have "\<exists>q\<in>set (upsert_program r rs). row_program q = p"
    by (auto simp: upsert_program_def image_iff)
  then show ?thesis using assms by (auto simp: holds_program_def upsert_program_def row_key_def)
qed

lemma row_of_program: "row_of tz now p = Inr r \<Longrightarrow> row_program r = p"
  by (auto simp: row_of_def split: option.splits)

lemma sync_programs_append:
  "sync_programs ev (gs @ hs) rs =
     (case sync_programs ev gs rs of (rs', Some e) \<Rightarrow> (rs', Some e) | (rs', None) \<Rightarrow> sync_programs ev hs rs')"
  by (induction gs arbitrary: rs) (simp_all split: sum.splits)

text \<open>The program a cached proposal parses to.\<close>

definition program_of :: "lm_env \<Rightarrow> gov_row \<Rightarrow> lm_program option" where
  "program_of ev g =
     (case parseLiquidityMiningProgramProposal (le_json ev) (gr_paramKey g) (gr_newValue g) (sync_id g) of
        Inr r \<Rightarrow> r | Inl e \<Rightarrow> None)"

lemma apply_cases:
  assumes "applyLiquidityMiningProposal ev (sync_id g) (gr_paramKey g) (gr_newValue g) rs = Inr rs'"
  shows "(program_of ev g = None \<and> rs' = rs) \<or>
    (\<exists>p r. program_of ev g = Some p \<and> row_program r = p \<and> rs' = upsert_program r rs)"
proof -
  obtain res where res: "parseLiquidityMiningProgramProposal (le_json ev) (gr_paramKey g) (gr_newValue g) (sync_id g) = Inr res"
    using assms by (auto simp: applyLiquidityMiningProposal_def bind_result_Inr_iff)
  then have po: "program_of ev g = res" by (simp add: program_of_def)
  show ?thesis
  proof (cases res)
    case None
    then show ?thesis using assms res po by (simp add: applyLiquidityMiningProposal_def)
  next
    case (Some p)
    then obtain r where "row_of (le_timestamptz ev) (le_now ev) p = Inr r" "rs' = upsert_program r rs"
      using assms res by (auto simp: applyLiquidityMiningProposal_def bind_result_Inr_iff split: option.splits)
    then show ?thesis using po Some row_of_program by blast
  qed
qed

lemma sync_keeps:
  assumes "sync_programs ev gs rs = (rs', None)" "holds_program p rs"
    "\<And>g q. g \<in> set gs \<Longrightarrow> program_of ev g = Some q \<Longrightarrow> lm_programId q \<noteq> lm_programId p"
  shows "holds_program p rs'"
  using assms
proof (induction gs arbitrary: rs)
  case (Cons g gs)
  then obtain rs1 where one: "applyLiquidityMiningProposal ev (sync_id g) (gr_paramKey g) (gr_newValue g) rs = Inr rs1"
    "sync_programs ev gs rs1 = (rs', None)" by (auto split: sum.splits)
  have "holds_program p rs1"
    using apply_cases [OF one(1)] Cons.prems(2,3) upsert_other by (force simp: row_key_def)
  then show ?case by (rule Cons.IH [OF one(2)]) (use Cons.prems(3) in auto)
qed simp

text \<open>
  The oldest proposal wins. The synchronisation that precedes every read of the programs goes
  through the executed proposals from the newest to the oldest and overwrites as it goes, so after
  it the row of a program holds what the oldest executed proposal for that program says: a later
  proposal that changes the rewards, ends the program or cancels it has no effect.
\<close>

theorem oldest_proposal_defines_program:
  assumes "syncLiquidityMiningProgramsFromGovernance ev gs rs = (rs', None)"
    "g \<in> set (executed_programs gs)" "program_of ev g = Some p"
    "\<forall>h\<in>set (executed_programs gs). \<forall>q. h \<noteq> g \<longrightarrow> program_of ev h = Some q \<longrightarrow>
       lm_programId q = lm_programId p \<longrightarrow> gr_createdAt g < gr_createdAt h"
    "distinct (executed_programs gs)"
  shows "(\<exists>r\<in>set rs'. row_program r = p) \<and>
    (\<forall>r\<in>set rs'. row_key r = lm_programId p \<longrightarrow> row_program r = p)"
proof -
  obtain as bs where split: "executed_programs gs = as @ g # bs" using assms(2) by (auto simp: in_set_conv_decomp)
  have "sorted (map (\<lambda>g. - gr_createdAt g) (executed_programs gs))" by (simp add: executed_programs_def)
  then have old: "\<forall>h\<in>set bs. gr_createdAt h \<le> gr_createdAt g" unfolding split by (auto simp: sorted_append)
  obtain rs1 rs2 where s: "applyLiquidityMiningProposal ev (sync_id g) (gr_paramKey g) (gr_newValue g) rs1 = Inr rs2"
      "sync_programs ev bs rs2 = (rs', None)"
    using assms(1) unfolding syncLiquidityMiningProgramsFromGovernance_def split sync_programs_append
    by (auto split: prod.splits option.splits sum.splits)
  have "holds_program p rs2" using apply_cases [OF s(1)] assms(3) upsert_same by auto
  moreover have "lm_programId q \<noteq> lm_programId p" if "h \<in> set bs" "program_of ev h = Some q" for h q
    using that old assms(4,5) unfolding split by force
  ultimately have "holds_program p rs'" using sync_keeps [OF s(2)] by blast
  then show ?thesis by (auto simp: holds_program_def)
qed

text \<open>An active program, cancelled by a later proposal.\<close>

definition sample_gov :: "int \<Rightarrow> string \<Rightarrow> millis \<Rightarrow> gov_row" where
  "sample_gov i v t = \<lparr>gr_id = i, gr_chainProposalId = Some i, gr_proposer = ''G'', gr_paramKey = ''liquidity_mining_program'',
     gr_newValue = v, gr_votesFor = 2, gr_votesAgainst = 1, gr_status = ''executed'', gr_appliedAt = None,
     gr_createdAt = t, gr_expiresAt = 0\<rparr>"

lemma sample_executed:
  "executed_programs [sample_gov 3 ''old'' 10, sample_gov 4 ''new'' 20] = [sample_gov 4 ''new'' 20, sample_gov 3 ''old'' 10]"
  by (simp add: executed_programs_def sample_gov_def program_prefix_def)

lemma sample_normalize:
  "normalizeBigIntField (J_obj kvs) f d =
     (case map_of kvs f of Some (J_str s) \<Rightarrow> big_of_string s | Some (J_num x) \<Rightarrow> big_of_num x
      | Some (J_big n) \<Rightarrow> Inr n | _ \<Rightarrow> Inr d)"
  by (simp add: normalizeBigIntField_def get_field_def)

theorem oldest_proposal_defines_program_witness:
  "\<exists>rs'. syncLiquidityMiningProgramsFromGovernance sample_lm_env [sample_gov 3 ''old'' 10, sample_gov 4 ''new'' 20] [] = (rs', None) \<and>
     (\<exists>r\<in>set rs'. lm_status (row_program r) = ''active'')"
proof -
  let ?gs = "[sample_gov 3 ''old'' 10, sample_gov 4 ''new'' 20]"
  have hundred: "big_of_string ''100'' = Inr 100"
    using big_of_string_dec [of 100] by (simp add: dec.simps digit_def)
  have old: "program_of sample_lm_env (sample_gov 3 ''old'' 10) = Some sample_program"
    by (simp add: program_of_def parseLiquidityMiningProgramProposal_def sample_gov_def sample_lm_env_def
        sample_json_def Let_def program_prefix_def get_field_def nonempty_str_def hundred sample_normalize sample_program_def
        sync_id_def parseProgramStatus_def normalizeRewardAsset_def)
  obtain q where new: "program_of sample_lm_env (sample_gov 4 ''new'' 20) = Some q"
    by (simp add: program_of_def parseLiquidityMiningProgramProposal_def sample_gov_def sample_lm_env_def
        sample_json_def Let_def program_prefix_def get_field_def nonempty_str_def sample_normalize sync_id_def)
  have "\<exists>rs'. sync_programs sample_lm_env (executed_programs ?gs) [] = (rs', None)"
    by (simp only: sample_executed)
      (simp add: applyLiquidityMiningProposal_def parseLiquidityMiningProgramProposal_def sample_gov_def sample_lm_env_def
        sample_json_def Let_def program_prefix_def get_field_def nonempty_str_def hundred sample_normalize row_of_def)
  then obtain rs' where rs': "syncLiquidityMiningProgramsFromGovernance sample_lm_env ?gs [] = (rs', None)"
    by (auto simp: syncLiquidityMiningProgramsFromGovernance_def)
  have times: "gr_createdAt (sample_gov 3 ''old'' 10) < gr_createdAt (sample_gov 4 ''new'' 20)"
    by (simp add: sample_gov_def)
  then have "distinct (executed_programs ?gs)" unfolding sample_executed by auto
  then have "\<exists>r\<in>set rs'. row_program r = sample_program"
    using oldest_proposal_defines_program [OF rs' _ old] times by (simp add: sample_executed)
  moreover have "lm_status sample_program = ''active''" by (simp add: sample_program_def)
  ultimately have "\<exists>r\<in>set rs'. lm_status (row_program r) = ''active''" by metis
  then show ?thesis using rs' by blast
qed

end
