(* ===== verification/Governance_Sync.thy ===== *)
theory Governance_Sync
  imports Liquidity_Mining Contract_Client
begin

text \<open>
  \<open>governance-sync/index.ts\<close>: reading the proposals of the governance contract into the database
  and applying the executed ones, each to the contract its parameter belongs to. The state is the
  two tables and two logs: the applications that succeeded and the invocations they made. What the
  contract, the database and the network answer for one proposal is an environment.
\<close>

subsection \<open>State\<close>

record chain_proposal =
  cp_proposer :: string
  cp_paramKey :: string
  cp_newValue :: string
  cp_startLedger :: ledger_no
  cp_endLedger :: ledger_no
  cp_executed :: bool

record gov_state =
  gs_rows :: "gov_row list"
  gs_programs :: "lm_row list"
  gs_applied :: "(int \<times> string \<times> string) list"
  gs_calls :: "invocation list"

text \<open>The answers for one proposal: the two views, the queries in order, and the application.\<close>

record prop_env =
  pe_proposal :: "js_error + chain_proposal option"
  pe_votes :: "js_error + (int \<times> int) option"
  pe_now :: millis
  pe_select :: "js_error option"
  pe_write :: "js_error option"
  pe_call :: call_env
  pe_lm :: lm_env
  pe_mark :: "js_error option"

record synced_proposal =
  sp_id :: int
  sp_proposer :: string
  sp_paramKey :: string
  sp_newValue :: string
  sp_votesFor :: string
  sp_votesAgainst :: string
  sp_startLedger :: ledger_no
  sp_endLedger :: ledger_no
  sp_executed :: bool
  sp_status :: string
  sp_expiresAt :: millis

subsection \<open>Applying a parameter\<close>

text \<open>The setter a parameter key maps to; \<open>None\<close> is the \<open>default\<close> branch.\<close>

definition param_setter :: "string \<Rightarrow> (int \<Rightarrow> admin_call) option" where
  "param_setter paramKey =
     (if paramKey = ''cooldown_period'' then Some callSetCooldownPeriod
      else if paramKey = ''collateral_factor'' then Some callUpdateCollateralFactor
      else if paramKey = ''borrow_rate_bps'' then Some callUpdateBorrowRate
      else if paramKey = ''liquidation_threshold'' then Some callUpdateLiquidationThreshold
      else if paramKey = ''lp_protocol_fee_bps'' then Some callSetLpProtocolFeeBps
      else None)"

text \<open>
  The result: the programs and the invocations afterwards, and whether the parameter counts as
  applied. An error of the mining service is not caught here. (A value that is not an integer
  number reaches no setter: \<open>parseInt\<close> yields an integer, \<open>NaN\<close> or an infinity, and encoding the
  latter throws inside the \<open>try\<close> block.)
\<close>

definition applyGovernanceParam ::
  "string \<Rightarrow> string \<Rightarrow> int \<Rightarrow> prop_env \<Rightarrow> gov_state \<Rightarrow> gov_state \<times> (js_error + bool)" where
  "applyGovernanceParam paramKey newValue proposalId ev s =
     (if startsWith paramKey program_prefix
      then (case applyLiquidityMiningProposal (pe_lm ev) proposalId paramKey newValue (gs_programs s) of
              Inl e \<Rightarrow> (s, throw e)
            | Inr rs \<Rightarrow> (s\<lparr>gs_programs := rs\<rparr>, return True))
      else case js_parseInt newValue of
        NaN \<Rightarrow> (s, return False)
      | v \<Rightarrow>
          (case param_setter paramKey of
             None \<Rightarrow> (s, return True)
           | Some setter \<Rightarrow>
               (case big_of_num v of
                  Inl e \<Rightarrow> (s, return False)
                | Inr n \<Rightarrow>
                    (let (sent, r) = setter n (pe_call ev)
                     in (s\<lparr>gs_calls := gs_calls s @ sent\<rparr>, return (\<not> isl r))))))"

definition deriveStatus :: "bool \<Rightarrow> ledger_no \<Rightarrow> ledger_no \<Rightarrow> int \<Rightarrow> int \<Rightarrow> string" where
  "deriveStatus executed currentLedger endLedger votesFor votesAgainst =
     (if executed then ''executed''
      else if currentLedger \<le> endLedger then ''active''
      else if votesFor > votesAgainst then ''passed''
      else ''rejected'')"

subsection \<open>The cached row\<close>

definition find_row :: "int \<Rightarrow> gov_row list \<Rightarrow> gov_row option" where
  "find_row i rows = find (\<lambda>g. gr_chainProposalId g = Some i) rows"

definition next_gid :: "gov_row list \<Rightarrow> int" where
  "next_gid rows = fold max (map gr_id rows) 0 + 1"

text \<open>The update of an existing row by its key, or the insert; neither touches \<open>appliedAt\<close>.\<close>

definition write_row ::
  "int \<Rightarrow> chain_proposal \<Rightarrow> int \<Rightarrow> int \<Rightarrow> string \<Rightarrow> millis \<Rightarrow> millis \<Rightarrow> gov_row list \<Rightarrow> gov_row list" where
  "write_row i p vf va st expires now rows =
     (case find_row i rows of
        Some r \<Rightarrow> map (\<lambda>g. if gr_id g = gr_id r
            then g\<lparr>gr_proposer := cp_proposer p, gr_paramKey := cp_paramKey p, gr_newValue := cp_newValue p,
                   gr_votesFor := vf, gr_votesAgainst := va, gr_status := st, gr_expiresAt := expires\<rparr>
            else g) rows
      | None \<Rightarrow> rows @ [\<lparr>gr_id = next_gid rows, gr_chainProposalId = Some i, gr_proposer = cp_proposer p,
                        gr_paramKey = cp_paramKey p, gr_newValue = cp_newValue p, gr_votesFor = vf,
                        gr_votesAgainst = va, gr_status = st, gr_appliedAt = None, gr_createdAt = now,
                        gr_expiresAt = expires\<rparr>])"

definition mark_applied :: "int \<Rightarrow> millis \<Rightarrow> gov_row list \<Rightarrow> gov_row list" where
  "mark_applied i now rows =
     map (\<lambda>g. if gr_chainProposalId g = Some i
              then g\<lparr>gr_appliedAt := Some now, gr_status := ''executed''\<rparr> else g) rows"

text \<open>\<open>record?.appliedAt\<close> of the row as it was before the write.\<close>

definition already_applied :: "int \<Rightarrow> gov_row list \<Rightarrow> bool" where
  "already_applied i rows = (case find_row i rows of None \<Rightarrow> False | Some r \<Rightarrow> gr_appliedAt r \<noteq> None)"

definition upsertGovernanceProposal ::
  "prop_env \<Rightarrow> int \<Rightarrow> chain_proposal \<Rightarrow> int \<Rightarrow> int \<Rightarrow> string \<Rightarrow> ledger_no \<Rightarrow> gov_state \<Rightarrow>
     gov_state \<times> (js_error + synced_proposal)" where
  "upsertGovernanceProposal ev i p vf va st latestLedger s =
     (let expiresAt = pe_now ev + max 0 (cp_endLedger p - latestLedger) * 5000;
          synced = \<lparr>sp_id = i, sp_proposer = cp_proposer p, sp_paramKey = cp_paramKey p, sp_newValue = cp_newValue p,
                    sp_votesFor = dec_int vf, sp_votesAgainst = dec_int va, sp_startLedger = cp_startLedger p,
                    sp_endLedger = cp_endLedger p, sp_executed = cp_executed p,
                    sp_status = (if cp_executed p then ''executed'' else st), sp_expiresAt = expiresAt\<rparr>
      in case pe_select ev of Some e \<Rightarrow> (s, throw e) | None \<Rightarrow>
         (case pe_write ev of Some e \<Rightarrow> (s, throw e) | None \<Rightarrow>
         (let s1 = s\<lparr>gs_rows := write_row i p vf va st expiresAt (pe_now ev) (gs_rows s)\<rparr>
          in if cp_executed p \<and> \<not> already_applied i (gs_rows s)
             then (case applyGovernanceParam (cp_paramKey p) (cp_newValue p) i ev s1 of
                     (s2, Inl e) \<Rightarrow> (s2, throw e)
                   | (s2, Inr False) \<Rightarrow> (s2, return synced)
                   | (s2, Inr True) \<Rightarrow>
                       (let s3 = s2\<lparr>gs_applied := gs_applied s2 @ [(i, cp_paramKey p, cp_newValue p)]\<rparr>
                        in case pe_mark ev of
                             Some e \<Rightarrow> (s3, throw e)
                           | None \<Rightarrow> (s3\<lparr>gs_rows := mark_applied i (pe_now ev) (gs_rows s3)\<rparr>, return synced)))
             else (s1, return synced))))"

subsection \<open>The synchronisation\<close>

text \<open>One iteration; an exception skips the proposal but keeps what it has done.\<close>

definition sync_one :: "prop_env \<Rightarrow> ledger_no \<Rightarrow> int \<Rightarrow> gov_state \<Rightarrow> gov_state \<times> synced_proposal option" where
  "sync_one ev latestLedger i s =
     (case pe_proposal ev of
        Inl e \<Rightarrow> (s, None)
      | Inr None \<Rightarrow> (s, None)
      | Inr (Some p) \<Rightarrow>
          (case pe_votes ev of
             Inl e \<Rightarrow> (s, None)
           | Inr vc \<Rightarrow>
               (let (vf, va) = (case vc of None \<Rightarrow> (0, 0) | Some v \<Rightarrow> v);
                    st = deriveStatus (cp_executed p) latestLedger (cp_endLedger p) vf va
                in case upsertGovernanceProposal ev i p vf va st latestLedger s of
                     (s', Inl e) \<Rightarrow> (s', None)
                   | (s', Inr sp) \<Rightarrow> (s', Some sp))))"

fun sync_ids ::
  "(int \<Rightarrow> prop_env) \<Rightarrow> ledger_no \<Rightarrow> int list \<Rightarrow> gov_state \<Rightarrow> gov_state \<times> synced_proposal list" where
  "sync_ids env latest [] s = (s, [])"
| "sync_ids env latest (i # is) s =
     (let (s1, r) = sync_one (env i) latest i s;
          (s2, rs) = sync_ids env latest is s1
      in (s2, (case r of None \<Rightarrow> rs | Some sp \<Rightarrow> sp # rs)))"

text \<open>\<open>Array.from({ length: n })\<close> of the number of proposals; no request names a proposal.\<close>

definition proposal_ids :: "int option \<Rightarrow> int \<Rightarrow> int list" where
  "proposal_ids proposalId count = (case proposalId of Some i \<Rightarrow> [i] | None \<Rightarrow> map int [0..<nat count])"

definition syncGovernanceProposals ::
  "(int \<Rightarrow> prop_env) \<Rightarrow> ledger_no \<Rightarrow> int option \<Rightarrow> int \<Rightarrow> gov_state \<Rightarrow> gov_state \<times> synced_proposal list" where
  "syncGovernanceProposals env latest proposalId count s =
     (let (s', ps) = sync_ids env latest (take 50 (proposal_ids proposalId count)) s
      in (s', sort_key (\<lambda>p. - sp_id p) ps))"

definition listCachedGovernanceProposals :: "gov_row list \<Rightarrow> synced_proposal list" where
  "listCachedGovernanceProposals rows =
     map (\<lambda>g. \<lparr>sp_id = (case gr_chainProposalId g of Some i \<Rightarrow> i | None \<Rightarrow> gr_id g - 1),
               sp_proposer = gr_proposer g, sp_paramKey = gr_paramKey g, sp_newValue = gr_newValue g,
               sp_votesFor = dec_int (gr_votesFor g), sp_votesAgainst = dec_int (gr_votesAgainst g),
               sp_startLedger = 0, sp_endLedger = 0, sp_executed = (gr_status g = ''executed''),
               sp_status = gr_status g, sp_expiresAt = gr_expiresAt g\<rparr>)
       (sort_key (\<lambda>g. - gr_createdAt g) rows)"

subsection \<open>What stays applied\<close>

lemma find_row_map:
  assumes "\<And>g. gr_chainProposalId (f g) = gr_chainProposalId g"
  shows "find_row j (map f rows) = map_option f (find_row j rows)"
  using assms by (induction rows) (auto simp: find_row_def)

lemma find_row_append:
  "find_row j (rows @ rs) = (case find_row j rows of None \<Rightarrow> find_row j rs | Some r \<Rightarrow> Some r)"
  by (induction rows) (auto simp: find_row_def)

lemma write_row_applied: "already_applied j rows \<Longrightarrow> already_applied j (write_row i p vf va st x now rows)"
  by (auto simp: already_applied_def write_row_def find_row_map find_row_append split: option.splits)

lemma write_row_present: "find_row i (write_row i p vf va st x now rows) \<noteq> None"
  by (auto simp: write_row_def find_row_map find_row_append split: option.split)
    (simp add: find_row_def)

lemma find_row_id: "find_row i rows = Some g \<Longrightarrow> gr_chainProposalId g = Some i"
  by (auto simp: find_row_def find_Some_iff)

lemma mark_applied_mono: "already_applied j rows \<Longrightarrow> already_applied j (mark_applied i now rows)"
  by (auto simp: already_applied_def mark_applied_def find_row_map split: option.splits)

lemma mark_applied_sets: "find_row i rows \<noteq> None \<Longrightarrow> already_applied i (mark_applied i now rows)"
  by (auto simp: already_applied_def mark_applied_def find_row_map dest: find_row_id)

lemma applyGovernanceParam_frame [frame_simps]:
  "gs_rows (fst (applyGovernanceParam k v i ev s)) = gs_rows s"
  "gs_applied (fst (applyGovernanceParam k v i ev s)) = gs_applied s"
  by (auto simp: applyGovernanceParam_def Let_def split_beta split: sum.split number.split option.split)

definition gov_inv :: "gov_state \<Rightarrow> bool" where
  "gov_inv s \<longleftrightarrow> distinct (map fst (gs_applied s)) \<and> (\<forall>a\<in>set (gs_applied s). already_applied (fst a) (gs_rows s))"

lemma gov_inv_rows:
  assumes "gov_inv s" "gs_applied t = gs_applied s" "\<And>j. already_applied j (gs_rows s) \<Longrightarrow> already_applied j (gs_rows t)"
  shows "gov_inv t"
  using assms by (auto simp: gov_inv_def)

lemma upsert_inv [inv_intros]:
  assumes "gov_inv s" "pe_mark ev = None"
  shows "gov_inv (fst (upsertGovernanceProposal ev i p vf va st l s))"
proof -
  define x where "x = pe_now ev + max 0 (cp_endLedger p - l) * 5000"
  define s1 where "s1 = s\<lparr>gs_rows := write_row i p vf va st x (pe_now ev) (gs_rows s)\<rparr>"
  have s1: "gov_inv s1"
    by (rule gov_inv_rows [OF assms(1)]) (simp_all add: s1_def write_row_applied)
  obtain s2 r where a: "applyGovernanceParam (cp_paramKey p) (cp_newValue p) i ev s1 = (s2, r)" by fastforce
  then have s2: "gs_rows s2 = gs_rows s1" "gs_applied s2 = gs_applied s1"
    using applyGovernanceParam_frame [of "cp_paramKey p" "cp_newValue p" i ev s1] by simp_all
  then have inv2: "gov_inv s2" using s1 by (simp add: gov_inv_def)
  let ?s3 = "s2\<lparr>gs_applied := gs_applied s2 @ [(i, cp_paramKey p, cp_newValue p)],
      gs_rows := mark_applied i (pe_now ev) (gs_rows s2)\<rparr>"
  have "gov_inv ?s3" if new: "\<not> already_applied i (gs_rows s)"
  proof -
    have "find_row i (gs_rows s2) \<noteq> None" unfolding s2(1) s1_def by (simp add: write_row_present)
    then have "already_applied i (mark_applied i (pe_now ev) (gs_rows s2))" by (rule mark_applied_sets)
    moreover have "i \<notin> set (map fst (gs_applied s2))"
      using assms(1) new s2(2) by (auto simp: gov_inv_def s1_def)
    ultimately show ?thesis using inv2 mark_applied_mono by (auto simp: gov_inv_def)
  qed
  then show ?thesis using assms s1 inv2 a
    unfolding upsertGovernanceProposal_def Let_def x_def [symmetric] s1_def [symmetric]
    by (auto split: option.split sum.split bool.split)
qed

lemma sync_one_inv: "gov_inv s \<Longrightarrow> pe_mark ev = None \<Longrightarrow> gov_inv (fst (sync_one ev l i s))"
  using upsert_inv by (auto simp: sync_one_def Let_def split: sum.split option.split prod.split)
    (metis fst_conv)+

lemma sync_ids_inv:
  "gov_inv s \<Longrightarrow> (\<And>i. i \<in> set is \<Longrightarrow> pe_mark (env i) = None) \<Longrightarrow> gov_inv (fst (sync_ids env l is s))"
proof (induction "is" arbitrary: s)
  case (Cons i "is")
  then have "gov_inv (fst (sync_one (env i) l i s))" by (intro sync_one_inv) simp_all
  then show ?case using Cons by (simp add: split_beta Let_def)
qed simp

text \<open>Successive synchronisations, each with its own answers.\<close>

fun gov_syncs :: "((int \<Rightarrow> prop_env) \<times> ledger_no \<times> int option \<times> int) list \<Rightarrow> gov_state \<Rightarrow> gov_state" where
  "gov_syncs [] s = s"
| "gov_syncs ((env, latest, pid, count) # rest) s =
     gov_syncs rest (fst (syncGovernanceProposals env latest pid count s))"

lemma fst_sync: "fst (syncGovernanceProposals env latest pid count s) =
    fst (sync_ids env latest (take 50 (proposal_ids pid count)) s)"
  by (simp add: syncGovernanceProposals_def split_beta)


definition fee_proposal :: "string \<Rightarrow> chain_proposal" where
  "fee_proposal v = \<lparr>cp_proposer = ''G'', cp_paramKey = ''lp_protocol_fee_bps'', cp_newValue = v,
     cp_startLedger = 1, cp_endLedger = 5, cp_executed = True\<rparr>"

definition sample_prop_env :: "string \<Rightarrow> js_error option \<Rightarrow> prop_env" where
  "sample_prop_env v fault = \<lparr>pe_proposal = Inr (Some (fee_proposal v)), pe_votes = Inr (Some (2, 1)), pe_now = 0,
     pe_select = None, pe_write = None,
     pe_call = \<lparr>ce_account = fault, ce_prepare = None,
       ce_send = Inr \<lparr>sent_hash = ''h'', sent_status = PENDING, sent_error = []\<rparr>, ce_poll = (\<lambda>_. Inr (Tx_success None))\<rparr>,
     pe_lm = sample_lm_env, pe_mark = None\<rparr>"

definition empty_gov :: gov_state where
  "empty_gov = \<lparr>gs_rows = [], gs_programs = [], gs_applied = [], gs_calls = []\<rparr>"


lemma upsert_applied_ids:
  "set (gs_applied (fst (upsertGovernanceProposal ev i p vf va st l s))) \<subseteq>
     set (gs_applied s) \<union> {(i, cp_paramKey p, cp_newValue p)}"
proof -
  obtain s2 r where a: "applyGovernanceParam (cp_paramKey p) (cp_newValue p) i ev
      (s\<lparr>gs_rows := write_row i p vf va st (pe_now ev + max 0 (cp_endLedger p - l) * 5000) (pe_now ev) (gs_rows s)\<rparr>) = (s2, r)"
    by fastforce
  then have "gs_applied s2 = gs_applied s"
    using applyGovernanceParam_frame(2) [of "cp_paramKey p" "cp_newValue p" i ev
      "s\<lparr>gs_rows := write_row i p vf va st (pe_now ev + max 0 (cp_endLedger p - l) * 5000) (pe_now ev) (gs_rows s)\<rparr>"]
    by simp
  then show ?thesis
    unfolding upsertGovernanceProposal_def Let_def a by (auto split: option.split sum.split bool.split)
qed

lemma sync_one_applied:
  "a \<in> set (gs_applied (fst (sync_one ev l i s))) \<Longrightarrow> a \<in> set (gs_applied s) \<or> fst a = i"
proof -
  assume a: "a \<in> set (gs_applied (fst (sync_one ev l i s)))"
  show ?thesis
  proof (cases "fst (sync_one ev l i s) = s")
    case False
    then obtain p vf va st where "fst (sync_one ev l i s) = fst (upsertGovernanceProposal ev i p vf va st l s)"
      by (auto simp: sync_one_def Let_def split: sum.splits option.splits prod.splits) (metis fst_conv)+
    then show ?thesis using a upsert_applied_ids [of ev i p vf va st l s] by auto
  qed (use a in simp)
qed

lemma sync_ids_applied:
  "a \<in> set (gs_applied (fst (sync_ids env l is s))) \<Longrightarrow> a \<in> set (gs_applied s) \<or> fst a \<in> set is"
proof (induction "is" arbitrary: s)
  case (Cons i "is")
  have "a \<in> set (gs_applied (fst (sync_one (env i) l i s))) \<or> fst a \<in> set is"
    using Cons by (simp add: split_beta Let_def)
  then show ?case using sync_one_applied [of a "env i" l i s] by auto
qed simp

text \<open>
  The periodic synchronisation never applies a proposal from number 50 on: it asks for the
  number of proposals but only looks at the first 50, the oldest ones, so an executed proposal
  beyond them takes effect only if it is asked for by its number.
\<close>

theorem proposals_from_50_never_applied:
  assumes "\<forall>(env, latest, pid, count)\<in>set syncs. pid = None" "gs_applied s = []"
  shows "\<forall>a\<in>set (gs_applied (gov_syncs syncs s)). fst a < 50"
proof -
  have "\<forall>a\<in>set (gs_applied t). fst a < 50 \<Longrightarrow> \<forall>a\<in>set (gs_applied (gov_syncs syncs t)). fst a < 50" for t
    using assms(1)
  proof (induction syncs arbitrary: t)
    case (Cons x syncs)
    obtain env latest pid count where x: "x = (env, latest, pid, count)" by (cases x)
    then have "pid = None" using Cons.prems(2) by simp
    then have ids: "fst a < 50" if "fst a \<in> set (take 50 (proposal_ids pid count))" for a :: "int \<times> string \<times> string"
      using that by (auto simp: proposal_ids_def take_map in_set_conv_nth)
    have "\<forall>a\<in>set (gs_applied (fst (syncGovernanceProposals env latest pid count t))). fst a < 50"
      unfolding fst_sync using sync_ids_applied Cons.prems(1) ids by blast
    then show ?case using Cons by (simp add: x)
  qed simp
  from this [of s] show ?thesis using assms(2) by simp
qed

theorem proposals_from_50_never_applied_witness:
  "list_all (\<lambda>a. fst a < 50) (gs_applied (gov_syncs [(\<lambda>_. sample_prop_env ''30'' None, 10, None, 60)] empty_gov))"
  unfolding list_all_iff by (rule proposals_from_50_never_applied) (simp_all add: empty_gov_def)

text \<open>
  A proposal whose application failed is tried again at every synchronisation, whatever has
  been applied since. So an older executed proposal that is not recorded as applied overrides a
  newer one for the same parameter: although proposal \<open>j\<close>, later than \<open>i\<close>, has been applied, the
  synchronisation of \<open>i\<close> ends by setting the parameter to the older value and records it.
\<close>

theorem stale_retry_overrides_newer:
  assumes "pe_proposal ev = Inr (Some p)" "pe_votes ev = Inr (Some (vf, va))" "cp_executed p"
    "cp_paramKey p = ''lp_protocol_fee_bps''" "js_parseInt (cp_newValue p) = Fin (of_int n)"
    "pe_select ev = None" "pe_write ev = None" "pe_mark ev = None"
    "snd (callSetLpProtocolFeeBps n (pe_call ev)) = Inr h"
    "\<not> already_applied i (gs_rows s)"
    "i < j" "(j, ''lp_protocol_fee_bps'', newer) \<in> set (gs_applied s)"
  shows "gs_calls (fst (sync_one ev latest i s)) = gs_calls s @
      [\<lparr>on_contract = Lp_Pool, call_method = ''set_protocol_fee_bps'', call_args = [SC_u32 n]\<rparr>] \<and>
    last (gs_applied (fst (sync_one ev latest i s))) = (i, ''lp_protocol_fee_bps'', cp_newValue p)"
proof -
  have "param_setter ''lp_protocol_fee_bps'' = Some callSetLpProtocolFeeBps" by (simp add: param_setter_def)
  moreover have "\<not> startsWith ''lp_protocol_fee_bps'' program_prefix" by (simp add: program_prefix_def)
  ultimately have param: "applyGovernanceParam ''lp_protocol_fee_bps'' (cp_newValue p) i ev t =
      (t\<lparr>gs_calls := gs_calls t @ fst (callSetLpProtocolFeeBps n (pe_call ev))\<rparr>, Inr True)" for t
    using assms(5,9) by (simp add: applyGovernanceParam_def split_beta Let_def)
  have sent: "fst (callSetLpProtocolFeeBps n (pe_call ev)) =
      [\<lparr>on_contract = Lp_Pool, call_method = ''set_protocol_fee_bps'', call_args = [SC_u32 n]\<rparr>]"
    using assms(9) submit_call_result
      [of "''lp_pool::set_protocol_fee_bps failed: ''" "\<lparr>on_contract = Lp_Pool, call_method = ''set_protocol_fee_bps'', call_args = [SC_u32 n]\<rparr>" "pe_call ev"]
    by (cases "submit_call ''lp_pool::set_protocol_fee_bps failed: '' \<lparr>on_contract = Lp_Pool, call_method = ''set_protocol_fee_bps'', call_args = [SC_u32 n]\<rparr> (pe_call ev)")
      (auto simp: callSetLpProtocolFeeBps_def executeLpPoolAdminCall_def isl_def)
  show ?thesis
    using assms(1-4,6-8,10)
    by (simp add: sync_one_def upsertGovernanceProposal_def Let_def param sent)
qed

definition newer_applied :: gov_state where
  "newer_applied = \<lparr>gs_rows = [], gs_programs = [], gs_applied = [(1, ''lp_protocol_fee_bps'', ''20'')], gs_calls = []\<rparr>"

theorem stale_retry_overrides_newer_witness:
  "gs_calls (fst (sync_one (sample_prop_env (dec 30) None) 10 0 newer_applied)) =
     [\<lparr>on_contract = Lp_Pool, call_method = ''set_protocol_fee_bps'', call_args = [SC_u32 30]\<rparr>]"
proof -
  have "parse_int_prefix (dec_int 30) = Some 30" by (rule parse_int_prefix_dec_int)
  then have n: "js_parseInt (dec 30) = Fin (of_int 30)"
    by (simp add: js_parseInt_def dec_int_def num_of_big_exact)
  have poll: "pollTransaction ''h'' (\<lambda>_. Inr (Tx_success None)) = (Inr None :: js_error + native option)"
    unfolding pollTransaction_def
    by (rule client_poll.poll_first [where k = 0]) (simp_all add: poll_decide_def)
  have c: "snd (callSetLpProtocolFeeBps 30 (pe_call (sample_prop_env (dec 30) None))) = Inr ''h''"
    by (simp add: callSetLpProtocolFeeBps_def executeLpPoolAdminCall_def submit_call_def sample_prop_env_def poll Let_def)
  show ?thesis
    using stale_retry_overrides_newer [of "sample_prop_env (dec 30) None" "fee_proposal (dec 30)" 2 1 30 "''h''" 0 newer_applied 1 "''20''" 10]
      n c by (simp add: sample_prop_env_def fee_proposal_def newer_applied_def already_applied_def find_row_def)
qed

end
