(* ===== verification/Hubble_Indexer.thy ===== *)
theory Hubble_Indexer
  imports Js_Value Chain_Rpc "HOL-Library.AList"
begin

text \<open>
  \<open>hubble-indexer/\<close>: the worker that pages through the contracts' events and stores the parsed ones
  once each. \<open>decoder.ts\<close> and \<open>processor.ts\<close> are the parsing and the writes, \<open>index.ts\<close> the paging,
  the cursors, the retries and the rate limiter. Decoding an XDR value is a parameter.
\<close>

subsection \<open>Decoding\<close>

record hubble_raw =
  hr_ledger :: ledger_no
  hr_closedAt :: "string option"
  hr_contractId :: contract_id
  hr_id :: "string option"
  hr_topic :: "string list"
  hr_value :: string                \<comment> \<open>after \<open>extractValueXdr\<close>\<close>
  hr_txHash :: "tx_hash option"
  hr_success :: "bool option"

definition decodeScVal :: "(string \<Rightarrow> native option) \<Rightarrow> string \<Rightarrow> native" where
  "decodeScVal xdr raw = (case xdr raw of None \<Rightarrow> N_str raw | Some v \<Rightarrow> v)"

definition hubble_decodeTopicEntry :: "(string \<Rightarrow> native option) \<Rightarrow> string \<Rightarrow> string" where
  "hubble_decodeTopicEntry xdr raw = (case xdr raw of None \<Rightarrow> raw | Some v \<Rightarrow> js_string v)"

text \<open>The two forms of an event's value.\<close>

datatype xdr_field = Plain_xdr string | Wrapped_xdr string

fun extractValueXdr :: "xdr_field \<Rightarrow> string" where
  "extractValueXdr (Plain_xdr s) = s"
| "extractValueXdr (Wrapped_xdr s) = s"

record event_id =
  ei_ledger :: number
  ei_txIndex :: number
  ei_eventIndex :: number

definition parseEventId :: "string \<Rightarrow> event_id" where
  "parseEventId i =
     (if length i \<ge> 31
      then \<lparr>ei_ledger = js_parseInt (take 10 (drop 1 i)),
            ei_txIndex = js_parseInt (take 10 (drop 11 i)),
            ei_eventIndex = js_parseInt (drop 21 i)\<rparr>
      else \<lparr>ei_ledger = (if js_parseInt i = NaN then Fin 0 else js_parseInt i),
            ei_txIndex = Fin 0, ei_eventIndex = Fin 0\<rparr>)"

record parsed_base =
  pb_txHash :: tx_hash
  pb_eventIndex :: number
  pb_contractId :: contract_id
  pb_ledger :: ledger_no
  pb_closedAt :: "string option"    \<comment> \<open>\<open>None\<close>: the time of parsing\<close>

definition extractBase :: "hubble_raw \<Rightarrow> parsed_base" where
  "extractBase e =
     \<lparr>pb_txHash = (case hr_txHash e of Some h \<Rightarrow> h | None \<Rightarrow> ''ledger:'' @ dec_int (hr_ledger e)),
      pb_eventIndex = ei_eventIndex (parseEventId (case hr_id e of Some i \<Rightarrow> i | None \<Rightarrow> [])),
      pb_contractId = hr_contractId e, pb_ledger = hr_ledger e,
      pb_closedAt = (if hr_closedAt e = Some [] then None else hr_closedAt e)\<rparr>"

text \<open>The coercions; \<open>None\<close> is \<open>undefined\<close>.\<close>

definition toBigInt :: "native option \<Rightarrow> int" where
  "toBigInt v = (case v of None \<Rightarrow> 0 | Some n \<Rightarrow> (case big_of_native n of Inl e \<Rightarrow> 0 | Inr i \<Rightarrow> i))"

definition hubble_toString :: "native option \<Rightarrow> string" where
  "hubble_toString v = (case v of None \<Rightarrow> [] | Some n \<Rightarrow> if n = N_null then [] else js_string n)"

definition element :: "nat \<Rightarrow> 'a list \<Rightarrow> 'a option" where
  "element i xs = (if i < length xs then Some (xs ! i) else None)"

text \<open>\<open>a ?? b\<close>\<close>

definition coalesce :: "native option \<Rightarrow> native option \<Rightarrow> native option" where
  "coalesce a b = (case a of None \<Rightarrow> b | Some v \<Rightarrow> if v = N_null then b else a)"

definition as_array :: "native \<Rightarrow> native list" where
  "as_array v = (case v of N_vec vs \<Rightarrow> vs | _ \<Rightarrow> [v])"

subsection \<open>Routing\<close>

datatype stake_type = STAKE | UNSTAKE

datatype parsed_event =
    Stake_ev parsed_base wallet int stake_type
  | Borrow_ev parsed_base wallet int string
  | Repay_ev parsed_base wallet int string
  | Flash_ev parsed_base wallet int string int
  | Liq_ev parsed_base wallet wallet int int

fun base_of :: "parsed_event \<Rightarrow> parsed_base" where
  "base_of (Stake_ev b w a t) = b"
| "base_of (Borrow_ev b w a s) = b"
| "base_of (Repay_ev b w a s) = b"
| "base_of (Flash_ev b w a s f) = b"
| "base_of (Liq_ev b l w d c) = b"

definition asset_of :: "native list \<Rightarrow> string list \<Rightarrow> string" where
  "asset_of vals topics =
     (if length vals \<ge> 3 then hubble_toString (element 1 vals)
      else case element 1 topics of Some t \<Rightarrow> t | None \<Rightarrow> ''XLM'')"

definition loan_amount :: "native list \<Rightarrow> int" where
  "loan_amount vals =
     (if length vals \<ge> 3 then toBigInt (element 2 vals) else toBigInt (coalesce (element 1 vals) (element 0 vals)))"

definition flash_of :: "parsed_base \<Rightarrow> native list \<Rightarrow> string list \<Rightarrow> parsed_event" where
  "flash_of b vals topics =
     Flash_ev b (hubble_toString (element 0 vals))
       (toBigInt (coalesce (element 2 vals) (element 1 vals)))
       (if hubble_toString (element 1 vals) \<noteq> [] then hubble_toString (element 1 vals)
        else case element 1 topics of
               Some t \<Rightarrow> if t \<noteq> [] then t else ''XLM'' | None \<Rightarrow> ''XLM'')
       (toBigInt (coalesce (coalesce (element 3 vals) (element 2 vals)) (Some (N_num 0))))"

definition parseEvent ::
  "(contract_name \<Rightarrow> contract_id) \<Rightarrow> (string \<Rightarrow> native option) \<Rightarrow> hubble_raw \<Rightarrow> parsed_event option" where
  "parseEvent ids xdr e =
     (let topics = map (hubble_decodeTopicEntry xdr) (hr_topic e);
          topicName = (case topics of [] \<Rightarrow> [] | t # ts \<Rightarrow> t);
          vals = as_array (decodeScVal xdr (hr_value e));
          b = extractBase e;
          wal = hubble_toString (element 0 vals);
          amt = toBigInt (coalesce (element 1 vals) (element 0 vals))
      in if hr_contractId e = ids Staking \<and> topicName = ''deposit'' then Some (Stake_ev b wal amt STAKE)
         else if hr_contractId e = ids Staking \<and> topicName \<in> {''instant'', ''delayed'', ''claimed''}
         then Some (Stake_ev b wal amt UNSTAKE)
         else if hr_contractId e = ids Lending \<and> topicName = ''borrow''
         then Some (Borrow_ev b wal (loan_amount vals) (asset_of vals topics))
         else if hr_contractId e = ids Lending \<and> topicName = ''repay''
         then Some (Repay_ev b wal (loan_amount vals) (asset_of vals topics))
         else if hr_contractId e = ids Lending \<and> topicName = ''liq''
         then Some (Liq_ev b wal (hubble_toString (element 1 vals)) (toBigInt (element 2 vals)) (toBigInt (element 3 vals)))
         else if hr_contractId e = ids Lending \<and> topicName = ''flash_loan'' then Some (flash_of b vals topics)
         else if hr_contractId e = ids Lp_Pool \<and> topicName = ''flash_loan'' then Some (flash_of b vals topics)
         else None)"

subsection \<open>The event tables\<close>

datatype event_kind = K_stake | K_borrow | K_repay | K_flash | K_liq

fun kind_of :: "parsed_event \<Rightarrow> event_kind" where
  "kind_of (Stake_ev b w a t) = K_stake"
| "kind_of (Borrow_ev b w a s) = K_borrow"
| "kind_of (Repay_ev b w a s) = K_repay"
| "kind_of (Flash_ev b w a s f) = K_flash"
| "kind_of (Liq_ev b l w d c) = K_liq"

type_synonym event_tables = "event_kind \<Rightarrow> parsed_event list"

text \<open>The unique key \<open>(txHash, eventIndex)\<close> of each table.\<close>

definition event_key :: "parsed_event \<Rightarrow> tx_hash \<times> number" where
  "event_key e = (pb_txHash (base_of e), pb_eventIndex (base_of e))"

text \<open>The columns: 32-bit event indices and 64-bit amounts; a row outside them is refused.\<close>

fun is_int4 :: "number \<Rightarrow> bool" where
  "is_int4 (Fin x) \<longleftrightarrow> x = of_int \<lfloor>x\<rfloor> \<and> - (2^31) \<le> x \<and> x < 2^31"
| "is_int4 _ \<longleftrightarrow> False"

fun amounts_of :: "parsed_event \<Rightarrow> int list" where
  "amounts_of (Stake_ev b w a t) = [a]"
| "amounts_of (Borrow_ev b w a s) = [a]"
| "amounts_of (Repay_ev b w a s) = [a]"
| "amounts_of (Flash_ev b w a s f) = [a, f]"
| "amounts_of (Liq_ev b l w d c) = [d, c]"

definition row_fits :: "parsed_event \<Rightarrow> bool" where
  "row_fits e \<longleftrightarrow>
     is_int4 (pb_eventIndex (base_of e)) \<and> list_all (\<lambda>a. - (2^63) \<le> a \<and> a < 2^63) (amounts_of e)"

text \<open>\<open>createMany\<close> with \<open>skipDuplicates\<close>: a row whose key is taken is not inserted.\<close>

fun insert_new :: "parsed_event list \<Rightarrow> parsed_event list \<Rightarrow> parsed_event list" where
  "insert_new table [] = table"
| "insert_new table (e # es) =
     insert_new (if event_key e \<in> event_key ` set table then table else table @ [e]) es"

text \<open>The write of one kind, all or nothing; \<open>db\<close> is the database's own failure.\<close>

definition createMany ::
  "js_error option \<Rightarrow> event_kind \<Rightarrow> parsed_event list \<Rightarrow> event_tables \<Rightarrow> js_error + event_tables" where
  "createMany db k es t =
     (let rows = filter (\<lambda>e. kind_of e = k) es
      in if rows = [] then return t
         else if list_all row_fits rows
         then (case db of Some e \<Rightarrow> throw e | None \<Rightarrow> return (t(k := insert_new (t k) rows)))
         else throw (Err ''Unable to fit value into the column''))"

definition all_kinds :: "event_kind list" where
  "all_kinds = [K_stake, K_borrow, K_repay, K_flash, K_liq]"

text \<open>
  The writes run concurrently on different tables, so the model does them in turn; the ones that
  succeed are kept when another is refused. The result is the tables and a refusal, if any.
\<close>

fun write_kinds ::
  "(event_kind \<Rightarrow> js_error option) \<Rightarrow> event_kind list \<Rightarrow> parsed_event list \<Rightarrow> event_tables \<Rightarrow>
     event_tables \<times> js_error option" where
  "write_kinds db [] es t = (t, None)"
| "write_kinds db (k # ks) es t =
     (case createMany (db k) k es t of
        Inl x \<Rightarrow> (fst (write_kinds db ks es t), Some x)
      | Inr t1 \<Rightarrow> write_kinds db ks es t1)"

definition persistEvents ::
  "(event_kind \<Rightarrow> js_error option) \<Rightarrow> parsed_event list \<Rightarrow> event_tables \<Rightarrow> event_tables \<times> js_error option" where
  "persistEvents db es t = write_kinds db all_kinds es t"

subsection \<open>Event identifiers\<close>

lemma set_pad0_dec: "set (pad0 k (dec n)) \<subseteq> set ''0123456789''"
  using set_dec [of n] by (auto simp: pad0_def)

lemma length_pad0_dec: "n < 10 ^ k \<Longrightarrow> 0 < k \<Longrightarrow> length (pad0 k (dec n)) = k"
  using length_dec_le [of n k] by (simp add: pad0_def)

lemma is_digit_mem: "c \<in> set ''0123456789'' \<Longrightarrow> is_digit c"
  unfolding is_digit_def digit_val_def by (metis option.distinct(1))

lemma parse_int_prefix_digits:
  assumes "s \<noteq> []" "set s \<subseteq> set ''0123456789''"
  shows "parse_int_prefix s = map_option int (parse_nat s)"
proof (cases s)
  case (Cons c cs)
  have "c \<in> set ''0123456789''" using assms(2) Cons by auto
  then have b: "\<not> is_blank c" and m: "c \<noteq> CHR ''-''" and p: "c \<noteq> CHR ''+''" by (auto simp: is_blank_def)
  have "dropWhile is_blank (c # cs) = c # cs" using b by simp
  moreover have "takeWhile is_digit (c # cs) = c # cs"
    using assms(2) Cons is_digit_mem unfolding takeWhile_eq_all_conv by blast
  ultimately show ?thesis unfolding parse_int_prefix_def Let_def Cons
    by (simp only: list.case m p if_False prod.case mult_1)
qed (use assms in simp)

lemma js_parseInt_pad0:
  assumes "n < 10 ^ 10"
  shows "js_parseInt (pad0 10 (dec n)) = Fin (of_nat n)"
proof -
  have "pad0 10 (dec n) \<noteq> []" by (simp add: pad0_def)
  then have "parse_int_prefix (pad0 10 (dec n)) = Some (int n)"
    using set_pad0_dec [of 10 n] by (simp add: parse_int_prefix_digits)
  moreover have "\<bar>int n\<bar> \<le> 2^53" using assms by simp
  ultimately show ?thesis by (simp add: js_parseInt_def num_of_big_exact)
qed

text \<open>
  An identifier in the documented format, a zero and three ten-digit fields, is taken apart into
  the ledger, the transaction's index and the event's index it was made of.\<close>

theorem event_id_roundtrip:
  assumes "l < 10 ^ 10" "t < 10 ^ 10" "e < 10 ^ 10"
  shows "parseEventId (''0'' @ pad0 10 (dec l) @ pad0 10 (dec t) @ pad0 10 (dec e)) =
           \<lparr>ei_ledger = Fin (of_nat l), ei_txIndex = Fin (of_nat t), ei_eventIndex = Fin (of_nat e)\<rparr>"
  using assms by (simp add: parseEventId_def length_pad0_dec js_parseInt_pad0)

theorem event_id_roundtrip_witness:
  "parseEventId (''0'' @ pad0 10 (dec 51000000) @ pad0 10 (dec 17) @ pad0 10 (dec 2)) =
     \<lparr>ei_ledger = Fin 51000000, ei_txIndex = Fin 17, ei_eventIndex = Fin 2\<rparr>"
  using event_id_roundtrip [of 51000000 17 2] by simp

subsection \<open>The tables as sets of keys\<close>

lemma insert_new_keys: "event_key ` set (insert_new t es) = event_key ` set t \<union> event_key ` set es"
proof (induction es arbitrary: t)
  case (Cons e es)
  then show ?case by auto
qed simp

lemma insert_new_id: "event_key ` set es \<subseteq> event_key ` set t \<Longrightarrow> insert_new t es = t"
  by (induction es) auto

lemma insert_new_distinct: "distinct (map event_key t) \<Longrightarrow> distinct (map event_key (insert_new t es))"
  by (induction es arbitrary: t) auto

lemma insert_new_mem: "set (insert_new t es) \<subseteq> set t \<union> set es"
proof (induction es arbitrary: t)
  case (Cons e es)
  show ?case using Cons [of t] Cons [of "t @ [e]"] by auto
qed simp

lemma insert_new_prefix: "\<exists>more. insert_new t es = t @ more"
proof (induction es arbitrary: t)
  case (Cons e es)
  show ?case using Cons [of t] Cons [of "t @ [e]"] by auto
qed simp

definition tables_ok :: "event_tables \<Rightarrow> bool" where
  "tables_ok t \<longleftrightarrow> (\<forall>k. distinct (map event_key (t k)) \<and> (\<forall>e\<in>set (t k). kind_of e = k \<and> row_fits e))"

lemma createMany_ok:
  assumes "tables_ok t" "createMany db k es t = Inr t'"
  shows "tables_ok t'"
proof -
  let ?rows = "filter (\<lambda>e. kind_of e = k) es"
  have "\<forall>e\<in>set ?rows. row_fits e" "t' = t(k := insert_new (t k) ?rows)"
    using assms(2) by (auto simp: createMany_def Let_def list_all_iff filter_empty_conv split: if_splits option.splits)
  then show ?thesis using assms(1) insert_new_mem [of "t k" ?rows]
    unfolding tables_ok_def by (auto simp: insert_new_distinct dest!: subsetD)
qed

lemma write_kinds_ok [inv_intros]: "tables_ok t \<Longrightarrow> tables_ok (fst (write_kinds db ks es t))"
  by (induction ks arbitrary: t) (auto split: sum.split dest: createMany_ok)

lemma persistEvents_ok [inv_intros]: "tables_ok t \<Longrightarrow> tables_ok (fst (persistEvents db es t))"
  by (simp add: persistEvents_def write_kinds_ok)

text \<open>What a successful write did to each table.\<close>

lemma createMany_Inr:
  "createMany db k es t = Inr t' \<Longrightarrow> t' = t(k := insert_new (t k) (filter (\<lambda>e. kind_of e = k) es))"
  by (auto simp: createMany_def Let_def split: if_splits option.splits)

lemma write_kinds_None:
  assumes "write_kinds db ks es t = (t', None)" "distinct ks"
  shows "t' = (\<lambda>k. if k \<in> set ks then insert_new (t k) (filter (\<lambda>e. kind_of e = k) es) else t k)"
  using assms
proof (induction ks arbitrary: t)
  case (Cons a ks)
  let ?t = "t(a := insert_new (t a) (filter (\<lambda>e. kind_of e = a) es))"
  have "write_kinds db ks es ?t = (t', None)"
    using Cons.prems(1) by (auto split: sum.splits dest!: createMany_Inr)
  from Cons.IH [OF this] show ?case using Cons.prems(2) by (auto simp: fun_eq_iff)
qed simp

lemma all_kinds_UNIV: "k \<in> set all_kinds"
  by (cases k) (simp_all add: all_kinds_def)

lemma persistEvents_None:
  "persistEvents db es t = (t', None) \<Longrightarrow> t' = (\<lambda>k. insert_new (t k) (filter (\<lambda>e. kind_of e = k) es))"
  using write_kinds_None [of db all_kinds es t t'] all_kinds_UNIV
  by (simp add: persistEvents_def all_kinds_def)

lemma write_kinds_fits:
  "write_kinds db ks es t = (t', None) \<Longrightarrow> k \<in> set ks \<Longrightarrow> e \<in> set es \<Longrightarrow> kind_of e = k \<Longrightarrow> row_fits e"
proof (induction ks arbitrary: t)
  case (Cons j ks)
  obtain t1 where "createMany (db j) j es t = Inr t1" "write_kinds db ks es t1 = (t', None)"
    using Cons.prems(1) by (auto split: sum.splits)
  moreover from this(1) have "j = k \<Longrightarrow> row_fits e"
    using Cons.prems(3,4)
    by (auto simp: createMany_def Let_def list_all_iff filter_empty_conv split: if_splits)
  ultimately show ?case using Cons by auto
qed simp

lemma write_kinds_same:
  assumes "\<And>e. e \<in> set es \<Longrightarrow> row_fits e \<and> event_key e \<in> event_key ` set (t (kind_of e))"
  shows "write_kinds (\<lambda>k. None) ks es t = (t, None)"
proof (induction ks)
  case (Cons k ks)
  have "event_key ` set (filter (\<lambda>e. kind_of e = k) es) \<subseteq> event_key ` set (t k)" using assms by auto
  then have "insert_new (t k) (filter (\<lambda>e. kind_of e = k) es) = t k" by (rule insert_new_id)
  moreover have "list_all row_fits (filter (\<lambda>e. kind_of e = k) es)" using assms by (simp add: list_all_iff)
  ultimately have "createMany None k es t = Inr t" by (simp add: createMany_def Let_def)
  then show ?case using Cons by simp
qed simp

text \<open>
  After a batch is persisted without an error every event of it is present under its key, the
  rows that were there are untouched, and persisting any of its events again changes nothing, so a
  page that is fetched twice is harmless.\<close>

theorem persisting_is_idempotent:
  assumes "persistEvents db es t = (t', None)"
  shows "(\<forall>e\<in>set es. event_key e \<in> event_key ` set (t' (kind_of e))) \<and>
         (\<forall>k. take (length (t k)) (t' k) = t k) \<and>
         (\<forall>es'. set es' \<subseteq> set es \<longrightarrow> persistEvents (\<lambda>k. None) es' t' = (t', None))"
proof (intro conjI ballI allI impI)
  note t' = persistEvents_None [OF assms]
  show key: "event_key e \<in> event_key ` set (t' (kind_of e))" if "e \<in> set es" for e
    using that by (auto simp: t' insert_new_keys)
  show "take (length (t k)) (t' k) = t k" for k
    using insert_new_prefix [of "t k" "filter (\<lambda>e. kind_of e = k) es"] by (auto simp: t')
  show "persistEvents (\<lambda>k. None) es' t' = (t', None)" if "set es' \<subseteq> set es" for es'
    unfolding persistEvents_def
  proof (rule write_kinds_same)
    fix e assume "e \<in> set es'"
    then have e: "e \<in> set es" using that by auto
    then show "row_fits e \<and> event_key e \<in> event_key ` set (t' (kind_of e))"
      using assms key write_kinds_fits [of db all_kinds es t t' "kind_of e" e] all_kinds_UNIV
      by (simp add: persistEvents_def)
  qed
qed

definition wit_base :: "string \<Rightarrow> parsed_base" where
  "wit_base i = extractBase \<lparr>hr_ledger = 9, hr_closedAt = None, hr_contractId = ''S'', hr_id = Some i,
     hr_topic = [], hr_value = [], hr_txHash = Some ''h'', hr_success = None\<rparr>"

lemma wit_base_short: "length i < 31 \<Longrightarrow> wit_base i = \<lparr>pb_txHash = ''h'', pb_eventIndex = Fin 0, pb_contractId = ''S'', pb_ledger = 9, pb_closedAt = None\<rparr>"
  by (simp add: wit_base_def extractBase_def parseEventId_def)

theorem persisting_is_idempotent_witness:
  "persistEvents (\<lambda>k. None) [Stake_ev (wit_base ''7'') ''G'' 5 STAKE]
     (snd (snd (0::nat, 0::nat, (\<lambda>k. if k = K_stake then [Stake_ev (wit_base ''7'') ''G'' 5 STAKE] else [])))) =
     ((\<lambda>k. if k = K_stake then [Stake_ev (wit_base ''7'') ''G'' 5 STAKE] else []), None)"
proof -
  let ?e = "Stake_ev (wit_base ''7'') ''G'' 5 STAKE"
  let ?t = "\<lambda>k. if k = K_stake then [?e] else []"
  have "persistEvents (\<lambda>k. None) [?e] (\<lambda>k. []) = (?t, None)"
    by (auto simp: persistEvents_def all_kinds_def createMany_def Let_def row_fits_def wit_base_short)
  from persisting_is_idempotent [OF this] show ?thesis by simp
qed

text \<open>
  Two events of one transaction and kind whose identifiers are shorter than the documented 31
  characters share the key: only the first of them is ever stored.\<close>

theorem short_ids_drop_second_event:
  assumes "parseEvent ids xdr a = Some x" "parseEvent ids xdr b = Some y" "kind_of x = kind_of y"
    and "hr_id a = Some i" "hr_id b = Some j" "length i < 31" "length j < 31"
    and "hr_txHash a = Some h" "hr_txHash b = Some h"
    and "persistEvents db [x, y] (\<lambda>k. []) = (t', None)"
  shows "t' (kind_of x) = [x]"
proof -
  have "base_of x = extractBase a" "base_of y = extractBase b"
    using assms(1,2) by (auto simp: parseEvent_def Let_def flash_of_def split: if_splits)
  then have "event_key x = event_key y"
    using assms(4-9) by (simp add: event_key_def extractBase_def parseEventId_def)
  then show ?thesis using persistEvents_None [OF assms(10)] assms(3) by simp
qed

definition wit_ids :: "contract_name \<Rightarrow> contract_id" where
  "wit_ids n = (if n = Staking then ''S'' else ''L'')"

definition wit_xdr :: "string \<Rightarrow> native option" where
  "wit_xdr raw =
     (if raw = ''t'' then Some (N_str ''deposit'')
      else Some (N_vec [N_str raw, N_big 5]))"

definition wit_deposit :: "string \<Rightarrow> string \<Rightarrow> hubble_raw" where
  "wit_deposit i w = \<lparr>hr_ledger = 9, hr_closedAt = None, hr_contractId = ''S'', hr_id = Some i,
     hr_topic = [''t''], hr_value = w, hr_txHash = Some ''h'', hr_success = Some True\<rparr>"

lemma wit_deposit_parsed:
  assumes "w = ''GA'' \<or> w = ''GB''" "length i < 31"
  shows "parseEvent wit_ids wit_xdr (wit_deposit i w) = Some (Stake_ev (wit_base i) w 5 STAKE)"
  using assms
  by (auto simp: parseEvent_def wit_deposit_def wit_ids_def wit_xdr_def hubble_decodeTopicEntry_def
      decodeScVal_def as_array_def Let_def element_def hubble_toString_def toBigInt_def coalesce_def
      extractBase_def wit_base_short parseEventId_def)

theorem short_ids_drop_second_event_witness:
  "\<exists>t'. persistEvents (\<lambda>k. None)
       [Stake_ev (wit_base ''0000000433590812672-0000000001'') ''GA'' 5 STAKE,
        Stake_ev (wit_base ''0000000433590812672-0000000002'') ''GB'' 5 STAKE] (\<lambda>k. []) = (t', None) \<and>
     t' K_stake = [Stake_ev (wit_base ''0000000433590812672-0000000001'') ''GA'' 5 STAKE]"
proof -
  let ?x = "Stake_ev (wit_base ''0000000433590812672-0000000001'') ''GA'' 5 STAKE"
  let ?y = "Stake_ev (wit_base ''0000000433590812672-0000000002'') ''GB'' 5 STAKE"
  have p: "\<exists>t'. persistEvents (\<lambda>k. None) [?x, ?y] (\<lambda>k. []) = (t', None)"
    by (simp add: persistEvents_def all_kinds_def createMany_def Let_def row_fits_def wit_base_short)
  then obtain t' where t': "persistEvents (\<lambda>k. None) [?x, ?y] (\<lambda>k. []) = (t', None)" by blast
  have "t' (kind_of ?x) = [?x]"
    by (rule short_ids_drop_second_event [where i = "''0000000433590812672-0000000001''" and j = "''0000000433590812672-0000000002''" and h = "''h''",
        OF wit_deposit_parsed wit_deposit_parsed, OF _ _ _ _ _ _ _ _ _ _ _ t'])
      (simp_all add: wit_deposit_def)
  then show ?thesis using t' by auto
qed

end
