(* ===== verification/Hubble_Worker.thy ===== *)
theory Hubble_Worker
  imports Hubble_Indexer
begin

text \<open>
  \<open>hubble-indexer/index.ts\<close>: the rate limiter, the retries, the cursors and the paging loop of the
  indexer. An attempt to fetch a page is one element of the environment: the time of the call, the
  endpoint's answer and what the database answers while the page is processed.
\<close>

subsection \<open>The rate limiter\<close>

text \<open>Callers are numbered; the queue holds the numbers of those that wait.\<close>

record limiter =
  lim_tokens :: number
  lim_last :: millis
  lim_queue :: "nat list"

definition RPC_MAX_CALLS_PER_SECOND :: number where "RPC_MAX_CALLS_PER_SECOND = Fin 4"

definition new_limiter :: "millis \<Rightarrow> limiter" where
  "new_limiter now = \<lparr>lim_tokens = RPC_MAX_CALLS_PER_SECOND, lim_last = now, lim_queue = []\<rparr>"

fun drain :: "number \<Rightarrow> nat list \<Rightarrow> number \<times> nat list \<times> nat list" where
  "drain t [] = (t, [], [])"
| "drain t (c # cs) =
     (if 1 \<le> t then (let (t', q, released) = drain (t - 1) cs in (t', q, c # released))
      else (t, c # cs, []))"

definition refilled :: "millis \<Rightarrow> limiter \<Rightarrow> number" where
  "refilled now l =
     js_min RPC_MAX_CALLS_PER_SECOND
       (lim_tokens l + num_of_big (now - lim_last l) / Fin 1000 * RPC_MAX_CALLS_PER_SECOND)"

definition refill :: "millis \<Rightarrow> limiter \<Rightarrow> limiter \<times> nat list" where
  "refill now l =
     (let (t, q, released) = drain (refilled now l) (lim_queue l)
      in (\<lparr>lim_tokens = t, lim_last = now, lim_queue = q\<rparr>, released))"

text \<open>\<open>acquire()\<close> of a caller: the callers whose promises are resolved, itself among them or not.\<close>

definition acquire :: "nat \<Rightarrow> millis \<Rightarrow> limiter \<Rightarrow> limiter \<times> nat list" where
  "acquire c now l =
     (let (l1, released) = refill now l
      in if 1 \<le> lim_tokens l1 then (l1\<lparr>lim_tokens := lim_tokens l1 - 1\<rparr>, released @ [c])
         else (l1\<lparr>lim_queue := lim_queue l1 @ [c]\<rparr>, released))"

subsection \<open>Fetching a page\<close>

definition PAGE_LIMIT :: nat where "PAGE_LIMIT = 200"
definition LIVE_POLL_INTERVAL_MS :: millis where "LIVE_POLL_INTERVAL_MS = 10000"
definition HUBBLE_RETRY_DELAY_BASE_MS :: millis where "HUBBLE_RETRY_DELAY_BASE_MS = 2000"
definition HUBBLE_MAX_RETRIES :: nat where "HUBBLE_MAX_RETRIES = 3"
definition CURSOR_FLUSH_EVERY_N_PAGES :: nat where "CURSOR_FLUSH_EVERY_N_PAGES = 10"

record page =
  pg_events :: "hubble_raw list"
  pg_latestLedger :: ledger_no
  pg_cursor :: "string option"

datatype page_response = Page_result page | Page_error int string | Page_nothing

record page_request =
  rq_startLedger :: "ledger_no option"
  rq_cursor :: "string option"

record fetch_env =
  fe_time :: millis
  fe_answer :: "js_error + page_response"
  fe_db :: "event_kind \<Rightarrow> js_error option"
  fe_flush :: "contract_id \<Rightarrow> js_error option"
  fe_shutdown :: bool               \<comment> \<open>\<open>shutdown\<close> is called while the page is processed\<close>

text \<open>An empty cursor is no cursor, and \<open>startLedger\<close> is only sent without one.\<close>

definition page_request_of :: "ledger_no option \<Rightarrow> string option \<Rightarrow> page_request" where
  "page_request_of start cursor =
     (let c = (if cursor = Some [] then None else cursor)
      in \<lparr>rq_startLedger = (if c = None then start else None), rq_cursor = c\<rparr>)"

text \<open>The requests that reached the network are logged; \<open>None\<close> is a call that waits for a token.\<close>

record rpc_state =
  rc_limiter :: limiter
  rc_calls :: nat
  rc_log :: "page_request list"

definition fetchEventPage ::
  "page_request \<Rightarrow> fetch_env \<Rightarrow> rpc_state \<Rightarrow> rpc_state \<times> (js_error + page_response) option" where
  "fetchEventPage rq f s =
     (let (l, released) = acquire (rc_calls s) (fe_time f) (rc_limiter s);
          s1 = s\<lparr>rc_limiter := l, rc_calls := rc_calls s + 1\<rparr>
      in if rc_calls s \<in> set released then (s1\<lparr>rc_log := rc_log s @ [rq]\<rparr>, Some (fe_answer f))
         else (s1, None))"

datatype fetched = Got fetch_env page_response | Threw js_error | Blocked | Awaiting

text \<open>
  \<open>withRetry\<close> around a fetch, from the given attempt on: what came of it and the attempts the
  environment has left. \<open>Awaiting\<close> means that the environment ends before the call does.
\<close>

fun withRetry :: "nat \<Rightarrow> page_request \<Rightarrow> fetch_env list \<Rightarrow> rpc_state \<Rightarrow> fetched \<times> fetch_env list \<times> rpc_state" where
  "withRetry attempt rq [] s = (Awaiting, [], s)"
| "withRetry attempt rq (f # fs) s =
     (case fetchEventPage rq f s of
        (s1, None) \<Rightarrow> (Blocked, fs, s1)
      | (s1, Some (Inr r)) \<Rightarrow> (Got f r, fs, s1)
      | (s1, Some (Inl e)) \<Rightarrow>
          if attempt < HUBBLE_MAX_RETRIES then withRetry (attempt + 1) rq fs s1 else (Threw e, fs, s1))"

text \<open>The pauses between attempts.\<close>

definition hubble_retry_delay :: "nat \<Rightarrow> millis" where
  "hubble_retry_delay attempt = HUBBLE_RETRY_DELAY_BASE_MS * 2 ^ (attempt - 1)"

subsection \<open>Cursors\<close>

record indexer =
  ix_running :: bool
  ix_lastLedger :: ledger_no                         \<comment> \<open>\<open>globalLastLedger\<close>\<close>
  ix_cursors :: "(contract_id \<times> ledger_no) list"     \<comment> \<open>\<open>cursors\<close>\<close>
  ix_errors :: nat                                   \<comment> \<open>\<open>consecutiveErrors\<close>\<close>
  ix_rpc :: rpc_state
  ix_tables :: event_tables
  ix_saved :: "(contract_id \<times> ledger_no) list"       \<comment> \<open>the table \<open>indexer_cursors\<close>\<close>

definition loadCursors :: "indexer \<Rightarrow> indexer" where
  "loadCursors s =
     s\<lparr>ix_cursors := fold (\<lambda>(c, l). AList.update c l) (ix_saved s) (ix_cursors s),
       ix_lastLedger := fold max (map snd (ix_saved s)) 0\<rparr>"

text \<open>Every upsert is sent; the refused ones are missing and make the flush fail.\<close>

definition flushCursors :: "(contract_id \<Rightarrow> js_error option) \<Rightarrow> indexer \<Rightarrow> indexer \<times> js_error option" where
  "flushCursors db s =
     (s\<lparr>ix_saved := fold (\<lambda>(c, l). AList.update c l) (filter (\<lambda>(c, l). db c = None) (ix_cursors s)) (ix_saved s)\<rparr>,
      (case List.map_filter (\<lambda>(c, l). db c) (ix_cursors s) of [] \<Rightarrow> None | e # es \<Rightarrow> Some e))"

definition cursor_step :: "hubble_raw \<Rightarrow> indexer \<Rightarrow> indexer" where
  "cursor_step e s =
     (let prev = (case map_of (ix_cursors s) (hr_contractId e) of None \<Rightarrow> 0 | Some l \<Rightarrow> l)
      in s\<lparr>ix_cursors := (if prev < hr_ledger e then AList.update (hr_contractId e) (hr_ledger e) (ix_cursors s)
                          else ix_cursors s),
           ix_lastLedger := max (hr_ledger e) (ix_lastLedger s)\<rparr>)"

text \<open>The configuration: the contract names' identifiers and the decoder.\<close>

record hubble_config =
  hc_ids :: "contract_name \<Rightarrow> contract_id"
  hc_watched :: "contract_id list"      \<comment> \<open>\<open>CONTRACT_IDS\<close>\<close>
  hc_xdr :: "string \<Rightarrow> native option"

definition parsed_batch :: "hubble_config \<Rightarrow> hubble_raw list \<Rightarrow> parsed_event list" where
  "parsed_batch cfg es =
     List.map_filter (parseEvent (hc_ids cfg) (hc_xdr cfg)) (filter (\<lambda>e. hr_success e \<noteq> Some False) es)"

definition processBatch ::
  "hubble_config \<Rightarrow> (event_kind \<Rightarrow> js_error option) \<Rightarrow> hubble_raw list \<Rightarrow> indexer \<Rightarrow> indexer \<times> js_error option" where
  "processBatch cfg db es s =
     (case persistEvents db (parsed_batch cfg es) (ix_tables s) of
        (t, Some e) \<Rightarrow> (s\<lparr>ix_tables := t\<rparr>, Some e)
      | (t, None) \<Rightarrow> (fold cursor_step es (s\<lparr>ix_tables := t\<rparr>), None))"

subsection \<open>The paging loop\<close>

datatype pass_result = Finished | Failed js_error | Hung | Unfinished

text \<open>One page after it arrived: the state, an error, and the cursor of the next page if there is one.\<close>

definition process_page ::
  "hubble_config \<Rightarrow> bool \<Rightarrow> nat \<Rightarrow> fetch_env \<Rightarrow> page \<Rightarrow> indexer \<Rightarrow> indexer \<times> (js_error + string option)" where
  "process_page cfg backfill pageCount f p s =
     (case (let s0 = s\<lparr>ix_running := ix_running s \<and> \<not> fe_shutdown f\<rparr>
            in if pg_events p = [] then (s0, None) else processBatch cfg (fe_db f) (pg_events p) s0) of
        (s1, Some e) \<Rightarrow> (s1, throw e)
      | (s1, None) \<Rightarrow>
          (let s2 = s1\<lparr>ix_lastLedger := max (pg_latestLedger p) (ix_lastLedger s1)\<rparr>;
               (s3, r) = (if backfill \<and> pageCount mod CURSOR_FLUSH_EVERY_N_PAGES = 0
                          then flushCursors (fe_flush f) s2 else (s2, None))
           in case r of
                Some e \<Rightarrow> (s3, throw e)
              | None \<Rightarrow> (s3, return (if pg_cursor p = Some [] \<or> length (pg_events p) < PAGE_LIMIT
                                    then None else pg_cursor p))))"

lemma withRetry_shorter: "withRetry a rq fs s = (Got f r, rest, s') \<Longrightarrow> length rest < length fs"
proof (induction a rq fs s rule: withRetry.induct)
  case (1 a rq s)
  then show ?case by simp
next
  case (2 a rq g gs s)
  then show ?case by (fastforce split: prod.splits option.splits sum.splits if_splits)
qed

text \<open>
  The loop after \<open>pageCount\<close> pages: \<open>start\<close> is sent with the first request, \<open>cursor\<close> with the others.
\<close>

function index_pages ::
  "hubble_config \<Rightarrow> bool \<Rightarrow> nat \<Rightarrow> ledger_no \<Rightarrow> string option \<Rightarrow> fetch_env list \<Rightarrow> indexer \<Rightarrow>
     indexer \<times> fetch_env list \<times> pass_result" where
  "index_pages cfg backfill pageCount start cursor fs s =
     (if \<not> ix_running s then (s, fs, Finished)
      else case withRetry 1 (if pageCount = 0 then page_request_of (Some start) None else page_request_of None cursor)
                  fs (ix_rpc s) of
        (Awaiting, rest, rc) \<Rightarrow> (s\<lparr>ix_rpc := rc\<rparr>, rest, Unfinished)
      | (Blocked, rest, rc) \<Rightarrow> (s\<lparr>ix_rpc := rc\<rparr>, rest, Hung)
      | (Threw e, rest, rc) \<Rightarrow> (s\<lparr>ix_rpc := rc\<rparr>, rest, Failed e)
      | (Got f (Page_error c m), rest, rc) \<Rightarrow> (s\<lparr>ix_rpc := rc\<rparr>, rest, Failed (Err (''[HubbleIndexer] RPC error '' @ dec_int c @ '': '' @ m)))
      | (Got f Page_nothing, rest, rc) \<Rightarrow> (s\<lparr>ix_rpc := rc\<rparr>, rest, Finished)
      | (Got f (Page_result p), rest, rc) \<Rightarrow>
          (case process_page cfg backfill (pageCount + 1) f p (s\<lparr>ix_rpc := rc\<rparr>) of
             (s1, Inl e) \<Rightarrow> (s1, rest, Failed e)
           | (s1, Inr None) \<Rightarrow> (s1, rest, Finished)
           | (s1, Inr (Some c)) \<Rightarrow> index_pages cfg backfill (pageCount + 1) start (Some c) rest s1))"
  by pat_completeness auto

termination
  by (relation "measure (\<lambda>(cfg, b, n, st, c, fs, s). length fs)") (auto dest!: withRetry_shorter [OF sym])

declare index_pages.simps [simp del]

text \<open>After the loop every watched contract gets a cursor, and the cursors are saved.\<close>

definition fill_cursors :: "hubble_config \<Rightarrow> indexer \<Rightarrow> indexer" where
  "fill_cursors cfg s =
     s\<lparr>ix_cursors := fold (\<lambda>c cs. if map_of cs c = None then AList.update c (ix_lastLedger s) cs else cs)
         (hc_watched cfg) (ix_cursors s)\<rparr>"

definition indexFromLedger ::
  "hubble_config \<Rightarrow> (contract_id \<Rightarrow> js_error option) \<Rightarrow> ledger_no \<Rightarrow> bool \<Rightarrow> fetch_env list \<Rightarrow> indexer \<Rightarrow>
     indexer \<times> fetch_env list \<times> pass_result" where
  "indexFromLedger cfg db start backfill fs s =
     (case index_pages cfg backfill 0 start None fs s of
        (s1, rest, Finished) \<Rightarrow>
          (case flushCursors db (fill_cursors cfg s1) of
             (s2, None) \<Rightarrow> (s2, rest, Finished)
           | (s2, Some e) \<Rightarrow> (s2, rest, Failed e))
      | (s1, rest, r) \<Rightarrow> (s1, rest, r))"

definition resume_ledger :: "indexer \<Rightarrow> ledger_no" where
  "resume_ledger s = (if ix_lastLedger s > 0 then ix_lastLedger s else 1)"

text \<open>
  One live poll: the pass from the last ledger, the error count, and the pause the callback takes
  before it schedules the next one. A pass that hangs never reaches the end of the callback.
\<close>

definition live_error_delay :: "nat \<Rightarrow> millis" where
  "live_error_delay errors = HUBBLE_RETRY_DELAY_BASE_MS * min (2 ^ (errors - 1)) 32"

definition live_poll ::
  "hubble_config \<Rightarrow> (contract_id \<Rightarrow> js_error option) \<Rightarrow> fetch_env list \<Rightarrow> indexer \<Rightarrow> indexer \<times> fetch_env list \<times> millis option" where
  "live_poll cfg db fs s =
     (case indexFromLedger cfg db (resume_ledger s) False fs s of
        (s1, rest, Finished) \<Rightarrow> (s1\<lparr>ix_errors := 0\<rparr>, rest, Some 0)
      | (s1, rest, Failed e) \<Rightarrow> (s1\<lparr>ix_errors := ix_errors s1 + 1\<rparr>, rest, Some (live_error_delay (ix_errors s1 + 1)))
      | (s1, rest, r) \<Rightarrow> (s1, rest, None))"

text \<open>
  The start of the worker: the backfill, and after it live polls as long as the worker runs. A
  failed backfill ends the worker. Live polls follow each other after two intervals, the callback's
  own and that of the timer it sets.
\<close>

fun live_polls :: "hubble_config \<Rightarrow> (contract_id \<Rightarrow> js_error option) list \<Rightarrow> fetch_env list \<Rightarrow> indexer \<Rightarrow> indexer" where
  "live_polls cfg [] fs s = s"
| "live_polls cfg (db # dbs) fs s =
     (if \<not> ix_running s then s
      else case live_poll cfg db fs s of
             (s1, rest, None) \<Rightarrow> s1
           | (s1, rest, Some d) \<Rightarrow> live_polls cfg dbs rest s1)"

definition runBackfillThenLive ::
  "hubble_config \<Rightarrow> (contract_id \<Rightarrow> js_error option) list \<Rightarrow> fetch_env list \<Rightarrow> indexer \<Rightarrow> indexer" where
  "runBackfillThenLive cfg dbs fs s =
     (case dbs of
        [] \<Rightarrow> s
      | db # dbs' \<Rightarrow>
          (case indexFromLedger cfg db (resume_ledger s) True fs s of
             (s1, rest, Finished) \<Rightarrow> live_polls cfg dbs' rest s1
           | (s1, rest, r) \<Rightarrow> s1))"

definition hubble_initialize ::
  "hubble_config \<Rightarrow> (contract_id \<Rightarrow> js_error option) list \<Rightarrow> fetch_env list \<Rightarrow> indexer \<Rightarrow> indexer" where
  "hubble_initialize cfg dbs fs s = runBackfillThenLive cfg dbs fs ((loadCursors s)\<lparr>ix_running := True\<rparr>)"

definition next_poll_gap :: millis where
  "next_poll_gap = LIVE_POLL_INTERVAL_MS + LIVE_POLL_INTERVAL_MS"

subsection \<open>The tables stay free of duplicates\<close>

lemma cursor_step_frame [frame_simps]:
  "ix_tables (cursor_step e s) = ix_tables s" "ix_rpc (cursor_step e s) = ix_rpc s"
  "ix_running (cursor_step e s) = ix_running s" "ix_saved (cursor_step e s) = ix_saved s"
  by (simp_all add: cursor_step_def Let_def)

lemma cursor_steps_frame [frame_simps]:
  "ix_tables (fold cursor_step es s) = ix_tables s" "ix_rpc (fold cursor_step es s) = ix_rpc s"
  "ix_running (fold cursor_step es s) = ix_running s" "ix_saved (fold cursor_step es s) = ix_saved s"
  by (induction es arbitrary: s) (simp_all add: frame_simps)

lemma flushCursors_frame [frame_simps]:
  "ix_tables (fst (flushCursors db s)) = ix_tables s" "ix_rpc (fst (flushCursors db s)) = ix_rpc s"
  "ix_running (fst (flushCursors db s)) = ix_running s" "ix_lastLedger (fst (flushCursors db s)) = ix_lastLedger s"
  by (simp_all add: flushCursors_def)

lemma processBatch_tables:
  "ix_tables (fst (processBatch cfg db es s)) = fst (persistEvents db (parsed_batch cfg es) (ix_tables s))"
  by (auto simp: processBatch_def frame_simps split: prod.split option.split)

lemma processBatch_rpc [frame_simps]:
  "ix_rpc (fst (processBatch cfg db es s)) = ix_rpc s" "ix_running (fst (processBatch cfg db es s)) = ix_running s"
  by (auto simp: processBatch_def frame_simps split: prod.split option.split)

lemma process_page_cases:
  "fst (process_page cfg b n f p s) =
     (let s0 = s\<lparr>ix_running := ix_running s \<and> \<not> fe_shutdown f\<rparr>;
          (s1, r) = (if pg_events p = [] then (s0, None) else processBatch cfg (fe_db f) (pg_events p) s0);
          s2 = s1\<lparr>ix_lastLedger := max (pg_latestLedger p) (ix_lastLedger s1)\<rparr>
      in if r \<noteq> None then s1
         else if b \<and> n mod CURSOR_FLUSH_EVERY_N_PAGES = 0 then fst (flushCursors (fe_flush f) s2) else s2)"
  by (auto simp: process_page_def Let_def split: prod.split option.split)

lemma process_page_ok: "tables_ok (ix_tables s) \<Longrightarrow> tables_ok (ix_tables (fst (process_page cfg b n f p s)))"
  using persistEvents_ok [of "ix_tables s" "fe_db f" "parsed_batch cfg (pg_events p)"]
    processBatch_tables [of cfg "fe_db f" "pg_events p" "s\<lparr>ix_running := ix_running s \<and> \<not> fe_shutdown f\<rparr>"]
  by (auto simp: process_page_cases Let_def frame_simps split: prod.split)

subsection \<open>What a run of the worker preserves\<close>

text \<open>
  A property of the worker that every answered request of an allowed kind, every processed page and
  every cursor update preserves holds after whole passes and after any sequence of polls.
\<close>

locale indexer_invariant =
  fixes cfg :: hubble_config and I :: "indexer \<Rightarrow> bool" and allowed :: "page_request \<Rightarrow> bool"
  assumes retry: "I s \<Longrightarrow> allowed rq \<Longrightarrow> I (s\<lparr>ix_rpc := snd (snd (withRetry 1 rq fs (ix_rpc s)))\<rparr>)"
    and follow: "allowed (page_request_of None c)"
    and resume: "I s \<Longrightarrow> allowed (page_request_of (Some (resume_ledger s)) None)"
    and page: "I s \<Longrightarrow> I (fst (process_page cfg b n f p s))"
    and fill: "I s \<Longrightarrow> I (fill_cursors cfg s)"
    and flush: "I s \<Longrightarrow> I (fst (flushCursors db s))"
    and errors: "I s \<Longrightarrow> I (s\<lparr>ix_errors := k\<rparr>)"
begin

lemma I_retry:
  assumes "withRetry 1 rq fs (ix_rpc s) = (res, rest, rc)" "I s" "allowed rq"
  shows "I (s\<lparr>ix_rpc := rc\<rparr>)"
  using retry [OF assms(2,3), of fs] assms(1) by simp

lemma index_pages:
  "I s \<Longrightarrow> allowed (page_request_of (Some st) None) \<Longrightarrow> I (fst (index_pages cfg b n st c fs s))"
proof (induction cfg' \<equiv> cfg b' \<equiv> b n st' \<equiv> st c fs s rule: index_pages.induct)
  case (1 n c fs s)
  let ?rq = "if n = 0 then page_request_of (Some st) None else page_request_of None c"
  obtain res rest rc where w: "withRetry 1 ?rq fs (ix_rpc s) = (res, rest, rc)" by (metis prod_cases3)
  then have I: "I (s\<lparr>ix_rpc := rc\<rparr>)" by (rule I_retry) (use "1.prems" follow in auto)
  show ?case
  proof (cases "ix_running s")
    case False
    then show ?thesis using "1.prems"(1) by (simp add: index_pages.simps)
  next
    case run: True
    note unf = index_pages.simps [of cfg b n st c fs s]
    show ?thesis
    proof (cases res)
      case (Got f r)
      show ?thesis
      proof (cases r)
        case (Page_result p)
        obtain s1 q where p: "process_page cfg b (n + 1) f p (s\<lparr>ix_rpc := rc\<rparr>) = (s1, q)" by fastforce
        have s1: "I s1" using page [OF I, of b "n + 1" f p] p by simp
        show ?thesis
        proof (cases "\<exists>c'. q = Inr (Some c')")
          case True
          then obtain c' where q: "q = Inr (Some c')" by blast
          have "I (fst (index_pages cfg b (n + 1) st (Some c') rest s1))"
            by (rule "1.hyps" [OF _ w [symmetric] Got Page_result refl p [symmetric] q refl s1 "1.prems"(2)]) (use run in simp)
          then show ?thesis unfolding unf using run w Got Page_result p q by simp
        next
          case False
          then have "index_pages cfg b n st c fs s = (s1, rest, case q of Inl e \<Rightarrow> Failed e | Inr x \<Rightarrow> Finished)"
            unfolding unf using run w Got Page_result p by (auto split: sum.split option.split)
          then show ?thesis using s1 by simp
        qed
      qed (unfold unf, use run w Got I in simp_all)
    qed (unfold unf, use run w I in simp_all)
  qed
qed

lemma index_from: "I s \<Longrightarrow> allowed (page_request_of (Some st) None) \<Longrightarrow> I (fst (indexFromLedger cfg db st b fs s))"
proof -
  assume "I s" "allowed (page_request_of (Some st) None)"
  then have "I (fst (index_pages cfg b 0 st None fs s))" by (rule index_pages)
  then show ?thesis
    using flush [OF fill, of _ db] unfolding indexFromLedger_def
    by (auto split: prod.splits pass_result.split option.split) (metis fst_conv)+
qed

lemma live_poll: "I s \<Longrightarrow> I (fst (live_poll cfg db fs s))"
  using index_from [OF _ resume, of s s db False fs]
  by (auto simp: live_poll_def errors split: prod.split pass_result.split)

lemma live_polls: "I s \<Longrightarrow> I (live_polls cfg dbs fs s)"
proof (induction dbs arbitrary: fs s)
  case (Cons db dbs)
  obtain s1 rest r where l: "live_poll cfg db fs s = (s1, rest, r)" by (metis prod_cases3)
  then have "I s1" using live_poll [OF Cons.prems, of db fs] by simp
  then show ?case using Cons l by (auto split: option.split)
qed simp

lemma backfill_then_live: "I s \<Longrightarrow> I (runBackfillThenLive cfg dbs fs s)"
proof -
  assume s: "I s"
  show ?thesis
  proof (cases dbs)
    case (Cons db dbs')
    obtain s1 rest r where l: "indexFromLedger cfg db (resume_ledger s) True fs s = (s1, rest, r)" by (metis prod_cases3)
    then have "I s1" using index_from [OF s resume [OF s], of db True fs] by simp
    then show ?thesis using Cons l live_polls by (auto simp: runBackfillThenLive_def split: pass_result.split)
  qed (use s in \<open>simp add: runBackfillThenLive_def\<close>)
qed

end

interpretation tables: indexer_invariant cfg "\<lambda>s. tables_ok (ix_tables s)" "\<lambda>rq. True" for cfg
  by unfold_locales (simp_all add: process_page_ok frame_simps fill_cursors_def)


definition wit_cfg :: hubble_config where
  "wit_cfg = \<lparr>hc_ids = wit_ids, hc_watched = [''S'', ''L''], hc_xdr = wit_xdr\<rparr>"

definition wit_indexer :: "limiter \<Rightarrow> indexer" where
  "wit_indexer l = \<lparr>ix_running = True, ix_lastLedger = 0, ix_cursors = [], ix_errors = 0,
      ix_rpc = \<lparr>rc_limiter = l, rc_calls = 0, rc_log = []\<rparr>, ix_tables = (\<lambda>k. []), ix_saved = []\<rparr>"


subsection \<open>A waiting caller is never served\<close>

text \<open>
  One caller at a time: the bound on the tokens after \<open>49 - k\<close> calls that follow each other within
  234 ms, each of which costs one token and earns at most 15/16.
\<close>

definition token_bound :: "nat \<Rightarrow> millis \<Rightarrow> limiter \<Rightarrow> bool" where
  "token_bound k t l \<longleftrightarrow> lim_queue l = [] \<and> lim_last l = t \<and> k \<le> 49 \<and>
     (\<exists>x. lim_tokens l = Fin x \<and> 0 \<le> x \<and> x \<le> (if k = 49 then 4 else of_nat k / 16))"

lemma rndq_sixteenths: "\<bar>m\<bar> \<le> 2^53 \<Longrightarrow> rndq (of_int m / 16) = of_int m / 16"
  using rndq_grid [of m "-4"] by (simp add: power_int_minus_divide)

lemma rnd_between:
  assumes "0 \<le> x" "x \<le> of_int m / 16" "\<bar>m\<bar> \<le> 2^53"
  obtains y where "rnd x = Fin y" "0 \<le> y" "y \<le> of_int m / 16"
proof -
  have "of_int m / 16 \<le> (2::rat) ^ 53"
    using assms(3) of_int_le_iff [of m "2^53", where ?'a = rat] by (simp add: field_simps)
  then have "\<bar>x\<bar> \<le> (2::rat) ^ 110" using assms(1,2) power_increasing [of 53 110 "2::rat"] by simp
  then have "rnd x = Fin (rndq x)" by (simp add: rnd_Fin_300 small_le_300)
  moreover have "0 \<le> rndq x" using assms(1) by (rule dbl.rd_nonneg)
  moreover have "rndq x \<le> of_int m / 16" using rndq_mono [OF assms(2)] rndq_sixteenths [OF assms(3)] by simp
  ultimately show ?thesis by (rule that)
qed

lemma refilled_bound:
  assumes "lim_tokens l = Fin x" "0 \<le> x" "x \<le> of_nat k / 16" "k \<le> 64"
    and "lim_last l \<le> now" "now \<le> lim_last l + 234"
  obtains y where "refilled now l = Fin y" "0 \<le> y" "y \<le> 4" "y \<le> (of_nat k + 15) / 16"
proof -
  let ?d = "now - lim_last l"
  have d: "num_of_big ?d = Fin (of_int ?d)" using assms(5,6) by (intro num_of_big_exact) simp
  have "of_int ?d / 1000 \<le> (of_int 15 / 16 :: rat) / 4"
    using assms(6) of_int_le_iff [of ?d 234, where ?'a = rat] by (simp add: field_simps)
  then have "rndq (of_int ?d / 1000) \<le> rndq (of_int 15 / 64)" by (intro rndq_mono) simp
  also have "rndq (of_int 15 / 64) = of_int 15 / 64" using rndq_grid [of 15 "-6"] by (simp add: power_int_minus_divide)
  finally have e: "rndq (of_int ?d / 1000) \<le> 15 / 64" by simp
  have e0: "0 \<le> rndq (of_int ?d / 1000)" using assms(5) by (intro dbl.rd_nonneg) simp
  have "\<bar>of_int ?d / 1000\<bar> \<le> (2::rat) ^ 110"
    using assms(5,6) of_int_le_iff [of ?d 234, where ?'a = rat] by (simp add: field_simps)
  then have r: "rnd (of_int ?d / 1000) = Fin (rndq (of_int ?d / 1000))" by (simp add: rnd_Fin_300 small_le_300)
  obtain a where a: "rnd (rndq (of_int ?d / 1000) * 4) = Fin a" "0 \<le> a" "a \<le> of_int 15 / 16"
    by (rule rnd_between [of "rndq (of_int ?d / 1000) * 4" 15]) (use e e0 in auto)
  obtain b where b: "rnd (x + a) = Fin b" "0 \<le> b" "b \<le> of_int (int k + 15) / 16"
    by (rule rnd_between [of "x + a" "int k + 15"]) (use assms(2-4) a in \<open>auto simp: field_simps\<close>)
  have "refilled now l = js_min (Fin 4) (Fin b)"
    by (simp add: refilled_def RPC_MAX_CALLS_PER_SECOND_def assms(1) d r a(1) b(1) del: of_int_diff)
  then show ?thesis using b that [of "min b 4"] by (auto simp: js_min_def min_def split: if_splits)
qed

lemma acquire_slow:
  assumes "token_bound k t l" "t \<le> now" "now \<le> t + 234" "acquire c now l = (l', released)"
  shows "released = [] \<or> (released = [c] \<and> 0 < k \<and> token_bound (k - 1) now l')"
proof -
  let ?k = "if k = 49 then 64 else k"
  obtain x where x: "lim_tokens l = Fin x" "0 \<le> x" "x \<le> of_nat ?k / 16" and q: "lim_queue l = []"
    and l: "lim_last l = t" and k: "k \<le> 49"
    using assms(1) by (auto simp: token_bound_def split: if_splits)
  obtain y where y: "refilled now l = Fin y" "0 \<le> y" "y \<le> 4" "y \<le> (of_nat ?k + 15) / 16"
    by (rule refilled_bound [OF x, of now]) (use k l assms(2,3) in auto)
  have r: "refill now l = (\<lparr>lim_tokens = Fin y, lim_last = now, lim_queue = []\<rparr>, [])"
    by (simp add: refill_def y(1) q)
  show ?thesis
  proof (cases "(1::number) \<le> Fin y")
    case True
    then have y1: "1 \<le> y" by (auto simp: one_number_def)
    have acq: "l' = \<lparr>lim_tokens = Fin y - 1, lim_last = now, lim_queue = []\<rparr>" "released = [c]"
      using assms(4) True by (simp_all add: acquire_def r)
    define m where "m = (if k = 49 then 48 else int k - 1)"
    have "y - 1 \<le> of_int m / 16" using y(3,4) by (auto simp: m_def field_simps split: if_splits)
    moreover have "\<bar>m\<bar> \<le> 2^53" using k by (auto simp: m_def)
    ultimately obtain z where z: "rnd (y - 1) = Fin z" "0 \<le> z" "z \<le> of_int m / 16"
      using rnd_between [of "y - 1" m] y1 by auto
    have "0 < k" using y1 y(4) by (cases "k = 0") auto
    moreover have "token_bound (k - 1) now l'"
      using z k \<open>0 < k\<close> by (auto simp: acq token_bound_def m_def one_number_def of_nat_diff split: if_splits)
    ultimately show ?thesis by (simp add: acq)
  next
    case False
    then show ?thesis using assms(4) by (simp add: acquire_def r)
  qed
qed

lemma persistEvents_fits: "list_all row_fits es \<Longrightarrow> \<exists>t'. persistEvents (\<lambda>k. None) es t = (t', None)"
proof -
  assume "list_all row_fits es"
  then have c: "\<exists>t'. createMany None k es t = Inr t'" for k t
    by (auto simp: createMany_def Let_def list_all_iff)
  have "\<exists>t'. write_kinds (\<lambda>k. None) ks es t = (t', None)" for ks
  proof (induction ks arbitrary: t)
    case (Cons k ks)
    obtain t1 where "createMany None k es t = Inr t1" using c by blast
    then show ?case using Cons [of t1] by simp
  qed simp
  then show ?thesis by (simp add: persistEvents_def)
qed

lemma flush_accepted: "snd (flushCursors (\<lambda>c. None) s) = None"
proof -
  have "List.map_filter (\<lambda>(c, l). None :: js_error option) xs = []" for xs :: "(contract_id \<times> ledger_no) list"
    by (induction xs) (auto simp: List.map_filter_def)
  then show ?thesis by (simp add: flushCursors_def)
qed

text \<open>A page after which the loop goes on: full, with a cursor, and accepted by the database.\<close>

definition accepted :: "hubble_config \<Rightarrow> fetch_env \<Rightarrow> page \<Rightarrow> bool" where
  "accepted cfg f p \<longleftrightarrow> fe_answer f = Inr (Page_result p) \<and> list_all row_fits (parsed_batch cfg (pg_events p)) \<and>
     fe_db f = (\<lambda>k. None) \<and> fe_flush f = (\<lambda>c. None)"

definition full_page :: "page \<Rightarrow> bool" where
  "full_page p \<longleftrightarrow> PAGE_LIMIT \<le> length (pg_events p) \<and> (\<exists>c. pg_cursor p = Some c \<and> c \<noteq> [])"

lemma accepted_page:
  assumes "accepted cfg f p"
  obtains s1 where "process_page cfg b n f p s =
      (s1, Inr (if pg_cursor p = Some [] \<or> length (pg_events p) < PAGE_LIMIT then None else pg_cursor p))"
    "ix_rpc s1 = ix_rpc s" "ix_running s1 = (ix_running s \<and> \<not> fe_shutdown f)"
    "pg_latestLedger p \<le> ix_lastLedger s1"
proof -
  define s0 where "s0 = s\<lparr>ix_running := ix_running s \<and> \<not> fe_shutdown f\<rparr>"
  obtain s1 where s1: "(if pg_events p = [] then (s0, None) else processBatch cfg (fe_db f) (pg_events p) s0) = (s1, None)"
    "ix_rpc s1 = ix_rpc s0" "ix_running s1 = ix_running s0"
  proof (cases "pg_events p = []")
    case False
    obtain t' where "persistEvents (\<lambda>k. None) (parsed_batch cfg (pg_events p)) (ix_tables s0) = (t', None)"
      using assms persistEvents_fits unfolding accepted_def by blast
    then have "snd (processBatch cfg (fe_db f) (pg_events p) s0) = None"
      using assms by (simp add: processBatch_def accepted_def)
    then show ?thesis using that False processBatch_rpc [of cfg "fe_db f" "pg_events p" s0]
      by (metis prod.collapse)
  qed (simp add: that)
  define s2 where "s2 = s1\<lparr>ix_lastLedger := max (pg_latestLedger p) (ix_lastLedger s1)\<rparr>"
  define s3 where "s3 = (if b \<and> n mod CURSOR_FLUSH_EVERY_N_PAGES = 0 then fst (flushCursors (fe_flush f) s2) else s2)"
  have "(if b \<and> n mod CURSOR_FLUSH_EVERY_N_PAGES = 0 then flushCursors (fe_flush f) s2 else (s2, None)) = (s3, None)"
    using flush_accepted [of s2] assms by (auto simp: s3_def accepted_def prod_eq_iff)
  then have "process_page cfg b n f p s =
      (s3, Inr (if pg_cursor p = Some [] \<or> length (pg_events p) < PAGE_LIMIT then None else pg_cursor p))"
    unfolding process_page_def Let_def s0_def [symmetric] s1(1) prod.case option.case s2_def [symmetric]
    by (simp only: prod.case option.case)
  then show ?thesis
    by (rule that) (simp_all add: s3_def s2_def s1(2,3) s0_def frame_simps)
qed

lemma accepted_full_page:
  assumes "accepted cfg f p" "full_page p" "\<not> fe_shutdown f" "ix_running s"
  obtains s1 where "process_page cfg b n f p s = (s1, Inr (pg_cursor p))" "ix_rpc s1 = ix_rpc s" "ix_running s1"
    "pg_latestLedger p \<le> ix_lastLedger s1"
proof -
  have "\<not> (pg_cursor p = Some [] \<or> length (pg_events p) < PAGE_LIMIT)"
    using assms(2) by (auto simp: full_page_def)
  then show ?thesis using accepted_page [OF assms(1), of b n s] assms(3,4) that by (simp only: if_False) blast
qed

fun follow_promptly :: "millis \<Rightarrow> fetch_env list \<Rightarrow> bool" where
  "follow_promptly t [] \<longleftrightarrow> True"
| "follow_promptly t (f # fs) \<longleftrightarrow> t \<le> fe_time f \<and> fe_time f \<le> t + 234 \<and> follow_promptly (fe_time f) fs"

lemma prompt_pages_starve:
  assumes "follow_promptly t fs" "\<forall>f\<in>set fs. \<exists>p. accepted cfg f p \<and> full_page p \<and> \<not> fe_shutdown f"
    and "token_bound k t (rc_limiter (ix_rpc s))" "ix_running s" "k < length fs"
    and "index_pages cfg b n st c fs s = (s', rest, r)"
  shows "r = Hung \<and> length (rc_log (ix_rpc s')) \<le> length (rc_log (ix_rpc s)) + k"
  using assms
proof (induction fs arbitrary: t k n c s)
  case (Cons f fs)
  obtain p where p: "accepted cfg f p" "full_page p" "\<not> fe_shutdown f" using Cons.prems(2) by auto
  obtain l rel where a: "acquire (rc_calls (ix_rpc s)) (fe_time f) (rc_limiter (ix_rpc s)) = (l, rel)" by fastforce
  let ?rq = "if n = 0 then page_request_of (Some st) None else page_request_of None c"
  let ?rc = "(ix_rpc s)\<lparr>rc_limiter := l, rc_calls := rc_calls (ix_rpc s) + 1\<rparr>"
  note unf = index_pages.simps [of cfg b n st c "f # fs" s]
  consider "rel = []" | "rel = [rc_calls (ix_rpc s)]" "0 < k" "token_bound (k - 1) (fe_time f) l"
    using acquire_slow [OF Cons.prems(3) _ _ a] Cons.prems(1) by auto
  then show ?case
  proof cases
    case 1
    then have "withRetry 1 ?rq (f # fs) (ix_rpc s) = (Blocked, fs, ?rc)" by (simp add: fetchEventPage_def a)
    then have "index_pages cfg b n st c (f # fs) s = (s\<lparr>ix_rpc := ?rc\<rparr>, fs, Hung)"
      unfolding unf using Cons.prems(4) by (simp only: if_True not_True_eq_False if_False prod.case fetched.case)
    then show ?thesis using Cons.prems(6) by auto
  next
    case 2
    let ?rc' = "?rc\<lparr>rc_log := rc_log (ix_rpc s) @ [?rq]\<rparr>"
    obtain s1 where s1: "process_page cfg b (n + 1) f p (s\<lparr>ix_rpc := ?rc'\<rparr>) = (s1, Inr (pg_cursor p))"
      "ix_rpc s1 = ?rc'" "ix_running s1"
    proof (rule accepted_full_page [OF p, of "s\<lparr>ix_rpc := ?rc'\<rparr>" b "n + 1"])
      show "ix_running (s\<lparr>ix_rpc := ?rc'\<rparr>)" using Cons.prems(4) by simp
    qed (use that in simp)
    have w: "withRetry 1 ?rq (f # fs) (ix_rpc s) = (Got f (Page_result p), fs, ?rc')"
      using 2(1) p(1) by (simp add: fetchEventPage_def a accepted_def)
    obtain c' where c': "pg_cursor p = Some c'" using p(2) by (auto simp: full_page_def)
    have "index_pages cfg b (n + 1) st (Some c') fs s1 = (s', rest, r)"
      using Cons.prems(6) unfolding unf w using s1(1) c' Cons.prems(4) by simp
    then have "r = Hung \<and> length (rc_log (ix_rpc s')) \<le> length (rc_log (ix_rpc s1)) + (k - 1)"
      by (rule Cons.IH [rotated 5]) (use Cons.prems 2 s1 in auto)
    then show ?thesis using s1(2) 2(2) by auto
  qed
qed simp

text \<open>
  C12. A pass that works well is what stops the indexer: when full pages follow each other within 234
  ms, at most 49 requests are sent before the rate limiter queues a caller, and since its queue is
  only served by a later call, which the waiting loop never makes, the pass does not end.\<close>

theorem prompt_pages_hang_the_indexer:
  assumes "follow_promptly t fs" "\<forall>f\<in>set fs. \<exists>p. accepted cfg f p \<and> full_page p \<and> \<not> fe_shutdown f"
    and "rc_limiter (ix_rpc s) = new_limiter t" "rc_log (ix_rpc s) = []" "ix_running s" "49 < length fs"
    and "indexFromLedger cfg db st b fs s = (s', rest, r)"
  shows "r = Hung \<and> length (rc_log (ix_rpc s')) \<le> 49"
proof -
  obtain s1 rest1 r1 where i: "index_pages cfg b 0 st None fs s = (s1, rest1, r1)" by (metis prod_cases3)
  have "token_bound 49 t (rc_limiter (ix_rpc s))"
    by (simp add: assms(3) new_limiter_def token_bound_def RPC_MAX_CALLS_PER_SECOND_def)
  from prompt_pages_starve [OF assms(1,2) this assms(5,6) i] show ?thesis
    using assms(4,7) i by (auto simp: indexFromLedger_def)
qed

definition wit_page :: "nat \<Rightarrow> string option \<Rightarrow> page" where
  "wit_page n c = \<lparr>pg_events = replicate n (wit_deposit ''7'' ''GA''), pg_latestLedger = 90, pg_cursor = c\<rparr>"

definition wit_fetch :: "bool \<Rightarrow> page \<Rightarrow> fetch_env" where
  "wit_fetch stop p = \<lparr>fe_time = 0, fe_answer = Inr (Page_result p), fe_db = (\<lambda>k. None), fe_flush = (\<lambda>c. None), fe_shutdown = stop\<rparr>"

lemma wit_batch: "parsed_batch wit_cfg (replicate n (wit_deposit ''7'' ''GA'')) =
    replicate n (Stake_ev (wit_base ''7'') ''GA'' 5 STAKE)"
proof (induction n)
  case (Suc n)
  have "parseEvent (hc_ids wit_cfg) (hc_xdr wit_cfg) (wit_deposit ''7'' ''GA'') = Some (Stake_ev (wit_base ''7'') ''GA'' 5 STAKE)"
    using wit_deposit_parsed [of "''GA''" "''7''"] by (simp add: wit_cfg_def)
  then show ?case using Suc by (simp add: parsed_batch_def List.map_filter_simps wit_deposit_def)
qed (simp add: parsed_batch_def List.map_filter_simps)

lemma wit_accepted: "accepted wit_cfg (wit_fetch stop (wit_page n c)) (wit_page n c)"
  by (simp add: accepted_def wit_fetch_def wit_page_def wit_batch list_all_iff row_fits_def wit_base_short)

lemma follow_promptly_replicate: "fe_time f = t \<Longrightarrow> follow_promptly t (replicate n f)"
  by (induction n) simp_all

theorem prompt_pages_hang_the_indexer_witness:
  "snd (snd (indexFromLedger wit_cfg (\<lambda>c. None) 1 True
     (replicate 50 (wit_fetch False (wit_page 200 (Some ''c'')))) (wit_indexer (new_limiter 0)))) = Hung"
proof -
  let ?f = "wit_fetch False (wit_page 200 (Some ''c''))"
  obtain s' rest r where
    i: "indexFromLedger wit_cfg (\<lambda>c. None) 1 True (replicate 50 ?f) (wit_indexer (new_limiter 0)) = (s', rest, r)"
    by (metis prod_cases3)
  have "r = Hung \<and> length (rc_log (ix_rpc s')) \<le> 49"
  proof (rule prompt_pages_hang_the_indexer [OF _ _ _ _ _ _ i])
    show "follow_promptly 0 (replicate 50 ?f)" by (rule follow_promptly_replicate) (simp add: wit_fetch_def)
    show "\<forall>f\<in>set (replicate 50 ?f). \<exists>p. accepted wit_cfg f p \<and> full_page p \<and> \<not> fe_shutdown f"
      using wit_accepted [of False 200 "Some ''c''"]
      by (auto simp: full_page_def wit_page_def PAGE_LIMIT_def wit_fetch_def)
  qed (simp_all add: wit_indexer_def)
  then show ?thesis using i by simp
qed

subsection \<open>What a failed poll and a shutdown skip\<close>

lemma persistEvents_Nil: "persistEvents db [] t = (t, None)"
proof -
  have "write_kinds db ks [] t = (t, None)" for ks by (induction ks) (simp_all add: createMany_def)
  then show ?thesis by (simp add: persistEvents_def)
qed

lemma parsed_batch_Nil [simp]: "parsed_batch cfg [] = []"
  by (simp add: parsed_batch_def List.map_filter_simps)

lemma process_page_tables:
  "ix_tables (fst (process_page cfg b n f p s)) =
     fst (persistEvents (fe_db f) (parsed_batch cfg (pg_events p)) (ix_tables s))"
  using processBatch_tables [of cfg "fe_db f" "pg_events p" "s\<lparr>ix_running := ix_running s \<and> \<not> fe_shutdown f\<rparr>"]
  by (auto simp: process_page_cases Let_def frame_simps persistEvents_Nil split: prod.split)

lemma cursor_steps_errors [frame_simps]: "ix_errors (fold cursor_step es s) = ix_errors s"
  by (induction es arbitrary: s) (simp_all add: cursor_step_def Let_def)

lemma processBatch_errors [frame_simps]: "ix_errors (fst (processBatch cfg db es s)) = ix_errors s"
  by (auto simp: processBatch_def frame_simps split: prod.split option.split)

lemma flushCursors_errors [frame_simps]: "ix_errors (fst (flushCursors db s)) = ix_errors s"
  by (simp add: flushCursors_def)

lemma process_page_errors [frame_simps]: "ix_errors (fst (process_page cfg b n f p s)) = ix_errors s"
  by (auto simp: process_page_cases Let_def split_beta frame_simps)

lemma cursor_steps_lastLedger: "ix_lastLedger s \<le> ix_lastLedger (fold cursor_step es s)"
proof (induction es arbitrary: s)
  case (Cons e es)
  have "ix_lastLedger s \<le> ix_lastLedger (cursor_step e s)" by (simp add: cursor_step_def Let_def)
  then show ?case using Cons [of "cursor_step e s"] by simp
qed simp

lemma processBatch_lastLedger: "ix_lastLedger s \<le> ix_lastLedger (fst (processBatch cfg db es s))"
  using cursor_steps_lastLedger [of "s\<lparr>ix_tables := t\<rparr>" es for t]
  by (auto simp: processBatch_def split: prod.split option.split)

lemma process_page_lastLedger: "ix_lastLedger s \<le> ix_lastLedger (fst (process_page cfg b n f p s))"
  using processBatch_lastLedger [of "s\<lparr>ix_running := ix_running s \<and> \<not> fe_shutdown f\<rparr>" cfg "fe_db f" "pg_events p"]
  by (auto simp: process_page_cases Let_def frame_simps split: prod.split)

lemma process_page_rpc [frame_simps]: "ix_rpc (fst (process_page cfg b n f p s)) = ix_rpc s"
  by (auto simp: process_page_cases Let_def split_beta frame_simps)

definition starts_from :: "ledger_no \<Rightarrow> page_request \<Rightarrow> bool" where
  "starts_from L rq \<longleftrightarrow> (case rq_startLedger rq of None \<Rightarrow> True | Some n \<Rightarrow> L \<le> n)"

definition only_later :: "ledger_no \<Rightarrow> page_request list \<Rightarrow> indexer \<Rightarrow> bool" where
  "only_later L old s \<longleftrightarrow> L \<le> ix_lastLedger s \<and>
     (\<exists>more. rc_log (ix_rpc s) = old @ more \<and> (\<forall>rq\<in>set more. starts_from L rq))"

lemma withRetry_log: "\<exists>more. rc_log (snd (snd (withRetry a rq fs s))) = rc_log s @ more \<and> set more \<subseteq> {rq}"
proof (induction a rq fs s rule: withRetry.induct)
  case (2 a rq f fs s)
  obtain s1 q where q: "fetchEventPage rq f s = (s1, q)" by fastforce
  then have l: "\<exists>more. rc_log s1 = rc_log s @ more \<and> set more \<subseteq> {rq}"
    by (auto simp: fetchEventPage_def Let_def split: prod.splits if_splits)
  show ?case
  proof (cases "\<exists>e. q = Some (Inl e) \<and> a < HUBBLE_MAX_RETRIES")
    case True
    then obtain e where e: "q = Some (Inl e)" "a < HUBBLE_MAX_RETRIES" by blast
    then obtain m where "rc_log (snd (snd (withRetry (a + 1) rq fs s1))) = rc_log s1 @ m" "set m \<subseteq> {rq}"
      using "2.IH" [OF q [symmetric] e(1) refl e(2)] by blast
    then show ?thesis using l q e by force
  next
    case False
    then show ?thesis using l q by (auto split: option.split sum.split)
  qed
qed simp

interpretation later: indexer_invariant cfg "only_later L old" "starts_from L" for cfg L old
proof unfold_locales
  fix s rq fs assume s: "only_later L old s" and rq: "starts_from L rq"
  obtain more where "rc_log (snd (snd (withRetry 1 rq fs (ix_rpc s)))) = rc_log (ix_rpc s) @ more" "set more \<subseteq> {rq}"
    using withRetry_log [of 1 rq fs "ix_rpc s"] by blast
  then show "only_later L old (s\<lparr>ix_rpc := snd (snd (withRetry 1 rq fs (ix_rpc s)))\<rparr>)"
    using s rq by (force simp: only_later_def)
next
  fix s b n f p assume "only_later L old s"
  then show "only_later L old (fst (process_page cfg b n f p s))"
    using process_page_lastLedger [of s cfg b n f p] by (auto simp: only_later_def frame_simps)
qed (auto simp: starts_from_def page_request_of_def only_later_def resume_ledger_def fill_cursors_def frame_simps Let_def)

text \<open>
  When the second page of a live poll cannot be fetched, the first page is stored, but every later
  request starts at the tip of that moment: the events of the missing pages are never asked for.\<close>

theorem live_error_skips_pages:
  assumes "accepted cfg f p" "full_page p" "\<not> fe_shutdown f" "ix_running s"
    and "withRetry 1 (page_request_of (Some (resume_ledger s)) None) (f # fs) (ix_rpc s) = (Got f (Page_result p), fs, rc)"
    and "withRetry 1 (page_request_of None (pg_cursor p)) fs rc = (Threw e, rest, rc')"
  shows "\<exists>s1. live_poll cfg db (f # fs) s = (s1, rest, Some (live_error_delay (ix_errors s + 1))) \<and>
    ix_tables s1 = fst (persistEvents (fe_db f) (parsed_batch cfg (pg_events p)) (ix_tables s)) \<and>
    (\<forall>dbs fs'. only_later (pg_latestLedger p) (rc_log (ix_rpc s1)) (live_polls cfg dbs fs' s1))"
proof -
  obtain c where c: "pg_cursor p = Some c" using assms(2) by (auto simp: full_page_def)
  obtain s1 where s1: "process_page cfg False 1 f p (s\<lparr>ix_rpc := rc\<rparr>) = (s1, Inr (Some c))" "ix_rpc s1 = rc"
    "ix_running s1" "pg_latestLedger p \<le> ix_lastLedger s1"
  proof (rule accepted_full_page [OF assms(1-3), of "s\<lparr>ix_rpc := rc\<rparr>" False 1])
    show "ix_running (s\<lparr>ix_rpc := rc\<rparr>)" using assms(4) by simp
  qed (use that c in simp)
  have i: "index_pages cfg False 1 (resume_ledger s) (Some c) fs s1 = (s1\<lparr>ix_rpc := rc'\<rparr>, rest, Failed e)"
    using assms(6) s1(2,3) c by (subst index_pages.simps) simp
  have "index_pages cfg False 0 (resume_ledger s) None (f # fs) s = (s1\<lparr>ix_rpc := rc'\<rparr>, rest, Failed e)"
    using assms(4,5) s1(1) i by (subst index_pages.simps) simp
  then have l: "live_poll cfg db (f # fs) s =
      (s1\<lparr>ix_rpc := rc', ix_errors := ix_errors s1 + 1\<rparr>, rest, Some (live_error_delay (ix_errors s1 + 1)))"
    by (simp add: live_poll_def indexFromLedger_def)
  have "ix_errors s1 = ix_errors s" "ix_tables s1 = fst (persistEvents (fe_db f) (parsed_batch cfg (pg_events p)) (ix_tables s))"
    using process_page_errors [of cfg False 1 f p "s\<lparr>ix_rpc := rc\<rparr>"] s1(1)
      process_page_tables [of cfg False 1 f p "s\<lparr>ix_rpc := rc\<rparr>"] by simp_all
  moreover have "only_later (pg_latestLedger p) (rc_log rc') (live_polls cfg dbs fs' (s1\<lparr>ix_rpc := rc', ix_errors := ix_errors s1 + 1\<rparr>))"
    for dbs fs' by (rule later.live_polls) (simp add: only_later_def s1(4))
  ultimately show ?thesis using l by simp
qed

definition wit_down :: fetch_env where
  "wit_down = \<lparr>fe_time = 0, fe_answer = Inl (Err ''down''), fe_db = (\<lambda>k. None), fe_flush = (\<lambda>c. None), fe_shutdown = False\<rparr>"

definition wit_limiter :: "rat \<Rightarrow> limiter" where
  "wit_limiter x = \<lparr>lim_tokens = Fin x, lim_last = 0, lim_queue = []\<rparr>"

lemma wit_acquire:
  assumes "x \<in> {1, 2, 3, 4}"
  shows "acquire c 0 (wit_limiter x) = (wit_limiter (x - 1), [c])"
proof -
  have "rnd x = Fin x" "rnd (x - 1) = Fin (x - 1)" using assms by auto
  moreover have "js_min (Fin 4) (Fin x) = Fin x" using assms by (auto simp: js_min_def)
  moreover have "(1::number) \<le> Fin x" using assms by (auto simp: one_number_def)
  moreover have "num_of_big 0 = Fin 0" by (simp add: num_of_big_def)
  ultimately show ?thesis
    by (simp add: acquire_def refill_def refilled_def RPC_MAX_CALLS_PER_SECOND_def wit_limiter_def one_number_def)
qed

lemma wit_new_limiter: "new_limiter 0 = wit_limiter 4"
  by (simp add: new_limiter_def RPC_MAX_CALLS_PER_SECOND_def wit_limiter_def)

lemma wit_fetch_page:
  assumes "fe_time f = 0" "x \<in> {1, 2, 3, 4}"
  shows "fetchEventPage rq f \<lparr>rc_limiter = wit_limiter x, rc_calls = n, rc_log = lg\<rparr> =
    (\<lparr>rc_limiter = wit_limiter (x - 1), rc_calls = n + 1, rc_log = lg @ [rq]\<rparr>, Some (fe_answer f))"
  using assms by (simp add: fetchEventPage_def wit_acquire)

theorem live_error_skips_pages_witness:
  "\<exists>s1. live_poll wit_cfg (\<lambda>c. None) [wit_fetch False (wit_page 200 (Some ''c'')), wit_down, wit_down, wit_down]
        (wit_indexer (new_limiter 0)) = (s1, [], Some 2000) \<and>
     (\<forall>dbs fs'. only_later 90 (rc_log (ix_rpc s1)) (live_polls wit_cfg dbs fs' s1))"
proof -
  let ?p = "wit_page 200 (Some ''c'')" and ?s = "wit_indexer (new_limiter 0)"
  let ?f = "wit_fetch False ?p" and ?fs = "[wit_down, wit_down, wit_down]"
  let ?rc = "\<lparr>rc_limiter = wit_limiter 3, rc_calls = 1, rc_log = [page_request_of (Some 1) None]\<rparr>"
  have full: "full_page ?p" by (simp add: full_page_def wit_page_def PAGE_LIMIT_def)
  have w1: "withRetry 1 (page_request_of (Some (resume_ledger ?s)) None) (?f # ?fs) (ix_rpc ?s) = (Got ?f (Page_result ?p), ?fs, ?rc)"
    by (simp add: wit_indexer_def wit_new_limiter wit_fetch_page wit_fetch_def resume_ledger_def)
  obtain rc' where w2: "withRetry 1 (page_request_of None (pg_cursor ?p)) ?fs ?rc = (Threw (Err ''down''), [], rc')"
    by (simp add: wit_fetch_page wit_down_def HUBBLE_MAX_RETRIES_def)
  from live_error_skips_pages [OF wit_accepted full _ _ w1 w2, of "\<lambda>c. None"] show ?thesis
    by (simp add: wit_fetch_def wit_indexer_def live_error_delay_def HUBBLE_RETRY_DELAY_BASE_MS_def wit_page_def) blast
qed

subsection \<open>A shutdown during the backfill\<close>

lemma map_of_updates:
  "map_of (fold (\<lambda>(c, l). AList.update c l) xs al) = map_of al ++ map_of (rev xs)"
proof (induction xs arbitrary: al)
  case (Cons x xs)
  then show ?case by (cases x) (simp add: AList.update_conv' map_add_upd_left fun_eq_iff map_add_def split: option.split)
qed simp

lemma map_of_fill:
  "map_of (fold (\<lambda>c cs. if map_of cs c = None then AList.update c l cs else cs) ws cs) c =
     (if map_of cs c = None \<and> c \<in> set ws then Some l else map_of cs c)"
  by (induction ws arbitrary: cs) (auto simp: AList.update_conv')

lemma distinct_fill:
  "distinct (map fst cs) \<Longrightarrow>
     distinct (map fst (fold (\<lambda>c cs. if map_of cs c = None then AList.update c l cs else cs) ws cs))"
  by (induction ws arbitrary: cs) (auto simp: AList.distinct_update)

lemma cursor_steps_keys:
  assumes "distinct (map fst (ix_cursors s))"
  shows "distinct (map fst (ix_cursors (fold cursor_step es s))) \<and>
    (c \<notin> hr_contractId ` set es \<longrightarrow> map_of (ix_cursors (fold cursor_step es s)) c = map_of (ix_cursors s) c)"
  using assms
proof (induction es arbitrary: s)
  case (Cons e es)
  have "distinct (map fst (ix_cursors (cursor_step e s)))"
    using Cons.prems by (simp add: cursor_step_def Let_def AList.distinct_update)
  from Cons.IH [OF this] show ?case by (auto simp: cursor_step_def Let_def AList.update_conv')
qed simp

lemma process_page_keys:
  assumes "distinct (map fst (ix_cursors s))" "c \<notin> hr_contractId ` set (pg_events p)"
  shows "distinct (map fst (ix_cursors (fst (process_page cfg b n f p s))))
    \<and> map_of (ix_cursors (fst (process_page cfg b n f p s))) c = map_of (ix_cursors s) c"
proof -
  have "distinct (map fst (ix_cursors (fst (processBatch cfg db (pg_events p) t)))) \<and>
      map_of (ix_cursors (fst (processBatch cfg db (pg_events p) t))) c = map_of (ix_cursors s) c"
    if "ix_cursors t = ix_cursors s" for db t
    using assms that cursor_steps_keys [of "t\<lparr>ix_tables := x\<rparr>" "pg_events p" c for x]
    by (auto simp: processBatch_def split: prod.split option.split)
  then show ?thesis using assms(1) by (simp add: process_page_cases Let_def split_beta flushCursors_def)
qed

text \<open>
  A shutdown during the backfill ends the pass as if it were complete: a watched contract without
  an event so far is given the tip as its cursor, which is saved, and after a restart the backfill
  resumes at or beyond the tip; the history in between is never fetched.\<close>

theorem shutdown_forgets_history:
  assumes "accepted cfg f p" "fe_shutdown f" "ix_running s"
    and "withRetry 1 (page_request_of (Some st) None) (f # fs) (ix_rpc s) = (Got f (Page_result p), fs, rc)"
    and "c \<in> set (hc_watched cfg)" "map_of (ix_cursors s) c = None" "c \<notin> hr_contractId ` set (pg_events p)"
    and "distinct (map fst (ix_cursors s))"
  shows "\<exists>s1. indexFromLedger cfg (\<lambda>c. None) st True (f # fs) s = (s1, fs, Finished) \<and>
    (\<forall>t. ix_saved t = ix_saved s1 \<longrightarrow> pg_latestLedger p \<le> resume_ledger (loadCursors t))"
proof -
  define q where "q = (if pg_cursor p = Some [] \<or> length (pg_events p) < PAGE_LIMIT then None else pg_cursor p)"
  obtain s1 where s1: "process_page cfg True 1 f p (s\<lparr>ix_rpc := rc\<rparr>) = (s1, Inr q)"
    "\<not> ix_running s1" "pg_latestLedger p \<le> ix_lastLedger s1"
    using accepted_page [OF assms(1), of True 1 "s\<lparr>ix_rpc := rc\<rparr>"] assms(2) unfolding q_def by blast
  have keys: "distinct (map fst (ix_cursors s1))" "map_of (ix_cursors s1) c = None"
    using process_page_keys [of "s\<lparr>ix_rpc := rc\<rparr>" c p cfg True 1 f] assms(6-8) s1(1) by auto
  have i: "index_pages cfg True 0 st None (f # fs) s = (s1, fs, Finished)"
  proof -
    have stop: "index_pages cfg True 1 st (Some x) fs s1 = (s1, fs, Finished)" for x
      using s1(2) by (subst index_pages.simps) simp
    show ?thesis using assms(3,4) s1(1) stop
      by (subst index_pages.simps) (auto simp del: withRetry.simps split: option.split)
  qed
  define s2 where "s2 = fill_cursors cfg s1"
  define s3 where "s3 = fst (flushCursors (\<lambda>c. None) s2)"
  have s3: "flushCursors (\<lambda>c. None) s2 = (s3, None)" using flush_accepted [of s2] by (simp add: s3_def prod_eq_iff)
  have d: "distinct (map fst (ix_cursors s2))" using distinct_fill [OF keys(1)] by (simp add: s2_def fill_cursors_def)
  have "map_of (ix_cursors s2) c = Some (ix_lastLedger s1)"
    using keys(2) assms(5) by (simp add: s2_def fill_cursors_def map_of_fill)
  then have "map_of (rev (ix_cursors s2)) c = Some (ix_lastLedger s1)"
    using d by (simp add: map_of_eq_Some_iff rev_map [symmetric])
  moreover have "filter (\<lambda>(c, l). True) xs = xs" for xs :: "(contract_id \<times> ledger_no) list" by (induction xs) auto
  ultimately have "map_of (ix_saved s3) c = Some (ix_lastLedger s1)"
    by (simp add: s3_def flushCursors_def map_of_updates)
  then have "ix_lastLedger s1 \<in> set (map snd (ix_saved s3))" by (force dest: map_of_SomeD)
  then have "ix_lastLedger s1 \<le> fold max (map snd (ix_saved s3)) 0" by (rule fold_max_ge(2))
  then have "pg_latestLedger p \<le> resume_ledger (loadCursors t)" if "ix_saved t = ix_saved s3" for t
    using that s1(3) by (simp add: loadCursors_def resume_ledger_def)
  then show ?thesis using i s3 by (auto simp: indexFromLedger_def s2_def)
qed

theorem shutdown_forgets_history_witness:
  "\<exists>s1. indexFromLedger wit_cfg (\<lambda>c. None) 1 True [wit_fetch True (wit_page 200 (Some ''c''))]
       (wit_indexer (new_limiter 0)) = (s1, [], Finished) \<and> 90 \<le> resume_ledger (loadCursors s1)"
proof -
  let ?p = "wit_page 200 (Some ''c'')" and ?s = "wit_indexer (new_limiter 0)"
  let ?rc = "\<lparr>rc_limiter = wit_limiter 3, rc_calls = 1, rc_log = [page_request_of (Some 1) None]\<rparr>"
  have w: "withRetry 1 (page_request_of (Some 1) None) [wit_fetch True ?p] (ix_rpc ?s) =
      (Got (wit_fetch True ?p) (Page_result ?p), [], ?rc)"
    by (simp add: wit_indexer_def wit_new_limiter wit_fetch_page wit_fetch_def)
  from shutdown_forgets_history [OF wit_accepted _ _ w, of "''L''"] show ?thesis
    by (auto simp: wit_fetch_def wit_indexer_def wit_cfg_def wit_page_def wit_deposit_def)
qed

end
