(* ===== verification/Metric_Aggregator.thy ===== *)
theory Metric_Aggregator
  imports Risk_Engine Contract_Client
begin

text \<open>
  \<open>metric-aggregator/index.ts\<close> and \<open>metrics-cron/index.ts\<close>: the hourly utilisation and revenue
  snapshots and the five-minute protocol metrics they read. The tables are lists of rows; a refused
  query or write is an optional error.
\<close>

subsection \<open>Time\<close>

definition hour_ms :: millis where "hour_ms = 60 * 60 * 1000"

definition hourFloor :: "millis \<Rightarrow> millis" where
  "hourFloor d = d - d mod hour_ms"

definition previousHourWindow :: "millis \<Rightarrow> millis \<times> millis" where
  "previousHourWindow now = (hourFloor now - hour_ms, hourFloor now)"

definition in_window :: "millis \<Rightarrow> millis \<Rightarrow> millis \<Rightarrow> bool" where
  "in_window windowStart windowEnd t \<longleftrightarrow> windowStart \<le> t \<and> t < windowEnd"

subsection \<open>Tables\<close>

record amount_event =
  am_contract :: contract_id
  am_at :: millis
  am_amount :: stroops

record liq_event =
  lq_contract :: contract_id
  lq_at :: millis
  lq_collateralSeized :: stroops
  lq_debtRepaid :: stroops

record collateral_position =
  co_wallet :: wallet
  co_sxlmDeposited :: stroops
  co_xlmBorrowed :: stroops
  co_healthFactor :: number

record metrics_row =
  me_totalStaked :: stroops
  me_totalSupply :: stroops
  me_tvlUsd :: number
  me_avgValidatorScore :: number
  me_protocolFees :: stroops
  me_updatedAt :: millis

record util_row =
  ut_contract :: contract_id
  ut_windowStart :: millis
  ut_windowEnd :: millis
  ut_totalDeposited :: stroops
  ut_totalBorrowed :: stroops
  ut_rate :: number

datatype revenue_source = LENDING | LP | TREASURY

record revenue_row =
  rv_source :: revenue_source
  rv_windowStart :: millis
  rv_windowEnd :: millis
  rv_amount :: stroops

record metric_db =
  md_flash :: "amount_event list"        \<comment> \<open>the fees of flash loans\<close>
  md_liqs :: "liq_event list"
  md_borrows :: "amount_event list"
  md_repays :: "amount_event list"
  md_positions :: "collateral_position list"
  md_metrics :: "metrics_row list"
  md_validators :: "validator list"
  md_util :: "util_row list"
  md_revenue :: "revenue_row list"

definition sum_in :: "contract_id \<Rightarrow> millis \<Rightarrow> millis \<Rightarrow> amount_event list \<Rightarrow> stroops" where
  "sum_in c a b es = sum_list (map am_amount (filter (\<lambda>e. am_contract e = c \<and> in_window a b (am_at e)) es))"

subsection \<open>Utilisation\<close>

text \<open>\<open>null\<close> for a view that fails or returns nothing.\<close>

definition queryView :: "js_error + native option \<Rightarrow> native option" where
  "queryView r = (case r of Inl e \<Rightarrow> None | Inr v \<Rightarrow> if v = Some N_null then None else v)"

definition view_totals :: "js_error + native option \<Rightarrow> js_error + native option \<Rightarrow> (stroops \<times> stroops) option" where
  "view_totals collateral borrowed =
     (case (queryView collateral, queryView borrowed) of
        (Some c, Some b) \<Rightarrow>
          (case (big_of_native c, big_of_native b) of (Inr x, Inr y) \<Rightarrow> Some (x, y) | _ \<Rightarrow> None)
      | _ \<Rightarrow> None)"

definition utilizationRate :: "stroops \<Rightarrow> stroops \<Rightarrow> number" where
  "utilizationRate totalDeposited totalBorrowed =
     (if totalDeposited > 0 then num_of_big totalBorrowed / num_of_big totalDeposited else 0)"

text \<open>\<open>db\<close> is the first refusal among the job's queries and its write, which is the last of them.\<close>

definition runUtilizationJob ::
  "contract_id \<Rightarrow> js_error + native option \<Rightarrow> js_error + native option \<Rightarrow> js_error option \<Rightarrow> millis \<Rightarrow> millis \<Rightarrow>
     metric_db \<Rightarrow> metric_db \<times> js_error option" where
  "runUtilizationJob lending collateral borrowed db windowStart windowEnd s =
     (let (totalDeposited, totalBorrowed) =
            (case view_totals collateral borrowed of
               Some t \<Rightarrow> t
             | None \<Rightarrow> (sum_list (map co_sxlmDeposited (md_positions s)), sum_list (map co_xlmBorrowed (md_positions s))))
      in case db of
           Some e \<Rightarrow> (s, Some e)
         | None \<Rightarrow> (s\<lparr>md_util := upsert_by (\<lambda>u. (ut_contract u, ut_windowStart u))
             \<lparr>ut_contract = lending, ut_windowStart = windowStart, ut_windowEnd = windowEnd,
              ut_totalDeposited = totalDeposited, ut_totalBorrowed = totalBorrowed,
              ut_rate = utilizationRate totalDeposited totalBorrowed\<rparr> (md_util s)\<rparr>, None))"

subsection \<open>Revenue\<close>

abbreviation rv_key :: "revenue_row \<Rightarrow> revenue_source \<times> millis" where
  "rv_key r \<equiv> (rv_source r, rv_windowStart r)"

definition upsertRevenueSnapshot ::
  "revenue_source \<Rightarrow> millis \<Rightarrow> millis \<Rightarrow> stroops \<Rightarrow> js_error option \<Rightarrow> metric_db \<Rightarrow> metric_db \<times> js_error option" where
  "upsertRevenueSnapshot source windowStart windowEnd amt db s =
     (case db of
        Some e \<Rightarrow> (s, Some e)
      | None \<Rightarrow> (s\<lparr>md_revenue := upsert_by rv_key
          \<lparr>rv_source = source, rv_windowStart = windowStart, rv_windowEnd = windowEnd, rv_amount = amt\<rparr>
          (md_revenue s)\<rparr>, None))"

definition liquidationBonus :: "liq_event list \<Rightarrow> stroops" where
  "liquidationBonus evs =
     foldl (\<lambda>acc ev. let bonus = lq_collateralSeized ev - lq_debtRepaid ev in if bonus > 0 then acc + bonus else acc) 0 evs"

definition lending_revenue :: "contract_id \<Rightarrow> millis \<Rightarrow> millis \<Rightarrow> metric_db \<Rightarrow> stroops" where
  "lending_revenue lending a b s =
     sum_in lending a b (md_flash s) +
     liquidationBonus (filter (\<lambda>e. lq_contract e = lending \<and> in_window a b (lq_at e)) (md_liqs s))"

definition computeLendingRevenue ::
  "contract_id \<Rightarrow> js_error option \<Rightarrow> millis \<Rightarrow> millis \<Rightarrow> metric_db \<Rightarrow> metric_db \<times> js_error option" where
  "computeLendingRevenue lending db a b s = upsertRevenueSnapshot LENDING a b (lending_revenue lending a b s) db s"

definition computeLpRevenue ::
  "contract_id \<Rightarrow> js_error option \<Rightarrow> millis \<Rightarrow> millis \<Rightarrow> metric_db \<Rightarrow> metric_db \<times> js_error option" where
  "computeLpRevenue lpPool db a b s = upsertRevenueSnapshot LP a b (sum_in lpPool a b (md_flash s)) db s"

definition metrics_at :: "millis \<Rightarrow> metrics_row list \<Rightarrow> metrics_row option" where
  "metrics_at t rows =
     (case sort_key (\<lambda>r. - me_updatedAt r) (filter (\<lambda>r. me_updatedAt r \<le> t) rows) of [] \<Rightarrow> None | r # _ \<Rightarrow> Some r)"

definition treasury_revenue :: "millis \<Rightarrow> millis \<Rightarrow> metrics_row list \<Rightarrow> stroops" where
  "treasury_revenue a b rows =
     (case (metrics_at a rows, metrics_at b rows) of
        (Some before, Some after) \<Rightarrow>
          (let delta = me_protocolFees after - me_protocolFees before in if delta > 0 then delta else 0)
      | _ \<Rightarrow> 0)"

definition computeTreasuryRevenue ::
  "js_error option \<Rightarrow> millis \<Rightarrow> millis \<Rightarrow> metric_db \<Rightarrow> metric_db \<times> js_error option" where
  "computeTreasuryRevenue db a b s = upsertRevenueSnapshot TREASURY a b (treasury_revenue a b (md_metrics s)) db s"

text \<open>The three run concurrently on different rows; a failure of one does not stop the others.\<close>

record revenue_env =
  re_lending :: "js_error option"
  re_lp :: "js_error option"
  re_treasury :: "js_error option"

definition runRevenueJob ::
  "contract_id \<Rightarrow> contract_id \<Rightarrow> revenue_env \<Rightarrow> millis \<Rightarrow> millis \<Rightarrow> metric_db \<Rightarrow> metric_db \<times> js_error option" where
  "runRevenueJob lending lpPool ev a b s =
     (let (s1, r1) = computeLendingRevenue lending (re_lending ev) a b s;
          (s2, r2) = computeLpRevenue lpPool (re_lp ev) a b s1;
          (s3, r3) = computeTreasuryRevenue (re_treasury ev) a b s2
      in (s3, if r1 \<noteq> None then r1 else if r2 \<noteq> None then r2 else r3))"

text \<open>Both hourly tasks, and the pass at start-up, for the hour before \<open>now\<close>; errors are logged.\<close>

record hourly_env =
  hv_now :: millis
  hv_collateral :: "js_error + native option"
  hv_borrowed :: "js_error + native option"
  hv_util :: "js_error option"
  hv_revenue :: revenue_env

definition hourly_jobs :: "contract_id \<Rightarrow> contract_id \<Rightarrow> hourly_env \<Rightarrow> metric_db \<Rightarrow> metric_db" where
  "hourly_jobs lending lpPool ev s =
     (let (windowStart, windowEnd) = previousHourWindow (hv_now ev);
          (s1, r) = runUtilizationJob lending (hv_collateral ev) (hv_borrowed ev) (hv_util ev) windowStart windowEnd s
      in fst (runRevenueJob lending lpPool (hv_revenue ev) windowStart windowEnd s1))"

subsection \<open>The protocol metrics\<close>

text \<open>The answer of the price service: whether it succeeded and the price it holds, if any.\<close>

record price_reply =
  pr_ok :: bool
  pr_usd :: "number option"

definition fetchXlmPrice :: "js_error + price_reply \<Rightarrow> number \<Rightarrow> number" where
  "fetchXlmPrice r lastXlmPrice =
     (case r of
        Inl e \<Rightarrow> lastXlmPrice
      | Inr p \<Rightarrow>
          if \<not> pr_ok p then lastXlmPrice
          else (case pr_usd p of
                  None \<Rightarrow> lastXlmPrice
                | Some v \<Rightarrow> if v = NaN \<or> v = 0 then lastXlmPrice else v))"

definition metrics_totals :: "int view_env \<Rightarrow> int view_env \<Rightarrow> metrics_row list \<Rightarrow> stroops \<times> stroops" where
  "metrics_totals staked supply_env rows =
     (case (getTotalStaked staked, getTotalSupply supply_env) of
        (Inr a, Inr b) \<Rightarrow> (a, b)
      | _ \<Rightarrow> (case sort_key (\<lambda>r. - me_updatedAt r) rows of
                [] \<Rightarrow> (0, 0)
              | r # _ \<Rightarrow> (me_totalStaked r, me_totalSupply r)))"

definition avgValidatorScore :: "validator list \<Rightarrow> number" where
  "avgValidatorScore vs =
     (if vs = [] then 0
      else foldl (\<lambda>acc v. acc + Fin (performanceScore v)) 0 vs / Fin (of_nat (length vs)))"

text \<open>The row of a snapshot; the fees are not given, so the column's default is stored.\<close>

definition takeMetricsSnapshot ::
  "int view_env \<Rightarrow> int view_env \<Rightarrow> js_error option \<Rightarrow> number \<Rightarrow> millis \<Rightarrow> metric_db \<Rightarrow> metric_db \<times> js_error option" where
  "takeMetricsSnapshot staked supply_env db price now s =
     (let (totalStaked, totalSupply) = metrics_totals staked supply_env (md_metrics s);
          totalStakedXlm = num_of_big totalStaked / Fin 10000000;
          tvlUsd = totalStakedXlm * (if price = NaN then 0 else price)
      in case db of
           Some e \<Rightarrow> (s, Some e)
         | None \<Rightarrow> (s\<lparr>md_metrics := md_metrics s @
             [\<lparr>me_totalStaked = totalStaked, me_totalSupply = totalSupply, me_tvlUsd = tvlUsd,
               me_avgValidatorScore = avgValidatorScore (md_validators s), me_protocolFees = 0,
               me_updatedAt = now\<rparr>]\<rparr>, None))"

record cron_env =
  cr_price :: "js_error + price_reply"
  cr_staked :: "int view_env"
  cr_supply :: "int view_env"
  cr_db :: "js_error option"
  cr_now :: millis

definition metrics_cron_tick :: "cron_env \<Rightarrow> number \<times> metric_db \<Rightarrow> number \<times> metric_db" where
  "metrics_cron_tick ev ps =
     (let price = fetchXlmPrice (cr_price ev) (fst ps)
      in (price, fst (takeMetricsSnapshot (cr_staked ev) (cr_supply ev) (cr_db ev) price (cr_now ev) (snd ps))))"

text \<open>The two services on the same database, with the indexer's inserts in between.\<close>

datatype metric_op =
    Hourly hourly_env
  | Cron_tick cron_env
  | Indexed "amount_event list" "liq_event list" "amount_event list" "amount_event list"

fun metric_step :: "contract_id \<Rightarrow> contract_id \<Rightarrow> metric_op \<Rightarrow> number \<times> metric_db \<Rightarrow> number \<times> metric_db" where
  "metric_step lending lpPool (Hourly ev) (p, s) = (p, hourly_jobs lending lpPool ev s)"
| "metric_step lending lpPool (Cron_tick ev) (p, s) = metrics_cron_tick ev (p, s)"
| "metric_step lending lpPool (Indexed fs ls bs rs) (p, s) =
     (p, s\<lparr>md_flash := md_flash s @ fs, md_liqs := md_liqs s @ ls, md_borrows := md_borrows s @ bs, md_repays := md_repays s @ rs\<rparr>)"

definition metric_run :: "contract_id \<Rightarrow> contract_id \<Rightarrow> metric_op list \<Rightarrow> number \<times> metric_db \<Rightarrow> number \<times> metric_db" where
  "metric_run lending lpPool ops ps = fold (metric_step lending lpPool) ops ps"

subsection \<open>Treasury revenue\<close>

lemma metrics_at_mem: "metrics_at t rows = Some r \<Longrightarrow> r \<in> set rows"
proof -
  assume "metrics_at t rows = Some r"
  then have "r \<in> set (sort_key (\<lambda>r. - me_updatedAt r) (filter (\<lambda>r. me_updatedAt r \<le> t) rows))"
    by (auto simp: metrics_at_def simp del: set_sort split: list.splits)
  then show ?thesis by simp
qed

definition no_fees :: "metric_db \<Rightarrow> bool" where
  "no_fees s \<longleftrightarrow> (\<forall>r\<in>set (md_metrics s). me_protocolFees r = 0) \<and>
     (\<forall>r\<in>set (md_revenue s). rv_source r = TREASURY \<longrightarrow> rv_amount r = 0)"

lemma upsertRevenueSnapshot_frame [frame_simps]:
  "md_metrics (fst (upsertRevenueSnapshot src a b x db s)) = md_metrics s"
  "md_flash (fst (upsertRevenueSnapshot src a b x db s)) = md_flash s"
  "md_liqs (fst (upsertRevenueSnapshot src a b x db s)) = md_liqs s"
  by (simp_all add: upsertRevenueSnapshot_def split: option.split)

lemma upsertRevenueSnapshot_no_fees:
  "no_fees s \<Longrightarrow> (src = TREASURY \<Longrightarrow> x = 0) \<Longrightarrow> no_fees (fst (upsertRevenueSnapshot src a b x db s))"
  by (auto simp: no_fees_def upsertRevenueSnapshot_def dest!: upsert_by_mem split: option.split)

lemma treasury_revenue_0: "(\<And>r. r \<in> set rows \<Longrightarrow> me_protocolFees r = 0) \<Longrightarrow> treasury_revenue a b rows = 0"
  by (auto simp: treasury_revenue_def dest!: metrics_at_mem split: option.split)

lemma runRevenueJob_fst:
  "fst (runRevenueJob l p ev a b s) =
     fst (computeTreasuryRevenue (re_treasury ev) a b
       (fst (computeLpRevenue p (re_lp ev) a b (fst (computeLendingRevenue l (re_lending ev) a b s)))))"
  by (simp add: runRevenueJob_def split_beta Let_def)

lemma runRevenueJob_no_fees: "no_fees s \<Longrightarrow> no_fees (fst (runRevenueJob l p ev a b s))"
  unfolding runRevenueJob_fst computeTreasuryRevenue_def computeLpRevenue_def computeLendingRevenue_def
  by (intro upsertRevenueSnapshot_no_fees treasury_revenue_0) (auto simp: no_fees_def frame_simps)

lemma runUtilizationJob_frame [frame_simps]:
  "md_metrics (fst (runUtilizationJob l c b db x y s)) = md_metrics s"
  "md_revenue (fst (runUtilizationJob l c b db x y s)) = md_revenue s"
  by (simp_all add: runUtilizationJob_def split_beta Let_def split: option.split)

lemma metric_step_no_fees [inv_intros]: "no_fees (snd ps) \<Longrightarrow> no_fees (snd (metric_step l p op ps))"
proof (induction l p op ps rule: metric_step.induct)
  case (1 l p ev q s)
  then have "no_fees (fst (runUtilizationJob l (hv_collateral ev) (hv_borrowed ev) (hv_util ev) a b s))" for a b
    by (simp add: no_fees_def frame_simps)
  then show ?case by (simp add: hourly_jobs_def split_beta Let_def runRevenueJob_no_fees)
next
  case (2 l p ev q s)
  then show ?case
    by (auto simp: metrics_cron_tick_def takeMetricsSnapshot_def no_fees_def split_beta Let_def split: option.split)
next
  case (3 l p fs ls bs rs q s)
  then show ?case by (simp add: no_fees_def)
qed

text \<open>
  Nothing ever writes the protocol's fees: the only writer of the metrics table leaves the column
  at its default. So whatever happens, every treasury revenue the aggregator stores is zero.\<close>

theorem treasury_revenue_is_always_zero:
  assumes "md_metrics s = []" "md_revenue s = []"
    and "r \<in> set (md_revenue (snd (metric_run lending lpPool ops (price, s))))" "rv_source r = TREASURY"
  shows "rv_amount r = 0"
proof -
  have "no_fees (snd ps) \<Longrightarrow> no_fees (snd (metric_run lending lpPool ops ps))" for ps
    by (induction ops arbitrary: ps) (simp_all add: metric_run_def metric_step_no_fees)
  from this [of "(price, s)"] have "no_fees (snd (metric_run lending lpPool ops (price, s)))"
    using assms(1,2) by (simp add: no_fees_def)
  then show ?thesis using assms(3,4) unfolding no_fees_def by blast
qed

definition empty_metric_db :: metric_db where
  "empty_metric_db = \<lparr>md_flash = [], md_liqs = [], md_borrows = [], md_repays = [], md_positions = [],
     md_metrics = [], md_validators = [], md_util = [], md_revenue = []\<rparr>"

definition wit_hourly :: "millis \<Rightarrow> hourly_env" where
  "wit_hourly now = \<lparr>hv_now = now, hv_collateral = Inr (Some (N_big 100)), hv_borrowed = Inr (Some (N_big 40)), hv_util = None,
     hv_revenue = \<lparr>re_lending = None, re_lp = None, re_treasury = None\<rparr>\<rparr>"

lemma wit_hourly_revenue:
  "hourly_jobs ''L'' ''P'' (wit_hourly 7200000) empty_metric_db =
     fst (runRevenueJob ''L'' ''P'' \<lparr>re_lending = None, re_lp = None, re_treasury = None\<rparr> 3600000 7200000
       (fst (runUtilizationJob ''L'' (Inr (Some (N_big 100))) (Inr (Some (N_big 40))) None 3600000 7200000 empty_metric_db)))"
  by (simp add: hourly_jobs_def wit_hourly_def previousHourWindow_def hourFloor_def hour_ms_def split_beta Let_def)

theorem treasury_revenue_is_always_zero_witness:
  "\<exists>r. r \<in> set (md_revenue (snd (metric_run ''L'' ''P'' [Hourly (wit_hourly 7200000)] (0, empty_metric_db)))) \<and>
     rv_source r = TREASURY \<and> rv_amount r = 0"
proof -
  let ?s = "snd (metric_run ''L'' ''P'' [Hourly (wit_hourly 7200000)] (0, empty_metric_db))"
  have "(TREASURY, 3600000) \<in> rv_key ` set (md_revenue ?s)"
    by (simp add: metric_run_def wit_hourly_revenue runRevenueJob_fst computeTreasuryRevenue_def upsertRevenueSnapshot_def)
  then obtain r where r: "r \<in> set (md_revenue ?s)" "rv_source r = TREASURY" by auto
  then have "rv_amount r = 0" by (rule treasury_revenue_is_always_zero [rotated 2]) (simp_all add: empty_metric_db_def)
  then show ?thesis using r by blast
qed

subsection \<open>Lending and pool revenue\<close>

lemma sum_in_split: "a \<le> b \<Longrightarrow> b \<le> c \<Longrightarrow> sum_in k a b es + sum_in k b c es = sum_in k a c es"
  by (induction es) (auto simp: sum_in_def in_window_def)

definition bonus_of :: "liq_event \<Rightarrow> stroops" where
  "bonus_of ev = max 0 (lq_collateralSeized ev - lq_debtRepaid ev)"

lemma liquidationBonus_sum: "liquidationBonus evs = sum_list (map bonus_of evs)"
proof -
  have "foldl (\<lambda>acc ev. let bonus = lq_collateralSeized ev - lq_debtRepaid ev in if bonus > 0 then acc + bonus else acc) n evs =
      n + sum_list (map bonus_of evs)" for n
    by (induction evs arbitrary: n) (simp_all add: bonus_of_def Let_def max_def)
  from this [of 0] show ?thesis by (simp add: liquidationBonus_def)
qed

lemma bonus_split:
  assumes "a \<le> b" "b \<le> c"
  shows "liquidationBonus (filter (\<lambda>e. lq_contract e = k \<and> in_window a b (lq_at e)) evs) +
      liquidationBonus (filter (\<lambda>e. lq_contract e = k \<and> in_window b c (lq_at e)) evs) =
    liquidationBonus (filter (\<lambda>e. lq_contract e = k \<and> in_window a c (lq_at e)) evs)"
  unfolding liquidationBonus_sum using assms by (induction evs) (auto simp: in_window_def)

lemma lending_revenue_split:
  "a \<le> b \<Longrightarrow> b \<le> c \<Longrightarrow> lending_revenue k a b s + lending_revenue k b c s = lending_revenue k a c s"
  using sum_in_split [of a b c k "md_flash s"] bonus_split [of a b c k "md_liqs s"] by (simp add: lending_revenue_def)

text \<open>The jobs of the hours \<open>0 .. n - 1\<close> from \<open>a\<close> on, and the amount stored for an hour.\<close>

fun revenue_hours :: "contract_id \<Rightarrow> contract_id \<Rightarrow> millis \<Rightarrow> nat \<Rightarrow> metric_db \<Rightarrow> metric_db" where
  "revenue_hours l p a 0 s = s"
| "revenue_hours l p a (Suc n) s =
     fst (runRevenueJob l p \<lparr>re_lending = None, re_lp = None, re_treasury = None\<rparr>
       (a + int n * hour_ms) (a + int (Suc n) * hour_ms) (revenue_hours l p a n s))"

definition stored_revenue :: "revenue_source \<Rightarrow> millis \<Rightarrow> metric_db \<Rightarrow> stroops" where
  "stored_revenue src w s = (case lookup_by rv_key (src, w) (md_revenue s) of None \<Rightarrow> 0 | Some r \<Rightarrow> rv_amount r)"

lemma stored_upsert:
  "stored_revenue src w (fst (upsertRevenueSnapshot src' a b x None s)) =
     (if src = src' \<and> w = a then x else stored_revenue src w s)"
  by (simp add: stored_revenue_def upsertRevenueSnapshot_def lookup_upsert)

lemma revenue_hours_events: "md_flash (revenue_hours l p a n s) = md_flash s \<and> md_liqs (revenue_hours l p a n s) = md_liqs s"
  by (induction n) (simp_all add: runRevenueJob_fst computeTreasuryRevenue_def computeLpRevenue_def computeLendingRevenue_def frame_simps)

lemma stored_job:
  "stored_revenue LENDING w (revenue_hours l p a (Suc n) s) =
     (if w = a + int n * hour_ms then lending_revenue l w (w + hour_ms) s else stored_revenue LENDING w (revenue_hours l p a n s))"
  "stored_revenue LP w (revenue_hours l p a (Suc n) s) =
     (if w = a + int n * hour_ms then sum_in p w (w + hour_ms) (md_flash s) else stored_revenue LP w (revenue_hours l p a n s))"
  using revenue_hours_events [of l p a n s]
  by (simp_all add: runRevenueJob_fst computeTreasuryRevenue_def computeLpRevenue_def computeLendingRevenue_def stored_upsert
      lending_revenue_def frame_simps algebra_simps)

lemma stored_hour:
  "i < n \<Longrightarrow> stored_revenue LENDING (a + int i * hour_ms) (revenue_hours l p a n s) =
     lending_revenue l (a + int i * hour_ms) (a + int i * hour_ms + hour_ms) s"
  "i < n \<Longrightarrow> stored_revenue LP (a + int i * hour_ms) (revenue_hours l p a n s) =
     sum_in p (a + int i * hour_ms) (a + int i * hour_ms + hour_ms) (md_flash s)"
proof (induction n)
  case (Suc n)
  { case 1 then show ?case using Suc.IH(1) by (cases "i = n") (auto simp: stored_job hour_ms_def simp del: revenue_hours.simps) }
  { case 2 then show ?case using Suc.IH(2) by (cases "i = n") (auto simp: stored_job hour_ms_def simp del: revenue_hours.simps) }
qed simp_all


lemma stored_upsert_other:
  "w \<noteq> a \<Longrightarrow> stored_revenue src w (fst (upsertRevenueSnapshot src' a b x db s)) = stored_revenue src w s"
  by (cases db) (simp_all add: stored_revenue_def upsertRevenueSnapshot_def lookup_upsert)

lemma metric_step_past:
  assumes "\<And>ev. op = Hourly ev \<Longrightarrow> w < fst (previousHourWindow (hv_now ev))"
  shows "stored_revenue src w (snd (metric_step l p op ps)) = stored_revenue src w (snd ps)"
  using assms
proof (induction l p op ps rule: metric_step.induct)
  case (1 l p ev q s)
  then have w: "w \<noteq> fst (previousHourWindow (hv_now ev))" by force
  have u: "stored_revenue src w (fst (runUtilizationJob l c b db x y s)) = stored_revenue src w s" for c b db x y
    by (simp add: stored_revenue_def frame_simps)
  show ?case using w u
    by (simp add: hourly_jobs_def split_beta Let_def runRevenueJob_fst computeTreasuryRevenue_def computeLpRevenue_def
        computeLendingRevenue_def stored_upsert_other)
next
  case (2 l p ev q s)
  then show ?case
    by (simp add: metrics_cron_tick_def takeMetricsSnapshot_def stored_revenue_def split_beta Let_def split: option.split)
next
  case (3 l p fs ls bs rs q s)
  then show ?case by (simp add: stored_revenue_def)
qed

text \<open>
  The revenue of an hour is fixed by the one job that runs when the hour ends: once later jobs only
  look at later hours, no event of that hour that is indexed afterwards ever changes the amount.\<close>

theorem late_events_are_never_counted:
  assumes "\<forall>op\<in>set ops. \<forall>ev. op = Hourly ev \<longrightarrow> w < fst (previousHourWindow (hv_now ev))"
  shows "stored_revenue src w (snd (metric_run l p (Indexed fs ls bs rs # ops) ps)) = stored_revenue src w (snd ps)"
proof -
  have "\<forall>op\<in>set ops'. \<forall>ev. op = Hourly ev \<longrightarrow> w < fst (previousHourWindow (hv_now ev)) \<Longrightarrow>
      stored_revenue src w (snd (metric_run l p ops' ps)) = stored_revenue src w (snd ps)" for ops' ps
    by (induction ops' arbitrary: ps) (simp_all add: metric_run_def metric_step_past)
  from this [of "Indexed fs ls bs rs # ops" ps] show ?thesis using assms by simp
qed

theorem late_events_are_never_counted_witness:
  "stored_revenue LP 3600000 (snd (metric_run ''L'' ''P''
     [Indexed [\<lparr>am_contract = ''P'', am_at = 7199000, am_amount = 5\<rparr>] [] [] [], Hourly (wit_hourly 10800000)]
     (0, hourly_jobs ''L'' ''P'' (wit_hourly 7200000) empty_metric_db))) =
   stored_revenue LP 3600000 (hourly_jobs ''L'' ''P'' (wit_hourly 7200000) empty_metric_db)"
proof -
  have "\<forall>op\<in>set [Hourly (wit_hourly 10800000)]. \<forall>ev. op = Hourly ev \<longrightarrow> 3600000 < fst (previousHourWindow (hv_now ev))"
    by (simp add: wit_hourly_def previousHourWindow_def hourFloor_def hour_ms_def)
  from late_events_are_never_counted [OF this, of LP "''L''" "''P''"] show ?thesis by simp
qed

subsection \<open>Utilisation rates\<close>

definition util_ok :: "util_row \<Rightarrow> bool" where
  "util_ok r \<longleftrightarrow> (\<exists>q. ut_rate r = Fin q \<and> 0 \<le> q \<and> (ut_totalBorrowed r \<le> ut_totalDeposited r \<longrightarrow> q \<le> 1))"

lemma utilizationRate_bounds:
  assumes "0 \<le> d" "d \<le> 2^100" "0 \<le> b" "b \<le> 2^100"
  shows "\<exists>q. utilizationRate d b = Fin q \<and> 0 \<le> q \<and> (b \<le> d \<longrightarrow> q \<le> 1)"
proof (cases "0 < d")
  case True
  note nd = num_of_big_110 [OF assms(1,2)] and nb = num_of_big_110 [OF assms(3,4)]
  let ?d = "rndq (of_int d)" and ?b = "rndq (of_int b)"
  have d1: "1 \<le> ?d" using True by (intro pos_num_of_big) simp
  then have "?b / ?d \<le> ?b" using nb(2) divide_left_mono [of 1 ?d ?b] by simp
  also have "\<dots> \<le> 2^110" by (rule order_trans [OF nb(3)]) (rule power_increasing, auto)
  finally have "rnd (?b / ?d) = Fin (rndq (?b / ?d))" using nb(2) d1 by (intro rnd_110) simp
  moreover have "b \<le> d \<longrightarrow> rndq (?b / ?d) \<le> 1"
    using nb(2) by (auto intro!: dbl.quotient_le_one rndq_mono)
  moreover have "0 \<le> rndq (?b / ?d)" using nb(2) d1 by (intro rndq_nonneg) simp
  ultimately show ?thesis using True nd nb d1 by (auto simp: utilizationRate_def)
qed (auto simp: utilizationRate_def zero_number_def)

text \<open>
  A utilisation snapshot of nonnegative totals up to \<open>2 ^ 100\<close>, read from the contract or summed
  from the positions, has a finite nonnegative rate, and one up to 1 when no more is borrowed than
  deposited.\<close>

theorem utilization_snapshot_in_range:
  assumes "case view_totals c b of
      Some (x, y) \<Rightarrow> 0 \<le> x \<and> x \<le> 2^100 \<and> 0 \<le> y \<and> y \<le> 2^100
    | None \<Rightarrow> (let x = sum_list (map co_sxlmDeposited (md_positions s)); y = sum_list (map co_xlmBorrowed (md_positions s))
              in 0 \<le> x \<and> x \<le> 2^100 \<and> 0 \<le> y \<and> y \<le> 2^100)"
    and "runUtilizationJob lending c b db w w' s = (s', None)" "\<forall>r\<in>set (md_util s). util_ok r"
  shows "(\<forall>r\<in>set (md_util s'). util_ok r) \<and>
    (\<exists>r. lookup_by (\<lambda>u. (ut_contract u, ut_windowStart u)) (lending, w) (md_util s') = Some r \<and> ut_windowEnd r = w')"
proof -
  obtain x y where xy: "(case view_totals c b of Some t \<Rightarrow> t
      | None \<Rightarrow> (sum_list (map co_sxlmDeposited (md_positions s)), sum_list (map co_xlmBorrowed (md_positions s)))) = (x, y)"
    "0 \<le> x" "x \<le> 2^100" "0 \<le> y" "y \<le> 2^100"
    using assms(1) by (cases "view_totals c b") (auto simp: Let_def)
  define r where "r = \<lparr>ut_contract = lending, ut_windowStart = w, ut_windowEnd = w', ut_totalDeposited = x,
    ut_totalBorrowed = y, ut_rate = utilizationRate x y\<rparr>"
  have s': "md_util s' = upsert_by (\<lambda>u. (ut_contract u, ut_windowStart u)) r (md_util s)"
    using assms(2) xy(1) by (auto simp: runUtilizationJob_def r_def split: option.splits)
  have "util_ok r" using utilizationRate_bounds [OF xy(2-5)] by (simp add: util_ok_def r_def)
  then show ?thesis using assms(3) by (auto simp: s' lookup_upsert r_def dest!: upsert_by_mem)
qed

theorem utilization_snapshot_in_range_witness:
  "\<exists>s'. runUtilizationJob ''L'' (Inr (Some (N_big 100))) (Inr (Some (N_big 40))) None 0 3600000 empty_metric_db = (s', None) \<and>
     list_all util_ok (md_util s')"
proof -
  obtain s' where s': "runUtilizationJob ''L'' (Inr (Some (N_big 100))) (Inr (Some (N_big 40))) None 0 3600000 empty_metric_db = (s', None)"
    by (simp add: runUtilizationJob_def view_totals_def queryView_def)
  have "list_all util_ok (md_util s')"
    unfolding list_all_iff
    by (rule conjunct1 [OF utilization_snapshot_in_range [OF _ s']])
      (simp_all add: view_totals_def queryView_def empty_metric_db_def)
  then show ?thesis using s' by blast
qed

end
