(* ===== verification/Cohort_Aggregator.thy ===== *)
theory Cohort_Aggregator
  imports Hubble_Indexer
begin

text \<open>
  \<open>cohort-aggregator/index.ts\<close>: the daily jobs that turn the indexed events into wallet activity and
  cohort retention, and the backfill at start-up. The tables are lists of rows with a unique key; an
  environment says which queries and which writes the database refuses.
\<close>

subsection \<open>Days\<close>

definition ms_per_day :: millis where "ms_per_day = 86400000"

definition MAX_COHORT_OFFSET_DAYS :: int where "MAX_COHORT_OFFSET_DAYS = 365"
definition UPSERT_BATCH_SIZE :: nat where "UPSERT_BATCH_SIZE = 200"

definition dayFloor :: "millis \<Rightarrow> millis" where
  "dayFloor d = d - d mod ms_per_day"

definition addDays :: "millis \<Rightarrow> int \<Rightarrow> millis" where
  "addDays d n = d + n * ms_per_day"

function days_until :: "millis \<Rightarrow> millis \<Rightarrow> millis list" where
  "days_until cur until = (if cur \<le> until then cur # days_until (addDays cur 1) until else [])"
  by pat_completeness auto
termination by (relation "measure (\<lambda>(cur, until). nat (until + 1 - cur))") (auto simp: addDays_def ms_per_day_def)

declare days_until.simps [simp del]

definition dayRange :: "millis \<Rightarrow> millis \<Rightarrow> millis list" where
  "dayRange from until = days_until (dayFloor from) (dayFloor until)"

subsection \<open>Tables\<close>

record stake_row =
  sk_wallet :: wallet
  sk_ledger :: ledger_no
  sk_at :: millis
  sk_amount :: stroops
  sk_type :: stake_type

record loan_row =
  ln_wallet :: wallet
  ln_ledger :: ledger_no
  ln_at :: millis
  ln_amount :: stroops

record first_activity =
  fa_wallet :: wallet
  fa_stakeLedger :: "ledger_no option"
  fa_stakeAt :: "millis option"
  fa_borrowLedger :: "ledger_no option"
  fa_borrowAt :: "millis option"

record daily_row =
  da_wallet :: wallet
  da_date :: millis
  da_stakeActive :: bool
  da_borrowActive :: bool
  da_staked :: stroops
  da_borrowed :: stroops

record retention_row =
  rt_cohortDate :: millis
  rt_dayOffset :: int
  rt_total :: nat
  rt_retained :: nat
  rt_rate :: number

record avg_row =
  av_cohortDate :: millis
  av_dayOffset :: int
  av_collateral :: number
  av_borrow :: number

record cohort_db =
  cd_stakes :: "stake_row list"
  cd_borrows :: "loan_row list"
  cd_repays :: "loan_row list"
  cd_firsts :: "first_activity list"
  cd_daily :: "daily_row list"
  cd_retention :: "retention_row list"
  cd_avgs :: "avg_row list"

abbreviation da_key :: "daily_row \<Rightarrow> wallet \<times> millis" where "da_key r \<equiv> (da_wallet r, da_date r)"
abbreviation rt_key :: "retention_row \<Rightarrow> millis \<times> int" where "rt_key r \<equiv> (rt_cohortDate r, rt_dayOffset r)"
abbreviation av_key :: "avg_row \<Rightarrow> millis \<times> int" where "av_key r \<equiv> (av_cohortDate r, av_dayOffset r)"

datatype cohort_query = Q_first | Q_daily | Q_retention | Q_avg | Q_backfill

record job_env =
  je_query :: "cohort_query \<Rightarrow> js_error option"
  je_first :: "first_activity \<Rightarrow> js_error option"
  je_daily :: "daily_row \<Rightarrow> js_error option"
  je_retention :: "millis \<Rightarrow> js_error option"
  je_avg :: "millis \<Rightarrow> js_error option"

text \<open>The batches of concurrent upserts: a refused one stops the job after its batch.\<close>

function upsert_batches ::
  "('a \<Rightarrow> js_error option) \<Rightarrow> ('a \<Rightarrow> 'k) \<Rightarrow> 'a list \<Rightarrow> 'a list \<Rightarrow> 'a list \<times> js_error option" where
  "upsert_batches db key rs rows =
     (if rs = [] then (rows, None)
      else let batch = take UPSERT_BATCH_SIZE rs;
               rows' = fold (upsert_by key) (filter (\<lambda>r. db r = None) batch) rows
           in case List.map_filter db batch of
                e # es \<Rightarrow> (rows', Some e)
              | [] \<Rightarrow> upsert_batches db key (drop UPSERT_BATCH_SIZE rs) rows')"
  by pat_completeness auto
termination by (relation "measure (\<lambda>(db, key, rs, rows). length rs)") (auto simp: UPSERT_BATCH_SIZE_def)

declare upsert_batches.simps [simp del]

subsection \<open>First activity\<close>

definition min_of :: "int list \<Rightarrow> int option" where
  "min_of xs = (case xs of [] \<Rightarrow> None | x # ys \<Rightarrow> Some (fold min ys x))"

definition first_record :: "cohort_db \<Rightarrow> wallet \<Rightarrow> first_activity" where
  "first_record s w =
     (let ss = filter (\<lambda>r. sk_type r = STAKE \<and> sk_wallet r = w) (cd_stakes s);
          bs = filter (\<lambda>r. ln_wallet r = w) (cd_borrows s)
      in \<lparr>fa_wallet = w, fa_stakeLedger = min_of (map sk_ledger ss), fa_stakeAt = min_of (map sk_at ss),
          fa_borrowLedger = min_of (map ln_ledger bs), fa_borrowAt = min_of (map ln_at bs)\<rparr>)"

definition first_wallets :: "cohort_db \<Rightarrow> wallet list" where
  "first_wallets s =
     remdups (map sk_wallet (filter (\<lambda>r. sk_type r = STAKE) (cd_stakes s)) @ map ln_wallet (cd_borrows s))"

definition runWalletFirstActivityJob :: "job_env \<Rightarrow> cohort_db \<Rightarrow> cohort_db \<times> js_error option" where
  "runWalletFirstActivityJob ev s =
     (case je_query ev Q_first of
        Some e \<Rightarrow> (s, Some e)
      | None \<Rightarrow>
          (let (fs, r) = upsert_batches (je_first ev) fa_wallet (map (first_record s) (first_wallets s)) (cd_firsts s)
           in (s\<lparr>cd_firsts := fs\<rparr>, r)))"

subsection \<open>Daily activity\<close>

definition activity_row :: "wallet \<Rightarrow> millis \<Rightarrow> stroops \<Rightarrow> stroops \<Rightarrow> daily_row" where
  "activity_row w d staked borrowed =
     \<lparr>da_wallet = w, da_date = d, da_stakeActive = (staked > 0), da_borrowActive = (borrowed > 0),
      da_staked = (if staked > 0 then staked else 0), da_borrowed = (if borrowed > 0 then borrowed else 0)\<rparr>"

text \<open>The sums of the grouped queries, for one wallet and a half-open interval.\<close>

definition net_stake :: "stake_row list \<Rightarrow> wallet \<Rightarrow> millis \<Rightarrow> millis \<Rightarrow> stroops" where
  "net_stake rows w a b =
     sum_list (map (\<lambda>r. if sk_type r = STAKE then sk_amount r else - sk_amount r)
       (filter (\<lambda>r. sk_wallet r = w \<and> a \<le> sk_at r \<and> sk_at r < b) rows))"

definition sum_loans :: "loan_row list \<Rightarrow> wallet \<Rightarrow> millis \<Rightarrow> millis \<Rightarrow> stroops" where
  "sum_loans rows w a b =
     sum_list (map ln_amount (filter (\<lambda>r. ln_wallet r = w \<and> a \<le> ln_at r \<and> ln_at r < b) rows))"

definition day_delta :: "cohort_db \<Rightarrow> wallet \<Rightarrow> millis \<Rightarrow> stroops \<times> stroops" where
  "day_delta s w d =
     (net_stake (cd_stakes s) w d (addDays d 1),
      sum_loans (cd_borrows s) w d (addDays d 1) - sum_loans (cd_repays s) w d (addDays d 1))"

definition wallets_between :: "cohort_db \<Rightarrow> (millis \<Rightarrow> bool) \<Rightarrow> wallet list" where
  "wallets_between s P =
     remdups (map sk_wallet (filter (\<lambda>r. P (sk_at r)) (cd_stakes s)) @
              map ln_wallet (filter (\<lambda>r. P (ln_at r)) (cd_borrows s)) @
              map ln_wallet (filter (\<lambda>r. P (ln_at r)) (cd_repays s)))"

text \<open>The walk over the days: running totals, and rows for the missing days only.\<close>

fun walk_days ::
  "(millis \<Rightarrow> stroops \<times> stroops) \<Rightarrow> millis list \<Rightarrow> wallet \<Rightarrow> millis list \<Rightarrow> stroops \<Rightarrow> stroops \<Rightarrow> daily_row list" where
  "walk_days delta missing w [] cumStake cumBorrow = []"
| "walk_days delta missing w (d # ds) cumStake cumBorrow =
     (let cs = cumStake + fst (delta d);
          cb = cumBorrow + snd (delta d);
          later = walk_days delta missing w ds cs cb
      in if d \<in> set missing then activity_row w d cs cb # later else later)"

definition backfill_rows :: "millis list \<Rightarrow> millis \<Rightarrow> cohort_db \<Rightarrow> daily_row list" where
  "backfill_rows missing historyStart s =
     (let lastDay = last missing
      in concat (map (\<lambda>w. walk_days (day_delta s w) missing w (dayRange historyStart lastDay) 0 0)
           (wallets_between s (\<lambda>t. t < addDays lastDay 1))))"

definition backfillWalletDailyActivity ::
  "job_env \<Rightarrow> millis list \<Rightarrow> millis \<Rightarrow> cohort_db \<Rightarrow> cohort_db \<times> js_error option" where
  "backfillWalletDailyActivity ev missing historyStart s =
     (if missing = [] then (s, None)
      else case je_query ev Q_daily of
        Some e \<Rightarrow> (s, Some e)
      | None \<Rightarrow>
          (let (ds, r) = upsert_batches (je_daily ev) da_key (backfill_rows missing historyStart s) (cd_daily s)
           in (s\<lparr>cd_daily := ds\<rparr>, r)))"

text \<open>The carry-forward of one day.\<close>

definition balance_on :: "(daily_row \<Rightarrow> stroops) \<Rightarrow> wallet \<Rightarrow> millis \<Rightarrow> cohort_db \<Rightarrow> stroops" where
  "balance_on f w d s = (case lookup_by da_key (w, d) (cd_daily s) of None \<Rightarrow> 0 | Some r \<Rightarrow> f r)"

definition daily_rows :: "millis \<Rightarrow> cohort_db \<Rightarrow> daily_row list" where
  "daily_rows dayStart s =
     (let prevDay = addDays dayStart (-1);
          allWallets = remdups (map da_wallet (filter (\<lambda>r. da_date r = prevDay) (cd_daily s)) @
            wallets_between s (\<lambda>t. dayStart \<le> t \<and> t < addDays dayStart 1))
      in map (\<lambda>w. activity_row w dayStart
           (balance_on da_staked w prevDay s + fst (day_delta s w dayStart))
           (balance_on da_borrowed w prevDay s + snd (day_delta s w dayStart))) allWallets)"

definition runWalletDailyActivityJob :: "job_env \<Rightarrow> millis \<Rightarrow> cohort_db \<Rightarrow> cohort_db \<times> js_error option" where
  "runWalletDailyActivityJob ev date s =
     (case je_query ev Q_daily of
        Some e \<Rightarrow> (s, Some e)
      | None \<Rightarrow>
          (let (ds, r) = upsert_batches (je_daily ev) da_key (daily_rows (dayFloor date) s) (cd_daily s)
           in (s\<lparr>cd_daily := ds\<rparr>, r)))"

subsection \<open>Cohorts\<close>

definition cohort_dates :: "millis \<Rightarrow> first_activity list \<Rightarrow> millis list" where
  "cohort_dates target fs =
     sort (remdups (filter (\<lambda>d. d \<le> target) (map dayFloor (List.map_filter fa_stakeAt fs))))"

definition cohort_wallets :: "millis \<Rightarrow> first_activity list \<Rightarrow> wallet list" where
  "cohort_wallets c fs =
     map fa_wallet (filter (\<lambda>f. case fa_stakeAt f of None \<Rightarrow> False | Some t \<Rightarrow> c \<le> t \<and> t < addDays c 1) fs)"

definition active_rows :: "wallet list \<Rightarrow> millis \<Rightarrow> daily_row list \<Rightarrow> daily_row list" where
  "active_rows ws target rows = filter (\<lambda>r. da_wallet r \<in> set ws \<and> da_date r = target \<and> da_stakeActive r) rows"

definition cohort_offset :: "millis \<Rightarrow> millis \<Rightarrow> int" where
  "cohort_offset target c = (target - c) div ms_per_day"

definition retention_of :: "millis \<Rightarrow> millis \<Rightarrow> cohort_db \<Rightarrow> retention_row" where
  "retention_of target c s =
     (let ws = cohort_wallets c (cd_firsts s);
          retained = length (active_rows ws target (cd_daily s))
      in \<lparr>rt_cohortDate = c, rt_dayOffset = cohort_offset target c, rt_total = length ws, rt_retained = retained,
          rt_rate = Fin (of_nat retained) / Fin (of_nat (length ws))\<rparr>)"

text \<open>One cohort of a job: skipped out of range, when it is stored already, or when it is empty.\<close>

definition skip_cohort :: "millis \<Rightarrow> millis \<Rightarrow> bool \<Rightarrow> cohort_db \<Rightarrow> bool" where
  "skip_cohort target c stored s \<longleftrightarrow>
     cohort_offset target c < 0 \<or> cohort_offset target c > MAX_COHORT_OFFSET_DAYS \<or> stored \<or>
     cohort_wallets c (cd_firsts s) = []"

fun retention_cohorts ::
  "(millis \<Rightarrow> js_error option) \<Rightarrow> millis \<Rightarrow> millis list \<Rightarrow> cohort_db \<Rightarrow> cohort_db \<times> js_error option" where
  "retention_cohorts db target [] s = (s, None)"
| "retention_cohorts db target (c # cs) s =
     (if skip_cohort target c (lookup_by rt_key (c, cohort_offset target c) (cd_retention s) \<noteq> None) s
      then retention_cohorts db target cs s
      else case db c of
        Some e \<Rightarrow> (s, Some e)
      | None \<Rightarrow> retention_cohorts db target cs
          (s\<lparr>cd_retention := upsert_by rt_key (retention_of target c s) (cd_retention s)\<rparr>))"

definition runCohortRetentionJob :: "job_env \<Rightarrow> millis \<Rightarrow> cohort_db \<Rightarrow> cohort_db \<times> js_error option" where
  "runCohortRetentionJob ev targetDate s =
     (case je_query ev Q_retention of
        Some e \<Rightarrow> (s, Some e)
      | None \<Rightarrow> retention_cohorts (je_retention ev) (dayFloor targetDate)
                 (cohort_dates (dayFloor targetDate) (cd_firsts s)) s)"

definition avg_of :: "millis \<Rightarrow> millis \<Rightarrow> cohort_db \<Rightarrow> avg_row" where
  "avg_of target c s =
     (let active = active_rows (cohort_wallets c (cd_firsts s)) target (cd_daily s);
          avg = (\<lambda>f. if active = [] then 0
                     else foldl (\<lambda>acc p. acc + num_of_big (f p)) 0 active / Fin (of_nat (length active)))
      in \<lparr>av_cohortDate = c, av_dayOffset = cohort_offset target c,
          av_collateral = avg da_staked, av_borrow = avg da_borrowed\<rparr>)"

fun avg_cohorts ::
  "(millis \<Rightarrow> js_error option) \<Rightarrow> millis \<Rightarrow> millis list \<Rightarrow> cohort_db \<Rightarrow> cohort_db \<times> js_error option" where
  "avg_cohorts db target [] s = (s, None)"
| "avg_cohorts db target (c # cs) s =
     (if skip_cohort target c (lookup_by av_key (c, cohort_offset target c) (cd_avgs s) \<noteq> None) s
      then avg_cohorts db target cs s
      else case db c of
        Some e \<Rightarrow> (s, Some e)
      | None \<Rightarrow> avg_cohorts db target cs (s\<lparr>cd_avgs := upsert_by av_key (avg_of target c s) (cd_avgs s)\<rparr>))"

definition runCohortAvgPositionSizeJob :: "job_env \<Rightarrow> millis \<Rightarrow> cohort_db \<Rightarrow> cohort_db \<times> js_error option" where
  "runCohortAvgPositionSizeJob ev targetDate s =
     (case je_query ev Q_avg of
        Some e \<Rightarrow> (s, Some e)
      | None \<Rightarrow> avg_cohorts (je_avg ev) (dayFloor targetDate) (cohort_dates (dayFloor targetDate) (cd_firsts s)) s)"

subsection \<open>The daily jobs and the backfill\<close>

definition and_then :: "('s \<Rightarrow> 's \<times> js_error option) \<Rightarrow> ('s \<Rightarrow> 's \<times> js_error option) \<Rightarrow> 's \<Rightarrow> 's \<times> js_error option" where
  "and_then f g s = (case f s of (s1, Some e) \<Rightarrow> (s1, Some e) | (s1, None) \<Rightarrow> g s1)"

definition runDailyJobs :: "job_env \<Rightarrow> millis \<Rightarrow> cohort_db \<Rightarrow> cohort_db \<times> js_error option" where
  "runDailyJobs ev date =
     and_then (runWalletFirstActivityJob ev)
       (and_then (runWalletDailyActivityJob ev (dayFloor date))
         (and_then (runCohortRetentionJob ev (dayFloor date)) (runCohortAvgPositionSizeJob ev (dayFloor date))))"

definition findEarliestEventDate :: "cohort_db \<Rightarrow> millis option" where
  "findEarliestEventDate s = map_option dayFloor (min_of (map sk_at (cd_stakes s) @ map ln_at (cd_borrows s)))"

fun cohort_days :: "job_env \<Rightarrow> millis list \<Rightarrow> cohort_db \<Rightarrow> cohort_db \<times> js_error option" where
  "cohort_days ev [] s = (s, None)"
| "cohort_days ev (d # ds) s =
     and_then (and_then (runCohortRetentionJob ev d) (runCohortAvgPositionSizeJob ev d)) (cohort_days ev ds) s"

definition backfill_from :: "job_env \<Rightarrow> millis \<Rightarrow> cohort_db \<Rightarrow> cohort_db \<times> js_error option" where
  "backfill_from ev now s =
     (case je_query ev Q_backfill of
        Some e \<Rightarrow> (s, Some e)
      | None \<Rightarrow>
          (case findEarliestEventDate s of
             None \<Rightarrow> (s, None)
           | Some earliest \<Rightarrow>
               (let allDays = dayRange earliest (dayFloor now);
                    missing = filter (\<lambda>d. d \<notin> dayFloor ` da_date ` set (cd_daily s)) allDays
                in and_then (backfillWalletDailyActivity ev missing earliest) (cohort_days ev allDays) s)))"

definition runBackfill :: "job_env \<Rightarrow> millis \<Rightarrow> cohort_db \<Rightarrow> cohort_db \<times> js_error option" where
  "runBackfill ev now = and_then (runWalletFirstActivityJob ev) (backfill_from ev now)"

text \<open>The worker over time: the start-up backfill, the nightly jobs for the day before, new events.\<close>

datatype cohort_op =
    Start_up job_env millis
  | Nightly job_env millis
  | Events "stake_row list" "loan_row list" "loan_row list"

fun cohort_step :: "cohort_op \<Rightarrow> cohort_db \<Rightarrow> cohort_db" where
  "cohort_step (Start_up ev now) s = fst (runBackfill ev now s)"
| "cohort_step (Nightly ev now) s = fst (runDailyJobs ev (dayFloor (addDays now (-1))) s)"
| "cohort_step (Events ss bs rs) s =
     s\<lparr>cd_stakes := cd_stakes s @ ss, cd_borrows := cd_borrows s @ bs, cd_repays := cd_repays s @ rs\<rparr>"

definition cohort_run :: "cohort_op list \<Rightarrow> cohort_db \<Rightarrow> cohort_db" where
  "cohort_run ops s = fold cohort_step ops s"

subsection \<open>What every run preserves\<close>

lemma upsert_batches_accepted: "upsert_batches (\<lambda>r. None) key rs rows = (fold (upsert_by key) rs rows, None)"
proof (induction "\<lambda>r::'a. None :: js_error option" key rs rows rule: upsert_batches.induct)
  case (1 key rs rows)
  have none: "List.map_filter (\<lambda>r. None :: js_error option) xs = []" for xs :: "'a list"
    by (induction xs) (auto simp: List.map_filter_def)
  have "fold (upsert_by key) (drop UPSERT_BATCH_SIZE rs) (fold (upsert_by key) (take UPSERT_BATCH_SIZE rs) rows) =
      fold (upsert_by key) rs rows"
    by (metis append_take_drop_id comp_apply fold_append)
  then show ?case using 1 by (subst upsert_batches.simps) (auto simp: none Let_def)
qed

lemma upsert_batches_distinct:
  "distinct (map key rows) \<Longrightarrow> distinct (map key (fst (upsert_batches db key rs rows)))"
proof (induction db key rs rows rule: upsert_batches.induct)
  case (1 db key rs rows)
  then show ?case
    by (subst upsert_batches.simps) (auto simp: Let_def upserts_distinct split: list.split)
qed

text \<open>
  A property of the database that each kind of write keeps holds after any run of the worker, whatever
  is refused on the way.
\<close>

locale cohort_invariant =
  fixes I :: "cohort_db \<Rightarrow> bool"
  assumes firsts: "I s \<Longrightarrow> I (s\<lparr>cd_firsts := fst (upsert_batches db fa_wallet fs (cd_firsts s))\<rparr>)"
    and daily: "I s \<Longrightarrow> I (s\<lparr>cd_daily := fst (upsert_batches db' da_key ds (cd_daily s))\<rparr>)"
    and retention: "I s \<Longrightarrow> \<not> skip_cohort target c (lookup_by rt_key (c, cohort_offset target c) (cd_retention s) \<noteq> None) s \<Longrightarrow>
      I (s\<lparr>cd_retention := upsert_by rt_key (retention_of target c s) (cd_retention s)\<rparr>)"
    and avgs: "I s \<Longrightarrow> I (s\<lparr>cd_avgs := av\<rparr>)"
    and events: "I s \<Longrightarrow> I (s\<lparr>cd_stakes := ss, cd_borrows := bs, cd_repays := rs\<rparr>)"
begin

lemma chain: "I s \<Longrightarrow> (\<And>t. I t \<Longrightarrow> I (fst (f t))) \<Longrightarrow> (\<And>t. I t \<Longrightarrow> I (fst (g t))) \<Longrightarrow> I (fst (and_then f g s))"
  by (auto simp: and_then_def split: prod.split option.split) (metis fst_conv)+

lemma first_job: "I s \<Longrightarrow> I (fst (runWalletFirstActivityJob ev s))"
  by (simp add: runWalletFirstActivityJob_def split_beta Let_def firsts split: option.split)

lemma daily_job: "I s \<Longrightarrow> I (fst (runWalletDailyActivityJob ev d s))"
  by (simp add: runWalletDailyActivityJob_def split_beta Let_def daily split: option.split)

lemma backfill_job: "I s \<Longrightarrow> I (fst (backfillWalletDailyActivity ev missing h s))"
  by (simp add: backfillWalletDailyActivity_def split_beta Let_def daily split: option.split)

lemma retention_loop: "I s \<Longrightarrow> I (fst (retention_cohorts db target cs s))"
  by (induction db target cs s rule: retention_cohorts.induct) (auto simp: retention split: option.split)

lemma avg_loop: "I s \<Longrightarrow> I (fst (avg_cohorts db target cs s))"
  by (induction db target cs s rule: avg_cohorts.induct) (auto simp: avgs split: option.split)

lemma retention_job: "I s \<Longrightarrow> I (fst (runCohortRetentionJob ev d s))"
  by (simp add: runCohortRetentionJob_def retention_loop split: option.split)

lemma avg_job: "I s \<Longrightarrow> I (fst (runCohortAvgPositionSizeJob ev d s))"
  by (simp add: runCohortAvgPositionSizeJob_def avg_loop split: option.split)

lemma nightly: "I s \<Longrightarrow> I (fst (runDailyJobs ev d s))"
  unfolding runDailyJobs_def by (intro chain first_job daily_job retention_job avg_job)

lemma day_loop: "I s \<Longrightarrow> I (fst (cohort_days ev ds s))"
proof (induction ds arbitrary: s)
  case (Cons d ds)
  show ?case unfolding cohort_days.simps by (intro chain retention_job avg_job Cons)
qed simp

lemma start_up: "I s \<Longrightarrow> I (fst (runBackfill ev now s))"
proof -
  have "I t \<Longrightarrow> I (fst (backfill_from ev now t))" for t
    by (auto simp: backfill_from_def Let_def intro!: chain backfill_job day_loop split: option.split)
  then show "I s \<Longrightarrow> ?thesis" unfolding runBackfill_def by (intro chain first_job)
qed

lemma step: "I s \<Longrightarrow> I (cohort_step op s)"
  by (cases op) (auto simp: start_up nightly events)

lemma run: "I s \<Longrightarrow> I (cohort_run ops s)"
  by (induction ops arbitrary: s) (auto simp: cohort_run_def step)

end

subsection \<open>Retention figures\<close>

interpretation written: cohort_invariant "\<lambda>s. lookup_by rt_key k (cd_retention s) = Some r" for k r
  by unfold_locales (auto simp: lookup_upsert skip_cohort_def retention_of_def Let_def)

text \<open>
  A retention figure is written once: whatever happens later, new events of the same day, the
  nightly jobs for it or another backfill, the stored figure stays. So the figure the start-up
  backfill computes for the unfinished current day is final.\<close>

theorem retention_figures_are_final:
  assumes "lookup_by rt_key (c, offset) (cd_retention s) = Some r"
  shows "lookup_by rt_key (c, offset) (cd_retention (cohort_run ops s)) = Some r"
  using assms by (rule written.run)

definition no_refusal :: job_env where
  "no_refusal = \<lparr>je_query = (\<lambda>q. None), je_first = (\<lambda>r. None), je_daily = (\<lambda>r. None), je_retention = (\<lambda>d. None), je_avg = (\<lambda>d. None)\<rparr>"

definition one_staker :: cohort_db where
  "one_staker = \<lparr>cd_stakes = [\<lparr>sk_wallet = ''GA'', sk_ledger = 1, sk_at = 1000, sk_amount = 50, sk_type = STAKE\<rparr>],
     cd_borrows = [], cd_repays = [], cd_firsts = [], cd_daily = [], cd_retention = [], cd_avgs = []\<rparr>"

lemma dayRange_0: "dayRange 0 0 = [0]"
  by (simp add: dayRange_def dayFloor_def days_until.simps addDays_def ms_per_day_def)

lemma backfill_one_staker:
  "lookup_by rt_key (0, 0) (cd_retention (cohort_step (Start_up no_refusal 5000) one_staker)) =
     Some \<lparr>rt_cohortDate = 0, rt_dayOffset = 0, rt_total = 1, rt_retained = 1, rt_rate = Fin 1\<rparr>"
  by (simp add: runBackfill_def and_then_def runWalletFirstActivityJob_def no_refusal_def upsert_batches_accepted
      first_wallets_def first_record_def min_of_def one_staker_def upsert_by_def backfill_from_def findEarliestEventDate_def
      dayFloor_def ms_per_day_def dayRange_0 [simplified] backfillWalletDailyActivity_def backfill_rows_def wallets_between_def
      addDays_def activity_row_def day_delta_def net_stake_def sum_loans_def runCohortRetentionJob_def cohort_dates_def
      List.map_filter_simps skip_cohort_def cohort_offset_def MAX_COHORT_OFFSET_DAYS_def lookup_by_def cohort_wallets_def
      retention_of_def active_rows_def runCohortAvgPositionSizeJob_def avg_of_def Let_def)

text \<open>A second wallet that stakes later on the first day is not in the figure of that day, ever.\<close>

theorem retention_figures_are_final_witness:
  "lookup_by rt_key (0, 0) (cd_retention (cohort_run
      [Events [\<lparr>sk_wallet = ''GB'', sk_ledger = 2, sk_at = 6000, sk_amount = 70, sk_type = STAKE\<rparr>] [] [],
       Nightly no_refusal 90000000] (cohort_step (Start_up no_refusal 5000) one_staker))) =
     Some \<lparr>rt_cohortDate = 0, rt_dayOffset = 0, rt_total = 1, rt_retained = 1, rt_rate = Fin 1\<rparr>"
  by (rule retention_figures_are_final [OF backfill_one_staker])

definition ret_ok :: "retention_row \<Rightarrow> bool" where
  "ret_ok r \<longleftrightarrow> 1 \<le> rt_total r \<and> rt_retained r \<le> rt_total r \<and> 0 \<le> rt_dayOffset r \<and> rt_dayOffset r \<le> MAX_COHORT_OFFSET_DAYS \<and>
     (\<exists>q. rt_rate r = Fin q \<and> 0 \<le> q \<and> q \<le> 1)"

definition cohort_ok :: "cohort_db \<Rightarrow> bool" where
  "cohort_ok s \<longleftrightarrow> distinct (map fa_wallet (cd_firsts s)) \<and> distinct (map da_key (cd_daily s)) \<and>
     distinct (map rt_key (cd_retention s)) \<and> (\<forall>r\<in>set (cd_retention s). ret_ok r)"

lemma active_le:
  assumes "distinct (map da_key rows)"
  shows "length (active_rows ws target rows) \<le> length ws"
proof -
  let ?a = "active_rows ws target rows"
  have "distinct (map da_key ?a)" using assms by (auto simp: active_rows_def distinct_map_filter)
  moreover have "map da_key ?a = map (\<lambda>w. (w, target)) (map da_wallet ?a)" by (auto simp: active_rows_def)
  ultimately have "distinct (map da_wallet ?a)" by (metis distinct_map)
  moreover have "set (map da_wallet ?a) \<subseteq> set ws" by (auto simp: active_rows_def)
  ultimately have "length ?a \<le> card (set ws)" by (metis card_mono distinct_card length_map List.finite_set)
  also have "\<dots> \<le> length ws" by (rule card_length)
  finally show ?thesis .
qed

lemma retention_rate:
  assumes "m \<le> n" "1 \<le> n"
  shows "\<exists>q. Fin (of_nat m) / Fin (of_nat n) = Fin q \<and> 0 \<le> q \<and> q \<le> 1"
proof -
  have q: "0 \<le> (of_nat m / of_nat n :: rat)" "(of_nat m / of_nat n :: rat) \<le> 1" using assms by (simp_all add: divide_le_eq_1)
  then have "\<bar>of_nat m / of_nat n :: rat\<bar> \<le> 2 ^ 110" by (simp add: order_trans [OF _ one_le_power])
  then have "rnd (of_nat m / of_nat n) = Fin (rndq (of_nat m / of_nat n))" by (rule rnd_110)
  moreover have "rndq (of_nat m / of_nat n) \<le> 1" using rndq_mono [OF q(2)] by simp
  moreover have "0 \<le> rndq (of_nat m / of_nat n)" using q(1) by (rule rndq_nonneg)
  ultimately show ?thesis using assms(2) by simp
qed

interpretation figures: cohort_invariant cohort_ok
proof unfold_locales
  fix s target c
  assume s: "cohort_ok s" and new: "\<not> skip_cohort target c (lookup_by rt_key (c, cohort_offset target c) (cd_retention s) \<noteq> None) s"
  let ?ws = "cohort_wallets c (cd_firsts s)"
  have le: "length (active_rows ?ws target (cd_daily s)) \<le> length ?ws" using s by (intro active_le) (simp add: cohort_ok_def)
  have "1 \<le> length ?ws" using new by (cases ?ws) (auto simp: skip_cohort_def)
  with le have "ret_ok (retention_of target c s)"
    using retention_rate new by (simp add: ret_ok_def retention_of_def Let_def skip_cohort_def)
  then show "cohort_ok (s\<lparr>cd_retention := upsert_by rt_key (retention_of target c s) (cd_retention s)\<rparr>)"
    using s by (auto simp: cohort_ok_def dest: upsert_by_mem)
qed (auto simp: cohort_ok_def upsert_batches_distinct)

text \<open>
  Whatever the database refuses and in whatever order the jobs run, every stored retention figure
  is of a cohort of at least one wallet, counts at most its wallets, and is a rate between 0 and 1 for
  an offset of at most 365 days; and each cohort and offset has one.\<close>

theorem retention_figures_in_range:
  assumes "cd_firsts s = []" "cd_daily s = []" "cd_retention s = []"
  shows "cohort_ok (cohort_run ops s)"
  by (rule figures.run) (simp add: cohort_ok_def assms)

theorem retention_figures_in_range_witness:
  "cohort_ok (cohort_run [Start_up no_refusal 5000, Nightly no_refusal 90000000] one_staker)"
  by (rule retention_figures_in_range) (simp_all add: one_staker_def)

subsection \<open>The nightly carry-forward against the backfill\<close>

abbreviation nth_day :: "millis \<Rightarrow> nat \<Rightarrow> millis" where "nth_day d0 i \<equiv> addDays d0 (int i)"

lemma nth_day_inj [simp]: "nth_day d0 i = nth_day d0 j \<longleftrightarrow> i = j"
  by (auto simp: addDays_def ms_per_day_def)

lemma addDays_addDays [simp]: "addDays (addDays d a) b = addDays d (b + a)" "addDays d 0 = d"
  by (simp_all add: addDays_def algebra_simps)

lemma dayFloor_nth_day: "dayFloor d0 = d0 \<Longrightarrow> dayFloor (nth_day d0 i) = nth_day d0 i"
  by (simp add: dayFloor_def addDays_def ms_per_day_def)

lemma days_until_nth: "days_until d0 (nth_day d0 n) = map (nth_day d0) [0..<Suc n]"
proof (induction n arbitrary: d0)
  case 0
  show ?case by (subst days_until.simps, subst days_until.simps) (simp add: addDays_def ms_per_day_def)
next
  case (Suc n)
  have "d0 \<le> nth_day d0 (Suc n)" by (simp add: addDays_def ms_per_day_def)
  moreover have "[0..<Suc (Suc n)] = 0 # map Suc [0..<Suc n]" by (metis map_Suc_upt upt_conv_Cons zero_less_Suc)
  ultimately show ?case using Suc [of "addDays d0 1"] by (subst days_until.simps) (simp add: comp_def add.commute del: upt_Suc)
qed

text \<open>A wallet that is not among those with events in an interval has no delta in it.\<close>

lemma no_events_no_delta:
  assumes "w \<notin> set (wallets_between s P)" "\<And>t. d \<le> t \<Longrightarrow> t < addDays d 1 \<Longrightarrow> P t"
  shows "day_delta s w d = (0, 0)"
proof -
  have "filter (\<lambda>r. sk_wallet r = w \<and> d \<le> sk_at r \<and> sk_at r < addDays d 1) (cd_stakes s) = []"
    "filter (\<lambda>r. ln_wallet r = w \<and> d \<le> ln_at r \<and> ln_at r < addDays d 1) (cd_borrows s) = []"
    "filter (\<lambda>r. ln_wallet r = w \<and> d \<le> ln_at r \<and> ln_at r < addDays d 1) (cd_repays s) = []"
    using assms by (auto simp: wallets_between_def filter_empty_conv)
  then show ?thesis by (simp add: day_delta_def net_stake_def sum_loans_def)
qed

definition pos :: "int \<Rightarrow> int" where "pos x = (if x > 0 then x else 0)"

lemma pos_nonneg [simp]: "0 \<le> x \<Longrightarrow> pos x = x"
  by (simp add: pos_def)

lemma activity_row_balances [simp]:
  "da_staked (activity_row w d a b) = pos a" "da_borrowed (activity_row w d a b) = pos b"
  "da_wallet (activity_row w d a b) = w" "da_date (activity_row w d a b) = d"
  by (simp_all add: activity_row_def pos_def)

lemma daily_rows_keys: "distinct (map da_key (daily_rows d s))"
  by (simp add: daily_rows_def Let_def comp_def distinct_map inj_on_def)

definition accepts :: "job_env \<Rightarrow> bool" where
  "accepts ev \<longleftrightarrow> je_query ev = (\<lambda>q. None) \<and> je_daily ev = (\<lambda>r. None)"

lemma daily_job_balance:
  assumes "accepts ev" "dayFloor d = d" "distinct (map da_key (cd_daily s))" "\<forall>r\<in>set (cd_daily s). da_date r < d"
  defines "s' \<equiv> fst (runWalletDailyActivityJob ev d s)"
  shows "balance_on da_staked w d s' = pos (balance_on da_staked w (addDays d (-1)) s + fst (day_delta s w d)) \<and>
    balance_on da_borrowed w d s' = pos (balance_on da_borrowed w (addDays d (-1)) s + snd (day_delta s w d))"
proof -
  have s': "cd_daily s' = fold (upsert_by da_key) (daily_rows d s) (cd_daily s)"
    using assms(1,2) by (simp add: s'_def runWalletDailyActivityJob_def accepts_def upsert_batches_accepted)
  let ?prev = "addDays d (-1)"
  let ?ws = "remdups (map da_wallet (filter (\<lambda>r. da_date r = ?prev) (cd_daily s)) @
      wallets_between s (\<lambda>t. d \<le> t \<and> t < addDays d 1))"
  show ?thesis
  proof (cases "w \<in> set ?ws")
    case True
    let ?r = "activity_row w d (balance_on da_staked w ?prev s + fst (day_delta s w d)) (balance_on da_borrowed w ?prev s + snd (day_delta s w d))"
    have "?r \<in> set (daily_rows d s)" using True unfolding daily_rows_def Let_def set_map by blast
    from lookup_upserts [OF daily_rows_keys this] have "lookup_by da_key (w, d) (cd_daily s') = Some ?r" by (simp add: s')
    then show ?thesis by (simp add: balance_on_def)
  next
    case False
    have "(w, d) \<notin> da_key ` set (daily_rows d s)" using False by (auto simp: daily_rows_def Let_def)
    then have "lookup_by da_key (w, d) (cd_daily s') = lookup_by da_key (w, d) (cd_daily s)"
      unfolding s' by (rule lookup_upserts_other)
    also have "\<dots> = None" using assms(4) by (auto simp: lookup_by_None)
    finally have "lookup_by da_key (w, d) (cd_daily s') = None" .
    moreover have "day_delta s w d = (0, 0)" using False by (intro no_events_no_delta [of w s "\<lambda>t. d \<le> t \<and> t < addDays d 1"]) auto
    moreover have "lookup_by da_key (w, ?prev) (cd_daily s) = None" using False by (auto simp: lookup_by_None)
    ultimately show ?thesis by (simp add: balance_on_def pos_def)
  qed
qed

lemma daily_job_earlier:
  assumes "accepts ev" "dayFloor d = d" "d' \<noteq> d"
  shows "balance_on f w d' (fst (runWalletDailyActivityJob ev d s)) = balance_on f w d' s"
proof -
  have "(w, d') \<notin> da_key ` set (daily_rows d s)" using assms(3) by (auto simp: daily_rows_def Let_def)
  then show ?thesis using assms(1,2)
    by (simp add: balance_on_def runWalletDailyActivityJob_def accepts_def upsert_batches_accepted lookup_upserts_other)
qed

lemma daily_job_frame:
  assumes "accepts ev" "dayFloor d = d" "distinct (map da_key (cd_daily s))" "\<forall>r\<in>set (cd_daily s). da_date r < d"
  defines "s' \<equiv> fst (runWalletDailyActivityJob ev d s)"
  shows "distinct (map da_key (cd_daily s'))" "\<forall>r\<in>set (cd_daily s'). da_date r < addDays d 1" "day_delta s' = day_delta s"
proof -
  have s': "s' = s\<lparr>cd_daily := fold (upsert_by da_key) (daily_rows d s) (cd_daily s)\<rparr>"
    using assms(1,2) by (simp add: s'_def runWalletDailyActivityJob_def accepts_def upsert_batches_accepted)
  show "distinct (map da_key (cd_daily s'))" using assms(3) by (simp add: s' upserts_distinct)
  have "d < addDays d 1" by (simp add: addDays_def ms_per_day_def)
  then show "\<forall>r\<in>set (cd_daily s'). da_date r < addDays d 1"
    using assms(4) by (fastforce simp: s' daily_rows_def Let_def dest: upserts_mem)
  show "day_delta s' = day_delta s" by (simp add: s' day_delta_def fun_eq_iff)
qed

text \<open>The nightly jobs of \<open>n\<close> consecutive days.\<close>

fun nightly_days :: "job_env \<Rightarrow> millis \<Rightarrow> nat \<Rightarrow> cohort_db \<Rightarrow> cohort_db" where
  "nightly_days ev d0 0 s = s"
| "nightly_days ev d0 (Suc n) s = fst (runWalletDailyActivityJob ev (nth_day d0 n) (nightly_days ev d0 n s))"

definition cum :: "(stroops \<times> stroops \<Rightarrow> stroops) \<Rightarrow> cohort_db \<Rightarrow> wallet \<Rightarrow> millis \<Rightarrow> nat \<Rightarrow> stroops" where
  "cum f s w d0 i = (\<Sum>j\<le>i. f (day_delta s w (nth_day d0 j)))"

lemma cum_simps: "cum f s w d0 0 = f (day_delta s w d0)" "cum f s w d0 (Suc i) = cum f s w d0 i + f (day_delta s w (nth_day d0 (Suc i)))"
  by (simp_all add: cum_def)

lemma nightly_days_frame:
  assumes "accepts ev" "dayFloor d0 = d0" "cd_daily s = []"
  shows "distinct (map da_key (cd_daily (nightly_days ev d0 n s))) \<and>
    (\<forall>r\<in>set (cd_daily (nightly_days ev d0 n s)). da_date r < nth_day d0 n) \<and>
    day_delta (nightly_days ev d0 n s) = day_delta s"
proof (induction n)
  case (Suc n)
  then show ?case
    using daily_job_frame [OF assms(1) dayFloor_nth_day [OF assms(2)], of "nightly_days ev d0 n s" n] by simp
qed (simp add: assms(3))

lemma nightly_days_balance:
  assumes "accepts ev" "dayFloor d0 = d0" "cd_daily s = []"
    and "\<forall>i<n. 0 \<le> cum fst s w d0 i \<and> 0 \<le> cum snd s w d0 i" "i < n"
  shows "balance_on da_staked w (nth_day d0 i) (nightly_days ev d0 n s) = cum fst s w d0 i \<and>
    balance_on da_borrowed w (nth_day d0 i) (nightly_days ev d0 n s) = cum snd s w d0 i"
  using assms(4,5)
proof (induction n arbitrary: i)
  case (Suc n)
  let ?t = "nightly_days ev d0 n s"
  have t: "distinct (map da_key (cd_daily ?t))" "\<forall>r\<in>set (cd_daily ?t). da_date r < nth_day d0 n" "day_delta ?t = day_delta s"
    using nightly_days_frame [OF assms(1-3), of n] by blast+
  show ?case
  proof (cases "i = n")
    case False
    then have "i < n" using Suc.prems(2) by simp
    then show ?thesis using Suc.IH Suc.prems(1) False
      by (simp add: daily_job_earlier [OF assms(1) dayFloor_nth_day [OF assms(2)]])
  next
    case True
    have "balance_on da_staked w (addDays (nth_day d0 n) (-1)) ?t + fst (day_delta s w (nth_day d0 n)) = cum fst s w d0 n \<and>
      balance_on da_borrowed w (addDays (nth_day d0 n) (-1)) ?t + snd (day_delta s w (nth_day d0 n)) = cum snd s w d0 n"
    proof (cases n)
      case 0
      then show ?thesis by (simp add: balance_on_def assms(3) lookup_by_def cum_simps)
    next
      case (Suc m)
      then show ?thesis using Suc.IH [of m] Suc.prems(1) by (simp add: cum_simps)
    qed
    moreover have "0 \<le> cum fst s w d0 n" "0 \<le> cum snd s w d0 n" using Suc.prems(1) by auto
    ultimately show ?thesis
      using daily_job_balance [OF assms(1) dayFloor_nth_day [OF assms(2)] t(1,2), of w] t(3) True by simp
  qed
qed simp

text \<open>The rows of the backfill, one per day of the walk.\<close>

lemma walk_days_nth:
  assumes "set ds \<subseteq> set missing"
  shows "map da_key (walk_days delta missing w ds a b) = map (Pair w) ds \<and>
    (\<forall>i<length ds. walk_days delta missing w ds a b ! i =
       activity_row w (ds ! i) (a + (\<Sum>j\<le>i. fst (delta (ds ! j)))) (b + (\<Sum>j\<le>i. snd (delta (ds ! j)))))"
  using assms
proof (induction ds arbitrary: a b)
  case (Cons d ds)
  let ?a = "a + fst (delta d)" and ?b = "b + snd (delta d)"
  have IH: "map da_key (walk_days delta missing w ds ?a ?b) = map (Pair w) ds"
    "\<And>i. i < length ds \<Longrightarrow> walk_days delta missing w ds ?a ?b ! i =
       activity_row w (ds ! i) (?a + (\<Sum>j\<le>i. fst (delta (ds ! j)))) (?b + (\<Sum>j\<le>i. snd (delta (ds ! j))))"
    using Cons.IH [of ?a ?b] Cons.prems by auto
  have "walk_days delta missing w (d # ds) a b ! i =
      activity_row w ((d # ds) ! i) (a + (\<Sum>j\<le>i. fst (delta ((d # ds) ! j)))) (b + (\<Sum>j\<le>i. snd (delta ((d # ds) ! j))))"
    if "i < length (d # ds)" for i
  proof (cases i)
    case 0
    then show ?thesis using Cons.prems by (simp add: Let_def)
  next
    case (Suc k)
    then show ?thesis using IH(2) [of k] that Cons.prems by (simp add: Let_def sum.atMost_Suc_shift add.assoc del: sum.atMost_Suc)
  qed
  moreover have "map da_key (walk_days delta missing w (d # ds) a b) = map (Pair w) (d # ds)"
    using IH(1) Cons.prems by (simp add: Let_def)
  ultimately show ?case by blast
qed simp

lemma distinct_pairs: "distinct ws \<Longrightarrow> distinct ds \<Longrightarrow> distinct (concat (map (\<lambda>w. map (Pair w) ds) ws))"
  by (induction ws) (auto simp: distinct_map inj_on_def)

lemma backfill_balance:
  fixes n :: nat
  assumes "accepts ev" "dayFloor d0 = d0" "cd_daily s = []" "i < n"
  defines "s' \<equiv> fst (backfillWalletDailyActivity ev (map (nth_day d0) [0..<n]) d0 s)"
  shows "balance_on da_staked w (nth_day d0 i) s' = pos (cum fst s w d0 i) \<and>
    balance_on da_borrowed w (nth_day d0 i) s' = pos (cum snd s w d0 i)"
proof -
  let ?ds = "map (nth_day d0) [0..<n]"
  obtain m where m: "n = Suc m" using assms(4) by (cases n) auto
  have range: "dayRange d0 (last ?ds) = ?ds"
    using assms(2) by (simp add: m dayRange_def dayFloor_nth_day days_until_nth last_map del: upt_Suc)
  let ?ws = "wallets_between s (\<lambda>t. t < addDays (last ?ds) 1)"
  let ?walk = "\<lambda>w. walk_days (day_delta s w) ?ds w ?ds 0 0"
  have rows: "backfill_rows ?ds d0 s = concat (map ?walk ?ws)" by (simp add: backfill_rows_def Let_def range)
  have s': "cd_daily s' = fold (upsert_by da_key) (concat (map ?walk ?ws)) []"
    using assms(1,3,4) by (simp add: s'_def backfillWalletDailyActivity_def accepts_def upsert_batches_accepted rows)
  have keys: "map da_key (?walk w) = map (Pair w) ?ds" for w using walk_days_nth [of ?ds ?ds] by blast
  have "map da_key (concat (map ?walk ?ws)) = concat (map (\<lambda>w. map (Pair w) ?ds) ?ws)"
    by (simp only: map_concat map_map comp_def keys)
  moreover have "distinct ?ds" by (simp add: distinct_map inj_on_def)
  ultimately have dist: "distinct (map da_key (concat (map ?walk ?ws)))"
    using distinct_pairs [of ?ws ?ds] by (simp add: wallets_between_def)
  show ?thesis
  proof (cases "w \<in> set ?ws")
    case True
    let ?r = "activity_row w (nth_day d0 i) (cum fst s w d0 i) (cum snd s w d0 i)"
    have "?walk w ! i = activity_row w (?ds ! i) (\<Sum>j\<le>i. fst (day_delta s w (?ds ! j))) (\<Sum>j\<le>i. snd (day_delta s w (?ds ! j)))"
      using walk_days_nth [of ?ds ?ds "day_delta s w" w 0 0] assms(4) by simp
    also have "\<dots> = ?r" using assms(4) by (simp add: cum_def)
    finally have "?walk w ! i = ?r" .
    moreover have "length (?walk w) = n" using arg_cong [OF keys [of w], of length] by simp
    ultimately have "?r \<in> set (?walk w)" using assms(4) by (metis nth_mem)
    then have "?r \<in> set (concat (map ?walk ?ws))" using True by auto
    from lookup_upserts [OF dist this] have "lookup_by da_key (w, nth_day d0 i) (cd_daily s') = Some ?r" by (simp add: s')
    then show ?thesis by (simp add: balance_on_def)
  next
    case False
    have "da_wallet r \<in> set ?ws" if r: "r \<in> set (concat (map ?walk ?ws))" for r
    proof -
      obtain v where v: "v \<in> set ?ws" "r \<in> set (?walk v)" using r unfolding set_concat set_map by blast
      from v(2) have "da_key r \<in> set (map da_key (?walk v))" unfolding set_map by (rule imageI)
      then have "da_wallet r = v" unfolding keys by auto
      then show ?thesis using v(1) by simp
    qed
    then have "(w, nth_day d0 i) \<notin> da_key ` set (concat (map ?walk ?ws))" using False by auto
    then have "lookup_by da_key (w, nth_day d0 i) (cd_daily s') = lookup_by da_key (w, nth_day d0 i) []"
      unfolding s' by (rule lookup_upserts_other)
    then have "lookup_by da_key (w, nth_day d0 i) (cd_daily s') = None" by (simp add: lookup_by_def)
    moreover have "day_delta s w (nth_day d0 j) = (0, 0)" if "j \<le> i" for j
    proof (rule no_events_no_delta [OF False])
      fix t assume "t < addDays (nth_day d0 j) 1"
      moreover have "addDays (nth_day d0 j) 1 \<le> addDays (last ?ds) 1"
        using that assms(4) by (simp add: m last_map addDays_def ms_per_day_def del: upt_Suc)
      ultimately show "t < addDays (last ?ds) 1" by linarith
    qed
    then have "cum fst s w d0 i = 0" "cum snd s w d0 i = 0" by (simp_all add: cum_def)
    ultimately show ?thesis by (simp add: balance_on_def)
  qed
qed



subsection \<open>Delayed withdrawals\<close>

text \<open>The row the indexer's stake event becomes, closed at the given time.\<close>

definition stake_row_of :: "millis \<Rightarrow> parsed_event \<Rightarrow> stake_row option" where
  "stake_row_of t e =
     (case e of Stake_ev b w a ty \<Rightarrow> Some \<lparr>sk_wallet = w, sk_ledger = pb_ledger b, sk_at = t, sk_amount = a, sk_type = ty\<rparr>
      | _ \<Rightarrow> None)"

text \<open>
  A delayed withdrawal is subtracted twice: the contract publishes an event when it is requested and
  one when it is claimed, the indexer stores both as unstakes of the amount, and the aggregator adds
  them up.\<close>

theorem delayed_withdrawal_counted_twice:
  assumes "hr_contractId e1 = ids Staking" "hr_contractId e2 = ids Staking"
    and "hr_topic e1 = [t1]" "xdr t1 = Some (N_str ''delayed'')" "hr_topic e2 = [t2]" "xdr t2 = Some (N_str ''claimed'')"
    and "xdr (hr_value e1) = Some (N_vec [N_str w, N_big x, N_big i, N_num unlock])"
    and "xdr (hr_value e2) = Some (N_vec [N_str w, N_big x, N_big i])"
    and "a \<le> at1" "at1 < b" "a \<le> at2" "at2 < b"
  shows "\<exists>p1 p2 r1 r2. parseEvent ids xdr e1 = Some p1 \<and> parseEvent ids xdr e2 = Some p2 \<and>
    stake_row_of at1 p1 = Some r1 \<and> stake_row_of at2 p2 = Some r2 \<and>
    net_stake (rows @ [r1, r2]) w a b = net_stake rows w a b - 2 * x"
proof -
  have "parseEvent ids xdr e1 = Some (Stake_ev (extractBase e1) w x UNSTAKE)"
    "parseEvent ids xdr e2 = Some (Stake_ev (extractBase e2) w x UNSTAKE)"
    using assms(1-8) by (simp_all add: parseEvent_def Let_def hubble_decodeTopicEntry_def decodeScVal_def as_array_def
        element_def hubble_toString_def toBigInt_def coalesce_def)
  then show ?thesis using assms(9-12) by (simp add: stake_row_of_def net_stake_def)
qed

definition wit_chain :: "string \<Rightarrow> native option" where
  "wit_chain raw =
     (if raw = ''d'' then Some (N_str ''delayed'') else if raw = ''c'' then Some (N_str ''claimed'')
      else if raw = ''v'' then Some (N_vec [N_str ''GA'', N_big 40, N_big 0, N_num 900])
      else if raw = ''u'' then Some (N_vec [N_str ''GA'', N_big 40, N_big 0]) else None)"

definition wit_event :: "string \<Rightarrow> string \<Rightarrow> hubble_raw" where
  "wit_event topic v = \<lparr>hr_ledger = 9, hr_closedAt = None, hr_contractId = ''S'', hr_id = None, hr_topic = [topic],
     hr_value = v, hr_txHash = Some topic, hr_success = None\<rparr>"

theorem delayed_withdrawal_counted_twice_witness:
  "\<exists>p1 p2 r1 r2. parseEvent wit_ids wit_chain (wit_event ''d'' ''v'') = Some p1 \<and>
    parseEvent wit_ids wit_chain (wit_event ''c'' ''u'') = Some p2 \<and>
    stake_row_of 2000 p1 = Some r1 \<and> stake_row_of 3000 p2 = Some r2 \<and>
    net_stake ([] @ [r1, r2]) ''GA'' 0 5000 = net_stake [] ''GA'' 0 5000 - 2 * 40"
  using delayed_withdrawal_counted_twice [of "wit_event ''d'' ''v''" wit_ids "wit_event ''c'' ''u''" "''d''" wit_chain "''c''"
      "''GA''" 40 0 900 0 2000 5000 3000 "[]"]
  by (simp add: wit_event_def wit_ids_def wit_chain_def)

end
