(* ===== verification/Lending_Contract.thy ===== *)
theory Lending_Contract
  imports Chain_Rpc
begin

text \<open>
  The lending contract \<open>contracts/lending/src/lib.rs\<close> the lending routes are written against:
  positions, the two pools, the health factor and the five user operations. A panic is \<open>None\<close> and
  leaves the ledger as it was. Arithmetic is checked at 128 bits as the release profile asks for.
  Storage lifetimes, events and authorisation are left out; the two tokens are the balances of the
  users and of the contract.
\<close>

subsection \<open>State\<close>

record lending =
  collateral :: "wallet \<Rightarrow> int"
  borrowed :: "wallet \<Rightarrow> int"
  total_collateral :: int
  total_borrowed :: int
  collateral_factor :: int
  liquidation_threshold :: int
  liquidation_bonus :: int
  exchange_rate :: int
  sxlm_of :: "wallet \<Rightarrow> int"
  xlm_of :: "wallet \<Rightarrow> int"
  sxlm_pool :: int
  xlm_pool :: int

definition LENDING_BPS :: int where "LENDING_BPS = 10000"
definition RATE_PRECISION :: int where "RATE_PRECISION = 10000000"
definition DEFAULT_LIQUIDATION_BONUS_BPS :: int where "DEFAULT_LIQUIDATION_BONUS_BPS = 500"
definition I128_MAX :: int where "I128_MAX = 2 ^ 127 - 1"

text \<open>Checked product, sum and quotient.\<close>

definition mul :: "int \<Rightarrow> int \<Rightarrow> int option" where "mul a b = i128 (a * b)"
definition add :: "int \<Rightarrow> int \<Rightarrow> int option" where "add a b = i128 (a + b)"
definition quo :: "int \<Rightarrow> int \<Rightarrow> int option" where "quo a b = (if b = 0 then None else i128 (bdiv a b))"

definition assert_that :: "bool \<Rightarrow> unit option" where
  "assert_that P = (if P then Some () else None)"

lemmas checked_defs = mul_def add_def quo_def

text \<open>A transfer between a user and the contract's pool: the payer needs the amount.\<close>

definition sxlm_to_pool :: "wallet \<Rightarrow> int \<Rightarrow> lending \<Rightarrow> lending option" where
  "sxlm_to_pool u n s =
     (if sxlm_of s u < n then None else Some (s\<lparr>sxlm_of := (sxlm_of s)(u := sxlm_of s u - n), sxlm_pool := sxlm_pool s + n\<rparr>))"

definition sxlm_from_pool :: "wallet \<Rightarrow> int \<Rightarrow> lending \<Rightarrow> lending option" where
  "sxlm_from_pool u n s =
     (if sxlm_pool s < n then None else Some (s\<lparr>sxlm_of := (sxlm_of s)(u := sxlm_of s u + n), sxlm_pool := sxlm_pool s - n\<rparr>))"

definition xlm_to_pool :: "wallet \<Rightarrow> int \<Rightarrow> lending \<Rightarrow> lending option" where
  "xlm_to_pool u n s =
     (if xlm_of s u < n then None else Some (s\<lparr>xlm_of := (xlm_of s)(u := xlm_of s u - n), xlm_pool := xlm_pool s + n\<rparr>))"

definition xlm_from_pool :: "wallet \<Rightarrow> int \<Rightarrow> lending \<Rightarrow> lending option" where
  "xlm_from_pool u n s =
     (if xlm_pool s < n then None else Some (s\<lparr>xlm_of := (xlm_of s)(u := xlm_of s u + n), xlm_pool := xlm_pool s - n\<rparr>))"

lemmas transfer_defs = sxlm_to_pool_def sxlm_from_pool_def xlm_to_pool_def xlm_from_pool_def

subsection \<open>Operations\<close>

definition compute_health_factor :: "int \<Rightarrow> int \<Rightarrow> int \<Rightarrow> int \<Rightarrow> int option" where
  "compute_health_factor c b bps er =
     (if b = 0 then Some I128_MAX
      else Option.bind (mul c er) (\<lambda>x. Option.bind (mul x bps) (\<lambda>num.
           Option.bind (mul LENDING_BPS b) (\<lambda>den. quo num den))))"

definition health_factor :: "wallet \<Rightarrow> lending \<Rightarrow> int option" where
  "health_factor u s = compute_health_factor (collateral s u) (borrowed s u) (liquidation_threshold s) (exchange_rate s)"

definition deposit_collateral :: "wallet \<Rightarrow> int \<Rightarrow> lending \<Rightarrow> lending option" where
  "deposit_collateral u n s =
     Option.bind (assert_that (0 < n)) (\<lambda>_.
     Option.bind (sxlm_to_pool u n s) (\<lambda>s1.
     Option.bind (add (collateral s1 u) n) (\<lambda>c.
     Option.bind (add (total_collateral s1) n) (\<lambda>t.
     Some (s1\<lparr>collateral := (collateral s1)(u := c), total_collateral := t\<rparr>)))))"

definition withdraw_collateral :: "wallet \<Rightarrow> int \<Rightarrow> lending \<Rightarrow> lending option" where
  "withdraw_collateral u n s =
     Option.bind (assert_that (0 < n \<and> collateral s u \<ge> n)) (\<lambda>_.
     let c = collateral s u - n in
     Option.bind (if borrowed s u > 0
        then Option.bind (compute_health_factor c (borrowed s u) (collateral_factor s) (exchange_rate s))
               (\<lambda>hf. assert_that (hf \<ge> RATE_PRECISION))
        else Some ()) (\<lambda>_.
     sxlm_from_pool u n (s\<lparr>collateral := (collateral s)(u := c), total_collateral := total_collateral s - n\<rparr>)))"

definition max_borrow :: "wallet \<Rightarrow> lending \<Rightarrow> int option" where
  "max_borrow u s =
     Option.bind (mul (collateral s u) (exchange_rate s)) (\<lambda>x. Option.bind (mul x (collateral_factor s)) (\<lambda>y.
       quo y (LENDING_BPS * RATE_PRECISION)))"

definition borrow :: "wallet \<Rightarrow> int \<Rightarrow> lending \<Rightarrow> lending option" where
  "borrow u n s =
     Option.bind (assert_that (0 < n)) (\<lambda>_.
     Option.bind (add (borrowed s u) n) (\<lambda>b.
     Option.bind (max_borrow u s) (\<lambda>m.
     Option.bind (assert_that (b \<le> m)) (\<lambda>_.
     Option.bind (add (total_borrowed s) n) (\<lambda>t.
     xlm_from_pool u n (s\<lparr>borrowed := (borrowed s)(u := b), total_borrowed := t\<rparr>))))))"

definition repay :: "wallet \<Rightarrow> int \<Rightarrow> lending \<Rightarrow> lending option" where
  "repay u n s =
     Option.bind (assert_that (0 < n)) (\<lambda>_.
     let r = (if n > borrowed s u then borrowed s u else n) in
     Option.bind (xlm_to_pool u r s) (\<lambda>s1.
     Some (s1\<lparr>borrowed := (borrowed s1)(u := borrowed s1 u - r), total_borrowed := total_borrowed s1 - r\<rparr>)))"

text \<open>What a liquidation takes: the debt with its bonus at the exchange rate, at most the collateral.\<close>

definition seized :: "int \<Rightarrow> int \<Rightarrow> lending \<Rightarrow> int option" where
  "seized c b s =
     Option.bind (mul b (LENDING_BPS + liquidation_bonus s)) (\<lambda>x.
     Option.bind (quo x LENDING_BPS) (\<lambda>withBonus.
     Option.bind (mul withBonus RATE_PRECISION) (\<lambda>y.
     Option.bind (quo y (exchange_rate s)) (\<lambda>q. Some (if q > c then c else q)))))"

definition liquidate :: "wallet \<Rightarrow> wallet \<Rightarrow> lending \<Rightarrow> lending option" where
  "liquidate liquidator u s =
     (let c = collateral s u; b = borrowed s u in
      Option.bind (assert_that (b > 0)) (\<lambda>_.
      Option.bind (compute_health_factor c b (liquidation_threshold s) (exchange_rate s)) (\<lambda>hf.
      Option.bind (assert_that (hf < RATE_PRECISION)) (\<lambda>_.
      Option.bind (xlm_to_pool liquidator b s) (\<lambda>s1.
      Option.bind (seized c b s1) (\<lambda>q.
      Option.bind (sxlm_from_pool liquidator q s1) (\<lambda>s2.
      Some (s2\<lparr>total_collateral := total_collateral s2 - q, total_borrowed := total_borrowed s2 - b,
               collateral := (collateral s2)(u := c - q), borrowed := (borrowed s2)(u := 0)\<rparr>))))))))"

definition update_exchange_rate :: "int \<Rightarrow> lending \<Rightarrow> lending option" where
  "update_exchange_rate r s = (if r > 0 then Some (s\<lparr>exchange_rate := r\<rparr>) else None)"

definition update_collateral_factor :: "int \<Rightarrow> lending \<Rightarrow> lending option" where
  "update_collateral_factor bps s = (if bps > 0 \<and> bps \<le> 10000 then Some (s\<lparr>collateral_factor := bps\<rparr>) else None)"

definition update_liquidation_threshold :: "int \<Rightarrow> lending \<Rightarrow> lending option" where
  "update_liquidation_threshold bps s =
     (if bps > 0 \<and> bps \<le> 10000 then Some (s\<lparr>liquidation_threshold := bps\<rparr>) else None)"

text \<open>A ledger of transactions: one that panics changes nothing.\<close>

datatype lending_op =
    Deposit wallet int | Withdraw wallet int | Borrow wallet int | Repay wallet int | Liquidate wallet wallet
  | Set_rate int | Set_factor int | Set_threshold int

fun lending_call :: "lending_op \<Rightarrow> lending \<Rightarrow> lending option" where
  "lending_call (Deposit u n) s = deposit_collateral u n s"
| "lending_call (Withdraw u n) s = withdraw_collateral u n s"
| "lending_call (Borrow u n) s = borrow u n s"
| "lending_call (Repay u n) s = repay u n s"
| "lending_call (Liquidate l u) s = liquidate l u s"
| "lending_call (Set_rate r) s = update_exchange_rate r s"
| "lending_call (Set_factor f) s = update_collateral_factor f s"
| "lending_call (Set_threshold t) s = update_liquidation_threshold t s"

definition lending_tx :: "lending_op \<Rightarrow> lending \<Rightarrow> lending" where
  "lending_tx p s = (case lending_call p s of None \<Rightarrow> s | Some s' \<Rightarrow> s')"

fun lending_txs :: "lending_op list \<Rightarrow> lending \<Rightarrow> lending" where
  "lending_txs [] s = s"
| "lending_txs (p # ps) s = lending_txs ps (lending_tx p s)"

subsection \<open>What a successful operation did\<close>

lemma assert_that_iff [simp]: "assert_that P = Some x \<longleftrightarrow> P"
  by (simp add: assert_that_def)

lemma i128_SomeD: "i128 n = Some m \<Longrightarrow> m = n"
  by (simp add: i128_def split: if_splits)

lemma checked_SomeD:
  "mul a b = Some m \<Longrightarrow> m = a * b" "add a b = Some m \<Longrightarrow> m = a + b" "quo a b = Some m \<Longrightarrow> b \<noteq> 0 \<and> m = bdiv a b"
  by (auto simp: checked_defs dest: i128_SomeD split: if_splits)

lemma health_factor_value:
  assumes "compute_health_factor c b bps er = Some hf" "0 \<le> c" "0 < b" "0 \<le> bps" "0 \<le> er"
  shows "hf = c * er * bps div (10000 * b)"
  using assms by (auto simp: compute_health_factor_def LENDING_BPS_def bdiv_nonneg bind_eq_Some_conv dest!: checked_SomeD)

lemma deposit_did:
  assumes "deposit_collateral u n s = Some s'"
  shows "0 < n" "n \<le> sxlm_of s u"
    "s' = s\<lparr>sxlm_of := (sxlm_of s)(u := sxlm_of s u - n), sxlm_pool := sxlm_pool s + n,
            collateral := (collateral s)(u := collateral s u + n), total_collateral := total_collateral s + n\<rparr>"
  using assms
  by (auto simp: deposit_collateral_def sxlm_to_pool_def bind_eq_Some_conv dest!: checked_SomeD split: if_splits)

lemma withdraw_did:
  assumes "withdraw_collateral u n s = Some s'"
  shows "0 < n" "n \<le> collateral s u" "n \<le> sxlm_pool s"
    "s' = s\<lparr>collateral := (collateral s)(u := collateral s u - n), total_collateral := total_collateral s - n,
            sxlm_of := (sxlm_of s)(u := sxlm_of s u + n), sxlm_pool := sxlm_pool s - n\<rparr>"
    "0 < borrowed s u \<Longrightarrow> \<exists>hf. compute_health_factor (collateral s u - n) (borrowed s u) (collateral_factor s)
       (exchange_rate s) = Some hf \<and> RATE_PRECISION \<le> hf"
  using assms
  by (auto simp: withdraw_collateral_def sxlm_from_pool_def bind_eq_Some_conv Let_def split: if_splits)

lemma borrow_did:
  assumes "borrow u n s = Some s'"
  shows "0 < n" "n \<le> xlm_pool s" "\<exists>m. max_borrow u s = Some m \<and> borrowed s u + n \<le> m"
    "s' = s\<lparr>borrowed := (borrowed s)(u := borrowed s u + n), total_borrowed := total_borrowed s + n,
            xlm_of := (xlm_of s)(u := xlm_of s u + n), xlm_pool := xlm_pool s - n\<rparr>"
  using assms by (auto simp: borrow_def xlm_from_pool_def bind_eq_Some_conv dest!: checked_SomeD split: if_splits)

lemma repay_did:
  assumes "repay u n s = Some s'"
  defines "r \<equiv> min n (borrowed s u)"
  shows "0 < n" "r \<le> xlm_of s u"
    "s' = s\<lparr>xlm_of := (xlm_of s)(u := xlm_of s u - r), xlm_pool := xlm_pool s + r,
            borrowed := (borrowed s)(u := borrowed s u - r), total_borrowed := total_borrowed s - r\<rparr>"
  using assms by (auto simp: repay_def xlm_to_pool_def bind_eq_Some_conv Let_def min_def split: if_splits)

lemma liquidate_did:
  assumes "liquidate l u s = Some s'"
  obtains hf q where "0 < borrowed s u" "health_factor u s = Some hf" "hf < RATE_PRECISION" "borrowed s u \<le> xlm_of s l"
    "seized (collateral s u) (borrowed s u) s = Some q" "q \<le> sxlm_pool s"
    "s' = s\<lparr>xlm_of := (xlm_of s)(l := xlm_of s l - borrowed s u), xlm_pool := xlm_pool s + borrowed s u,
            sxlm_of := (sxlm_of s)(l := sxlm_of s l + q), sxlm_pool := sxlm_pool s - q,
            total_collateral := total_collateral s - q, total_borrowed := total_borrowed s - borrowed s u,
            collateral := (collateral s)(u := collateral s u - q), borrowed := (borrowed s)(u := 0)\<rparr>"
proof -
  have "seized c b (s\<lparr>xlm_of := f, xlm_pool := p\<rparr>) = seized c b s" for c b f p by (simp add: seized_def)
  with assms show ?thesis
    by (clarsimp simp: liquidate_def Let_def health_factor_def xlm_to_pool_def sxlm_from_pool_def
        bind_eq_Some_conv split: if_splits) (rule that; assumption?; simp add: not_less health_factor_def)
qed

lemma seized_bounds:
  assumes "seized c b s = Some q" "0 \<le> c" "0 \<le> b" "0 \<le> liquidation_bonus s" "0 < exchange_rate s"
  shows "0 \<le> q" "q \<le> c"
    "q = min c (b * (10000 + liquidation_bonus s) div 10000 * 10000000 div exchange_rate s)"
proof -
  have "0 \<le> b * (10000 + liquidation_bonus s)" using assms by simp
  then show q: "q = min c (b * (10000 + liquidation_bonus s) div 10000 * 10000000 div exchange_rate s)"
    using assms by (auto simp: seized_def LENDING_BPS_def RATE_PRECISION_def bind_eq_Some_conv bdiv_nonneg
        pos_imp_zdiv_nonneg_iff dest!: checked_SomeD split: if_splits)
  have "0 \<le> b * (10000 + liquidation_bonus s) div 10000 * 10000000 div exchange_rate s"
    using assms \<open>0 \<le> b * (10000 + liquidation_bonus s)\<close> by (simp add: pos_imp_zdiv_nonneg_iff)
  then show "0 \<le> q" "q \<le> c" using q assms(2) by auto
qed

subsection \<open>The books\<close>

text \<open>
  An operation of a user in \<open>U\<close> keeps what every sum over \<open>U\<close> must keep. A property of the state
  that the transfers and book entries of one operation keep is one of every ledger.\<close>

fun users_of :: "lending_op \<Rightarrow> wallet set" where
  "users_of (Deposit u n) = {u}"
| "users_of (Withdraw u n) = {u}"
| "users_of (Borrow u n) = {u}"
| "users_of (Repay u n) = {u}"
| "users_of (Liquidate l u) = {l, u}"
| "users_of p = {}"

locale lending_invariant =
  fixes I :: "lending \<Rightarrow> bool" and ok :: "lending_op \<Rightarrow> bool"
  assumes step: "I s \<Longrightarrow> ok p \<Longrightarrow> lending_call p s = Some s' \<Longrightarrow> I s'"
begin

lemma tx: "I s \<Longrightarrow> ok p \<Longrightarrow> I (lending_tx p s)"
  by (auto simp: lending_tx_def intro: step split: option.split)

lemma ledger: "I s \<Longrightarrow> list_all ok ps \<Longrightarrow> I (lending_txs ps s)"
  by (induction ps arbitrary: s) (simp_all add: tx)

end

definition books_ok :: "wallet set \<Rightarrow> lending \<Rightarrow> bool" where
  "books_ok U s \<longleftrightarrow> finite U \<and>
     total_collateral s = sum (collateral s) U \<and> total_borrowed s = sum (borrowed s) U \<and>
     (\<forall>u. 0 \<le> collateral s u) \<and> (\<forall>u. 0 \<le> borrowed s u) \<and>
     0 < exchange_rate s \<and> 0 \<le> liquidation_bonus s \<and> 0 \<le> collateral_factor s \<and> 0 \<le> liquidation_threshold s"

lemma sum_update:
  fixes f :: "wallet \<Rightarrow> int"
  assumes "finite U" "u \<in> U"
  shows "(\<Sum>x\<in>U. if x = u then v else f x) = sum f U - f u + v"
proof -
  have "(\<Sum>x\<in>U. if x = u then v else f x) = v + (\<Sum>x\<in>U - {u}. if x = u then v else f x)"
    using assms by (simp add: sum.remove)
  also have "(\<Sum>x\<in>U - {u}. if x = u then v else f x) = sum f (U - {u})" by (rule sum.cong) auto
  also have "\<dots> = sum f U - f u" using assms by (simp add: sum_diff1)
  finally show ?thesis by simp
qed

interpretation books: lending_invariant "books_ok U" "\<lambda>p. users_of p \<subseteq> U" for U
proof
  fix s p s'
  assume ok: "books_ok U s" and u: "users_of p \<subseteq> U" and run: "lending_call p s = Some s'"
  have fin: "finite U" using ok by (simp add: books_ok_def)
  show "books_ok U s'"
  proof (cases p)
    case (Deposit v n)
    then show ?thesis using ok u run deposit_did [of v n s s'] by (auto simp: books_ok_def sum_update)
  next
    case (Withdraw v n)
    then show ?thesis using ok u run withdraw_did(1-4) [of v n s s'] by (auto simp: books_ok_def sum_update)
  next
    case (Borrow v n)
    then show ?thesis using ok u run borrow_did [of v n s s'] by (auto simp: books_ok_def sum_update)
  next
    case (Repay v n)
    then show ?thesis using ok u run repay_did [of v n s s'] by (auto simp: books_ok_def sum_update)
  next
    case (Liquidate l v)
    then obtain q where "seized (collateral s v) (borrowed s v) s = Some q"
      and s': "s' = s\<lparr>xlm_of := (xlm_of s)(l := xlm_of s l - borrowed s v), xlm_pool := xlm_pool s + borrowed s v,
            sxlm_of := (sxlm_of s)(l := sxlm_of s l + q), sxlm_pool := sxlm_pool s - q,
            total_collateral := total_collateral s - q, total_borrowed := total_borrowed s - borrowed s v,
            collateral := (collateral s)(v := collateral s v - q), borrowed := (borrowed s)(v := 0)\<rparr>"
      using run by (auto elim: liquidate_did)
    then have "q \<le> collateral s v" using ok seized_bounds(2) unfolding books_ok_def by metis
    then show ?thesis using ok u Liquidate by (auto simp: books_ok_def s' sum_update)
  qed (use ok run in \<open>auto simp: books_ok_def update_exchange_rate_def update_collateral_factor_def
      update_liquidation_threshold_def split: if_splits\<close>)
qed

text \<open>
  C18. Over any ledger of transactions of a finite set of users, successful or not, the contract's two totals stay the
  sums of the users' positions, and no position goes below zero.\<close>

theorem lending_totals_are_sums:
  assumes "books_ok U s" "list_all (\<lambda>p. users_of p \<subseteq> U) ps"
  shows "total_collateral (lending_txs ps s) = sum (collateral (lending_txs ps s)) U \<and>
    total_borrowed (lending_txs ps s) = sum (borrowed (lending_txs ps s)) U \<and>
    (\<forall>u. 0 \<le> collateral (lending_txs ps s) u \<and> 0 \<le> borrowed (lending_txs ps s) u)"
  using books.ledger [OF assms] by (simp_all add: books_ok_def)

text \<open>What one transfer moves, the books move as well.\<close>

interpretation pools: lending_invariant
  "\<lambda>s. sxlm_pool s - total_collateral s = a \<and> xlm_pool s + total_borrowed s = b" "\<lambda>_. True" for a b
proof
  fix s p s'
  assume ok: "sxlm_pool s - total_collateral s = a \<and> xlm_pool s + total_borrowed s = b"
    and run: "lending_call p s = Some s'"
  show "sxlm_pool s' - total_collateral s' = a \<and> xlm_pool s' + total_borrowed s' = b"
  proof (cases p)
    case (Deposit v n)
    then show ?thesis using ok run deposit_did(3) [of v n s s'] by simp
  next
    case (Withdraw v n)
    then show ?thesis using ok run withdraw_did(4) [of v n s s'] by simp
  next
    case (Borrow v n)
    then show ?thesis using ok run borrow_did(4) [of v n s s'] by simp
  next
    case (Repay v n)
    then show ?thesis using ok run repay_did(3) [of v n s s'] by simp
  next
    case (Liquidate l v)
    then show ?thesis using ok run by (auto elim!: liquidate_did)
  qed (use ok run in \<open>auto simp: update_exchange_rate_def update_collateral_factor_def
      update_liquidation_threshold_def split: if_splits\<close>)
qed

text \<open>
  C36. The lending pool earns nothing: whatever is borrowed, repaid and liquidated, the XLM in the pool and the
  debt owed to it add up to what they were, so there is never any interest to harvest; and the sXLM in the contract
  covers the collateral by the same margin.\<close>

theorem lending_pool_earns_nothing:
  "xlm_pool (lending_txs ps s) + total_borrowed (lending_txs ps s) = xlm_pool s + total_borrowed s \<and>
   sxlm_pool (lending_txs ps s) - total_collateral (lending_txs ps s) = sxlm_pool s - total_collateral s"
  using pools.ledger [of s _ _ ps] by (simp add: list_all_iff)

definition demo_lending :: lending where
  "demo_lending =
     \<lparr>collateral = (\<lambda>u. if u = ''B'' then 1000 else 0), borrowed = (\<lambda>u. if u = ''B'' then 700 else 0),
      total_collateral = 1000, total_borrowed = 700, collateral_factor = 7000, liquidation_threshold = 8000,
      liquidation_bonus = 500, exchange_rate = 10000000, sxlm_of = (\<lambda>_. 0), xlm_of = (\<lambda>_. 5000),
      sxlm_pool = 1000, xlm_pool = 4000\<rparr>"

lemma demo_books: "books_ok {''B'', ''L''} demo_lending"
  by (simp add: books_ok_def demo_lending_def)

theorem lending_totals_are_sums_witness:
  "total_borrowed (lending_txs [Set_rate 8000000, Liquidate ''L'' ''B''] demo_lending) =
   sum (borrowed (lending_txs [Set_rate 8000000, Liquidate ''L'' ''B''] demo_lending)) {''B'', ''L''}"
  using lending_totals_are_sums [OF demo_books, of "[Set_rate 8000000, Liquidate ''L'' ''B'']"] by simp

subsection \<open>Health\<close>

lemma le_divI: "0 < (k::int) \<Longrightarrow> a * k \<le> x \<Longrightarrow> a \<le> x div k"
  using zdiv_mono1 [of "a * k" x k] by simp

text \<open>A debt within the borrowing limit of its collateral is healthy at every higher factor.\<close>

lemma within_limit_healthy:
  fixes b c er cf lt :: int
  assumes "0 < b" "b \<le> c * er * cf div 100000000000" "cf \<le> lt" "0 \<le> c" "0 \<le> er"
  shows "10000000 \<le> c * er * lt div (10000 * b)"
proof (rule le_divI)
  have "c * er * cf div 100000000000 * 100000000000 \<le> c * er * cf"
    using div_mult_mod_eq [of "c * er * cf" 100000000000] pos_mod_sign [of 100000000000 "c * er * cf"] by linarith
  also have "\<dots> \<le> c * er * lt" using assms by (intro mult_left_mono) auto
  finally show "10000000 * (10000 * b) \<le> c * er * lt" using assms(2) by linarith
qed (use assms(1) in simp)

lemma liquidate_refuses_healthy:
  "health_factor u s = Some hf \<Longrightarrow> RATE_PRECISION \<le> hf \<Longrightarrow> liquidate l u s = None"
  by (auto simp: liquidate_def health_factor_def assert_that_def Let_def bind_eq_None_conv)



lemma liquidation_did:
  assumes "books_ok U s" "liquidate l u s = Some s'"
  shows "borrowed s' u = 0" "xlm_pool s' = xlm_pool s + borrowed s u" "xlm_of s' l = xlm_of s l - borrowed s u"
    "0 \<le> collateral s' u" "sxlm_of s' l - sxlm_of s l = collateral s u - collateral s' u"
    "(collateral s u - collateral s' u) * exchange_rate s * 10000 \<le> borrowed s u * (10000 + liquidation_bonus s) * 10000000"
proof -
  note ok = assms(1)[unfolded books_ok_def]
  from assms(2) obtain q where q: "seized (collateral s u) (borrowed s u) s = Some q"
    and s': "s' = s\<lparr>xlm_of := (xlm_of s)(l := xlm_of s l - borrowed s u), xlm_pool := xlm_pool s + borrowed s u,
            sxlm_of := (sxlm_of s)(l := sxlm_of s l + q), sxlm_pool := sxlm_pool s - q,
            total_collateral := total_collateral s - q, total_borrowed := total_borrowed s - borrowed s u,
            collateral := (collateral s)(u := collateral s u - q), borrowed := (borrowed s)(u := 0)\<rparr>"
    by (rule liquidate_did)
  show "borrowed s' u = 0" "xlm_pool s' = xlm_pool s + borrowed s u" "xlm_of s' l = xlm_of s l - borrowed s u"
    "sxlm_of s' l - sxlm_of s l = collateral s u - collateral s' u" by (simp_all add: s')
  let ?w = "borrowed s u * (10000 + liquidation_bonus s) div 10000"
  have b: "q \<le> collateral s u" "q \<le> ?w * 10000000 div exchange_rate s"
    using seized_bounds [OF q] ok by auto
  show "0 \<le> collateral s' u" using b(1) by (simp add: s')
  have down: "x div k * k \<le> x" if "0 < k" for x k :: int
    using div_mult_mod_eq [of x k] pos_mod_sign [of k x] that by linarith
  have "q * exchange_rate s \<le> ?w * 10000000 div exchange_rate s * exchange_rate s"
    using b(2) ok by (intro mult_right_mono) auto
  also have "\<dots> \<le> ?w * 10000000" using ok by (intro down) simp
  finally have "q * exchange_rate s * 10000 \<le> ?w * 10000 * 10000000" by simp
  also have "\<dots> \<le> borrowed s u * (10000 + liquidation_bonus s) * 10000000"
    using down [of 10000] by (intro mult_right_mono) auto
  finally show "(collateral s u - collateral s' u) * exchange_rate s * 10000 \<le>
      borrowed s u * (10000 + liquidation_bonus s) * 10000000" by (simp add: s')
qed

text \<open>
  A liquidation clears the debt, pays the pool exactly that debt, and takes collateral of at most the debt and its bonus
  at the exchange rate, never more than the position has.\<close>

theorem liquidation_settles:
  assumes "books_ok U s" "liquidate l u s = Some s'"
  shows "borrowed s' u = 0 \<and> xlm_pool s' = xlm_pool s + borrowed s u \<and> xlm_of s' l = xlm_of s l - borrowed s u \<and>
    0 \<le> collateral s' u \<and> sxlm_of s' l - sxlm_of s l = collateral s u - collateral s' u \<and>
    (collateral s u - collateral s' u) * exchange_rate s * 10000 \<le> borrowed s u * (10000 + liquidation_bonus s) * 10000000"
  using liquidation_did [OF assms] by blast

theorem liquidation_settles_witness:
  "borrowed (lending_tx (Liquidate ''L'' ''B'') (lending_tx (Set_rate 8000000) demo_lending)) ''B'' = 0"
proof -
  let ?s = "lending_tx (Set_rate 8000000) demo_lending"
  have s: "?s = demo_lending\<lparr>exchange_rate := 8000000\<rparr>"
    by (simp add: lending_tx_def update_exchange_rate_def)
  have "liquidate ''L'' ''B'' ?s \<noteq> None" unfolding s by code_simp
  then obtain t where t: "liquidate ''L'' ''B'' ?s = Some t" by blast
  have "books_ok {''B'', ''L''} ?s" by (rule books.tx [OF demo_books]) simp
  from liquidation_settles [OF this t] show ?thesis using t by (simp add: lending_tx_def [of "Liquidate ''L'' ''B''"])
qed

end
