(* ===== verification/Gov_Contract.thy ===== *)
theory Gov_Contract
  imports Governance_Sync Lending_Contract
begin

text \<open>
  The governance contract \<open>contracts/governance/src/lib.rs\<close> whose proposals the backend applies: creating,
  voting, executing, and the transfers of the token the votes are weighed by. A panic is
  \<open>None\<close>. Authorisation, storage lifetimes and events are left out.
\<close>

subsection \<open>State\<close>

record gov_proposal = chain_proposal +
  gp_for :: int
  gp_against :: int

record gov_contract =
  gc_ledger :: ledger_no
  gc_proposals :: "gov_proposal list"
  gc_voted :: "(nat \<times> wallet) list"
  gc_params :: "(string \<times> string) list"
  gc_period :: int
  gc_quorum_bps :: int
  gc_reference :: int
  gc_sxlm :: "wallet \<Rightarrow> int"

definition MIN_PROPOSAL_BALANCE :: int where "MIN_PROPOSAL_BALANCE = 1000000000"

text \<open>Checked addition of ledger numbers (32 bits unsigned).\<close>

definition add_u32 :: "int \<Rightarrow> int \<Rightarrow> int option" where
  "add_u32 a b = (if a + b < 2^32 then Some (a + b) else None)"

subsection \<open>Operations\<close>

definition create_proposal :: "wallet \<Rightarrow> string \<Rightarrow> string \<Rightarrow> gov_contract \<Rightarrow> (nat \<times> gov_contract) option" where
  "create_proposal proposer param_key new_value s =
     Option.bind (assert_that (gc_sxlm s proposer \<ge> MIN_PROPOSAL_BALANCE)) (\<lambda>_.
     Option.bind (add_u32 (gc_ledger s) (gc_period s)) (\<lambda>end_ledger.
     Some (length (gc_proposals s),
       s\<lparr>gc_proposals := gc_proposals s @
           [\<lparr>cp_proposer = proposer, cp_paramKey = param_key, cp_newValue = new_value, cp_startLedger = gc_ledger s,
             cp_endLedger = end_ledger, cp_executed = False, gp_for = 0, gp_against = 0\<rparr>]\<rparr>)))"

definition read_proposal :: "nat \<Rightarrow> gov_contract \<Rightarrow> gov_proposal option" where
  "read_proposal i s = (if i < length (gc_proposals s) then Some (gc_proposals s ! i) else None)"

definition vote :: "wallet \<Rightarrow> nat \<Rightarrow> bool \<Rightarrow> gov_contract \<Rightarrow> gov_contract option" where
  "vote voter i support s =
     Option.bind (read_proposal i s) (\<lambda>p.
     Option.bind (assert_that (gc_ledger s \<le> cp_endLedger p)) (\<lambda>_.
     Option.bind (assert_that ((i, voter) \<notin> set (gc_voted s))) (\<lambda>_.
     let weight = gc_sxlm s voter in
     Option.bind (assert_that (weight > 0)) (\<lambda>_.
     Option.bind (if support then Option.bind (add (gp_for p) weight) (\<lambda>n. Some (p\<lparr>gp_for := n\<rparr>))
                  else Option.bind (add (gp_against p) weight) (\<lambda>n. Some (p\<lparr>gp_against := n\<rparr>))) (\<lambda>p'.
     Some (s\<lparr>gc_voted := (i, voter) # gc_voted s, gc_proposals := (gc_proposals s)[i := p']\<rparr>))))))"

definition execute_proposal :: "nat \<Rightarrow> gov_contract \<Rightarrow> gov_contract option" where
  "execute_proposal i s =
     Option.bind (read_proposal i s) (\<lambda>p.
     Option.bind (assert_that (\<not> cp_executed p)) (\<lambda>_.
     Option.bind (assert_that (gc_ledger s > cp_endLedger p)) (\<lambda>_.
     Option.bind (add (gp_for p) (gp_against p)) (\<lambda>total_votes.
     Option.bind (assert_that (total_votes > 0)) (\<lambda>_.
     Option.bind (if gc_reference s > 0
        then Option.bind (mul (gc_reference s) (gc_quorum_bps s)) (\<lambda>x. Option.bind (quo x 10000) (\<lambda>required.
               assert_that (total_votes \<ge> required)))
        else Some ()) (\<lambda>_.
     Option.bind (assert_that (gp_for p > gp_against p)) (\<lambda>_.
     Some (s\<lparr>gc_params := (cp_paramKey p, cp_newValue p) # gc_params s,
             gc_proposals := (gc_proposals s)[i := p\<lparr>cp_executed := True\<rparr>]\<rparr>))))))))"

definition get_vote_count :: "nat \<Rightarrow> gov_contract \<Rightarrow> (int \<times> int) option" where
  "get_vote_count i s = map_option (\<lambda>p. (gp_for p, gp_against p)) (read_proposal i s)"

text \<open>The value set last for a key; the empty string if there is none.\<close>

definition get_param :: "string \<Rightarrow> gov_contract \<Rightarrow> string" where
  "get_param k s = (case map_of (gc_params s) k of Some v \<Rightarrow> v | None \<Rightarrow> [])"

text \<open>A transfer of the voting token.\<close>

definition sxlm_transfer :: "wallet \<Rightarrow> wallet \<Rightarrow> int \<Rightarrow> gov_contract \<Rightarrow> gov_contract option" where
  "sxlm_transfer u v n s =
     (if n < 0 \<or> gc_sxlm s u < n then None
      else let f = (gc_sxlm s)(u := gc_sxlm s u - n) in Some (s\<lparr>gc_sxlm := f(v := f v + n)\<rparr>))"

inductive gov_step :: "gov_contract \<Rightarrow> gov_contract \<Rightarrow> bool" where
  Create: "create_proposal u k v s = Some (i, s') \<Longrightarrow> gov_step s s'"
| Vote: "vote u i b s = Some s' \<Longrightarrow> gov_step s s'"
| Execute: "execute_proposal i s = Some s' \<Longrightarrow> gov_step s s'"
| Transfer: "sxlm_transfer u v n s = Some s' \<Longrightarrow> gov_step s s'"
| Close: "gc_ledger s \<le> l \<Longrightarrow> gov_step s (s\<lparr>gc_ledger := l\<rparr>)"

subsection \<open>What an operation did\<close>

lemma vote_did:
  assumes "vote u i b s = Some s'"
  obtains p where "i < length (gc_proposals s)" "p = gc_proposals s ! i" "gc_ledger s \<le> cp_endLedger p" "(i, u) \<notin> set (gc_voted s)"
    "0 < gc_sxlm s u"
    "s' = s\<lparr>gc_voted := (i, u) # gc_voted s, gc_proposals := (gc_proposals s)[i :=
       (if b then p\<lparr>gp_for := gp_for p + gc_sxlm s u\<rparr> else p\<lparr>gp_against := gp_against p + gc_sxlm s u\<rparr>)]\<rparr>"
  using assms
  by (auto simp: vote_def read_proposal_def Let_def bind_eq_Some_conv dest!: checked_SomeD(2) split: if_splits)

lemma execute_did:
  assumes "execute_proposal i s = Some s'"
  obtains p where "i < length (gc_proposals s)" "p = gc_proposals s ! i" "\<not> cp_executed p" "cp_endLedger p < gc_ledger s"
    "gp_against p < gp_for p" "0 < gp_for p + gp_against p"
    "s' = s\<lparr>gc_params := (cp_paramKey p, cp_newValue p) # gc_params s, gc_proposals := (gc_proposals s)[i := p\<lparr>cp_executed := True\<rparr>]\<rparr>"
  using assms
  by (auto simp: execute_proposal_def read_proposal_def bind_eq_Some_conv dest!: checked_SomeD(2) split: if_splits)

subsection \<open>Executed proposals\<close>

text \<open>An executed proposal was accepted by its votes after its period, and every parameter is one of an executed proposal.\<close>

definition gov_ok :: "gov_contract \<Rightarrow> bool" where
  "gov_ok s \<longleftrightarrow>
     (\<forall>p\<in>set (gc_proposals s). cp_executed p \<longrightarrow> gp_against p < gp_for p \<and> cp_endLedger p < gc_ledger s) \<and>
     (\<forall>(k, v)\<in>set (gc_params s). \<exists>p\<in>set (gc_proposals s). cp_executed p \<and> cp_paramKey p = k \<and> cp_newValue p = v)"

lemma gov_ok_update:
  assumes "gov_ok s" "i < length (gc_proposals s)" "\<not> cp_executed (gc_proposals s ! i)"
    and new: "cp_executed q \<Longrightarrow> gp_against q < gp_for q \<and> cp_endLedger q < gc_ledger s"
      "\<forall>(k, v)\<in>set ps. cp_executed q \<and> cp_paramKey q = k \<and> cp_newValue q = v"
    and s': "gc_proposals s' = (gc_proposals s)[i := q]" "gc_params s' = ps @ gc_params s" "gc_ledger s' = gc_ledger s"
  shows "gov_ok s'"
  unfolding gov_ok_def
proof (intro conjI ballI impI)
  fix p
  assume "p \<in> set (gc_proposals s')" "cp_executed p"
  then show "gp_against p < gp_for p" "cp_endLedger p < gc_ledger s'"
    using assms(1) new(1) unfolding s' gov_ok_def by (auto dest!: subsetD [OF set_update_subset_insert])
next
  fix x
  assume "x \<in> set (gc_params s')"
  moreover obtain k v where "x = (k, v)" by fastforce
  ultimately have x: "x = (k, v)" "(k, v) \<in> set ps \<or> (k, v) \<in> set (gc_params s)" by (auto simp: s')
  have "\<exists>p\<in>set (gc_proposals s'). cp_executed p \<and> cp_paramKey p = k \<and> cp_newValue p = v"
  proof (cases "(k, v) \<in> set ps")
    case True
    then show ?thesis using new(2) set_update_memI [OF assms(2), of q] unfolding s' by blast
  next
    case False
    then obtain p where p: "p \<in> set (gc_proposals s)" "cp_executed p" "cp_paramKey p = k" "cp_newValue p = v"
      using x(2) assms(1) by (auto simp: gov_ok_def)
    then have "p \<noteq> gc_proposals s ! i" using assms(3) by blast
    then have "p \<in> set (gc_proposals s')" using p(1) unfolding s'
      by (metis in_set_conv_nth length_list_update nth_list_update_neq)
    then show ?thesis using p by blast
  qed
  then show "case x of (k, v) \<Rightarrow> \<exists>p\<in>set (gc_proposals s'). cp_executed p \<and> cp_paramKey p = k \<and> cp_newValue p = v"
    by (simp add: x(1))
qed

lemma gov_step_ok:
  assumes "gov_step s s'" "gov_ok s"
  shows "gov_ok s'"
  using assms
proof (induction rule: gov_step.induct)
  case (Create u k v s i s')
  then show ?case by (auto simp: create_proposal_def bind_eq_Some_conv gov_ok_def)
next
  case (Vote u i b s s')
  then show ?case
  proof (elim vote_did)
    fix p
    assume i: "i < length (gc_proposals s)" and p: "p = gc_proposals s ! i" "gc_ledger s \<le> cp_endLedger p"
      and s': "s' = s\<lparr>gc_voted := (i, u) # gc_voted s, gc_proposals := (gc_proposals s)[i :=
       (if b then p\<lparr>gp_for := gp_for p + gc_sxlm s u\<rparr> else p\<lparr>gp_against := gp_against p + gc_sxlm s u\<rparr>)]\<rparr>"
    have "\<not> cp_executed p" using Vote(2) p nth_mem [OF i] by (force simp: gov_ok_def)
    then show ?thesis using p(1) by (intro gov_ok_update [OF Vote(2) i, of _ "[]"]) (auto simp: s' split: if_splits)
  qed
next
  case (Execute i s s')
  then show ?case
    by (elim execute_did) (rule gov_ok_update [OF Execute(2)], auto)
next
  case (Transfer u v n s s')
  then show ?case by (auto simp: sxlm_transfer_def gov_ok_def Let_def split: if_splits)
next
  case (Close s l)
  then show ?case by (fastforce simp: gov_ok_def)
qed

text \<open>
  C24. Whatever is proposed, voted, executed and transferred, and however the ledgers pass, a governed parameter has the value of a
  proposal that was executed after its voting period with more votes for it than against it.\<close>

theorem parameters_come_from_passed_proposals:
  assumes "gov_step\<^sup>*\<^sup>* s s'" "gov_ok s" "get_param k s' = v" "v \<noteq> []"
  shows "\<exists>p\<in>set (gc_proposals s'). cp_executed p \<and> cp_paramKey p = k \<and> cp_newValue p = v \<and> gp_against p < gp_for p \<and>
    cp_endLedger p < gc_ledger s'"
proof -
  have "gov_ok s'" using assms(1,2) by (induction rule: rtranclp_induct) (auto intro: gov_step_ok)
  moreover have "(k, v) \<in> set (gc_params s')"
    using assms(3,4) by (auto simp: get_param_def dest: map_of_SomeD split: option.splits)
  ultimately show ?thesis by (fastforce simp: gov_ok_def)
qed

subsection \<open>The derived status and the contract\<close>

text \<open>
  Every proposal the contract would execute is shown as passed; the converse fails when the quorum is
  not reached, which the derived status does not look at.\<close>

theorem executable_proposals_are_shown_passed:
  assumes "read_proposal i s = Some p" "gc_reference s * gc_quorum_bps s < 2^127" "0 \<le> gc_quorum_bps s"
    "0 \<le> gp_for p" "0 \<le> gp_against p" "gp_for p + gp_against p < 2^127"
  shows "execute_proposal i s \<noteq> None \<longleftrightarrow>
    deriveStatus (cp_executed p) (gc_ledger s) (cp_endLedger p) (gp_for p) (gp_against p) = ''passed'' \<and>
    (0 < gc_reference s \<longrightarrow> gc_reference s * gc_quorum_bps s div 10000 \<le> gp_for p + gp_against p)"
proof -
  have t: "add (gp_for p) (gp_against p) = Some (gp_for p + gp_against p)" using assms by (simp add: add_def i128_def)
  show ?thesis
  proof (cases "0 < gc_reference s")
    case True
    then have nn: "0 \<le> gc_reference s * gc_quorum_bps s" using assms(3) by simp
    then have m: "mul (gc_reference s) (gc_quorum_bps s) = Some (gc_reference s * gc_quorum_bps s)"
      using assms(2) by (simp add: mul_def i128_def)
    have "gc_reference s * gc_quorum_bps s div 10000 \<le> gc_reference s * gc_quorum_bps s"
      using nn by linarith
    then have q: "quo (gc_reference s * gc_quorum_bps s) 10000 = Some (gc_reference s * gc_quorum_bps s div 10000)"
      using nn assms(2) by (simp add: quo_def bdiv_nonneg i128_def pos_imp_zdiv_nonneg_iff)
    show ?thesis using assms(1,4,5) t True
      by (auto simp: execute_proposal_def m q assert_that_def deriveStatus_def)
  next
    case False
    then show ?thesis using assms(1,4,5) t by (auto simp: execute_proposal_def assert_that_def deriveStatus_def)
  qed
qed

subsection \<open>Votes are counted more than once\<close>

text \<open>The tokens go round: every wallet votes with them and hands them on to the next.\<close>

fun carousel :: "nat \<Rightarrow> int \<Rightarrow> wallet list \<Rightarrow> gov_contract \<Rightarrow> gov_contract option" where
  "carousel i n (u # v # us) s =
     Option.bind (vote u i True s) (\<lambda>s1. Option.bind (sxlm_transfer u v n s1) (\<lambda>s2. carousel i n (v # us) s2))"
| "carousel i n [u] s = vote u i True s"
| "carousel i n [] s = Some s"

lemma carousel_counts:
  assumes "us \<noteq> []" "distinct us" "i < length (gc_proposals s)" "gc_ledger s \<le> cp_endLedger (gc_proposals s ! i)"
    "\<forall>u\<in>set us. (i, u) \<notin> set (gc_voted s)" "0 < n" "gc_sxlm s (hd us) = n" "\<forall>u\<in>set (tl us). gc_sxlm s u = 0"
    "0 \<le> gp_for (gc_proposals s ! i)" "gp_for (gc_proposals s ! i) + int (length us) * n < 2^127"
  shows "\<exists>s'. carousel i n us s = Some s' \<and> read_proposal i s' =
    Some ((gc_proposals s ! i)\<lparr>gp_for := gp_for (gc_proposals s ! i) + int (length us) * n\<rparr>)"
  using assms
proof (induction i n us s rule: carousel.induct)
  case (1 i n u v us s)
  let ?p = "gc_proposals s ! i"
  have "n * 1 \<le> n * int (length (u # v # us))" using 1(7) by (intro mult_left_mono) auto
  then have "gp_for ?p + n \<le> gp_for ?p + int (length (u # v # us)) * n" by (simp add: mult.commute)
  then have "0 \<le> gp_for ?p + n" "gp_for ?p + n < 2^127" using 1(7,10,11) by linarith+
  then have b: "add (gp_for ?p) n = Some (gp_for ?p + n)" by (simp add: add_def i128_def)
  define s1 where "s1 = s\<lparr>gc_voted := (i, u) # gc_voted s, gc_proposals := (gc_proposals s)[i := ?p\<lparr>gp_for := gp_for ?p + n\<rparr>]\<rparr>"
  have v: "vote u i True s = Some s1"
    using 1(4-8) b by (simp add: vote_def read_proposal_def assert_that_def s1_def)
  define s2 where "s2 = s1\<lparr>gc_sxlm := (gc_sxlm s)(u := 0, v := n)\<rparr>"
  have t: "sxlm_transfer u v n s1 = Some s2"
    using 1(3,7,8,9) by (auto simp: sxlm_transfer_def s1_def s2_def Let_def fun_upd_twist)
  have "\<exists>s'. carousel i n (v # us) s2 = Some s' \<and> read_proposal i s' =
      Some ((gc_proposals s2 ! i)\<lparr>gp_for := gp_for (gc_proposals s2 ! i) + int (length (v # us)) * n\<rparr>)"
    using 1(3-11) by (intro 1(1) [OF v t]) (auto simp: s1_def s2_def algebra_simps)
  then show ?case using v t 1(4) by (auto simp: s1_def s2_def algebra_simps)
next
  case (2 i n u s)
  let ?p = "gc_proposals s ! i"
  have "add (gp_for ?p) n = Some (gp_for ?p + n)" using 2 by (simp add: add_def i128_def)
  then show ?case using 2 by (simp add: vote_def read_proposal_def assert_that_def)
qed simp


definition demo_gov :: gov_contract where
  "demo_gov = \<lparr>gc_ledger = 100, gc_proposals = [], gc_voted = [], gc_params = [], gc_period = 50, gc_quorum_bps = 1000,
     gc_reference = 100000000000, gc_sxlm = (\<lambda>_. 0)(''A'' := 2000000000)\<rparr>"

definition demo_proposed :: gov_contract where
  "demo_proposed = snd (the (create_proposal ''A'' ''lp_protocol_fee_bps'' ''30'' demo_gov))"


definition demo_executed :: "gov_contract option" where
  "demo_executed = Option.bind (vote ''A'' 0 True (demo_proposed\<lparr>gc_reference := 10000000000\<rparr>)) (\<lambda>s1.
     execute_proposal 0 (s1\<lparr>gc_ledger := 151\<rparr>))"

theorem parameters_come_from_passed_proposals_witness:
  "\<exists>s' p. demo_executed = Some s' \<and> get_param ''lp_protocol_fee_bps'' s' = ''30'' \<and> p \<in> set (gc_proposals s') \<and>
     gp_against p < gp_for p"
proof -
  define s0 where "s0 = demo_proposed\<lparr>gc_reference := 10000000000\<rparr>"
  have "demo_executed \<noteq> None" by code_simp
  then obtain s1 s' where v: "vote ''A'' 0 True s0 = Some s1" and e: "execute_proposal 0 (s1\<lparr>gc_ledger := 151\<rparr>) = Some s'"
    and run: "demo_executed = Some s'"
    by (auto simp: demo_executed_def s0_def bind_eq_Some_conv)
  have "map_option (get_param ''lp_protocol_fee_bps'') demo_executed = Some ''30''"
    "map_option gc_ledger (vote ''A'' 0 True (demo_proposed\<lparr>gc_reference := 10000000000\<rparr>)) = Some 100" by code_simp+
  then have p: "get_param ''lp_protocol_fee_bps'' s' = ''30''" "gc_ledger s1 = 100" using v by (simp_all add: run s0_def)
  have "gov_step s0 s1" "gov_step s1 (s1\<lparr>gc_ledger := 151\<rparr>)" "gov_step (s1\<lparr>gc_ledger := 151\<rparr>) s'"
    using v e p(2) by (auto intro: gov_step.intros)
  then have steps: "gov_step\<^sup>*\<^sup>* s0 s'" by (meson converse_rtranclp_into_rtranclp rtranclp.rtrancl_refl)
  have "gov_ok s0"
    by (simp add: s0_def gov_ok_def demo_proposed_def create_proposal_def demo_gov_def MIN_PROPOSAL_BALANCE_def assert_that_def add_u32_def)
  from parameters_come_from_passed_proposals [OF steps this p(1)] show ?thesis using run p(1) by auto
qed

theorem executable_proposals_are_shown_passed_witness:
  "execute_proposal 0 (demo_gov\<lparr>gc_proposals := [\<lparr>cp_proposer = ''A'', cp_paramKey = ''k'', cp_newValue = ''v'',
      cp_startLedger = 1, cp_endLedger = 50, cp_executed = False, gp_for = 7, gp_against = 2\<rparr>]\<rparr>) = None \<and>
   deriveStatus False 100 50 7 2 = ''passed''"
proof -
  let ?p = "\<lparr>cp_proposer = ''A'', cp_paramKey = ''k'', cp_newValue = ''v'', cp_startLedger = 1, cp_endLedger = 50,
    cp_executed = False, gp_for = 7, gp_against = 2\<rparr>"
  have "read_proposal 0 (demo_gov\<lparr>gc_proposals := [?p]\<rparr>) = Some ?p" by (simp add: read_proposal_def)
  from executable_proposals_are_shown_passed [OF this] show ?thesis by (simp add: demo_gov_def deriveStatus_def)
qed

end
