(* ===== verification/Api_Gateway.thy ===== *)
theory Api_Gateway
  imports Withdrawal_Store Js_Value
begin

text \<open>
  The request side of \<open>api-gateway/\<close>: the validation schemas, the central error handler, the token
  check and the withdrawal routes. Signature checks and the checksum of an address are parameters, and
  the texts of the schema library's own messages are left abstract.
\<close>

subsection \<open>Bodies and schemas\<close>

text \<open>Arrays and objects matter only through the number \<open>Number()\<close> makes of them.\<close>

datatype json = J_str string | J_num number | J_bool bool | J_null | J_other number

type_synonym body = "string \<Rightarrow> json option"

datatype zod_message = Type_issue | Custom string

type_synonym issue = "string list \<times> zod_message"
type_synonym 'a parsed = "issue list + 'a"

text \<open>An object schema reports the issues of all its fields.\<close>

definition zod_field :: "string \<Rightarrow> (json option \<Rightarrow> 'a parsed) \<Rightarrow> body \<Rightarrow> 'a parsed" where
  "zod_field name schema b =
     (case schema (b name) of Inl iss \<Rightarrow> Inl (map (\<lambda>(p, m). (name # p, m)) iss) | Inr v \<Rightarrow> Inr v)"

definition zod_both :: "'a parsed \<Rightarrow> 'b parsed \<Rightarrow> ('a \<times> 'b) parsed" where
  "zod_both a b =
     (case (a, b) of
        (Inr x, Inr y) \<Rightarrow> Inr (x, y)
      | (Inl i, Inr y) \<Rightarrow> Inl i
      | (Inr x, Inl j) \<Rightarrow> Inl j
      | (Inl i, Inl j) \<Rightarrow> Inl (i @ j))"

definition stellarAddressSchema :: "(string \<Rightarrow> bool) \<Rightarrow> json option \<Rightarrow> string parsed" where
  "stellarAddressSchema isValid v =
     (case v of
        Some (J_str s) \<Rightarrow>
          if isValid (trim s) then Inr (trim s)
          else Inl [([], Custom ''Invalid Stellar address. Must be a valid G... public key.'')]
      | _ \<Rightarrow> Inl [([], Type_issue)])"

definition positiveAmountSchema :: "json option \<Rightarrow> number parsed" where
  "positiveAmountSchema v =
     (case v of
        Some (J_num n) \<Rightarrow>
          if n = NaN then Inl [([], Type_issue)]
          else (let iss =
                  (if n > 0 then [] else [([], Custom ''Amount must be greater than zero'')]) @
                  (if isFinite n then [] else [([], Custom ''Amount must be a finite number'')]) @
                  (if n \<le> Fin 1000000000 then [] else [([], Custom ''Amount exceeds maximum allowed value'')])
                in if iss = [] then Inr n else Inl iss)
      | _ \<Rightarrow> Inl [([], Type_issue)])"

definition userAmountSchema :: "(string \<Rightarrow> bool) \<Rightarrow> body \<Rightarrow> (string \<times> number) parsed" where
  "userAmountSchema isValid b =
     zod_both (zod_field ''userAddress'' (stellarAddressSchema isValid) b) (zod_field ''amount'' positiveAmountSchema b)"

definition base64_char :: "char \<Rightarrow> bool" where
  "base64_char c \<longleftrightarrow>
     c \<in> set (''ABCDEFGHIJKLMNOPQRSTUVWXYZ'' @ ''abcdefghijklmnopqrstuvwxyz'' @ ''0123456789+/'')"

definition is_base64 :: "string \<Rightarrow> bool" where
  "is_base64 s \<longleftrightarrow> takeWhile base64_char s \<noteq> [] \<and> list_all (\<lambda>c. c = CHR ''='') (dropWhile base64_char s)"

definition signedXdrSchema :: "body \<Rightarrow> string parsed" where
  "signedXdrSchema b = zod_field ''signedXdr''
     (\<lambda>v. case v of
        Some (J_str s) \<Rightarrow>
          (let iss = (if s = [] then [([], Custom ''Signed XDR is required'')] else []) @
                     (if is_base64 s then [] else [([], Custom ''Invalid XDR format. Expected base64-encoded transaction.'')])
           in if iss = [] then Inr s else Inl iss)
      | _ \<Rightarrow> Inl [([], Type_issue)]) b"

text \<open>The clamp of the number of days; \<open>NaN\<close> counts as one day.\<close>

definition chartDays :: "json option \<Rightarrow> number parsed" where
  "chartDays v =
     (case (case v of None \<Rightarrow> Some (J_str ''90'') | Some x \<Rightarrow> Some x) of
        Some (J_str s) \<Rightarrow>
          (let n = js_parseInt s
           in Inr (if n = NaN \<or> n < 1 then 1 else if n > Fin 365 then Fin 365 else n))
      | _ \<Rightarrow> Inl [([], Type_issue)])"

definition chartDaysSchema :: "body \<Rightarrow> number parsed" where
  "chartDaysSchema b = zod_field ''days'' chartDays b"

definition quoted :: "string \<Rightarrow> string" where
  "quoted s = CHR 0x27 # s @ [CHR 0x27]"

text \<open>\<open>datetime()\<close> and \<open>new Date\<close> are the parameter \<open>date\<close>.\<close>

definition date_field :: "(string \<Rightarrow> millis option) \<Rightarrow> string \<Rightarrow> json option \<Rightarrow> millis option parsed" where
  "date_field date msg v =
     (case v of
        None \<Rightarrow> Inr None
      | Some (J_str s) \<Rightarrow> (case date s of None \<Rightarrow> Inl [([], Custom msg)] | Some t \<Rightarrow> Inr (Some t))
      | _ \<Rightarrow> Inl [([], Type_issue)])"

definition dateRangeQuerySchema :: "(string \<Rightarrow> millis option) \<Rightarrow> body \<Rightarrow> (millis option \<times> millis option) parsed" where
  "dateRangeQuerySchema date b =
     (case zod_both (zod_field ''from'' (date_field date (''Invalid ISO-8601 date format for '' @ quoted ''from'')) b)
                    (zod_field ''to'' (date_field date (''Invalid ISO-8601 date format for '' @ quoted ''to'')) b) of
        Inl iss \<Rightarrow> Inl iss
      | Inr (Some f, Some t) \<Rightarrow>
          if f \<le> t then Inr (Some f, Some t) else Inl [([], Custom (quoted ''from'' @ '' must be before or equal to '' @ quoted ''to''))]
      | Inr ft \<Rightarrow> Inr ft)"

subsection \<open>The error handler\<close>

record api_response =
  ar_error :: string
  ar_code :: string
  ar_statusCode :: int
  ar_requestId :: string
  ar_details :: "(string \<times> zod_message list) list option"

text \<open>What the handler looks at in an error: the schema library's issues, if it is one of its errors.\<close>

record fastify_error =
  fy_message :: string
  fy_statusCode :: "int option"
  fy_validation :: bool
  fy_zod :: "issue list option"
  fy_cause :: "issue list option"

definition ERROR_CODE_MAP :: "(string \<times> int) list" where
  "ERROR_CODE_MAP = [(''VALIDATION_ERROR'', 400), (''NOT_FOUND'', 404), (''UNAUTHORIZED'', 401), (''FORBIDDEN'', 403),
     (''RATE_LIMITED'', 429), (''INTERNAL_ERROR'', 500), (''SERVICE_UNAVAILABLE'', 503)]"

definition issue_path :: "string list \<Rightarrow> string" where
  "issue_path p = (if p = [] then ''_root'' else join_with ''.'' p)"

fun add_message :: "string \<Rightarrow> zod_message \<Rightarrow> (string \<times> zod_message list) list \<Rightarrow> (string \<times> zod_message list) list" where
  "add_message path m [] = [(path, [m])]"
| "add_message path m ((p, ms) # rest) =
     (if p = path then (p, ms @ [m]) # rest else (p, ms) # add_message path m rest)"

definition formatZodError :: "issue list \<Rightarrow> (string \<times> zod_message list) list" where
  "formatZodError iss = fold (\<lambda>(p, m). add_message (issue_path p) m) iss []"

definition request_id :: "string option \<Rightarrow> string \<Rightarrow> string" where
  "request_id existing uuid = (case existing of Some h \<Rightarrow> if h \<noteq> [] then h else uuid | None \<Rightarrow> uuid)"

definition handle_error :: "string \<Rightarrow> fastify_error \<Rightarrow> api_response" where
  "handle_error requestId e =
     (let reply = (\<lambda>msg code st details.
            \<lparr>ar_error = msg, ar_code = code, ar_statusCode = st, ar_requestId = requestId, ar_details = details\<rparr>)
      in case fy_zod e of
           Some iss \<Rightarrow> reply ''Validation failed'' ''VALIDATION_ERROR'' 400 (Some (formatZodError iss))
         | None \<Rightarrow>
         if fy_validation e \<or> fy_cause e \<noteq> None
         then reply ''Validation failed'' ''VALIDATION_ERROR'' 400 (map_option formatZodError (fy_cause e))
         else if fy_statusCode e = Some 429
         then reply ''Too many requests. Please slow down.'' ''RATE_LIMITED'' 429 None
         else case map_of ERROR_CODE_MAP (fy_message e) of
           Some st \<Rightarrow> reply (fy_message e) (fy_message e) st None
         | None \<Rightarrow>
             (let st = (case fy_statusCode e of Some c \<Rightarrow> if c \<ge> 400 then c else 500 | None \<Rightarrow> 500)
              in reply (if st \<ge> 500 then ''An internal error occurred. Please try again later.'' else fy_message e)
                   (if st \<ge> 500 then ''INTERNAL_ERROR'' else ''REQUEST_ERROR'') st None))"

definition handle_not_found :: "string \<Rightarrow> string \<Rightarrow> string \<Rightarrow> api_response" where
  "handle_not_found requestId meth url =
     \<lparr>ar_error = ''Route '' @ meth @ '' '' @ url @ '' not found'', ar_code = ''NOT_FOUND'', ar_statusCode = 404,
      ar_requestId = requestId, ar_details = None\<rparr>"

subsection \<open>Authentication and the withdrawal routes\<close>

text \<open>A reply is the body, or a status and an error text; the text of a schema error is its issues.\<close>

datatype error_text = Text string | Issues "issue list"

type_synonym 'a reply = "(nat \<times> error_text) + 'a"

definition error_of :: "string \<Rightarrow> js_error \<Rightarrow> error_text" where
  "error_of dflt e = Text (case e of Err m \<Rightarrow> m | RangeError \<Rightarrow> ''RangeError'' | TypeError \<Rightarrow> ''TypeError'' | SyntaxError \<Rightarrow> ''SyntaxError'')"

definition requireAuth :: "(string \<Rightarrow> wallet option) \<Rightarrow> string option \<Rightarrow> wallet reply" where
  "requireAuth verifyToken authHeader =
     (case authHeader of
        None \<Rightarrow> Inl (401, Text ''Missing or invalid Authorization header'')
      | Some h \<Rightarrow>
          if \<not> startsWith h ''Bearer '' then Inl (401, Text ''Missing or invalid Authorization header'')
          else case verifyToken (drop 7 h) of
                 None \<Rightarrow> Inl (401, Text ''Invalid or expired token'')
               | Some w \<Rightarrow> Inr w)"

text \<open>
  Log-in: the signature and the message parse from any value, so only the wallet can fail the schema.
  \<open>sign\<close> makes the token of a wallet.\<close>

definition loginWallet :: "json option \<Rightarrow> string parsed" where
  "loginWallet v =
     (case v of
        Some (J_str s) \<Rightarrow> if s = [] then Inl [([], Type_issue)] else Inr (trim s)
      | _ \<Rightarrow> Inl [([], Type_issue)])"

definition login_route :: "(string \<Rightarrow> bool) \<Rightarrow> (wallet \<Rightarrow> string) \<Rightarrow> body \<Rightarrow> (string \<times> wallet) reply" where
  "login_route isValid sign b =
     (case zod_field ''wallet'' loginWallet b of
        Inl iss \<Rightarrow> Inl (400, Text ''Invalid request'')
      | Inr w \<Rightarrow>
          if \<not> isValid w then Inl (400, Text ''Invalid Stellar public key'')
          else Inr (sign w, w))"

definition verify_route :: "(string \<Rightarrow> wallet option) \<Rightarrow> string option \<Rightarrow> wallet reply" where
  "verify_route verifyToken authHeader =
     (case authHeader of
        None \<Rightarrow> Inl (401, Text ''No token provided'')
      | Some h \<Rightarrow>
          if \<not> startsWith h ''Bearer '' then Inl (401, Text ''No token provided'')
          else case verifyToken (drop 7 h) of
                 None \<Rightarrow> Inl (401, Text ''Invalid or expired token'')
               | Some w \<Rightarrow> Inr w)"

text \<open>\<open>z.coerce.number().int().positive()\<close>\<close>

definition coerce_number :: "json option \<Rightarrow> number" where
  "coerce_number v =
     (case v of
        None \<Rightarrow> NaN | Some (J_num n) \<Rightarrow> n | Some (J_str s) \<Rightarrow> num_of_string s
      | Some (J_bool b) \<Rightarrow> (if b then 1 else 0) | Some J_null \<Rightarrow> 0 | Some (J_other n) \<Rightarrow> n)"

definition withdrawalIdSchema :: "json option \<Rightarrow> int parsed" where
  "withdrawalIdSchema v =
     (case coerce_number v of
        Fin x \<Rightarrow>
          (let iss = (if x = of_int \<lfloor>x\<rfloor> then [] else [([], Type_issue)]) @
                     (if x > 0 then [] else [([], Custom ''Withdrawal ID is required'')])
           in if iss = [] then Inr \<lfloor>x\<rfloor> else Inl iss)
      | _ \<Rightarrow> Inl [([], Type_issue)])"

record withdrawal_view =
  wv_id :: string
  wv_wallet :: wallet
  wv_amount :: string
  wv_status :: string
  wv_unlockTime :: millis
  wv_createdAt :: millis

definition withdrawals_route ::
  "(string \<Rightarrow> bool) \<Rightarrow> json option \<Rightarrow> js_error option \<Rightarrow> withdrawal list \<Rightarrow> (withdrawal_view list \<times> nat) reply" where
  "withdrawals_route isValid param db ws =
     (case stellarAddressSchema isValid param of
        Inl iss \<Rightarrow> Inl (400, Issues iss)
      | Inr wal \<Rightarrow>
          (case db of
             Some e \<Rightarrow> Inl (400, error_of ''Failed to fetch withdrawals'' e)
           | None \<Rightarrow>
               (let rows = getWithdrawalsByWallet wal ws
                in Inr (map (\<lambda>w. \<lparr>wv_id = dec_int (wid w), wv_wallet = wallet w, wv_amount = dec_int (amount w),
                              wv_status = status w, wv_unlockTime = unlockTime w, wv_createdAt = createdAt w\<rparr>) rows,
                        length rows))))"

definition mark_claimed_route ::
  "(string \<Rightarrow> wallet option) \<Rightarrow> (string \<Rightarrow> bool) \<Rightarrow> string option \<Rightarrow> body \<Rightarrow> js_error option \<Rightarrow> withdrawal list \<Rightarrow>
     withdrawal list \<times> unit reply" where
  "mark_claimed_route verifyToken isValid authHeader b db ws =
     (case requireAuth verifyToken authHeader of
        Inl e \<Rightarrow> (ws, Inl e)
      | Inr authenticatedWallet \<Rightarrow>
          (case zod_both (zod_field ''wallet'' (stellarAddressSchema isValid) b) (zod_field ''withdrawalId'' withdrawalIdSchema b) of
             Inl iss \<Rightarrow> (ws, Inl (400, Issues iss))
           | Inr (wal, i) \<Rightarrow>
               if authenticatedWallet = [] \<or> authenticatedWallet \<noteq> wal
               then (ws, Inl (403, Text ''Wallet mismatch: unauthorized withdrawal update''))
               else (case db of
                       Some e \<Rightarrow> (ws, Inl (400, error_of ''Failed to update withdrawal'' e))
                     | None \<Rightarrow> (markWithdrawalClaimed wal i ws, Inr ()))))"

subsection \<open>What the error handler answers\<close>

lemma error_codes: "map_of ERROR_CODE_MAP m = Some st \<Longrightarrow>
    400 \<le> st \<and> (500 \<le> st \<longrightarrow> m = ''INTERNAL_ERROR'' \<or> m = ''SERVICE_UNAVAILABLE'')"
  by (auto simp: ERROR_CODE_MAP_def split: if_splits)

text \<open>
  The error handler always answers with an error status, and a server error never shows the text of
  an unexpected exception: its message is one of three fixed texts.\<close>

theorem server_errors_leak_nothing:
  "400 \<le> ar_statusCode (handle_error requestId e) \<and>
   (500 \<le> ar_statusCode (handle_error requestId e) \<longrightarrow>
      ar_error (handle_error requestId e) \<in>
        {''An internal error occurred. Please try again later.'', ''INTERNAL_ERROR'', ''SERVICE_UNAVAILABLE''})"
proof (cases "fy_zod e = None \<and> \<not> fy_validation e \<and> fy_cause e = None \<and> fy_statusCode e \<noteq> Some 429")
  case True
  show ?thesis
  proof (cases "map_of ERROR_CODE_MAP (fy_message e)")
    case None
    then show ?thesis using True by (simp add: handle_error_def Let_def split: option.split)
  next
    case (Some st)
    then show ?thesis using True error_codes [OF Some] by (simp add: handle_error_def Let_def)
  qed
next
  case False
  then show ?thesis by (auto simp: handle_error_def Let_def split: option.split)
qed

theorem server_errors_leak_nothing_witness:
  "ar_error (handle_error ''r'' \<lparr>fy_message = ''password wrong for db user'', fy_statusCode = None, fy_validation = False,
      fy_zod = None, fy_cause = None\<rparr>) \<noteq> ''password wrong for db user''"
proof -
  let ?e = "\<lparr>fy_message = ''password wrong for db user'', fy_statusCode = None, fy_validation = False, fy_zod = None, fy_cause = None\<rparr>"
  have "500 \<le> ar_statusCode (handle_error ''r'' ?e)" by (simp add: handle_error_def ERROR_CODE_MAP_def)
  then show ?thesis using server_errors_leak_nothing [of "''r''" ?e] by auto
qed

lemma add_message_map_of:
  "map_of (add_message path m t) q =
     (if q = path then Some ((case map_of t path of None \<Rightarrow> [] | Some ms \<Rightarrow> ms) @ [m]) else map_of t q)"
  by (induction path m t rule: add_message.induct) auto

text \<open>
  The details of a validation error are complete: under every path they list exactly the messages of
  the issues with that path, in their order, and no path without an issue occurs.\<close>

theorem formatted_issues_complete:
  "map_of (formatZodError iss) path =
     (case filter (\<lambda>(p, m). issue_path p = path) iss of [] \<Rightarrow> None | i # is \<Rightarrow> Some (map snd (i # is)))"
proof -
  have "map_of (fold (\<lambda>(p, m). add_message (issue_path p) m) iss t) path =
      (case filter (\<lambda>(p, m). issue_path p = path) iss of [] \<Rightarrow> map_of t path
       | i # is \<Rightarrow> Some ((case map_of t path of None \<Rightarrow> [] | Some ms \<Rightarrow> ms) @ map snd (i # is)))" for t
  proof (induction iss arbitrary: t)
    case (Cons x iss)
    obtain p m where x: "x = (p, m)" by fastforce
    show ?case
      unfolding x fold_Cons comp_apply prod.case Cons
      by (auto simp: add_message_map_of split: list.split option.split)
  qed simp
  from this [of "[]"] show ?thesis by (simp add: formatZodError_def split: list.split)
qed

subsection \<open>Who may mark a withdrawal\<close>

text \<open>
  A row the route changes belongs to the wallet of the verified token it was sent with, and all that
  changes is its status.\<close>

theorem marking_needs_the_owners_token:
  assumes "mark_claimed_route verifyToken isValid authHeader b db ws = (ws', r)" "k < length ws" "ws' ! k \<noteq> ws ! k"
  shows "length ws' = length ws \<and> ws' ! k = (ws ! k)\<lparr>status := ''claimed''\<rparr> \<and>
    (\<exists>tok. authHeader = Some (''Bearer '' @ tok) \<and> verifyToken tok = Some (wallet (ws ! k)))"
proof -
  have "ws' \<noteq> ws" using assms(3) by blast
  then obtain wal i where auth: "requireAuth verifyToken authHeader = Inr wal" and ws': "ws' = markWithdrawalClaimed wal i ws"
    using assms(1) by (auto simp: mark_claimed_route_def split: sum.splits if_splits option.splits)
  obtain h where h: "authHeader = Some h" "startsWith h ''Bearer ''" "verifyToken (drop 7 h) = Some wal"
    using auth by (auto simp: requireAuth_def split: option.splits if_splits)
  have "wallet (ws ! k) = wal \<and> ws' ! k = (ws ! k)\<lparr>status := ''claimed''\<rparr>"
    using assms(2,3) unfolding ws' markWithdrawalClaimed_def withdrawal_updateMany_def by (auto split: if_splits)
  moreover obtain tok where tok: "h = ''Bearer '' @ tok" using h(2) by (auto simp: startsWith_append)
  ultimately show ?thesis using h(1,3) by (auto simp: tok ws' markWithdrawalClaimed_def withdrawal_updateMany_def)
qed

definition demo_token :: "string \<Rightarrow> wallet option" where
  "demo_token t = (if t = ''jwt-GA'' then Some ''GA'' else None)"

definition demo_row :: withdrawal where
  "demo_row = \<lparr>wid = 4, wallet = ''GA'', amount = 10, status = ''pending'', unlockTime = 5, createdAt = 1\<rparr>"

definition demo_body :: body where
  "demo_body = (\<lambda>_. None)(''wallet'' := Some (J_str ''GA''), ''withdrawalId'' := Some (J_num (Fin 4)))"

lemma demo_mark:
  "mark_claimed_route demo_token (\<lambda>_. True) (Some ''Bearer jwt-GA'') demo_body None [demo_row] =
   ([demo_row\<lparr>status := ''claimed''\<rparr>], Inr ())"
  by (simp add: mark_claimed_route_def requireAuth_def demo_token_def demo_body_def demo_row_def zod_both_def
      zod_field_def stellarAddressSchema_def withdrawalIdSchema_def coerce_number_def markWithdrawalClaimed_def
      withdrawal_updateMany_def trim_def is_blank_def)

theorem marking_needs_the_owners_token_witness:
  "demo_row\<lparr>status := ''claimed''\<rparr> \<noteq> demo_row \<and>
   (\<exists>tok. Some ''Bearer jwt-GA'' = Some (''Bearer '' @ tok) \<and> demo_token tok = Some (wallet demo_row))"
proof
  show ne: "demo_row\<lparr>status := ''claimed''\<rparr> \<noteq> demo_row" by (simp add: demo_row_def)
  then show "\<exists>tok. Some ''Bearer jwt-GA'' = Some (''Bearer '' @ tok) \<and> demo_token tok = Some (wallet demo_row)"
    using marking_needs_the_owners_token [OF demo_mark, of 0] by simp
qed

subsection \<open>What a log-in proves\<close>

text \<open>
  Logging in does not prove that the caller holds the key: for every valid address and whatever signature is
  sent, the route issues a token, and while it has not expired that token marks the address's withdrawals claimed.\<close>

theorem login_needs_no_signature:
  assumes "isValid g" "trim g = g" "g \<noteq> []" "0 < i" "verifyToken (sign g) = Some g"
  shows "login_route isValid sign ((\<lambda>_. None)(''wallet'' := Some (J_str g), ''signature'' := sig)) = Inr (sign g, g) \<and>
         mark_claimed_route verifyToken isValid (Some (''Bearer '' @ sign g))
           ((\<lambda>_. None)(''wallet'' := Some (J_str g), ''withdrawalId'' := Some (J_num (Fin (of_int i))))) None ws =
         (markWithdrawalClaimed g i ws, Inr ())"
  using assms
  by (simp add: login_route_def loginWallet_def mark_claimed_route_def requireAuth_def startsWith_append zod_both_def
      zod_field_def stellarAddressSchema_def withdrawalIdSchema_def coerce_number_def)

theorem login_needs_no_signature_witness:
  "login_route (\<lambda>_. True) (\<lambda>g. ''jwt-'' @ g) ((\<lambda>_. None)(''wallet'' := Some (J_str ''GA''), ''signature'' := None)) =
     Inr (''jwt-GA'', ''GA'') \<and>
   fst (mark_claimed_route demo_token (\<lambda>_. True) (Some ''Bearer jwt-GA'')
     ((\<lambda>_. None)(''wallet'' := Some (J_str ''GA''), ''withdrawalId'' := Some (J_num (Fin (of_int 4))))) None [demo_row]) =
   [demo_row\<lparr>status := ''claimed''\<rparr>]"
  using login_needs_no_signature [of "\<lambda>_. True" "''GA''" 4 demo_token "\<lambda>g. ''jwt-'' @ g" None "[demo_row]"]
  by (simp add: demo_token_def demo_row_def trim_def is_blank_def markWithdrawalClaimed_def
      withdrawal_updateMany_def)

end
