(* ===== verification/Api_Staking.thy ===== *)
theory Api_Staking
  imports Api_Gateway Event_Listener
begin

text \<open>
  The routes that build and submit the users' own transactions: \<open>routes/stake.ts\<close>,
  \<open>routes/unstake.ts\<close> and \<open>routes/submit.ts\<close>. What the RPC endpoint and the staking engine answer
  comes from an environment per request; building a transaction is the SDK's, so an assembled
  transaction is a text of the environment. The contract's side of a claim is modelled too.
\<close>

subsection \<open>What the handlers share\<close>

text \<open>Something thrown, by its message if it has one (the SDK throws plain objects as well).\<close>

type_synonym thrown = "string option"

definition message_or :: "string \<Rightarrow> thrown \<Rightarrow> error_text" where
  "message_or dflt t = Text (case t of Some m \<Rightarrow> m | None \<Rightarrow> dflt)"

text \<open>Building the user's transaction: the account, the simulation (its error, if any), the assembly.\<close>

record build_env =
  bt_account :: "thrown option"
  bt_sim :: "thrown + string option"
  bt_assemble :: "thrown + string"

datatype build_result = Built string | Sim_failed string | Threw thrown

definition build_tx :: "build_env \<Rightarrow> build_result" where
  "build_tx ev =
     (case bt_account ev of
        Some t \<Rightarrow> Threw t
      | None \<Rightarrow>
          (case bt_sim ev of
             Inl t \<Rightarrow> Threw t
           | Inr (Some e) \<Rightarrow> Sim_failed e
           | Inr None \<Rightarrow> (case bt_assemble ev of Inl t \<Rightarrow> Threw t | Inr xdr \<Rightarrow> Built xdr)))"

text \<open>\<open>BigInt(Math.floor(amount * 1e7))\<close>; the schema only lets finite amounts through.\<close>

definition amount_stroops :: "number \<Rightarrow> js_error + stroops" where
  "amount_stroops a = floor_big (a * lit 10000000)"

subsection \<open>Staking\<close>

record stake_env =
  se_build :: build_env
  se_rate1 :: "thrown + number"
  se_rate2 :: "thrown + number"

record stake_reply =
  sr_xdr :: string
  sr_estimatedSxlm :: string
  sr_exchangeRate :: number

text \<open>A schema error leaves the handler and is answered by the central error handler.\<close>

datatype stake_error = Central api_response | Answered nat error_text

definition zod_error :: "issue list \<Rightarrow> fastify_error" where
  "zod_error iss = \<lparr>fy_message = [], fy_statusCode = None, fy_validation = False, fy_zod = Some iss, fy_cause = None\<rparr>"

definition account_message :: "string \<Rightarrow> string" where
  "account_message raw =
     (if hasSubstring (lower raw) ''account not found''
      then ''Your testnet account has no XLM. Please fund it via the Stellar Friendbot (https://friendbot.stellar.org/?addr=YOUR_ADDRESS) before staking.''
      else raw)"

definition stake_route ::
  "(string \<Rightarrow> bool) \<Rightarrow> (number \<Rightarrow> string) \<Rightarrow> string \<Rightarrow> stake_env \<Rightarrow> body \<Rightarrow> stake_error + stake_reply" where
  "stake_route isValid fmt requestId ev b =
     (case userAmountSchema isValid b of
        Inl iss \<Rightarrow> Inl (Central (handle_error requestId (zod_error iss)))
      | Inr (user, a) \<Rightarrow>
     (case amount_stroops a of
        Inl e \<Rightarrow> Inl (Central (handle_error requestId \<lparr>fy_message = ''RangeError'', fy_statusCode = None,
                         fy_validation = False, fy_zod = None, fy_cause = None\<rparr>))
      | Inr s \<Rightarrow>
     if s < minStakeAmount then Inl (Answered 400 (Text ''Minimum stake is 1 XLM''))
     else if s > maxStakeAmount then Inl (Answered 400 (Text ''Maximum stake is 10000000 XLM''))
     else
       (let failed = (\<lambda>t. Inl (Answered 400 (Text (account_message (case t of Some m \<Rightarrow> m | None \<Rightarrow> ''Stake failed'')))))
        in case build_tx (se_build ev) of
             Threw t \<Rightarrow> failed t
           | Sim_failed e \<Rightarrow> Inl (Answered 400 (Text (''Transaction simulation failed: '' @ e)))
           | Built xdr \<Rightarrow>
               (case (se_rate1 ev, se_rate2 ev) of
                  (Inl t, _) \<Rightarrow> failed t
                | (_, Inl t) \<Rightarrow> failed t
                | (Inr r1, Inr r2) \<Rightarrow>
                    Inr \<lparr>sr_xdr = xdr, sr_estimatedSxlm = toFixed fmt 7 (a / r1), sr_exchangeRate = r2\<rparr>))))"

subsection \<open>Balances\<close>

datatype balance_sim = Needs_restore | Bal "int sim_reply"

record balance_env =
  be_account :: "thrown option"
  be_sim :: "thrown + balance_sim"

definition querySxlmBalance :: "balance_env \<Rightarrow> thrown + int" where
  "querySxlmBalance ev =
     (case be_account ev of
        Some t \<Rightarrow> Inl t
      | None \<Rightarrow>
          (case be_sim ev of
             Inl t \<Rightarrow> Inl t
           | Inr Needs_restore \<Rightarrow> Inl (Some ''ENTRY_ARCHIVED'')
           | Inr (Bal (Sim_error e)) \<Rightarrow>
               if hasSubstring e ''EntryArchived'' \<or> hasSubstring e ''MissingValue''
               then Inl (Some ''ENTRY_ARCHIVED'') else Inl (Some (''Balance check failed: '' @ e))
           | Inr (Bal (Sim_success (Some n))) \<Rightarrow> Inr n
           | Inr (Bal (Sim_success None)) \<Rightarrow> Inr 0))"

record balance_reply =
  br_sxlmBalance :: number
  br_sxlmBalanceRaw :: string
  br_xlmValue :: number
  br_exchangeRate :: number
  br_archived :: bool

definition balance_route ::
  "(string \<Rightarrow> bool) \<Rightarrow> (thrown + number) \<Rightarrow> balance_env \<Rightarrow> json option \<Rightarrow> balance_reply reply" where
  "balance_route isValid rate ev param =
     (case stellarAddressSchema isValid param of
        Inl iss \<Rightarrow> Inl (400, Issues iss)
      | Inr address \<Rightarrow>
          (case rate of
             Inl t \<Rightarrow> Inl (400, message_or ''Failed to fetch balance'' t)
           | Inr r \<Rightarrow>
               (case querySxlmBalance ev of
                  Inr n \<Rightarrow>
                    Inr \<lparr>br_sxlmBalance = num_of_big n / lit 10000000, br_sxlmBalanceRaw = dec_int n,
                         br_xlmValue = num_of_big n / lit 10000000 * r, br_exchangeRate = r, br_archived = False\<rparr>
                | Inl t \<Rightarrow>
                    if t = Some ''ENTRY_ARCHIVED''
                    then Inr \<lparr>br_sxlmBalance = 0, br_sxlmBalanceRaw = ''0'', br_xlmValue = 0,
                              br_exchangeRate = r, br_archived = True\<rparr>
                    else Inl (400, message_or ''Failed to fetch balance'' t))))"

text \<open>The restore transaction; \<open>re_sim\<close> holds the minimal resource fee when a restore is needed.\<close>

record restore_env =
  re_account :: "thrown option"
  re_sim :: "thrown + number option"
  re_account2 :: "thrown option"
  re_build :: "number \<Rightarrow> thrown + string"

definition buildRestoreTx :: "restore_env \<Rightarrow> thrown + string" where
  "buildRestoreTx ev =
     (case re_account ev of
        Some t \<Rightarrow> Inl t
      | None \<Rightarrow>
          (case re_sim ev of
             Inl t \<Rightarrow> Inl t
           | Inr None \<Rightarrow> Inl (Some ''Balance entry is not archived - no restore needed.'')
           | Inr (Some minFee) \<Rightarrow>
               (case re_account2 ev of Some t \<Rightarrow> Inl t | None \<Rightarrow> re_build ev (lit 2000000 + minFee))))"

definition restore_route :: "(string \<Rightarrow> bool) \<Rightarrow> restore_env \<Rightarrow> body \<Rightarrow> string reply" where
  "restore_route isValid ev b =
     (case zod_field ''userAddress'' (stellarAddressSchema isValid) b of
        Inl iss \<Rightarrow> Inl (400, Issues iss)
      | Inr user \<Rightarrow>
          (case buildRestoreTx ev of
             Inl t \<Rightarrow> Inl (400, message_or ''Restore failed'' t)
           | Inr xdr \<Rightarrow> Inr xdr))"

subsection \<open>Unstaking\<close>

definition instant_field :: "json option \<Rightarrow> bool parsed" where
  "instant_field v =
     (case v of None \<Rightarrow> Inr False | Some (J_bool b) \<Rightarrow> Inr b | _ \<Rightarrow> Inl [([], Type_issue)])"

definition unstakeSchema :: "(string \<Rightarrow> bool) \<Rightarrow> body \<Rightarrow> ((string \<times> number) \<times> bool) parsed" where
  "unstakeSchema isValid b = zod_both (userAmountSchema isValid b) (zod_field ''instant'' instant_field b)"

record unstake_env =
  ue_balance :: balance_env
  ue_build :: build_env
  ue_rate :: "thrown + number"
  ue_now :: millis
  ue_prisma :: bool
  ue_create :: "thrown option"

record unstake_reply =
  ur_xdr :: string
  ur_estimatedXlm :: string
  ur_exchangeRate :: number
  ur_unlockTime :: millis

text \<open>The refusal for a small balance shows the two amounts; its numbers are kept as they are.\<close>

datatype unstake_error = Refused error_text | Archived | Insufficient number number

text \<open>The row is written before the user has seen the transaction; a failed insert is only logged.\<close>

definition record_request :: "unstake_env \<Rightarrow> wallet \<Rightarrow> stroops \<Rightarrow> withdrawal list \<Rightarrow> withdrawal list" where
  "record_request ev user s ws =
     (if ue_prisma ev \<and> ue_create ev = None
      then withdrawal_create user s (ue_now ev + unbondingPeriodMs) (ue_now ev) ws else ws)"

definition finish_unstake ::
  "(number \<Rightarrow> string) \<Rightarrow> unstake_env \<Rightarrow> wallet \<Rightarrow> number \<Rightarrow> stroops \<Rightarrow> withdrawal list \<Rightarrow>
     withdrawal list \<times> (unstake_error + unstake_reply)" where
  "finish_unstake fmt ev user a s ws =
     (case build_tx (ue_build ev) of
        Threw t \<Rightarrow> (ws, Inl (Refused (message_or ''Unstake failed'' t)))
      | Sim_failed e \<Rightarrow>
          (ws, Inl (Refused (Text (if hasSubstring e ''UnreachableCodeReached''
             then ''Withdrawal failed. Please check your sXLM balance and try a smaller amount.''
             else ''Transaction simulation failed: '' @ e))))
      | Built xdr \<Rightarrow>
          (case ue_rate ev of
             Inl t \<Rightarrow> (ws, Inl (Refused (message_or ''Unstake failed'' t)))
           | Inr r \<Rightarrow>
               (record_request ev user s ws,
                Inr \<lparr>ur_xdr = xdr, ur_estimatedXlm = toFixed fmt 7 (a * r), ur_exchangeRate = r,
                     ur_unlockTime = ue_now ev + unbondingPeriodMs\<rparr>)))"

definition unstake_route ::
  "(string \<Rightarrow> bool) \<Rightarrow> (number \<Rightarrow> string) \<Rightarrow> unstake_env \<Rightarrow> body \<Rightarrow> withdrawal list \<Rightarrow>
     withdrawal list \<times> (unstake_error + unstake_reply)" where
  "unstake_route isValid fmt ev b ws =
     (case unstakeSchema isValid b of
        Inl iss \<Rightarrow> (ws, Inl (Refused (Issues iss)))
      | Inr ((user, a), instant) \<Rightarrow>
     (case amount_stroops a of
        Inl e \<Rightarrow> (ws, Inl (Refused (Text ''RangeError'')))
      | Inr s \<Rightarrow>
     if s \<le> 0 then (ws, Inl (Refused (Text ''Amount must be positive'')))
     else
       (case querySxlmBalance (ue_balance ev) of
          Inl t \<Rightarrow> (ws, Inl (if t = Some ''ENTRY_ARCHIVED'' then Archived else Refused (message_or ''Unstake failed'' t)))
        | Inr userBalance \<Rightarrow>
            if userBalance < s then (ws, Inl (Insufficient (num_of_big userBalance / lit 10000000) a))
            else finish_unstake fmt ev user a s ws)))"

subsection \<open>Claiming\<close>

text \<open>The contract's queue entry, and what one \<open>get_withdrawal\<close> simulation of the scan gives.\<close>

record withdrawal_entry =
  en_user :: wallet
  en_claimed :: bool
  en_xlm_amount :: string
  en_unlock_ledger :: int

datatype scan_answer = Scan_end | Entry withdrawal_entry

fun scan_queue :: "(nat \<Rightarrow> scan_answer) \<Rightarrow> wallet \<Rightarrow> nat \<Rightarrow> nat \<Rightarrow> (nat \<times> withdrawal_entry) option" where
  "scan_queue ans user i 0 = None"
| "scan_queue ans user i (Suc n) =
     (case ans i of
        Scan_end \<Rightarrow> None
      | Entry e \<Rightarrow> if en_user e = user \<and> \<not> en_claimed e then Some (i, e) else scan_queue ans user (Suc i) n)"

definition maxScan :: nat where "maxScan = 50"

definition findContractWithdrawal ::
  "thrown option \<Rightarrow> (nat \<Rightarrow> scan_answer) \<Rightarrow> wallet \<Rightarrow> thrown + (nat \<times> withdrawal_entry) option" where
  "findContractWithdrawal adminAccount ans user =
     (case adminAccount of Some t \<Rightarrow> Inl t | None \<Rightarrow> Inr (scan_queue ans user 0 maxScan))"

record claim_env =
  cl_admin :: "thrown option"
  cl_scan :: "nat \<Rightarrow> scan_answer"
  cl_ledger :: "thrown + int"
  cl_build :: build_env

definition withdrawalId_field :: "json option \<Rightarrow> string parsed" where
  "withdrawalId_field v = (case v of Some (J_str s) \<Rightarrow> Inr s | _ \<Rightarrow> Inl [([], Type_issue)])"

definition claimSchema :: "(string \<Rightarrow> bool) \<Rightarrow> body \<Rightarrow> (string \<times> string) parsed" where
  "claimSchema isValid b =
     zod_both (zod_field ''userAddress'' (stellarAddressSchema isValid) b) (zod_field ''withdrawalId'' withdrawalId_field b)"

datatype claim_error = Claim_refused error_text | No_withdrawal | Cooling_down int int

text \<open>The refusal of a locked withdrawal shows the minutes and the ledgers left.\<close>

definition minutes_left :: "int \<Rightarrow> int" where
  "minutes_left remaining = - ((- remaining * 5) div 60)"

definition claim_route :: "(string \<Rightarrow> bool) \<Rightarrow> claim_env \<Rightarrow> body \<Rightarrow> claim_error + (string \<times> nat)" where
  "claim_route isValid ev b =
     (let failed = (\<lambda>t. Inl (Claim_refused (message_or ''Claim failed'' t)))
      in case claimSchema isValid b of
           Inl iss \<Rightarrow> Inl (Claim_refused (Issues iss))
         | Inr (user, withdrawalId) \<Rightarrow>
         (case findContractWithdrawal (cl_admin ev) (cl_scan ev) user of
            Inl t \<Rightarrow> failed t
          | Inr None \<Rightarrow> Inl No_withdrawal
          | Inr (Some (i, e)) \<Rightarrow>
         (case cl_ledger ev of
            Inl t \<Rightarrow> failed t
          | Inr latest \<Rightarrow>
              if latest < en_unlock_ledger e
              then (let remaining = en_unlock_ledger e - latest in Inl (Cooling_down (minutes_left remaining) remaining))
              else case build_tx (cl_build ev) of
                     Threw t \<Rightarrow> failed t
                   | Sim_failed m \<Rightarrow> Inl (Claim_refused (Text (''Simulation failed: '' @ m)))
                   | Built xdr \<Rightarrow> Inr (xdr, i))))"

text \<open>
  The contract's side (\<open>contracts/staking/src/lib.rs\<close>). A claim the contract refuses panics
  (\<open>None\<close>); the caller has authorised it, and the native token's transfer fails when the contract
  holds too little.\<close>

record withdrawal_request =
  rq_user :: wallet
  rq_xlm_amount :: int
  rq_unlock_ledger :: int
  rq_claimed :: bool

record staking_queue =
  sq_queue :: "nat \<Rightarrow> withdrawal_request option"
  sq_total_staked :: int
  sq_xlm :: int

definition claim_withdrawal :: "int \<Rightarrow> wallet \<Rightarrow> nat \<Rightarrow> staking_queue \<Rightarrow> staking_queue option" where
  "claim_withdrawal sequence user i st =
     (case sq_queue st i of
        None \<Rightarrow> None
      | Some r \<Rightarrow>
          if rq_user r \<noteq> user \<or> rq_claimed r \<or> sequence < rq_unlock_ledger r then None
          else if sq_xlm st < rq_xlm_amount r then None
          else Some (st\<lparr>sq_queue := (sq_queue st)(i := Some (r\<lparr>rq_claimed := True\<rparr>)),
                       sq_total_staked := sq_total_staked st - rq_xlm_amount r,
                       sq_xlm := sq_xlm st - rq_xlm_amount r\<rparr>))"

definition get_withdrawal :: "staking_queue \<Rightarrow> nat \<Rightarrow> scan_answer" where
  "get_withdrawal st i =
     (case sq_queue st i of
        None \<Rightarrow> Scan_end
      | Some r \<Rightarrow> Entry \<lparr>en_user = rq_user r, en_claimed = rq_claimed r, en_xlm_amount = dec_int (rq_xlm_amount r),
                        en_unlock_ledger = rq_unlock_ledger r\<rparr>)"

subsection \<open>Submitting\<close>

datatype tx_answer = Unreachable | Rate_limited | Tx_answer "(string \<times> int option \<times> string option) option"

record confirmation =
  cf_status :: string
  cf_ledger :: "int option"
  cf_pending :: bool

definition decide_answer :: "tx_answer \<Rightarrow> (thrown + confirmation) option" where
  "decide_answer a =
     (case a of
        Tx_answer (Some (st, ledger, errXdr)) \<Rightarrow>
          if st = ''SUCCESS'' then Some (Inr \<lparr>cf_status = ''SUCCESS'', cf_ledger = ledger, cf_pending = False\<rparr>)
          else if st = ''FAILED''
          then Some (Inl (Some (''Transaction failed on-chain: '' @
                 (case errXdr of Some x \<Rightarrow> if x = [] then ''unknown error'' else x | None \<Rightarrow> ''unknown error''))))
          else None
      | _ \<Rightarrow> None)"

definition still_pending :: "thrown + confirmation" where
  "still_pending = Inr \<lparr>cf_status = ''PENDING'', cf_ledger = None, cf_pending = True\<rparr>"

fun walk_schedule :: "(nat \<Rightarrow> tx_answer) \<Rightarrow> nat \<Rightarrow> millis list \<Rightarrow> thrown + confirmation" where
  "walk_schedule ans i [] = still_pending"
| "walk_schedule ans i (intervalMs # rest) =
     (case decide_answer (ans i) of Some r \<Rightarrow> r | None \<Rightarrow> walk_schedule ans (Suc i) rest)"

definition schedule :: "millis list" where
  "schedule = replicate 6 2000 @ replicate 6 4000 @ replicate 6 6000"

definition submit_pollTransaction :: "(nat \<Rightarrow> tx_answer) \<Rightarrow> thrown + confirmation" where
  "submit_pollTransaction ans = walk_schedule ans 0 schedule"

record rpc_result =
  rr_error :: "string option"
  rr_result :: "(tx_hash \<times> string \<times> string option) option"

record submit_reply =
  sb_txHash :: tx_hash
  sb_status :: string
  sb_ledger :: "int option"
  sb_pending :: bool

definition submit_route :: "(thrown + rpc_result) \<Rightarrow> (nat \<Rightarrow> tx_answer) \<Rightarrow> body \<Rightarrow> submit_reply reply" where
  "submit_route sent ans b =
     (case signedXdrSchema b of
        Inl iss \<Rightarrow> Inl (400, Issues iss)
      | Inr signedXdr \<Rightarrow>
     (case sent of
        Inl t \<Rightarrow> Inl (400, message_or ''Submit failed'' t)
      | Inr r \<Rightarrow>
     (case rr_error r of
        Some m \<Rightarrow> Inl (400, Text (''RPC error: '' @ m))
      | None \<Rightarrow>
     (case rr_result r of
        None \<Rightarrow> Inl (400, Text ''No result from RPC'')
      | Some (hash, st, errXdr) \<Rightarrow>
          if st = ''ERROR''
          then Inl (400, Text (''Transaction rejected: '' @
                 (case errXdr of Some x \<Rightarrow> if x = [] then ''unknown error'' else x | None \<Rightarrow> ''unknown error'')))
          else case submit_pollTransaction ans of
                 Inl t \<Rightarrow> Inl (400, message_or ''Submit failed'' t)
               | Inr c \<Rightarrow> Inr \<lparr>sb_txHash = hash, sb_status = cf_status c, sb_ledger = cf_ledger c,
                               sb_pending = cf_pending c\<rparr>))))"

subsection \<open>Amounts\<close>

lemma scale_numeral [simp]: "lit 10000000 = Fin 10000000"
  by simp

lemma stroops_as_rat:
  assumes "0 < n" "n < 2^52"
  shows "1 \<le> (of_int n :: rat)" "of_int n \<le> (2^52 :: rat)"
proof -
  have "(of_int n :: rat) \<le> of_int (2^52)" using less_imp_le [OF assms(2)] by (simp only: of_int_le_iff)
  then show "of_int n \<le> (2^52 :: rat)" by simp
qed (use assms in simp)

text \<open>
  An amount of stroops divided and multiplied by \<open>1e7\<close> in floating point is off by less than a half: two
  roundings of a relative error of \<open>2 powi -53\<close> each, on at most 52 bits.\<close>

lemma shown_close:
  assumes "0 < n" "n < 2^52"
  shows "\<bar>rndq (of_int n / 10000000) * 10000000 - of_int n\<bar> < (1/2 :: rat)"
proof -
  let ?x = "of_int n / 10000000 :: rat"
  have n: "1 \<le> (of_int n :: rat)" using stroops_as_rat [OF assms] by auto
  have "(of_int n :: rat) < of_int (2^52)" using assms(2) by (simp only: of_int_less_iff)
  then have n52: "of_int n < (2^52 :: rat)" by simp
  have "(2::rat) powi (-1022) \<le> 2 powi (-24)" by (rule powi_mono) simp
  also have "\<dots> \<le> ?x" using n by (simp add: power_int_minus_divide field_simps)
  finally have "\<bar>rndq ?x - ?x\<bar> \<le> ?x * 2 powi (-53)" using rndq_error [of ?x] n by simp
  then have "\<bar>rndq ?x * 10000000 - of_int n\<bar> \<le> of_int n * 2 powi (-53)" by (simp add: abs_le_iff field_simps)
  also have "\<dots> < 2^52 * 2 powi (-53)" using n52 by (intro mult_strict_right_mono) auto
  also have "\<dots> = 1/2" by (simp add: power_int_minus_divide)
  finally show ?thesis .
qed

lemma scaled_back:
  assumes "0 < n" "n < 2^52"
  shows "of_int n - 1/2 \<le> rndq (rndq (of_int n / 10000000) * 10000000)"
    "rndq (rndq (of_int n / 10000000) * 10000000) \<le> of_int n + 1/2"
proof -
  let ?x = "of_int n / 10000000 :: rat"
  have "\<bar>rndq ?x * 10000000 - of_int n\<bar> \<le> 1/2" using shown_close [OF assms] by simp
  then have d: "of_int n - 1/2 \<le> rndq ?x * 10000000" "rndq ?x * 10000000 \<le> of_int n + 1/2"
    unfolding abs_le_iff by linarith+
  have grid: "rndq (of_int k / 2) = of_int k / 2" if "\<bar>k\<bar> \<le> 2^53" for k
    using rndq_grid [of k "-1"] that by (simp add: power_int_minus_divide)
  have "rndq (of_int (2 * n - 1) / 2) \<le> rndq (rndq ?x * 10000000)"
    using d(1) by (intro rndq_mono) (simp add: field_simps)
  then show "of_int n - 1/2 \<le> rndq (rndq ?x * 10000000)"
    using assms by (subst (asm) grid) (auto simp: field_simps)
  have "rndq (rndq ?x * 10000000) \<le> rndq (of_int (2 * n + 1) / 2)"
    using d(2) by (intro rndq_mono) (simp add: field_simps)
  then show "rndq (rndq ?x * 10000000) \<le> of_int n + 1/2"
    using assms by (subst (asm) grid) (auto simp: field_simps)
qed

lemma shown_amount:
  assumes "0 < n" "n < 2^52"
  obtains m where "amount_stroops (num_of_big n / Fin 10000000) = Inr m" "n - 1 \<le> m" "m \<le> n"
proof -
  let ?x = "of_int n / 10000000 :: rat"
  have n: "0 < (of_int n :: rat)" "of_int n \<le> (2^52 :: rat)" using stroops_as_rat [OF assms] by auto
  have one: "num_of_big n / Fin 10000000 = Fin (rndq ?x)"
    using n assms by (simp add: num_of_big_exact) (subst rnd_110, simp_all)
  have "rndq ?x \<le> 2^52" using rndq_mono [of ?x "of_int (2^52)"] n rndq_of_int [of "2^52"] by simp
  moreover have "0 \<le> rndq ?x" using n by (intro rndq_nonneg) simp
  ultimately have "rnd (rndq ?x * 10000000) = Fin (rndq (rndq ?x * 10000000))" by (intro rnd_110) simp
  then have two: "Fin (rndq ?x) * Fin 10000000 = Fin (rndq (rndq ?x * 10000000))" by simp
  let ?y = "rndq (rndq ?x * 10000000)"
  have "n - 1 \<le> \<lfloor>?y\<rfloor>" "\<lfloor>?y\<rfloor> \<le> n" using scaled_back [OF assms] by linarith+
  then show ?thesis using that unfolding amount_stroops_def one scale_numeral two by simp
qed

lemma shown_balance_outcome:
  assumes "querySxlmBalance (ue_balance ev) = Inr n" "0 < n" "n < 2^52"
    "balance_route isValid rate (ue_balance ev) param = Inr r" "b ''amount'' = Some (J_num (br_sxlmBalance r))"
  shows "snd (unstake_route isValid fmt ev b ws) \<noteq> Inl (Insufficient x y)"
    and "\<exists>m. amount_stroops (br_sxlmBalance r) = Inr m \<and> n - 1 \<le> m \<and> m \<le> n"
proof -
  have r: "br_sxlmBalance r = num_of_big n / Fin 10000000"
    using assms(1,4) by (auto simp: balance_route_def split: sum.splits)
  obtain m where m: "amount_stroops (br_sxlmBalance r) = Inr m" "n - 1 \<le> m" "m \<le> n"
    unfolding r using assms(2,3) by (rule shown_amount)
  then show "\<exists>m. amount_stroops (br_sxlmBalance r) = Inr m \<and> n - 1 \<le> m \<and> m \<le> n" by blast
  have amt: "a = br_sxlmBalance r" if "unstakeSchema isValid b = Inr ((user, a), instant)" for user a instant
    using that assms(5) by (auto simp: unstakeSchema_def userAmountSchema_def zod_both_def zod_field_def
        positiveAmountSchema_def Let_def split: sum.splits if_splits)
  have fin: "snd (finish_unstake fmt ev user a s ws) \<noteq> Inl (Insufficient x y)" for user a s
    by (simp add: finish_unstake_def split: build_result.split sum.split)
  show "snd (unstake_route isValid fmt ev b ws) \<noteq> Inl (Insufficient x y)"
    using m(1,3) assms(1) fin amt
    by (auto simp: unstake_route_def split: sum.splits if_splits prod.splits)
qed

text \<open>
  C38. Whoever asks to unstake exactly the balance the balance route shows is never refused for a too small
  balance, and asks for the whole balance up to one stroop.\<close>

theorem shown_balance_can_be_unstaked:
  assumes "querySxlmBalance (ue_balance ev) = Inr n" "0 < n" "n < 2^52"
    "balance_route isValid rate (ue_balance ev) param = Inr r" "b ''amount'' = Some (J_num (br_sxlmBalance r))"
  shows "(\<forall>x y. snd (unstake_route isValid fmt ev b ws) \<noteq> Inl (Insufficient x y)) \<and>
         (\<exists>m. amount_stroops (br_sxlmBalance r) = Inr m \<and> n - 1 \<le> m \<and> m \<le> n)"
  using shown_balance_outcome [where b = b and ev = ev, OF assms] by blast

subsection \<open>What a request to unstake leaves behind\<close>

text \<open>The two outcomes of the route.\<close>

lemma unstake_cases:
  assumes "unstake_route isValid fmt ev b ws = (ws', r)"
  obtains (refused) e where "r = Inl e" "ws' = ws"
  | (built) user a inst s n ok where "r = Inr ok" "unstakeSchema isValid b = Inr ((user, a), inst)"
      "amount_stroops a = Inr s" "0 < s" "querySxlmBalance (ue_balance ev) = Inr n" "s \<le> n"
      "ws' = record_request ev user s ws" "ur_unlockTime ok = ue_now ev + unbondingPeriodMs"
proof (cases r)
  case (Inl e)
  then have "ws' = ws" using assms
    by (auto simp: unstake_route_def finish_unstake_def split: sum.splits if_splits build_result.splits prod.splits)
  then show ?thesis using refused Inl by blast
next
  case (Inr ok)
  then obtain user a inst s n where
    p: "unstakeSchema isValid b = Inr ((user, a), inst)" "amount_stroops a = Inr s" "0 < s"
      "querySxlmBalance (ue_balance ev) = Inr n" "s \<le> n" "finish_unstake fmt ev user a s ws = (ws', Inr ok)"
    using assms by (auto simp: unstake_route_def not_le not_less split: sum.splits if_splits prod.splits)
  then have "ws' = record_request ev user s ws" "ur_unlockTime ok = ue_now ev + unbondingPeriodMs"
    by (auto simp: finish_unstake_def split: sum.splits build_result.splits)
  then show ?thesis using built Inr p(1-5) by blast
qed

text \<open>
  The route changes the withdrawals table only when it answers with a transaction, and then all it does is
  insert one pending row for the address of the request, of a positive amount that address's balance covers,
  unlocked after the unbonding period. No signature is asked for: the address is a field of the body.\<close>

theorem unstake_records_one_row:
  assumes "unstake_route isValid fmt ev b ws = (ws', r)" "ws' \<noteq> ws"
  shows "\<exists>user a inst s n. unstakeSchema isValid b = Inr ((user, a), inst) \<and> amount_stroops a = Inr s \<and>
    0 < s \<and> s \<le> n \<and> querySxlmBalance (ue_balance ev) = Inr n \<and> (\<exists>ok. r = Inr ok) \<and>
    ws' = ws @ [\<lparr>wid = next_wid ws, wallet = user, amount = s, status = ''pending'',
                unlockTime = ue_now ev + unbondingPeriodMs, createdAt = ue_now ev\<rparr>]"
  using assms(1)
proof (cases rule: unstake_cases)
  case (built user a inst s n ok)
  then show ?thesis using assms(2) by (auto simp: record_request_def withdrawal_create_def split: if_splits)
qed (use assms(2) in simp)

text \<open>The same request sent again and again, with whatever the chain answers each time.\<close>

fun unstake_requests ::
  "(string \<Rightarrow> bool) \<Rightarrow> (number \<Rightarrow> string) \<Rightarrow> body \<Rightarrow> unstake_env list \<Rightarrow> withdrawal list \<Rightarrow> withdrawal list" where
  "unstake_requests isValid fmt b [] ws = ws"
| "unstake_requests isValid fmt b (ev # evs) ws =
     unstake_requests isValid fmt b evs (fst (unstake_route isValid fmt ev b ws))"

definition request_accepted :: "body \<Rightarrow> (string \<Rightarrow> bool) \<Rightarrow> (number \<Rightarrow> string) \<Rightarrow> unstake_env \<Rightarrow> bool" where
  "request_accepted b isValid fmt ev \<longleftrightarrow>
     ue_prisma ev \<and> ue_create ev = None \<and> \<not> isl (snd (unstake_route isValid fmt ev b []))"

lemma unstake_answer_ignores_rows:
  "snd (unstake_route isValid fmt ev b ws) = snd (unstake_route isValid fmt ev b ws')"
  by (simp add: unstake_route_def finish_unstake_def split: sum.split build_result.split prod.split)

lemma accepted_request_creates:
  assumes "unstakeSchema isValid b = Inr ((user, a), inst)" "amount_stroops a = Inr s" "request_accepted b isValid fmt ev"
  shows "fst (unstake_route isValid fmt ev b ws) =
    withdrawal_create user s (ue_now ev + unbondingPeriodMs) (ue_now ev) ws"
proof -
  obtain ws' r where run: "unstake_route isValid fmt ev b ws = (ws', r)" by fastforce
  then have "\<not> isl r"
    using assms(3) unstake_answer_ignores_rows [of isValid fmt ev b ws "[]"] by (simp add: request_accepted_def)
  from run have "ws' = withdrawal_create user s (ue_now ev + unbondingPeriodMs) (ue_now ev) ws"
    using assms \<open>\<not> isl r\<close> by (cases rule: unstake_cases) (auto simp: record_request_def request_accepted_def)
  then show ?thesis using run by simp
qed

lemma requests_pile_up:
  assumes "unstakeSchema isValid b = Inr ((user, a), inst)" "amount_stroops a = Inr s"
    "list_all (request_accepted b isValid fmt) evs"
  shows "qs_totalPendingAmount (getQueueStats (unstake_requests isValid fmt b evs ws)) =
           qs_totalPendingAmount (getQueueStats ws) + int (length evs) * s"
    and "qs_pending (getQueueStats (unstake_requests isValid fmt b evs ws)) =
           qs_pending (getQueueStats ws) + int (length evs)"
  using assms(3)
proof (induction evs arbitrary: ws)
  case (Cons ev evs)
  { case 1
    then show ?case using Cons(1)
      by (simp add: accepted_request_creates [OF assms(1,2)] getQueueStats_def withdrawal_create_def algebra_simps)
  next
    case 2
    then show ?case using Cons(2)
      by (simp add: accepted_request_creates [OF assms(1,2)] getQueueStats_def withdrawal_create_def count_status_def)
  }
qed simp_all

text \<open>
  Requests pile up: every accepted repetition of one request adds its whole amount to the pending total
  once more, although nobody has signed anything and the balance they were checked against never changed.\<close>

theorem unsigned_requests_pile_up:
  assumes "unstakeSchema isValid b = Inr ((user, a), inst)" "amount_stroops a = Inr s"
    "list_all (request_accepted b isValid fmt) evs"
  shows "qs_totalPendingAmount (getQueueStats (unstake_requests isValid fmt b evs ws)) =
           qs_totalPendingAmount (getQueueStats ws) + int (length evs) * s \<and>
         qs_pending (getQueueStats (unstake_requests isValid fmt b evs ws)) =
           qs_pending (getQueueStats ws) + int (length evs)"
  using requests_pile_up [OF assms] by blast

text \<open>
  One delayed withdrawal becomes two pending rows as soon as a unit of sXLM is worth more or less than one XLM:
  the route stores the sXLM asked for, the event listener looks for a pending row of the XLM
  the contract promised, does not find it, and inserts its own.\<close>

theorem delayed_withdrawal_recorded_twice:
  assumes "unstakeSchema isValid b = Inr ((user, a), inst)" "amount_stroops a = Inr s" "request_accepted b isValid fmt ev"
    and "xlm \<noteq> s" "user \<noteq> []" "list_all (\<lambda>w. \<not> (wallet w = user \<and> amount w = xlm \<and> status w = ''pending'')) ws"
    and "ee_findFirst lev = None" "ee_create lev = None" "date_of_num (num_of_big (ee_now lev) + ul * lit 5000) = Some t"
    and "ls_rows l = fst (unstake_route isValid fmt ev b ws)"
  shows "map (\<lambda>w. (wallet w, amount w, status w)) (ls_rows (fst (record_delayed lev user xlm ul l))) =
    map (\<lambda>w. (wallet w, amount w, status w)) ws @ [(user, s, ''pending''), (user, xlm, ''pending'')]"
proof -
  have rows: "ls_rows l = withdrawal_create user s (ue_now ev + unbondingPeriodMs) (ue_now ev) ws"
    using assms(10) accepted_request_creates [OF assms(1-3)] by simp
  then have "\<not> (\<exists>w\<in>set (ls_rows l). wallet w = user \<and> amount w = xlm \<and> status w = ''pending'')"
    using assms(4,6) by (auto simp: withdrawal_create_def list_all_iff)
  then show ?thesis using assms(5,7-9)
    by (simp add: record_delayed_def try_effect_def rows withdrawal_create_def)
qed

definition demo_unstake :: "rat \<Rightarrow> body" where
  "demo_unstake x = (\<lambda>_. None)(''userAddress'' := Some (J_str ''GA''), ''amount'' := Some (J_num (Fin x)))"

definition demo_unstake_env :: "int \<Rightarrow> unstake_env" where
  "demo_unstake_env n =
     \<lparr>ue_balance = \<lparr>be_account = None, be_sim = Inr (Bal (Sim_success (Some n)))\<rparr>,
      ue_build = \<lparr>bt_account = None, bt_sim = Inr None, bt_assemble = Inr ''XDR''\<rparr>,
      ue_rate = Inr (Fin 1), ue_now = 5, ue_prisma = True, ue_create = None\<rparr>"

lemma trim_GA: "trim ''GA'' = ''GA''"
  by (simp add: trim_def is_blank_def)

lemma demo_unstake_ok:
  "unstakeSchema (\<lambda>_. True) (demo_unstake 2) = Inr ((''GA'', Fin 2), False)"
  "amount_stroops (Fin 2) = Inr 20000000"
  "20000000 \<le> n \<Longrightarrow> request_accepted (demo_unstake 2) (\<lambda>_. True) sh (demo_unstake_env n)"
proof -
  show p: "unstakeSchema (\<lambda>_. True) (demo_unstake 2) = Inr ((''GA'', Fin 2), False)"
    by (simp add: unstakeSchema_def userAmountSchema_def zod_both_def zod_field_def instant_field_def
        positiveAmountSchema_def stellarAddressSchema_def demo_unstake_def trim_GA)
  show q: "amount_stroops (Fin 2) = Inr 20000000" by (simp add: amount_stroops_def)
  show "20000000 \<le> n \<Longrightarrow> request_accepted (demo_unstake 2) (\<lambda>_. True) sh (demo_unstake_env n)"
    by (simp add: request_accepted_def unstake_route_def finish_unstake_def p q querySxlmBalance_def build_tx_def
        demo_unstake_env_def)
qed

theorem unsigned_requests_pile_up_witness:
  "qs_totalPendingAmount (getQueueStats (unstake_requests (\<lambda>_. True) (\<lambda>_. []) (demo_unstake 2)
     (replicate 3 (demo_unstake_env 20000000)) [])) = 60000000"
  using unsigned_requests_pile_up [OF demo_unstake_ok(1,2), where evs = "replicate 3 (demo_unstake_env 20000000)"
      and ws = "[]" and fmt = "\<lambda>_. []"]
  by (simp add: demo_unstake_ok(3) getQueueStats_def numeral_3_eq_3)

theorem unstake_records_one_row_witness:
  "fst (unstake_route (\<lambda>_. True) (\<lambda>_. []) (demo_unstake_env 30000000) (demo_unstake 2) []) =
     [\<lparr>wid = 1, wallet = ''GA'', amount = 20000000, status = ''pending'',
       unlockTime = 5 + unbondingPeriodMs, createdAt = 5\<rparr>]"
proof -
  let ?run = "unstake_route (\<lambda>_. True) (\<lambda>_. []) (demo_unstake_env 30000000) (demo_unstake 2) []"
  have "fst ?run \<noteq> []"
    by (simp add: accepted_request_creates [OF demo_unstake_ok] withdrawal_create_def)
  with unstake_records_one_row [of "\<lambda>_. True" "\<lambda>_. []" "demo_unstake_env 30000000" "demo_unstake 2" "[]" "fst ?run" "snd ?run"]
  show ?thesis by (auto simp: demo_unstake_ok demo_unstake_env_def next_wid_def)
qed

definition demo_listener :: "withdrawal list \<Rightarrow> listener" where
  "demo_listener ws = \<lparr>lastLedger = 0, ledgerFile = None, ls_rows = ws, ls_liquidations = [], ls_notes = []\<rparr>"

definition demo_event_env :: event_env where
  "demo_event_env = \<lparr>ee_now = 9, ee_updateMany = None, ee_findFirst = None, ee_create = None, ee_liquidation = None,
     ee_publish = (\<lambda>_. None)\<rparr>"

theorem delayed_withdrawal_recorded_twice_witness:
  "map (\<lambda>w. (wallet w, amount w, status w)) (ls_rows (fst (record_delayed demo_event_env ''GA'' 21000000 (Fin 4)
     (demo_listener (fst (unstake_route (\<lambda>_. True) (\<lambda>_. []) (demo_unstake_env 30000000) (demo_unstake 2) [])))))) =
   [(''GA'', 20000000, ''pending''), (''GA'', 21000000, ''pending'')]"
proof -
  have "date_of_num (num_of_big (ee_now demo_event_env) + Fin 4 * lit 5000) = Some 20009"
    by (simp add: demo_event_env_def num_of_big_exact)
  moreover have "request_accepted (demo_unstake 2) (\<lambda>_. True) (\<lambda>_. []) (demo_unstake_env 30000000)"
    by (simp add: demo_unstake_ok(3))
  ultimately show ?thesis
    using delayed_withdrawal_recorded_twice [OF demo_unstake_ok(1,2), where xlm = 21000000 and ws = "[]" and t = 20009
      and l = "demo_listener (fst (unstake_route (\<lambda>_. True) (\<lambda>_. []) (demo_unstake_env 30000000) (demo_unstake 2) []))"
      and ev = "demo_unstake_env 30000000" and fmt = "\<lambda>_. []" and lev = demo_event_env and ul = "Fin 4"]
    by (simp add: demo_event_env_def demo_listener_def)
qed

subsection \<open>The dust of a round trip\<close>

lemma shown_21: "num_of_big 21 / Fin 10000000 = Fin (rndq (21/10000000))"
  by (simp add: num_of_big_exact) (subst rnd_110, simp_all)

lemma rndq_21: "rndq (21/10000000) = 4958484807013127 / 2 ^ 71"
  by (subst rndq_frac [where k = 71]) (simp_all add: rhe_def Let_def)

lemma rndq_20: "rndq (4958484807013127 / 2 ^ 71 * 10000000) = 5910974510923775 / 2 ^ 48"
  by (subst rndq_frac [where k = 48]) (simp_all add: rhe_def Let_def)

lemma amount_21: "amount_stroops (num_of_big 21 / Fin 10000000) = Inr 20"
proof -
  have "rnd (4958484807013127 / 2 ^ 71 * 10000000) = Fin (5910974510923775 / 2 ^ 48)"
    by (subst rnd_110) (simp_all only: rndq_20, simp_all)
  then have "Fin (4958484807013127 / 2 ^ 71) * Fin 10000000 = Fin (5910974510923775 / 2 ^ 48)"
    by (simp only: times_number.simps)
  then show ?thesis unfolding shown_21 rndq_21 amount_stroops_def scale_numeral by simp
qed

theorem shown_balance_can_be_unstaked_witness:
  "br_sxlmBalance \<lparr>br_sxlmBalance = num_of_big 21 / Fin 10000000, br_sxlmBalanceRaw = dec_int 21,
      br_xlmValue = num_of_big 21 / Fin 10000000 * Fin 1, br_exchangeRate = Fin 1, br_archived = False\<rparr> =
     num_of_big 21 / Fin 10000000 \<and>
   amount_stroops (num_of_big 21 / Fin 10000000) = Inr 20 \<and>
   (\<exists>m. amount_stroops (num_of_big 21 / Fin 10000000) = Inr m \<and> 20 \<le> m \<and> m \<le> 21)"
proof -
  let ?r = "\<lparr>br_sxlmBalance = num_of_big 21 / Fin 10000000, br_sxlmBalanceRaw = dec_int 21,
      br_xlmValue = num_of_big 21 / Fin 10000000 * Fin 1, br_exchangeRate = Fin 1, br_archived = False\<rparr>"
  have q: "querySxlmBalance (ue_balance (demo_unstake_env 21)) = Inr 21"
    by (simp add: querySxlmBalance_def demo_unstake_env_def)
  have "balance_route (\<lambda>_. True) (Inr (Fin 1)) (ue_balance (demo_unstake_env 21)) (Some (J_str ''GA'')) = Inr ?r"
    unfolding balance_route_def q by (simp add: stellarAddressSchema_def)
  from shown_balance_can_be_unstaked [OF q _ _ this, where b = "\<lambda>_. Some (J_num (br_sxlmBalance ?r))"] amount_21
  show ?thesis by simp
qed

subsection \<open>The scan of the contract's queue\<close>

definition open_for :: "wallet \<Rightarrow> staking_queue \<Rightarrow> nat \<Rightarrow> bool" where
  "open_for user st k = (case sq_queue st k of None \<Rightarrow> False | Some r \<Rightarrow> rq_user r = user \<and> \<not> rq_claimed r)"

text \<open>Identifiers are handed out from 0 on and never removed.\<close>

definition contiguous :: "nat \<Rightarrow> staking_queue \<Rightarrow> bool" where
  "contiguous m st \<longleftrightarrow> dom (sq_queue st) = {..<m}"

lemma contiguous_claim:
  assumes "contiguous m st" "claim_withdrawal sequence user i st = Some st'"
  shows "contiguous m st'"
proof -
  obtain r where "sq_queue st i = Some r" "sq_queue st' = (sq_queue st)(i \<mapsto> r\<lparr>rq_claimed := True\<rparr>)"
    using assms(2) by (auto simp: claim_withdrawal_def split: option.splits if_splits)
  then show ?thesis using assms(1) by (metis contiguous_def domI dom_fun_upd insert_absorb option.distinct(1))
qed

lemma get_withdrawal_cases:
  assumes "contiguous m st"
  obtains (past) "m \<le> i" "get_withdrawal st i = Scan_end" "\<And>k. i \<le> k \<Longrightarrow> \<not> open_for user st k"
  | (there) e where "get_withdrawal st i = Entry e" "(en_user e = user \<and> \<not> en_claimed e) = open_for user st i"
proof (cases "sq_queue st i")
  case None
  then have "\<not> i < m" using assms by (auto simp: contiguous_def)
  then have "sq_queue st k = None" if "i \<le> k" for k
    using assms that by (metis contiguous_def domIff lessThan_iff order.strict_trans1)
  then show ?thesis using past None \<open>\<not> i < m\<close> by (auto simp: get_withdrawal_def open_for_def)
next
  case (Some r)
  then show ?thesis using there by (simp add: get_withdrawal_def open_for_def)
qed

lemma scan_queue_spec:
  assumes "contiguous m st"
  shows "case scan_queue (get_withdrawal st) user i n of
      None \<Rightarrow> \<forall>k. i \<le> k \<and> k < i + n \<longrightarrow> \<not> open_for user st k
    | Some (k, e) \<Rightarrow> i \<le> k \<and> k < i + n \<and> open_for user st k \<and> get_withdrawal st k = Entry e \<and>
        (\<forall>j. i \<le> j \<and> j < k \<longrightarrow> \<not> open_for user st j)"
proof (induction n arbitrary: i)
  case (Suc n)
  show ?case
  proof (cases rule: get_withdrawal_cases [OF assms, where i = i and user = user, case_names past there])
    case past
    then show ?thesis by auto
  next
    case (there e)
    show ?thesis
    proof (cases "open_for user st i")
      case True
      then show ?thesis using there by auto
    next
      case False
      have split: "(i \<le> k \<and> k < i + Suc n) = (k = i \<or> (Suc i \<le> k \<and> k < Suc i + n))" for k by auto
      have below: "(i \<le> j \<and> j < k) = ((j = i \<and> i < k) \<or> (Suc i \<le> j \<and> j < k))" for j k by auto
      have "scan_queue (get_withdrawal st) user i (Suc n) = scan_queue (get_withdrawal st) user (Suc i) n"
        using there False by auto
      then show ?thesis using Suc.IH [of "Suc i"] False
        unfolding split below by (auto split: option.splits)
    qed
  qed
qed auto

lemma claim_route_outcomes:
  assumes "claimSchema isValid b = Inr (user, wid')" "cl_admin ev = None" "cl_scan ev = get_withdrawal st"
    "contiguous m st" "cl_ledger ev = Inr latest"
  shows "claim_route isValid ev b = Inl No_withdrawal \<longleftrightarrow> (\<forall>k < 50. \<not> open_for user st k)"
    and "claim_route isValid ev b = Inr (xdr, i) \<Longrightarrow> latest \<le> sequence \<Longrightarrow>
      (\<And>r. sq_queue st i = Some r \<Longrightarrow> rq_xlm_amount r \<le> sq_xlm st) \<Longrightarrow> claim_withdrawal sequence user i st \<noteq> None"
    and "claim_route isValid ev b = Inl (Cooling_down mins left) \<Longrightarrow>
      \<exists>k < 50. open_for user st k \<and> (\<forall>j < k. \<not> open_for user st j) \<and> claim_withdrawal latest user k st = None"
proof -
  note spec = scan_queue_spec [OF assms(4), where user = user and i = 0 and n = 50]
  define found where "found = scan_queue (get_withdrawal st) user 0 50"
  have route: "claim_route isValid ev b = (case found of None \<Rightarrow> Inl No_withdrawal | Some (i, e) \<Rightarrow>
      if latest < en_unlock_ledger e
      then Inl (Cooling_down (minutes_left (en_unlock_ledger e - latest)) (en_unlock_ledger e - latest))
      else case build_tx (cl_build ev) of Threw t \<Rightarrow> Inl (Claim_refused (message_or ''Claim failed'' t))
        | Sim_failed m \<Rightarrow> Inl (Claim_refused (Text (''Simulation failed: '' @ m))) | Built xdr \<Rightarrow> Inr (xdr, i))"
    using assms(1-3,5) by (simp add: claim_route_def findContractWithdrawal_def maxScan_def found_def Let_def
        split: option.split prod.split)
  show "claim_route isValid ev b = Inl No_withdrawal \<longleftrightarrow> (\<forall>k < 50. \<not> open_for user st k)"
    using spec unfolding route found_def [symmetric] by (auto split: option.splits build_result.splits)
  have unlock: "en_unlock_ledger e = rq_unlock_ledger r"
    if "get_withdrawal st k = Entry e" "sq_queue st k = Some r" for k e r
    using that by (auto simp: get_withdrawal_def)
  show "claim_withdrawal sequence user i st \<noteq> None" if built: "claim_route isValid ev b = Inr (xdr, i)"
    and later: "latest \<le> sequence" and funds: "\<And>r. sq_queue st i = Some r \<Longrightarrow> rq_xlm_amount r \<le> sq_xlm st"
  proof -
    obtain e where e: "found = Some (i, e)" "en_unlock_ledger e \<le> latest"
      using built unfolding route by (auto split: option.splits if_splits build_result.splits)
    then have "open_for user st i" "get_withdrawal st i = Entry e" using spec by (auto simp: found_def)
    then obtain r where "sq_queue st i = Some r" "rq_user r = user" "\<not> rq_claimed r" "rq_unlock_ledger r \<le> latest"
      using e(2) unlock by (auto simp: open_for_def split: option.splits)
    then show ?thesis using later funds by (simp add: claim_withdrawal_def not_less)
  qed
  show "\<exists>k < 50. open_for user st k \<and> (\<forall>j < k. \<not> open_for user st j) \<and> claim_withdrawal latest user k st = None"
    if locked: "claim_route isValid ev b = Inl (Cooling_down mins left)"
  proof -
    obtain k e where "found = Some (k, e)" "latest < en_unlock_ledger e"
      using locked unfolding route by (auto split: option.splits if_splits build_result.splits)
    moreover from this have k: "k < 50" "open_for user st k" "get_withdrawal st k = Entry e" "\<forall>j < k. \<not> open_for user st j"
      using spec by (auto simp: found_def)
    moreover from k obtain r where "sq_queue st k = Some r" by (auto simp: open_for_def split: option.splits)
    ultimately show ?thesis using unlock by (auto simp: claim_withdrawal_def)
  qed
qed

text \<open>
  C17. Against the contract's own queue, the claim route answers that there is nothing to claim exactly when none of the first
  fifty requests of the queue is an open request of the user, a transaction it builds is one the contract
  executes at that ledger or later, and a withdrawal it calls locked is one the contract would
  refuse.\<close>

theorem claims_agree_with_contract:
  assumes "claimSchema isValid b = Inr (user, wid')" "cl_admin ev = None" "cl_scan ev = get_withdrawal st"
    "contiguous m st" "cl_ledger ev = Inr latest"
  shows "(claim_route isValid ev b = Inl No_withdrawal \<longleftrightarrow> (\<forall>k < 50. \<not> open_for user st k)) \<and>
    (\<forall>xdr i sequence. claim_route isValid ev b = Inr (xdr, i) \<and> latest \<le> sequence \<and>
       (\<forall>r. sq_queue st i = Some r \<longrightarrow> rq_xlm_amount r \<le> sq_xlm st) \<longrightarrow>
       claim_withdrawal sequence user i st \<noteq> None) \<and>
    (\<forall>mins left. claim_route isValid ev b = Inl (Cooling_down mins left) \<longrightarrow>
       (\<exists>k < 50. open_for user st k \<and> (\<forall>j < k. \<not> open_for user st j) \<and> claim_withdrawal latest user k st = None))"
  using claim_route_outcomes [OF assms] by blast

definition demo_queue :: staking_queue where
  "demo_queue = \<lparr>sq_queue = (\<lambda>i. if i < 2
       then Some \<lparr>rq_user = (if i = 0 then ''GB'' else ''GA''), rq_xlm_amount = 7, rq_unlock_ledger = 100, rq_claimed = False\<rparr>
       else None), sq_total_staked = 50, sq_xlm = 50\<rparr>"

definition demo_claim :: "int \<Rightarrow> claim_env" where
  "demo_claim latest = \<lparr>cl_admin = None, cl_scan = get_withdrawal demo_queue, cl_ledger = Inr latest,
     cl_build = \<lparr>bt_account = None, bt_sim = Inr None, bt_assemble = Inr ''XDR''\<rparr>\<rparr>"

definition demo_claim_body :: body where
  "demo_claim_body = (\<lambda>_. None)(''userAddress'' := Some (J_str ''GA''), ''withdrawalId'' := Some (J_str ''9''))"

theorem claims_agree_with_contract_witness:
  "claim_route (\<lambda>_. True) (demo_claim 100) demo_claim_body = Inr (''XDR'', 1) \<and>
   claim_withdrawal 101 ''GA'' 1 demo_queue \<noteq> None \<and>
   claim_route (\<lambda>_. True) (demo_claim 100) demo_claim_body \<noteq> Inl No_withdrawal"
proof -
  have schema: "claimSchema (\<lambda>_. True) demo_claim_body = Inr (''GA'', ''9'')"
    by (simp add: claimSchema_def zod_both_def zod_field_def stellarAddressSchema_def withdrawalId_field_def
        demo_claim_body_def trim_GA)
  have scan: "scan_queue (get_withdrawal demo_queue) ''GA'' 0 50 =
      Some (1, \<lparr>en_user = ''GA'', en_claimed = False, en_xlm_amount = dec_int 7, en_unlock_ledger = 100\<rparr>)"
    by (simp add: numeral_eq_Suc get_withdrawal_def demo_queue_def)
  have run: "claim_route (\<lambda>_. True) (demo_claim 100) demo_claim_body = Inr (''XDR'', 1)"
    by (simp add: claim_route_def schema findContractWithdrawal_def maxScan_def demo_claim_def scan build_tx_def)
  have "contiguous 2 demo_queue" by (auto simp: contiguous_def demo_queue_def split: if_splits)
  then have "claim_withdrawal 101 ''GA'' 1 demo_queue \<noteq> None"
    using claims_agree_with_contract [OF schema, of "demo_claim 100" demo_queue 2 100] run
    by (auto simp: demo_claim_def demo_queue_def)
  then show ?thesis using run by simp
qed

text \<open>
  A user whose open requests all come after the first fifty of the contract's queue cannot claim through the
  API: the contract would pay, and the route answers that there is nothing to claim.\<close>

theorem late_requests_cannot_be_claimed:
  assumes "claimSchema isValid b = Inr (user, wid')" "cl_admin ev = None" "cl_scan ev = get_withdrawal st"
    "contiguous m st" "\<And>k. open_for user st k \<Longrightarrow> 50 \<le> k"
    "sq_queue st i = Some r" "rq_user r = user" "\<not> rq_claimed r" "rq_unlock_ledger r \<le> sequence" "rq_xlm_amount r \<le> sq_xlm st"
  shows "claim_withdrawal sequence user i st \<noteq> None \<and> claim_route isValid ev b = Inl No_withdrawal"
proof
  show "claim_withdrawal sequence user i st \<noteq> None" using assms(6-10) by (simp add: claim_withdrawal_def)
  have "scan_queue (get_withdrawal st) user 0 50 = None"
    using scan_queue_spec [OF assms(4), where user = user and i = 0 and n = 50] assms(5)
    by (cases "scan_queue (get_withdrawal st) user 0 50") fastforce+
  then show "claim_route isValid ev b = Inl No_withdrawal"
    using assms(1-3) by (simp add: claim_route_def findContractWithdrawal_def maxScan_def)
qed

subsection \<open>Submitting a signed transaction\<close>

lemma walk_schedule_length: "walk_schedule ans i ms = walk_schedule ans i (replicate (length ms) 0)"
  by (induction ms arbitrary: i) (auto split: option.split)

interpretation submitted: poll_loop "\<lambda>ans i n. walk_schedule ans i (replicate n 0)" decide_answer still_pending
  by unfold_locales simp_all

lemma submit_outcome:
  assumes "signedXdrSchema b = Inr xdr" "rr_error r = None" "rr_result r = Some (hash, st, ex)" "st \<noteq> ''ERROR''"
  shows "(submit_route (Inr r) ans b = Inr \<lparr>sb_txHash = hash, sb_status = ''PENDING'', sb_ledger = None, sb_pending = True\<rparr> \<and>
          (\<forall>k < 18. decide_answer (ans k) = None)) \<or>
    (\<exists>k < 18. (\<forall>j < k. decide_answer (ans j) = None) \<and>
       (case decide_answer (ans k) of
          None \<Rightarrow> False
        | Some (Inl t) \<Rightarrow> submit_route (Inr r) ans b = Inl (400, message_or ''Submit failed'' t)
        | Some (Inr c) \<Rightarrow> submit_route (Inr r) ans b =
            Inr \<lparr>sb_txHash = hash, sb_status = ''SUCCESS'', sb_ledger = cf_ledger c, sb_pending = False\<rparr>))"
    and "sum_list schedule = 72000"
proof -
  define out where "out = walk_schedule ans 0 (replicate 18 0)"
  have polled: "submit_pollTransaction ans = out"
    unfolding submit_pollTransaction_def out_def walk_schedule_length [of ans 0 schedule] by (simp add: schedule_def)
  have success: "cf_status c = ''SUCCESS'' \<and> \<not> cf_pending c" if "decide_answer a = Some (Inr c)" for a c
    using that by (auto simp: decide_answer_def split: tx_answer.splits option.splits if_splits)
  show "(submit_route (Inr r) ans b = Inr \<lparr>sb_txHash = hash, sb_status = ''PENDING'', sb_ledger = None, sb_pending = True\<rparr> \<and>
          (\<forall>k < 18. decide_answer (ans k) = None)) \<or>
    (\<exists>k < 18. (\<forall>j < k. decide_answer (ans j) = None) \<and>
       (case decide_answer (ans k) of
          None \<Rightarrow> False
        | Some (Inl t) \<Rightarrow> submit_route (Inr r) ans b = Inl (400, message_or ''Submit failed'' t)
        | Some (Inr c) \<Rightarrow> submit_route (Inr r) ans b =
            Inr \<lparr>sb_txHash = hash, sb_status = ''SUCCESS'', sb_ledger = cf_ledger c, sb_pending = False\<rparr>))"
  proof (cases rule: submitted.poll_cases [of ans 0 18, case_names expired decided])
    case expired
    then show ?thesis using assms polled by (simp add: submit_route_def out_def still_pending_def)
  next
    case (decided k)
    then have "decide_answer (ans k) = Some out" "k < 18" "\<forall>j < k. decide_answer (ans j) = None" by (simp_all add: out_def)
    then show ?thesis using assms polled success
      by (intro disjI2 exI [of _ k]) (auto simp: submit_route_def split: sum.split)
  qed
  show "sum_list schedule = 72000" by (simp add: schedule_def sum_list_replicate)
qed

text \<open>
  C39. A submitted transaction is followed for eighteen answers, seventy-two seconds of waiting: the route
  reports the first of them that decides, success or failure, and reports the transaction as pending exactly
  when none does.\<close>

theorem submit_reports_first_decision:
  assumes "signedXdrSchema b = Inr xdr" "rr_error r = None" "rr_result r = Some (hash, st, ex)" "st \<noteq> ''ERROR''"
  shows "((submit_route (Inr r) ans b = Inr \<lparr>sb_txHash = hash, sb_status = ''PENDING'', sb_ledger = None, sb_pending = True\<rparr> \<and>
          (\<forall>k < 18. decide_answer (ans k) = None)) \<or>
    (\<exists>k < 18. (\<forall>j < k. decide_answer (ans j) = None) \<and>
       (case decide_answer (ans k) of
          None \<Rightarrow> False
        | Some (Inl t) \<Rightarrow> submit_route (Inr r) ans b = Inl (400, message_or ''Submit failed'' t)
        | Some (Inr c) \<Rightarrow> submit_route (Inr r) ans b =
            Inr \<lparr>sb_txHash = hash, sb_status = ''SUCCESS'', sb_ledger = cf_ledger c, sb_pending = False\<rparr>))) \<and>
    sum_list schedule = 72000"
  using submit_outcome [OF assms] by blast

text \<open>A network that answers \<open>NOT_FOUND\<close> twice and then confirms.\<close>

definition demo_answers :: "nat \<Rightarrow> tx_answer" where
  "demo_answers i = (if i = 0 then Rate_limited else if i = 1 then Tx_answer (Some (''NOT_FOUND'', None, None))
     else Tx_answer (Some (''SUCCESS'', Some 77, None)))"

theorem submit_reports_first_decision_witness:
  "submit_route (Inr \<lparr>rr_error = None, rr_result = Some (''h'', ''PENDING'', None)\<rparr>) demo_answers
     ((\<lambda>_. None)(''signedXdr'' := Some (J_str ''AAAA''))) =
   Inr \<lparr>sb_txHash = ''h'', sb_status = ''SUCCESS'', sb_ledger = Some 77, sb_pending = False\<rparr>"
proof -
  let ?b = "(\<lambda>_. None)(''signedXdr'' := Some (J_str ''AAAA''))"
  let ?run = "submit_route (Inr \<lparr>rr_error = None, rr_result = Some (''h'', ''PENDING'', None)\<rparr>) demo_answers ?b"
  have schema: "signedXdrSchema ?b = Inr ''AAAA''"
    by (simp add: signedXdrSchema_def zod_field_def is_base64_def base64_char_def)
  have late: "decide_answer (demo_answers 2) = Some (Inr \<lparr>cf_status = ''SUCCESS'', cf_ledger = Some 77, cf_pending = False\<rparr>)"
    and early: "decide_answer (demo_answers 0) = None" "decide_answer (demo_answers (Suc 0)) = None"
    by (simp_all add: decide_answer_def demo_answers_def)
  have two: "k = 2" if "\<forall>j < k. decide_answer (demo_answers j) = None" "decide_answer (demo_answers k) \<noteq> None" for k
  proof -
    have "\<not> 2 < k" using that(1) late by auto
    moreover have "k \<noteq> 0" "k \<noteq> Suc 0" using that(2) early by metis+
    ultimately show ?thesis by linarith
  qed
  from submit_reports_first_decision [OF schema, where ans = demo_answers and hash = "''h''" and st = "''PENDING''"
      and ex = None and r = "\<lparr>rr_error = None, rr_result = Some (''h'', ''PENDING'', None)\<rparr>", THEN conjunct1]
  show ?thesis
  proof (elim meta_impE disjE exE conjE)
    assume "\<forall>k < 18. decide_answer (demo_answers k) = None"
    then have "decide_answer (demo_answers 2) = None" by simp
    then show ?thesis using late by simp
  next
    fix k
    assume first: "\<forall>j < k. decide_answer (demo_answers j) = None"
      and out: "case decide_answer (demo_answers k) of None \<Rightarrow> False
        | Some (Inl t) \<Rightarrow> ?run = Inl (400, message_or ''Submit failed'' t)
        | Some (Inr c) \<Rightarrow> ?run =
            Inr \<lparr>sb_txHash = ''h'', sb_status = ''SUCCESS'', sb_ledger = cf_ledger c, sb_pending = False\<rparr>"
    then have "decide_answer (demo_answers k) \<noteq> None" by (auto split: option.splits)
    then have "k = 2" using first by (intro two)
    then show ?thesis using out late by simp
  qed simp_all
qed

subsection \<open>Staked amounts\<close>

lemma stake_accepts:
  assumes "stake_route isValid fmt rid ev b = Inr reply"
  obtains user a s where "userAmountSchema isValid b = Inr (user, a)" "amount_stroops a = Inr s"
    "minStakeAmount \<le> s" "s \<le> maxStakeAmount" "build_tx (se_build ev) = Built (sr_xdr reply)"
  using assms
  by (auto simp: stake_route_def Let_def not_less split: sum.splits if_splits build_result.splits prod.splits)

text \<open>
  A deposit the stake route builds lies between the configured bounds, and its stroops are the floor of the amount
  asked for up to the error of one rounding: at most one stroop and a fortieth below it, at most a fortieth
  above.\<close>

theorem stake_amount_accurate:
  assumes "stake_route isValid fmt rid ev b = Inr reply"
  shows "\<exists>user x s. userAmountSchema isValid b = Inr (user, Fin x) \<and> amount_stroops (Fin x) = Inr s \<and>
    minStakeAmount \<le> s \<and> s \<le> maxStakeAmount \<and> of_int s - 1/40 \<le> x * 10000000 \<and> x * 10000000 < of_int s + 1 + 1/40"
proof -
  obtain user a s where p: "userAmountSchema isValid b = Inr (user, a)" "amount_stroops a = Inr s"
    "minStakeAmount \<le> s" "s \<le> maxStakeAmount"
    using assms by (rule stake_accepts)
  then obtain x where x: "a = Fin x" "0 < x" "x \<le> 1000000000"
    by (cases a) (auto simp: userAmountSchema_def zod_both_def zod_field_def positiveAmountSchema_def Let_def
        split: sum.splits json.splits option.splits if_splits)
  define y where "y = x * 10000000"
  have y: "0 < y" "y \<le> 10000000000000000" using x by (simp_all add: y_def)
  have "rnd y = Fin (rndq y)" using y by (intro rnd_110) simp
  then have s: "s = \<lfloor>rndq y\<rfloor>" using p(2) by (simp add: amount_stroops_def x(1) y_def)
  have "(of_int s :: rat) \<le> of_int 100000000000000" "of_int 10000000 \<le> (of_int s :: rat)"
    using p(3,4) unfolding minStakeAmount_def maxStakeAmount_def of_int_le_iff by simp_all
  then have smax: "(of_int s :: rat) \<le> 100000000000000" "10000000 \<le> (of_int s :: rat)" by simp_all
  have below: "y \<le> 200000000000000"
  proof (rule ccontr)
    assume "\<not> y \<le> 200000000000000"
    then have "rndq 200000000000000 \<le> rndq y" by (intro rndq_mono) simp
    then have "200000000000000 \<le> \<lfloor>rndq y\<rfloor>" by simp
    then show False using smax(1) s by linarith
  qed
  have above: "1 \<le> y"
  proof (rule ccontr)
    assume "\<not> 1 \<le> y"
    then have "rndq y \<le> rndq 1" by (intro rndq_mono) simp
    then show False using smax(2) s by (simp add: floor_le_iff)
  qed
  have "(2::rat) powi (-1022) \<le> 2 powi 0" by (rule powi_mono) simp
  then have "\<bar>rndq y - y\<bar> \<le> y * 2 powi (-53)" using rndq_error [of y] above by simp
  also have "\<dots> \<le> 200000000000000 * 2 powi (-53)" using below by (intro mult_right_mono) auto
  also have "\<dots> \<le> 1/40" by (simp add: power_int_minus_divide)
  finally have "rndq y - 1/40 \<le> y" "y \<le> rndq y + 1/40" unfolding abs_le_iff by linarith+
  moreover have "of_int s \<le> rndq y" "rndq y < of_int s + 1" unfolding s by linarith+
  ultimately have "of_int s - 1/40 \<le> y" "y < of_int s + 1 + 1/40" by linarith+
  then show ?thesis using p x(1) unfolding y_def by blast
qed

theorem stake_amount_accurate_witness:
  "\<exists>user x s. userAmountSchema (\<lambda>_. True) (demo_unstake 2) = Inr (user, Fin x) \<and> amount_stroops (Fin x) = Inr s \<and>
    of_int s - 1/40 \<le> x * 10000000 \<and> x * 10000000 < of_int s + 1 + 1/40"
proof -
  have "userAmountSchema (\<lambda>_. True) (demo_unstake 2) = Inr (''GA'', Fin 2)"
    by (simp add: userAmountSchema_def zod_both_def zod_field_def positiveAmountSchema_def stellarAddressSchema_def
        demo_unstake_def trim_GA)
  then have "stake_route (\<lambda>_. True) (\<lambda>_. []) ''r'' \<lparr>se_build = ue_build (demo_unstake_env 1), se_rate1 = Inr (Fin 1),
      se_rate2 = Inr (Fin 1)\<rparr> (demo_unstake 2) =
    Inr \<lparr>sr_xdr = ''XDR'', sr_estimatedSxlm = toFixed (\<lambda>_. []) 7 (Fin 2 / Fin 1), sr_exchangeRate = Fin 1\<rparr>"
    by (simp add: stake_route_def demo_unstake_ok minStakeAmount_def maxStakeAmount_def demo_unstake_env_def build_tx_def)
  from stake_amount_accurate [OF this] show ?thesis by blast
qed

end
