(* ===== verification/Dex_Service.thy ===== *)
theory Dex_Service
  imports Dex_Oracle Liquidity_Mining Api_Staking
begin

text \<open>
  The operations of \<open>dex-integration/service.ts\<close> over its two tables, and the routes of
  \<open>api-gateway/routes/dex.ts\<close> that call them. What the pool contract and the database answer is an
  environment per call; an operation that throws keeps what it wrote before.
\<close>

subsection \<open>State and environment\<close>

record dex_db =
  ob_rows :: "observation list"
  pg_rows :: "lm_row list"

record dex_env =
  dx_reserves :: "js_error + (stroops \<times> stroops) sim_reply"
  dx_lp :: "js_error + stroops sim_reply"
  dx_now :: millis
  dx_record :: "js_error option"
  dx_load :: "js_error option"
  dx_lm :: lm_env
  dx_gov :: "gov_row list"

text \<open>A call whose error ends the caller, with the tables as they are then.\<close>

definition then_call :: "'s \<times> ('e + 'a) \<Rightarrow> ('a \<Rightarrow> 's \<Rightarrow> 's \<times> ('e + 'b)) \<Rightarrow> 's \<times> ('e + 'b)" where
  "then_call m k = (case m of (s, Inl e) \<Rightarrow> (s, Inl e) | (s, Inr a) \<Rightarrow> k a s)"

subsection \<open>Reading the pool\<close>

definition queryContractView :: "js_error + 'v sim_reply \<Rightarrow> js_error + 'v option" where
  "queryContractView r =
     bind_result r (\<lambda>s. case s of Sim_error _ \<Rightarrow> return None | Sim_success v \<Rightarrow> return v)"

definition getCurrentPoolSnapshot :: "dex_env \<Rightarrow> js_error + pool_snapshot" where
  "getCurrentPoolSnapshot ev =
     bind_result (queryContractView (dx_reserves ev)) (\<lambda>reserves.
     bind_result (queryContractView (dx_lp ev)) (\<lambda>totalLpSupply.
       let (x, s) = (case reserves of Some r \<Rightarrow> r | None \<Rightarrow> (0, 0))
       in return \<lparr>reserveXlmRaw = x, reserveSxlmRaw = s,
            totalLpSupplyRaw = (case totalLpSupply of Some n \<Rightarrow> n | None \<Rightarrow> 0), feeBps = DEFAULT_SWAP_FEE_BPS\<rparr>))"

text \<open>A wallet that is no address, and a failing chain, fall back to the newest stored position.\<close>

definition loadLiveLpBalance ::
  "(string \<Rightarrow> bool) \<Rightarrow> js_error + stroops sim_reply \<Rightarrow> js_error + stroops option \<Rightarrow> wallet \<Rightarrow> js_error + stroops" where
  "loadLiveLpBalance isAddress view cached w =
     (let fallback = bind_result cached (\<lambda>c. return (case c of Some n \<Rightarrow> n | None \<Rightarrow> 0))
      in if \<not> isAddress w then fallback
         else case queryContractView view of
                Inl _ \<Rightarrow> fallback
              | Inr b \<Rightarrow> return (case b of Some n \<Rightarrow> n | None \<Rightarrow> 0))"

subsection \<open>Observations\<close>

definition record_in_db :: "dex_env \<Rightarrow> pool_snapshot \<Rightarrow> dex_db \<Rightarrow> dex_db \<times> (js_error + unit)" where
  "record_in_db ev snap db =
     (case dx_record ev of
        Some e \<Rightarrow> (db, Inl e)
      | None \<Rightarrow> (db\<lparr>ob_rows := recordObservation (dx_now ev) snap (ob_rows db)\<rparr>, Inr ()))"

definition oracle_in_db :: "int \<Rightarrow> dex_env \<Rightarrow> pool_snapshot \<Rightarrow> dex_db \<Rightarrow> dex_db \<times> (js_error + oracle_snapshot)" where
  "oracle_in_db windowSeconds ev snap db =
     then_call (record_in_db ev snap db) (\<lambda>_ db'.
       (db', case dx_load ev of
               Some e \<Rightarrow> Inl e
             | None \<Rightarrow> computeTwapPrice (loadOracleObservations windowSeconds (dx_now ev) snap (ob_rows db')) windowSeconds
                         (dx_now ev)))"

definition getOracleSnapshot :: "int \<Rightarrow> dex_env \<Rightarrow> dex_db \<Rightarrow> dex_db \<times> (js_error + oracle_snapshot)" where
  "getOracleSnapshot windowSeconds ev db =
     (case getCurrentPoolSnapshot ev of Inl e \<Rightarrow> (db, Inl e) | Inr snap \<Rightarrow> oracle_in_db windowSeconds ev snap db)"

definition safeRecordObservation :: "dex_env \<Rightarrow> dex_db \<Rightarrow> dex_db" where
  "safeRecordObservation ev db =
     (case getCurrentPoolSnapshot ev of Inl _ \<Rightarrow> db | Inr snap \<Rightarrow> fst (record_in_db ev snap db))"

subsection \<open>Quotes, routes and markets\<close>

definition getQuote :: "token \<Rightarrow> number \<Rightarrow> number \<Rightarrow> dex_env \<Rightarrow> dex_db \<Rightarrow> dex_db \<times> (js_error + swap_quote)" where
  "getQuote tokenIn amt slippageBps ev db =
     (case bind_result (getCurrentPoolSnapshot ev) (\<lambda>snap.
             bind_result (displayAmountToRaw amt) (\<lambda>raw.
             bind_result (quoteExactIn snap tokenIn raw slippageBps) (\<lambda>q. return (snap, q)))) of
        Inl e \<Rightarrow> (db, Inl e)
      | Inr (snap, q) \<Rightarrow> then_call (record_in_db ev snap db) (\<lambda>_ db'. (db', Inr q)))"

definition programs_in_db :: "dex_env \<Rightarrow> dex_db \<Rightarrow> dex_db \<times> (js_error + lm_row list)" where
  "programs_in_db ev db =
     (db\<lparr>pg_rows := fst (syncLiquidityMiningProgramsFromGovernance (dx_lm ev) (dx_gov ev) (pg_rows db))\<rparr>,
      getLiquidityMiningPrograms (dx_lm ev) (dx_gov ev) (pg_rows db))"

text \<open>The distinct names in the order of their first occurrence, unless no name is a non-empty one.\<close>

definition preferred_dexes :: "lm_row list \<Rightarrow> string list" where
  "preferred_dexes programs =
     (let names = concat (map (lm_dexes \<circ> row_program) programs)
      in if length (filter (\<lambda>n. n \<noteq> []) names) > 0 then rev (remdups (rev names))
         else [''StellarX'', ''Lumenswap''])"

definition getRoutes ::
  "token \<Rightarrow> number \<Rightarrow> number \<Rightarrow> dex_env \<Rightarrow> dex_db \<Rightarrow> dex_db \<times> (js_error + (swap_quote \<times> dex_route list))" where
  "getRoutes tokenIn amt slippageBps ev db =
     then_call (getQuote tokenIn amt slippageBps ev db) (\<lambda>quote db1.
     then_call (programs_in_db ev db1) (\<lambda>programs db2.
       (db2, Inr (quote, buildDexRoutes quote (preferred_dexes programs)))))"

record market_view =
  mk_reserveXlm :: number
  mk_reserveSxlm :: number
  mk_totalLpSupply :: number
  mk_spotPrice :: number
  mk_oracle :: oracle_snapshot
  mk_dexes :: "(string \<times> bool) list"

text \<open>The pool and the programs are read together, so the programs are synchronised even if the pool throws.\<close>

definition getMarkets :: "dex_env \<Rightarrow> dex_db \<Rightarrow> dex_db \<times> (js_error + market_view)" where
  "getMarkets ev db =
     (let (db1, programs) = programs_in_db ev db
      in case getCurrentPoolSnapshot ev of
           Inl e \<Rightarrow> (db1, Inl e)
         | Inr snap \<Rightarrow>
             then_call (db1, programs) (\<lambda>rs db1.
             then_call (oracle_in_db 900 ev snap db1) (\<lambda>oracle db2.
               let rewardsEnabled = list_ex (\<lambda>r. lm_status (row_program r) = ''active'') rs
               in (db2, Inr \<lparr>mk_reserveXlm = rawAmountToDisplay (reserveXlmRaw snap),
                    mk_reserveSxlm = rawAmountToDisplay (reserveSxlmRaw snap),
                    mk_totalLpSupply = rawAmountToDisplay (totalLpSupplyRaw snap), mk_spotPrice = computeSpotPrice snap,
                    mk_oracle = oracle,
                    mk_dexes = [(''stellarx'', rewardsEnabled), (''lumenswap'', rewardsEnabled)]\<rparr>))))"

subsection \<open>Life cycle\<close>

record dex_service =
  dex_tables :: dex_db
  dex_refresh :: bool
  dex_initialized :: bool

definition dex_initialize :: "js_error option \<Rightarrow> dex_env \<Rightarrow> dex_service \<Rightarrow> dex_service \<times> (js_error + unit)" where
  "dex_initialize ensureTables ev s =
     (if dex_initialized s then (s, Inr ())
      else case ensureTables of
             Some e \<Rightarrow> (s, Inl e)
           | None \<Rightarrow>
               (case syncLiquidityMiningProgramsFromGovernance (dx_lm ev) (dx_gov ev) (pg_rows (dex_tables s)) of
                  (rs, Some e) \<Rightarrow> (s\<lparr>dex_tables := (dex_tables s)\<lparr>pg_rows := rs\<rparr>\<rparr>, Inl e)
                | (rs, None) \<Rightarrow>
                    (s\<lparr>dex_tables := safeRecordObservation ev ((dex_tables s)\<lparr>pg_rows := rs\<rparr>),
                       dex_refresh := True, dex_initialized := True\<rparr>, Inr ())))"

definition dex_shutdown :: "dex_service \<Rightarrow> dex_service" where
  "dex_shutdown s = s\<lparr>dex_refresh := False, dex_initialized := False\<rparr>"

text \<open>The interval's callback, every minute while the timer is set.\<close>

definition dex_tick :: "dex_env \<Rightarrow> dex_service \<Rightarrow> dex_service" where
  "dex_tick ev s = (if dex_refresh s then s\<lparr>dex_tables := safeRecordObservation ev (dex_tables s)\<rparr> else s)"

subsection \<open>The routes\<close>

definition token_field :: "json option \<Rightarrow> token parsed" where
  "token_field v =
     (case v of
        Some (Api_Gateway.J_str s) \<Rightarrow>
          if s = ''XLM'' then Inr XLM else if s = ''sXLM'' then Inr SXLM else Inl [([], Type_issue)]
      | _ \<Rightarrow> Inl [([], Type_issue)])"

definition coerced_positive :: "json option \<Rightarrow> number parsed" where
  "coerced_positive v = (let n = coerce_number v in if n > 0 then Inr n else Inl [([], Type_issue)])"

text \<open>\<open>z.coerce.number().int().min(lo).max(hi).default(d)\<close>\<close>

definition int_between :: "int \<Rightarrow> int \<Rightarrow> int \<Rightarrow> json option \<Rightarrow> int parsed" where
  "int_between lo hi d v =
     (case v of
        None \<Rightarrow> Inr d
      | Some _ \<Rightarrow>
          (let n = coerce_number v;
               iss = (if js_floor n = n \<and> isFinite n then [] else [([], Type_issue)]) @
                     (if Fin (of_int lo) \<le> n then [] else [([], Type_issue)]) @
                     (if n \<le> Fin (of_int hi) then [] else [([], Type_issue)])
           in if n = NaN then Inl [([], Type_issue)]
              else if iss = [] then Inr (case n of Fin x \<Rightarrow> \<lfloor>x\<rfloor> | _ \<Rightarrow> 0) else Inl iss))"

definition quoteQuerySchema :: "body \<Rightarrow> ((token \<times> number) \<times> int) parsed" where
  "quoteQuerySchema b =
     zod_both (zod_both (zod_field ''tokenIn'' token_field b) (zod_field ''amount'' coerced_positive b))
       (zod_field ''slippageBps'' (int_between 0 5000 50) b)"

definition oracleQuerySchema :: "body \<Rightarrow> int parsed" where
  "oracleQuerySchema b = zod_field ''windowSeconds'' (int_between 60 86400 900) b"

text \<open>A query is parsed, the service called, and whatever it throws answered with status 400.\<close>

definition dex_answer :: "string \<Rightarrow> 'q parsed \<Rightarrow> ('q \<Rightarrow> dex_db \<Rightarrow> dex_db \<times> (js_error + 'a)) \<Rightarrow> dex_db \<Rightarrow> dex_db \<times> 'a reply" where
  "dex_answer dflt q call db =
     (case q of
        Inl iss \<Rightarrow> (db, Inl (400, Issues iss))
      | Inr v \<Rightarrow> (case call v db of (db', Inl e) \<Rightarrow> (db', Inl (400, error_of dflt e)) | (db', Inr a) \<Rightarrow> (db', Inr a)))"

definition oracle_route :: "dex_env \<Rightarrow> body \<Rightarrow> dex_db \<Rightarrow> dex_db \<times> oracle_snapshot reply" where
  "oracle_route ev b = dex_answer ''Failed to load oracle'' (oracleQuerySchema b) (\<lambda>w. getOracleSnapshot w ev)"

definition quote_route :: "dex_env \<Rightarrow> body \<Rightarrow> dex_db \<Rightarrow> dex_db \<times> swap_quote reply" where
  "quote_route ev b = dex_answer ''Failed to build quote'' (quoteQuerySchema b)
     (\<lambda>((t, a), s). getQuote t a (Fin (of_int s)) ev)"

definition routes_route :: "dex_env \<Rightarrow> body \<Rightarrow> dex_db \<Rightarrow> dex_db \<times> (swap_quote \<times> dex_route list) reply" where
  "routes_route ev b = dex_answer ''Failed to build route'' (quoteQuerySchema b)
     (\<lambda>((t, a), s). getRoutes t a (Fin (of_int s)) ev)"

subsection \<open>Observations keep their distance\<close>

datatype dex_call = Ask_quote token number number | Ask_routes token number number | Ask_oracle int | Ask_markets | Refresh

definition run_call :: "dex_env \<Rightarrow> dex_call \<Rightarrow> dex_db \<Rightarrow> dex_db" where
  "run_call ev c db =
     (case c of
        Ask_quote t a s \<Rightarrow> fst (getQuote t a s ev db)
      | Ask_routes t a s \<Rightarrow> fst (getRoutes t a s ev db)
      | Ask_oracle w \<Rightarrow> fst (getOracleSnapshot w ev db)
      | Ask_markets \<Rightarrow> fst (getMarkets ev db)
      | Refresh \<Rightarrow> safeRecordObservation ev db)"

definition run_calls :: "(dex_env \<times> dex_call) list \<Rightarrow> dex_db \<Rightarrow> dex_db" where
  "run_calls cs = fold (\<lambda>(ev, c). run_call ev c) cs"

text \<open>Two neighbouring rows are thirty seconds or a ten-thousandth of price apart.\<close>

definition apart :: "observation \<Rightarrow> observation \<Rightarrow> bool" where
  "apart a b \<longleftrightarrow> observedAt a < observedAt b \<and>
     (30000 \<le> observedAt b - observedAt a \<or> lit (1/10000) \<le> js_abs (spotPrice a - spotPrice b))"

lemma apart_sorted: "successively apart obs \<Longrightarrow> sorted_wrt (\<lambda>a b. observedAt a < observedAt b) obs"
proof -
  assume "successively apart obs"
  then have "successively (\<lambda>a b. observedAt a < observedAt b) obs" by (rule successively_mono) (simp add: apart_def)
  then show ?thesis by (subst (asm) successively_iff_sorted_wrt_strong) auto
qed

lemma latest_row_last:
  assumes "sorted_wrt (\<lambda>a b. observedAt a < observedAt b) obs" "obs \<noteq> []"
  shows "latest_row obs = Some (last obs)"
proof -
  obtain ob rest where srt: "sort_key (\<lambda>r. - observedAt r) obs = ob # rest"
    using assms(2) by (cases "sort_key (\<lambda>r. - observedAt r) obs") (auto dest: arg_cong [of _ _ length])
  have "sorted (map (\<lambda>r. - observedAt r) (ob # rest))" unfolding srt [symmetric] by simp
  then have least: "\<forall>x\<in>set (ob # rest). observedAt x \<le> observedAt ob" by auto
  have same: "set (ob # rest) = set obs" unfolding srt [symmetric] by simp
  have "last obs \<in> set obs" using assms(2) by simp
  then have "observedAt (last obs) \<le> observedAt ob" using least same by blast
  moreover have "ob \<in> set obs" using same by auto
  then have "ob = last obs \<or> observedAt ob < observedAt (last obs)"
    using assms(1) by (induction obs) auto
  ultimately show ?thesis by (auto simp: latest_row_def srt)
qed

lemma record_keeps_distance:
  assumes "successively apart obs" "\<forall>r\<in>set obs. observedAt r < now"
  shows "successively apart (recordObservation now snap obs)"
proof (cases obs rule: rev_cases)
  case (snoc rs r)
  then have "latest_row obs = Some r" using latest_row_last [OF apart_sorted [OF assms(1)]] by simp
  then show ?thesis using assms snoc by (auto simp: recordObservation_def Let_def successively_append_iff apart_def)
qed (simp add: recordObservation_def latest_row_def)

text \<open>Every operation records at most the pool it read, and nothing else touches the observations.\<close>

lemma fst_then_call: "fst (then_call m k) = (case snd m of Inl e \<Rightarrow> fst m | Inr a \<Rightarrow> fst (k a (fst m)))"
  by (auto simp: then_call_def split: prod.split sum.split)

definition recorded :: "dex_env \<Rightarrow> observation list \<Rightarrow> observation list \<Rightarrow> bool" where
  "recorded ev obs obs' \<longleftrightarrow> obs' = obs \<or> (\<exists>snap. obs' = recordObservation (dx_now ev) snap obs)"

lemma record_in_db_recorded: "recorded ev (ob_rows db) (ob_rows (fst (record_in_db ev snap db)))"
  by (auto simp: recorded_def record_in_db_def split: option.split)

lemma oracle_in_db_recorded: "recorded ev (ob_rows db) (ob_rows (fst (oracle_in_db w ev snap db)))"
  using record_in_db_recorded [of ev db snap]
  by (auto simp: oracle_in_db_def fst_then_call split: sum.split)

lemma getQuote_recorded: "recorded ev (ob_rows db) (ob_rows (fst (getQuote t a s ev db)))"
  using record_in_db_recorded [of ev db]
  by (auto simp: getQuote_def fst_then_call recorded_def [of ev "ob_rows db" "ob_rows db"] split: sum.split prod.split)

lemma programs_in_db_rows [simp]: "ob_rows (fst (programs_in_db ev db)) = ob_rows db"
  by (simp add: programs_in_db_def)

lemma run_call_recorded: "recorded ev (ob_rows db) (ob_rows (run_call ev c db))"
proof (cases c)
  case (Ask_quote t a s)
  then show ?thesis by (simp add: run_call_def getQuote_recorded)
next
  case (Ask_routes t a s)
  then show ?thesis using getQuote_recorded [of ev db t a s]
    by (simp add: run_call_def getRoutes_def fst_then_call split: sum.split)
next
  case (Ask_oracle w)
  then show ?thesis using oracle_in_db_recorded
    by (auto simp: run_call_def getOracleSnapshot_def recorded_def [of ev "ob_rows db" "ob_rows db"] split: sum.split)
next
  case Ask_markets
  obtain db1 ps where p: "programs_in_db ev db = (db1, ps)" by fastforce
  then have "ob_rows db1 = ob_rows db" using programs_in_db_rows [of ev db] by simp
  then show ?thesis using Ask_markets oracle_in_db_recorded [of ev db1 900]
    by (auto simp: run_call_def getMarkets_def p fst_then_call recorded_def [of ev "ob_rows db" "ob_rows db"] Let_def
        split: sum.split)
next
  case Refresh
  then show ?thesis using record_in_db_recorded
    by (auto simp: run_call_def safeRecordObservation_def recorded_def [of ev "ob_rows db" "ob_rows db"] split: sum.split)
qed

lemma record_times:
  "r \<in> set (recordObservation now snap obs) \<Longrightarrow> r \<in> set obs \<or> observedAt r = now"
  by (auto simp: recordObservation_def Let_def split: if_splits)


subsection \<open>A simulation that fails\<close>

text \<open>
  A simulation the endpoint refuses is not an error but an empty pool: a refresh more than thirty seconds after the last
  observation records the price one, and every quote is refused for want of liquidity.\<close>

theorem refused_simulation_recorded_as_price_one:
  assumes "dx_reserves ev = Inr (Sim_error msg)" "dx_lp ev = Inr r" "dx_record ev = None"
    "\<forall>ob\<in>set (ob_rows db). observedAt ob + 30000 \<le> dx_now ev"
  shows "ob_rows (safeRecordObservation ev db) = ob_rows db @ [\<lparr>observedAt = dx_now ev, spotPrice = 1\<rparr>] \<and>
    (\<exists>e. snd (getQuote t a s ev db) = Inl e)"
proof
  obtain lp where lp: "queryContractView (dx_lp ev) = Inr lp"
    using assms(2) by (cases r) (simp_all add: queryContractView_def)
  obtain snap where snap: "getCurrentPoolSnapshot ev = Inr snap" "reserveXlmRaw snap = 0" "reserveSxlmRaw snap = 0"
    using assms(1) by (simp add: getCurrentPoolSnapshot_def lp) (simp add: queryContractView_def)
  have "latest_row (ob_rows db) = Some ob \<Longrightarrow> ob \<in> set (ob_rows db)" for ob
    unfolding latest_row_def by (auto split: list.splits) (metis list.set_intros(1) set_sort)
  then have "recordObservation (dx_now ev) snap (ob_rows db) = ob_rows db @ [\<lparr>observedAt = dx_now ev, spotPrice = 1\<rparr>]"
    using assms(4) snap by (force simp: recordObservation_def computeSpotPrice_def split: option.split)
  then show "ob_rows (safeRecordObservation ev db) = ob_rows db @ [\<lparr>observedAt = dx_now ev, spotPrice = 1\<rparr>]"
    using snap(1) assms(3) by (simp add: safeRecordObservation_def record_in_db_def)
  show "\<exists>e. snd (getQuote t a s ev db) = Inl e"
    using snap by (cases "displayAmountToRaw a") (simp_all add: getQuote_def quoteExactIn_def)
qed

subsection \<open>A proposal that stops the service\<close>

lemma sync_stops:
  assumes "g \<in> set gs" "startsWith (gr_paramKey g) program_prefix" "le_json ev (gr_newValue g) = Some js_val.J_null"
  shows "snd (sync_programs ev gs rs) \<noteq> None"
  using assms
proof (induction ev gs rs rule: sync_programs.induct)
  case (2 ev g' gs rs)
  show ?case
  proof (cases "applyLiquidityMiningProposal ev (sync_id g') (gr_paramKey g') (gr_newValue g') rs")
    case (Inr rs')
    then have "g \<noteq> g'" using 2(3,4) by (auto simp: applyLiquidityMiningProposal_def parseLiquidityMiningProgramProposal_def)
    then show ?thesis using 2 Inr by simp
  qed simp
qed simp

lemma sync_stops_service:
  assumes "g \<in> set (dx_gov ev)" "gr_status g = ''executed''" "startsWith (gr_paramKey g) program_prefix"
    "le_json (dx_lm ev) (gr_newValue g) = Some js_val.J_null"
  obtains rs' e where "syncLiquidityMiningProgramsFromGovernance (dx_lm ev) (dx_gov ev) rs = (rs', Some e)"
proof -
  have "g \<in> set (executed_programs (dx_gov ev))" using assms by (simp add: executed_programs_def)
  then have "snd (syncLiquidityMiningProgramsFromGovernance (dx_lm ev) (dx_gov ev) rs) \<noteq> None"
    unfolding syncLiquidityMiningProgramsFromGovernance_def by (rule sync_stops [where g = g]) (fact assms)+
  then show thesis using that by (metis not_Some_eq prod.collapse)
qed

text \<open>
  One executed liquidity-mining proposal whose value is the JSON text \<open>null\<close> stops the service for good: it never
  initialises again, and markets and routes only answer with errors.\<close>

theorem null_proposal_stops_service:
  assumes "g \<in> set (dx_gov ev)" "gr_status g = ''executed''" "startsWith (gr_paramKey g) program_prefix"
    "le_json (dx_lm ev) (gr_newValue g) = Some js_val.J_null"
  shows "(\<not> dex_initialized s \<longrightarrow> \<not> dex_initialized (fst (dex_initialize ens ev s))) \<and>
    isl (snd (getMarkets ev db)) \<and> isl (snd (getRoutes t a sl ev db))"
proof (intro conjI impI)
  assume "\<not> dex_initialized s"
  obtain rs' e where "syncLiquidityMiningProgramsFromGovernance (dx_lm ev) (dx_gov ev) (pg_rows (dex_tables s)) = (rs', Some e)"
    by (rule sync_stops_service [OF assms])
  then show "\<not> dex_initialized (fst (dex_initialize ens ev s))"
    using \<open>\<not> dex_initialized s\<close> by (simp add: dex_initialize_def split: option.split)
next
  have programs: "isl (snd (programs_in_db ev db))" for db
    by (rule sync_stops_service [OF assms, of "pg_rows db"]) (simp add: programs_in_db_def getLiquidityMiningPrograms_def)
  then obtain db1 e where "programs_in_db ev db = (db1, Inl e)" by (metis isl_def prod.collapse)
  then show "isl (snd (getMarkets ev db))" by (simp add: getMarkets_def then_call_def split: sum.split)
  show "isl (snd (getRoutes t a sl ev db))"
  proof (cases "snd (getQuote t a sl ev db)")
    case (Inr q)
    obtain db2 e2 where "programs_in_db ev (fst (getQuote t a sl ev db)) = (db2, Inl e2)"
      using programs [of "fst (getQuote t a sl ev db)"] by (metis isl_def prod.collapse)
    then show ?thesis using Inr by (cases "getQuote t a sl ev db") (simp add: getRoutes_def then_call_def)
  qed (cases "getQuote t a sl ev db", simp add: getRoutes_def then_call_def)
qed

subsection \<open>Concrete runs\<close>

definition demo_dex :: "js_error + (stroops \<times> stroops) sim_reply \<Rightarrow> millis \<Rightarrow> gov_row list \<Rightarrow> dex_env" where
  "demo_dex reserves now gov =
     \<lparr>dx_reserves = reserves, dx_lp = Inr (Sim_success (Some 1000)), dx_now = now, dx_record = None, dx_load = None,
      dx_lm = \<lparr>le_json = (\<lambda>s. if s = ''null'' then Some js_val.J_null else None), le_timestamptz = (\<lambda>_. None),
               le_now = now, le_write = None\<rparr>, dx_gov = gov\<rparr>"

definition demo_dex_db :: dex_db where
  "demo_dex_db = \<lparr>ob_rows = [\<lparr>observedAt = 7, spotPrice = Fin (11/10)\<rparr>], pg_rows = []\<rparr>"


theorem refused_simulation_recorded_as_price_one_witness:
  "ob_rows (safeRecordObservation (demo_dex (Inr (Sim_error ''HostError'')) 40000 []) demo_dex_db) =
     [\<lparr>observedAt = 7, spotPrice = Fin (11/10)\<rparr>, \<lparr>observedAt = 40000, spotPrice = 1\<rparr>]"
  using refused_simulation_recorded_as_price_one [of "demo_dex (Inr (Sim_error ''HostError'')) 40000 []" "''HostError''" _ demo_dex_db]
  by (simp add: demo_dex_def demo_dex_db_def)

theorem null_proposal_stops_service_witness:
  "isl (snd (getMarkets (demo_dex (Inr (Sim_success (Some (1100, 1000)))) 40000
     [\<lparr>gr_id = 1, gr_chainProposalId = Some 3, gr_proposer = ''GA'', gr_paramKey = ''liquidity_mining_program'',
       gr_newValue = ''null'', gr_votesFor = 9, gr_votesAgainst = 1, gr_status = ''executed'', gr_appliedAt = None,
       gr_createdAt = 5, gr_expiresAt = 6\<rparr>]) demo_dex_db))"
  by (rule null_proposal_stops_service [THEN conjunct2, THEN conjunct1])
    (auto simp: demo_dex_def program_prefix_def)

end
