(* ===== verification/Lp_Pool.thy ===== *)
theory Lp_Pool
  imports Lending_Contract Dex_Quote
begin

text \<open>
  Liquidity in the pool contract \<open>contracts/lp-pool/src/lib.rs\<close>: the integer square root, adding and removing
  liquidity, and the rewards of the mining program (the swaps are in \<open>Dex_Quote\<close>). A panic is \<open>None\<close>.
  Token transfers are the amounts returned; storage lifetimes, authorisation and events are left out.
\<close>

subsection \<open>The integer square root\<close>

text \<open>The \<open>while\<close> loop of Newton's method; a zero guess would divide by zero.\<close>

function isqrt_loop :: "int \<Rightarrow> int \<Rightarrow> int \<Rightarrow> int option" where
  "isqrt_loop n x y =
     (if y < x then (if y \<le> 0 then None else isqrt_loop n y ((y + n div y) div 2)) else Some x)"
  by pat_completeness auto
termination by (relation "measure (\<lambda>(n, x, y). nat x)") auto

declare isqrt_loop.simps [simp del]

definition isqrt :: "int \<Rightarrow> int option" where
  "isqrt n = (if n \<le> 0 then Some 0 else Option.bind (add n 1) (\<lambda>s. isqrt_loop n n (s div 2)))"

subsection \<open>State\<close>

record mining =
  mg_rate :: int
  mg_total :: int
  mg_distributed :: int
  mg_start :: int
  mg_end :: int

record lp_pool =
  pl_state :: lp_state
  pl_supply :: int
  pl_lp :: "wallet \<Rightarrow> int"
  pl_program :: "mining option"
  pl_acc :: int
  pl_last :: "int option"
  pl_debt :: "wallet \<Rightarrow> int"
  pl_cumXlm :: int
  pl_cumSxlm :: int
  pl_priceAt :: "int option"

definition PRECISION :: int where "PRECISION = 1000000000000"

definition PRICE_PRECISION :: int where "PRICE_PRECISION = 1000000000000000000"

subsection \<open>Cumulative prices\<close>

text \<open>Both prices, weighted by the time since the last update, before the reserves change.\<close>

definition update_cumulative_price :: "int \<Rightarrow> lp_pool \<Rightarrow> lp_pool option" where
  "update_cumulative_price now p =
     (let rx = lp_xlm (pl_state p); rs = lp_sxlm (pl_state p) in
      if rx \<le> 0 \<or> rs \<le> 0 then Some (p\<lparr>pl_priceAt := Some now\<rparr>)
      else let last = (case pl_priceAt p of Some t \<Rightarrow> t | None \<Rightarrow> now) in
      if now \<le> last then Some p
      else Option.bind (mul rx PRICE_PRECISION) (\<lambda>a. Option.bind (quo a rs) (\<lambda>price_xlm_per_sxlm.
           Option.bind (mul rs PRICE_PRECISION) (\<lambda>b. Option.bind (quo b rx) (\<lambda>price_sxlm_per_xlm.
           Option.bind (mul price_xlm_per_sxlm (now - last)) (\<lambda>dx. Option.bind (add (pl_cumXlm p) dx) (\<lambda>cx.
           Option.bind (mul price_sxlm_per_xlm (now - last)) (\<lambda>ds. Option.bind (add (pl_cumSxlm p) ds) (\<lambda>cs.
           Some (p\<lparr>pl_cumXlm := cx, pl_cumSxlm := cs, pl_priceAt := Some now\<rparr>))))))))))"

subsection \<open>Rewards\<close>

text \<open>What the window since the last update adds: the end of the window and the reward, if there is one.\<close>

definition last_time :: "mining \<Rightarrow> lp_pool \<Rightarrow> int" where
  "last_time m p = (case pl_last p of Some l \<Rightarrow> l | None \<Rightarrow> mg_start m)"

definition window_reward :: "mining \<Rightarrow> int \<Rightarrow> int option" where
  "window_reward m elapsed =
     Option.bind (mul (mg_rate m) elapsed) (\<lambda>raw.
       Some (if raw > mg_total m - mg_distributed m then mg_total m - mg_distributed m else raw))"

definition update_pool :: "int \<Rightarrow> lp_pool \<Rightarrow> lp_pool option" where
  "update_pool now p =
     (case pl_program p of
        None \<Rightarrow> Some p
      | Some m \<Rightarrow>
          let last = last_time m p in
          if now \<le> last \<or> last \<ge> mg_end m then Some p
          else let effective_now = (if now > mg_end m then mg_end m else now) in
          if pl_supply p = 0 then Some (p\<lparr>pl_last := Some effective_now\<rparr>)
          else Option.bind (window_reward m (effective_now - last)) (\<lambda>reward.
          if reward \<le> 0 then Some (p\<lparr>pl_last := Some effective_now\<rparr>)
          else Option.bind (mul reward PRECISION) (\<lambda>x. Option.bind (quo x (pl_supply p)) (\<lambda>d.
               Option.bind (add (pl_acc p) d) (\<lambda>acc.
               Some (p\<lparr>pl_acc := acc, pl_last := Some effective_now,
                       pl_program := Some (m\<lparr>mg_distributed := mg_distributed m + reward\<rparr>)\<rparr>))))))"

text \<open>The same, for the views: nothing is written.\<close>

definition projected_acc :: "int \<Rightarrow> lp_pool \<Rightarrow> int option" where
  "projected_acc now p =
     (case pl_program p of
        None \<Rightarrow> Some (pl_acc p)
      | Some m \<Rightarrow>
          let last = last_time m p in
          if now \<le> last \<or> last \<ge> mg_end m then Some (pl_acc p)
          else let effective_now = (if now > mg_end m then mg_end m else now) in
          if pl_supply p = 0 then Some (pl_acc p)
          else Option.bind (window_reward m (effective_now - last)) (\<lambda>reward.
          if reward \<le> 0 then Some (pl_acc p)
          else Option.bind (mul reward PRECISION) (\<lambda>x. Option.bind (quo x (pl_supply p)) (\<lambda>d. add (pl_acc p) d))))"

definition accrued :: "int \<Rightarrow> int \<Rightarrow> int option" where
  "accrued lp acc = Option.bind (mul lp acc) (\<lambda>x. quo x PRECISION)"

definition pending_rewards :: "int \<Rightarrow> wallet \<Rightarrow> lp_pool \<Rightarrow> int option" where
  "pending_rewards now u p =
     (if pl_lp p u = 0 then Some 0
      else Option.bind (projected_acc now p) (\<lambda>acc. Option.bind (accrued (pl_lp p u) acc) (\<lambda>a.
           Some (if a - pl_debt p u < 0 then 0 else a - pl_debt p u))))"

definition claim_rewards :: "int \<Rightarrow> wallet \<Rightarrow> lp_pool \<Rightarrow> (int \<times> lp_pool) option" where
  "claim_rewards now u p =
     Option.bind (update_pool now p) (\<lambda>p1.
     let lp = pl_lp p1 u in
     Option.bind (accrued lp (pl_acc p1)) (\<lambda>a.
     let earned = (if lp > 0 then a - pl_debt p1 u else 0);
         settled = p1\<lparr>pl_debt := (pl_debt p1)(u := a)\<rparr> in
     if earned \<le> 0 then Some (0, settled)
     else Option.bind (assert_that (pl_program p1 \<noteq> None)) (\<lambda>_. Some (earned, settled))))"

definition set_mining_program :: "int \<Rightarrow> int \<Rightarrow> int \<Rightarrow> int \<Rightarrow> int \<Rightarrow> lp_pool \<Rightarrow> lp_pool option" where
  "set_mining_program now rate tot start_time end_time p =
     Option.bind (assert_that (end_time > start_time \<and> rate > 0 \<and> tot > 0)) (\<lambda>_.
     Option.bind (update_pool now p) (\<lambda>p1.
     Some (p1\<lparr>pl_program := Some \<lparr>mg_rate = rate, mg_total = tot, mg_distributed = 0, mg_start = start_time,
                                   mg_end = end_time\<rparr>,
              pl_last := Some start_time, pl_acc := 0\<rparr>)))"

subsection \<open>Adding and removing liquidity\<close>

text \<open>What is taken of the two amounts, and the shares minted for it.\<close>

definition deposit_shares :: "int \<Rightarrow> int \<Rightarrow> lp_pool \<Rightarrow> (int \<times> int \<times> int) option" where
  "deposit_shares xlm_amount sxlm_amount p =
     (let reserve_xlm = lp_xlm (pl_state p); reserve_sxlm = lp_sxlm (pl_state p); total_lp = pl_supply p in
      if total_lp = 0
      then Option.bind (mul xlm_amount sxlm_amount) (\<lambda>n. Option.bind (isqrt n) (\<lambda>r. Some (xlm_amount, sxlm_amount, r)))
      else Option.bind (mul xlm_amount total_lp) (\<lambda>a. Option.bind (quo a reserve_xlm) (\<lambda>lp_from_xlm.
           Option.bind (mul sxlm_amount total_lp) (\<lambda>b. Option.bind (quo b reserve_sxlm) (\<lambda>lp_from_sxlm.
           if lp_from_xlm < lp_from_sxlm
           then Option.bind (mul lp_from_xlm reserve_sxlm) (\<lambda>c. Option.bind (quo c total_lp) (\<lambda>needed_sxlm.
                Some (xlm_amount, needed_sxlm, lp_from_xlm)))
           else Option.bind (mul lp_from_sxlm reserve_xlm) (\<lambda>c. Option.bind (quo c total_lp) (\<lambda>needed_xlm.
                Some (needed_xlm, sxlm_amount, lp_from_sxlm))))))))"

definition add_liquidity :: "int \<Rightarrow> wallet \<Rightarrow> int \<Rightarrow> int \<Rightarrow> lp_pool \<Rightarrow> ((int \<times> int \<times> int) \<times> lp_pool) option" where
  "add_liquidity now u xlm_amount sxlm_amount p =
     Option.bind (assert_that (xlm_amount > 0 \<and> sxlm_amount > 0)) (\<lambda>_.
     Option.bind (update_cumulative_price now p) (\<lambda>p0.
     Option.bind (update_pool now p0) (\<lambda>p1.
     Option.bind (deposit_shares xlm_amount sxlm_amount p1) (\<lambda>(actual_xlm, actual_sxlm, lp_minted).
     Option.bind (assert_that (lp_minted > 0 \<and> actual_xlm > 0 \<and> actual_sxlm > 0)) (\<lambda>_.
     Option.bind (add (lp_xlm (pl_state p1)) actual_xlm) (\<lambda>rx.
     Option.bind (add (lp_sxlm (pl_state p1)) actual_sxlm) (\<lambda>rs.
     Option.bind (add (pl_supply p1) lp_minted) (\<lambda>sup.
     Option.bind (add (pl_lp p1 u) lp_minted) (\<lambda>new_lp.
     Option.bind (accrued new_lp (pl_acc p1)) (\<lambda>debt.
     Some ((actual_xlm, actual_sxlm, lp_minted),
           p1\<lparr>pl_state := (pl_state p1)\<lparr>lp_xlm := rx, lp_sxlm := rs\<rparr>, pl_supply := sup,
              pl_lp := (pl_lp p1)(u := new_lp), pl_debt := (pl_debt p1)(u := debt)\<rparr>)))))))))))"

text \<open>The amounts paid out and the rewards claimed with them, if there is a program to pay them.\<close>

definition remove_liquidity :: "int \<Rightarrow> wallet \<Rightarrow> int \<Rightarrow> lp_pool \<Rightarrow> ((int \<times> int \<times> int) \<times> lp_pool) option" where
  "remove_liquidity now u lp_amount p =
     Option.bind (assert_that (lp_amount > 0)) (\<lambda>_.
     Option.bind (update_cumulative_price now p) (\<lambda>p0.
     Option.bind (update_pool now p0) (\<lambda>p1.
     Option.bind (assert_that (pl_lp p1 u \<ge> lp_amount)) (\<lambda>_.
     Option.bind (accrued (pl_lp p1 u) (pl_acc p1)) (\<lambda>a.
     let earned = a - pl_debt p1 u; paid = (if earned > 0 \<and> pl_program p1 \<noteq> None then earned else 0) in
     Option.bind (mul lp_amount (lp_xlm (pl_state p1))) (\<lambda>b. Option.bind (quo b (pl_supply p1)) (\<lambda>xlm_out.
     Option.bind (mul lp_amount (lp_sxlm (pl_state p1))) (\<lambda>c. Option.bind (quo c (pl_supply p1)) (\<lambda>sxlm_out.
     Option.bind (assert_that (xlm_out > 0 \<and> sxlm_out > 0)) (\<lambda>_.
     let new_lp = pl_lp p1 u - lp_amount in
     Option.bind (accrued new_lp (pl_acc p1)) (\<lambda>debt.
     Some ((xlm_out, sxlm_out, paid),
           p1\<lparr>pl_state := (pl_state p1)\<lparr>lp_xlm := lp_xlm (pl_state p1) - xlm_out, lp_sxlm := lp_sxlm (pl_state p1) - sxlm_out\<rparr>,
              pl_supply := pl_supply p1 - lp_amount,
              pl_lp := (pl_lp p1)(u := new_lp), pl_debt := (pl_debt p1)(u := debt)\<rparr>))))))))))))"

subsection \<open>The square root is right\<close>

lemma newton_above:
  fixes n x :: int
  assumes "0 < x" "0 \<le> n"
  shows "n < ((x + n div x) div 2 + 1) ^ 2"
proof -
  let ?q = "n div x" and ?y = "(x + n div x) div 2"
  have "n = x * ?q + n mod x" by simp
  then have "n < x * (?q + 1)" using pos_mod_bound [OF assms(1), of n] by (simp only: distrib_left mult_1_right)
  moreover have "4 * (x * (?q + 1)) \<le> (x + (?q + 1)) ^ 2"
    using zero_le_power2 [of "x - (?q + 1)"] by (simp add: power2_eq_square algebra_simps)
  moreover have "x + (?q + 1) \<le> 2 * (?y + 1)" by simp
  moreover have "0 \<le> ?q" using assms by (simp add: pos_imp_zdiv_nonneg_iff)
  ultimately have "4 * n < (2 * (?y + 1)) ^ 2"
    using power_mono [of "x + (?q + 1)" "2 * (?y + 1)" 2] assms(1) by linarith
  then show ?thesis by (simp only: power_mult_distrib) simp
qed

lemma isqrt_loop_correct:
  assumes "0 < n" "0 < x" "n < (x + 1) ^ 2" "y = (x + n div x) div 2"
  shows "\<exists>r. isqrt_loop n x y = Some r \<and> 0 < r \<and> r * r \<le> n \<and> n < (r + 1) ^ 2"
  using assms
proof (induction n x y rule: isqrt_loop.induct)
  case (1 n x y)
  have up: "n < (y + 1) ^ 2" using newton_above [of x n] "1.prems" by simp
  have q: "0 \<le> n div x" using "1.prems" by (simp add: pos_imp_zdiv_nonneg_iff)
  show ?case
  proof (cases "y < x")
    case True
    have "0 < y"
    proof (rule ccontr)
      assume "\<not> 0 < y"
      then have "y = 0" using q "1.prems" by (simp add: pos_imp_zdiv_nonneg_iff)
      then show False using up "1.prems"(1) by simp
    qed
    then have "\<exists>r. isqrt_loop n y ((y + n div y) div 2) = Some r \<and> 0 < r \<and> r * r \<le> n \<and> n < (r + 1) ^ 2"
      using "1.IH" [OF True] "1.prems"(1) up by simp
    then show ?thesis using True \<open>0 < y\<close> by (simp add: isqrt_loop.simps [of n x y])
  next
    case False
    then have "x \<le> n div x" using "1.prems"(4) by linarith
    then have "x * x \<le> x * (n div x)" using "1.prems"(2) by simp
    also have "\<dots> \<le> n" using mult_div_mod_eq [of x n] pos_mod_sign [OF "1.prems"(2), of n] by linarith
    finally have "x * x \<le> n" .
    moreover have "isqrt_loop n x y = Some x" using False by (simp add: isqrt_loop.simps [of n x y])
    ultimately show ?thesis using "1.prems" by blast
  qed
qed

text \<open>
  C26. The square root returns on every product of amounts the contract can form, and is the integer square
  root of it.\<close>

theorem isqrt_is_integer_square_root:
  assumes "0 \<le> n" "n < I128_MAX"
  shows "\<exists>r. isqrt n = Some r \<and> 0 \<le> r \<and> r * r \<le> n \<and> n < (r + 1) ^ 2"
proof (cases "n = 0")
  case False
  then have n: "0 < n" using assms(1) by simp
  have "add n 1 = Some (n + 1)" using assms n by (simp add: add_def i128_def I128_MAX_def)
  moreover have "n < (n + 1) ^ 2" using n mult_strict_mono [of 1 "n + 1" n "n + 1"] by (simp add: power2_eq_square)
  moreover have "(n + 1) div 2 = (n + n div n) div 2" using n by simp
  ultimately show ?thesis using isqrt_loop_correct [OF n n] n by (auto simp: isqrt_def)
qed (simp add: isqrt_def)

theorem isqrt_is_integer_square_root_witness:
  "\<exists>r. isqrt 30000000000 = Some r \<and> r * r \<le> 30000000000 \<and> 30000000000 < (r + 1) ^ 2"
  using isqrt_is_integer_square_root [of 30000000000] by (auto simp: I128_MAX_def)

subsection \<open>The view of the pending rewards\<close>

lemma update_pool_did:
  assumes "update_pool now p = Some p'"
  shows "projected_acc now p = Some (pl_acc p')" and
    "pl_state p' = pl_state p \<and> pl_supply p' = pl_supply p \<and> pl_lp p' = pl_lp p \<and> pl_debt p' = pl_debt p \<and>
     (pl_program p' = None \<longleftrightarrow> pl_program p = None)"
proof -
  have both: "projected_acc now p = Some (pl_acc p') \<and>
    pl_state p' = pl_state p \<and> pl_supply p' = pl_supply p \<and> pl_lp p' = pl_lp p \<and> pl_debt p' = pl_debt p \<and>
     (pl_program p' = None \<longleftrightarrow> pl_program p = None)"
  proof (cases "pl_program p")
    case (Some m)
    let ?e = "if now > mg_end m then mg_end m else now"
    show ?thesis
    proof (cases "now \<le> last_time m p \<or> mg_end m \<le> last_time m p \<or> pl_supply p = 0")
      case True
      then show ?thesis using assms Some unfolding update_pool_def projected_acc_def by (auto simp: Let_def)
    next
      case False
      then obtain r where "window_reward m (?e - last_time m p) = Some r"
        using assms Some unfolding update_pool_def by (auto simp: Let_def bind_eq_Some_conv)
      then show ?thesis using assms Some False unfolding update_pool_def projected_acc_def
        by (cases "r \<le> 0") (auto simp: Let_def bind_eq_Some_conv)
    qed
  qed (use assms in \<open>auto simp: update_pool_def projected_acc_def\<close>)
  then show "projected_acc now p = Some (pl_acc p')" and
    "pl_state p' = pl_state p \<and> pl_supply p' = pl_supply p \<and> pl_lp p' = pl_lp p \<and> pl_debt p' = pl_debt p \<and>
     (pl_program p' = None \<longleftrightarrow> pl_program p = None)" by blast+
qed

text \<open>
  The view of the pending rewards shows what a claim at the same time pays, on every branch: it projects exactly the
  accumulator the claim writes.\<close>

theorem pending_view_matches_claim:
  assumes "claim_rewards now u p = Some (paid, p')" "0 \<le> pl_lp p u" "pl_lp p u = 0 \<longrightarrow> 0 \<le> pl_debt p u"
  shows "pending_rewards now u p = Some paid"
proof -
  obtain p1 a where up: "update_pool now p = Some p1" and a: "accrued (pl_lp p1 u) (pl_acc p1) = Some a"
    and paid: "paid = (if (if pl_lp p1 u > 0 then a - pl_debt p1 u else 0) \<le> 0 then 0 else a - pl_debt p1 u)"
    using assms(1) by (auto simp: claim_rewards_def Let_def bind_eq_Some_conv split: if_splits)
  show ?thesis
    using a assms(2,3) update_pool_did [OF up]
    by (auto simp: pending_rewards_def paid)
qed

subsection \<open>What an operation did\<close>

lemma update_cumulative_price_did:
  assumes "update_cumulative_price now p = Some p0"
  obtains cx cs t where "p0 = p\<lparr>pl_cumXlm := cx, pl_cumSxlm := cs, pl_priceAt := t\<rparr>"
proof -
  have "\<exists>cx cs t. p0 = p\<lparr>pl_cumXlm := cx, pl_cumSxlm := cs, pl_priceAt := t\<rparr>"
  proof (cases "p0 = p")
    case True
    then have "p0 = p\<lparr>pl_cumXlm := pl_cumXlm p, pl_cumSxlm := pl_cumSxlm p, pl_priceAt := pl_priceAt p\<rparr>" by simp
    then show ?thesis by blast
  next
    case False
    then obtain cx cs where "p0 = p\<lparr>pl_priceAt := Some now\<rparr> \<or> p0 = p\<lparr>pl_cumXlm := cx, pl_cumSxlm := cs, pl_priceAt := Some now\<rparr>"
      using assms by (auto simp: update_cumulative_price_def Let_def bind_eq_Some_conv split: if_splits)
    moreover have "p\<lparr>pl_priceAt := Some now\<rparr> = p\<lparr>pl_cumXlm := pl_cumXlm p, pl_cumSxlm := pl_cumSxlm p, pl_priceAt := Some now\<rparr>"
      by simp
    ultimately show ?thesis by metis
  qed
  then show thesis using that by blast
qed

lemma update_pool_prices:
  "update_pool now (p\<lparr>pl_cumXlm := cx, pl_cumSxlm := cs, pl_priceAt := t\<rparr>) =
     map_option (\<lambda>q. q\<lparr>pl_cumXlm := cx, pl_cumSxlm := cs, pl_priceAt := t\<rparr>) (update_pool now p)"
proof -
  have l: "last_time m (p\<lparr>pl_cumXlm := cx, pl_cumSxlm := cs, pl_priceAt := t\<rparr>) = last_time m p" for m by (simp add: last_time_def)
  show ?thesis
    by (simp add: update_pool_def l Let_def split: option.split Option.bind_split)
qed

text \<open>The two updates an operation on the pool starts with.\<close>

lemma updates_did:
  assumes "update_cumulative_price now p = Some p0" "update_pool now p0 = Some p1"
  obtains q cx cs t where "update_pool now p = Some q" "p1 = q\<lparr>pl_cumXlm := cx, pl_cumSxlm := cs, pl_priceAt := t\<rparr>"
  by (rule update_cumulative_price_did [OF assms(1)]) (use assms(2) that in \<open>auto simp: update_pool_prices\<close>)

lemma deposit_shares_prices [simp]:
  "deposit_shares x s (p\<lparr>pl_cumXlm := cx, pl_cumSxlm := cs, pl_priceAt := t\<rparr>) = deposit_shares x s p"
  by (simp add: deposit_shares_def)

lemma deposit_shares_did:
  assumes "deposit_shares x s p = Some (ax, as, lp)" "0 < x" "0 < s"
  shows "pl_supply p = 0 \<Longrightarrow> ax = x \<and> as = s \<and> isqrt (x * s) = Some lp"
    and "0 < pl_supply p \<Longrightarrow> 0 < lp_xlm (pl_state p) \<Longrightarrow> 0 < lp_sxlm (pl_state p) \<Longrightarrow>
      lp = min (x * pl_supply p div lp_xlm (pl_state p)) (s * pl_supply p div lp_sxlm (pl_state p)) \<and>
      (ax = x \<and> as = lp * lp_sxlm (pl_state p) div pl_supply p \<or> as = s \<and> ax = lp * lp_xlm (pl_state p) div pl_supply p)"
  using assms
  by (auto simp: deposit_shares_def Let_def bind_eq_Some_conv bdiv_nonneg pos_imp_zdiv_nonneg_iff dest!: checked_SomeD
      split: if_splits)

lemma add_did:
  assumes "add_liquidity now u x s p = Some ((ax, as, lp), p')"
  obtains p1 where "0 < x" "0 < s" "0 < lp" "0 < ax" "0 < as" "update_pool now p = Some p1"
    "deposit_shares x s p1 = Some (ax, as, lp)"
    "lp_xlm (pl_state p') = lp_xlm (pl_state p) + ax" "lp_sxlm (pl_state p') = lp_sxlm (pl_state p) + as"
    "lp_fee_bps (pl_state p') = lp_fee_bps (pl_state p)" "lp_protocol_fee_bps (pl_state p') = lp_protocol_fee_bps (pl_state p)"
    "pl_supply p' = pl_supply p + lp" "pl_lp p' = (pl_lp p)(u := pl_lp p u + lp)"
    "pl_acc p' = pl_acc p1" "pl_program p' = pl_program p1" "pl_last p' = pl_last p1"
    "\<exists>d. accrued (pl_lp p' u) (pl_acc p') = Some d \<and> pl_debt p' u = d"
proof -
  obtain p0 p1 rx rs sup new debt where ups: "update_cumulative_price now p = Some p0" "update_pool now p0 = Some p1"
    and d: "deposit_shares x s p1 = Some (ax, as, lp)" "0 < x" "0 < s" "0 < lp" "0 < ax" "0 < as"
    and n: "add (lp_xlm (pl_state p1)) ax = Some rx" "add (lp_sxlm (pl_state p1)) as = Some rs"
      "add (pl_supply p1) lp = Some sup" "add (pl_lp p1 u) lp = Some new" "accrued new (pl_acc p1) = Some debt"
    and p': "p' = p1\<lparr>pl_state := (pl_state p1)\<lparr>lp_xlm := rx, lp_sxlm := rs\<rparr>, pl_supply := sup,
              pl_lp := (pl_lp p1)(u := new), pl_debt := (pl_debt p1)(u := debt)\<rparr>"
    using assms by (auto simp: add_liquidity_def bind_eq_Some_conv)
  have e: "rx = lp_xlm (pl_state p1) + ax" "rs = lp_sxlm (pl_state p1) + as" "sup = pl_supply p1 + lp" "new = pl_lp p1 u + lp"
    using n checked_SomeD(2) by blast+
  obtain q cx cs t where up: "update_pool now p = Some q" and q: "p1 = q\<lparr>pl_cumXlm := cx, pl_cumSxlm := cs, pl_priceAt := t\<rparr>"
    using ups by (rule updates_did)
  show thesis using d n(5) update_pool_did(2) [OF up] by (intro that [OF _ _ _ _ _ up]) (simp_all add: p' e q)
qed

lemma remove_did:
  assumes "remove_liquidity now u lp p = Some ((xo, so, paid), p')"
  obtains p1 a where "0 < lp" "update_pool now p = Some p1" "lp \<le> pl_lp p u" "pl_supply p \<noteq> 0"
    "xo = bdiv (lp * lp_xlm (pl_state p)) (pl_supply p)" "so = bdiv (lp * lp_sxlm (pl_state p)) (pl_supply p)" "0 < xo" "0 < so"
    "lp_xlm (pl_state p') = lp_xlm (pl_state p) - xo" "lp_sxlm (pl_state p') = lp_sxlm (pl_state p) - so"
    "lp_fee_bps (pl_state p') = lp_fee_bps (pl_state p)" "lp_protocol_fee_bps (pl_state p') = lp_protocol_fee_bps (pl_state p)"
    "pl_supply p' = pl_supply p - lp" "pl_lp p' = (pl_lp p)(u := pl_lp p u - lp)"
    "accrued (pl_lp p u) (pl_acc p1) = Some a"
    "paid = (if 0 < a - pl_debt p u \<and> pl_program p \<noteq> None then a - pl_debt p u else 0)"
proof -
  obtain p0 p1 a b c debt where ups: "update_cumulative_price now p = Some p0" "update_pool now p0 = Some p1" and lp: "0 < lp" "lp \<le> pl_lp p1 u"
    and a: "accrued (pl_lp p1 u) (pl_acc p1) = Some a"
    and n: "mul lp (lp_xlm (pl_state p1)) = Some b" "quo b (pl_supply p1) = Some xo"
      "mul lp (lp_sxlm (pl_state p1)) = Some c" "quo c (pl_supply p1) = Some so" "0 < xo" "0 < so"
    and p': "p' = p1\<lparr>pl_state := (pl_state p1)\<lparr>lp_xlm := lp_xlm (pl_state p1) - xo, lp_sxlm := lp_sxlm (pl_state p1) - so\<rparr>,
              pl_supply := pl_supply p1 - lp,
              pl_lp := (pl_lp p1)(u := pl_lp p1 u - lp), pl_debt := (pl_debt p1)(u := debt)\<rparr>"
    and paid: "paid = (if 0 < a - pl_debt p1 u \<and> pl_program p1 \<noteq> None then a - pl_debt p1 u else 0)"
    using assms by (auto simp: remove_liquidity_def Let_def bind_eq_Some_conv)
  have e: "xo = bdiv (lp * lp_xlm (pl_state p1)) (pl_supply p1)" "so = bdiv (lp * lp_sxlm (pl_state p1)) (pl_supply p1)"
    "pl_supply p1 \<noteq> 0"
    using n checked_SomeD by blast+
  obtain q cx cs t where up: "update_pool now p = Some q" and q: "p1 = q\<lparr>pl_cumXlm := cx, pl_cumSxlm := cs, pl_priceAt := t\<rparr>"
    using ups by (rule updates_did)
  show thesis
    using lp e n(5,6) a paid update_pool_did(2) [OF up] by (intro that [OF _ up, of a]) (simp_all add: p' q del: diff_gt_0_iff_gt)
qed

lemma swap_out_did:
  assumes "swap_out rin rout amt fee m = Some q" "0 \<le> fee" "fee \<le> 10000"
  shows "0 < amt" "0 < rin" "0 < q" "q < rout" "0 \<le> after_fee amt fee" "after_fee amt fee \<le> amt"
proof -
  show "0 < amt" "0 < rin" "0 < q" "q < rout"
    using assms(1) by (auto simp: swap_out_def Let_def split: option.splits if_splits)
  then have prod: "0 \<le> amt * (10000 - fee)" "amt * (10000 - fee) \<le> amt * 10000"
    using assms(2,3) by (auto intro: mult_left_mono)
  then have a: "after_fee amt fee = amt * (10000 - fee) div 10000" by (simp add: after_fee_def bdiv_nonneg)
  then show "0 \<le> after_fee amt fee" using prod(1) by (simp add: pos_imp_zdiv_nonneg_iff)
  show "after_fee amt fee \<le> amt" using zdiv_mono1 [OF prod(2), of 10000] by (simp add: a)
qed

lemma share_of_fee: "0 \<le> t \<Longrightarrow> 0 \<le> pf \<Longrightarrow> pf \<le> f \<Longrightarrow> 0 < f \<Longrightarrow> 0 \<le> t * pf div f \<and> t * pf div f \<le> (t :: int)"
proof -
  assume h: "0 \<le> t" "0 \<le> pf" "pf \<le> f" "0 < f"
  then have "t * pf \<le> t * f" by (intro mult_left_mono)
  then have "t * pf div f \<le> t * f div f" using h by (intro zdiv_mono1)
  then show ?thesis using h by (simp add: pos_imp_zdiv_nonneg_iff)
qed

lemma swap_did:
  assumes "swap_xlm_to_sxlm st amt m = Some (q, st') \<or> swap_sxlm_to_xlm st amt m = Some (q, st')"
    "0 \<le> lp_fee_bps st" "lp_fee_bps st \<le> 10000" "0 \<le> lp_protocol_fee_bps st" "lp_protocol_fee_bps st \<le> lp_fee_bps st"
  shows "0 < lp_xlm st \<and> 0 < lp_sxlm st \<and> 0 < lp_xlm st' \<and> 0 < lp_sxlm st' \<and> lp_fee_bps st' = lp_fee_bps st \<and>
    lp_protocol_fee_bps st' = lp_protocol_fee_bps st"
  using assms(1)
proof
  assume run: "swap_xlm_to_sxlm st amt m = Some (q, st')"
  then have q: "swap_out (lp_xlm st) (lp_sxlm st) amt (lp_fee_bps st) m = Some q"
    by (auto simp: swap_xlm_to_sxlm_def Let_def split: option.splits)
  let ?t = "amt - after_fee amt (lp_fee_bps st)"
  note so = swap_out_did [OF q assms(2,3)]
  have t: "0 \<le> ?t" "?t \<le> amt" using so by simp_all
  from run q obtain pcut where c: "checked_mul_div ?t (lp_protocol_fee_bps st) (lp_fee_bps st) = Some pcut"
    and st': "st' = st\<lparr>lp_xlm := lp_xlm st + amt - pcut, lp_sxlm := lp_sxlm st - q, lp_accrued := lp_accrued st + pcut\<rparr>"
    by (auto simp: swap_xlm_to_sxlm_def Let_def after_fee_def split: option.splits)
  have "0 < lp_fee_bps st" "pcut = bdiv (?t * lp_protocol_fee_bps st) (lp_fee_bps st)"
    using c assms(2) by (auto simp: checked_mul_div_def dest!: i128_SomeD split: option.splits if_splits)
  then have "pcut \<le> ?t" using share_of_fee [OF t(1) assms(4,5)] t(1) assms(4) by (simp add: bdiv_nonneg)
  then show ?thesis using so t by (simp add: st')
next
  assume run: "swap_sxlm_to_xlm st amt m = Some (q, st')"
  then have q: "swap_out (lp_sxlm st) (lp_xlm st) amt (lp_fee_bps st) m = Some q"
    and "st' = st\<lparr>lp_sxlm := lp_sxlm st + amt, lp_xlm := lp_xlm st - q\<rparr>"
    by (auto simp: swap_sxlm_to_xlm_def split: option.splits)
  then show ?thesis using swap_out_did [OF q assms(2,3)] by simp
qed

subsection \<open>The pool's books\<close>

text \<open>One transaction of a user in \<open>U\<close>, at any time.\<close>

inductive lp_step :: "wallet set \<Rightarrow> lp_pool \<Rightarrow> lp_pool \<Rightarrow> bool" for U where
  Add: "u \<in> U \<Longrightarrow> add_liquidity now u x s p = Some (r, p') \<Longrightarrow> lp_step U p p'"
| Remove: "u \<in> U \<Longrightarrow> remove_liquidity now u n p = Some (r, p') \<Longrightarrow> lp_step U p p'"
| Claim: "claim_rewards now u p = Some (n, p') \<Longrightarrow> lp_step U p p'"
| Program: "set_mining_program now rate tot a b p = Some p' \<Longrightarrow> lp_step U p p'"
| Swap: "update_cumulative_price now p = Some p0 \<Longrightarrow>
    swap_xlm_to_sxlm (pl_state p0) n m = Some (q, st) \<or> swap_sxlm_to_xlm (pl_state p0) n m = Some (q, st) \<Longrightarrow>
    lp_step U p (p0\<lparr>pl_state := st\<rparr>)"

definition pool_ok :: "wallet set \<Rightarrow> lp_pool \<Rightarrow> bool" where
  "pool_ok U p \<longleftrightarrow> finite U \<and> (\<forall>u. 0 \<le> pl_lp p u) \<and> pl_supply p = sum (pl_lp p) U \<and>
     (if pl_supply p = 0 then lp_xlm (pl_state p) = 0 \<and> lp_sxlm (pl_state p) = 0
      else 0 < lp_xlm (pl_state p) \<and> 0 < lp_sxlm (pl_state p)) \<and>
     0 \<le> lp_fee_bps (pl_state p) \<and> lp_fee_bps (pl_state p) \<le> 10000 \<and>
     0 \<le> lp_protocol_fee_bps (pl_state p) \<and> lp_protocol_fee_bps (pl_state p) \<le> lp_fee_bps (pl_state p)"

lemma pool_ok_frame:
  "pl_state p' = pl_state p \<Longrightarrow> pl_supply p' = pl_supply p \<Longrightarrow> pl_lp p' = pl_lp p \<Longrightarrow> pool_ok U p \<Longrightarrow> pool_ok U p'"
  by (simp add: pool_ok_def)

lemma share_below: "0 < n \<Longrightarrow> n < l \<Longrightarrow> 0 < r \<Longrightarrow> n * r div l < (r :: int)"
proof -
  assume h: "0 < n" "n < l" "0 < r"
  then have "n * r < l * r" by (intro mult_strict_right_mono)
  moreover have "l * (n * r div l) \<le> n * r" using mult_div_mod_eq [of l "n * r"] pos_mod_sign [of l "n * r"] h by linarith
  ultimately have "l * (n * r div l) < l * r" by linarith
  then show ?thesis using h by (simp add: mult_less_cancel_left_pos)
qed

lemma pool_ok_supply: "pool_ok U p \<Longrightarrow> u \<in> U \<Longrightarrow> 0 \<le> pl_supply p \<and> pl_lp p u \<le> pl_supply p"
  by (auto simp: pool_ok_def sum_nonneg intro: member_le_sum)

lemma remove_ok:
  assumes "pool_ok U p" "u \<in> U" "remove_liquidity now u n p = Some ((xo, so, paid), p')"
  shows "pool_ok U p'"
  using assms(3)
proof (rule remove_did)
  note pos = pool_ok_supply [OF assms(1,2)]
  assume h: "0 < n" "n \<le> pl_lp p u" "pl_supply p \<noteq> 0"
    "xo = bdiv (n * lp_xlm (pl_state p)) (pl_supply p)" "so = bdiv (n * lp_sxlm (pl_state p)) (pl_supply p)"
    "lp_xlm (pl_state p') = lp_xlm (pl_state p) - xo" "lp_sxlm (pl_state p') = lp_sxlm (pl_state p) - so"
    "lp_fee_bps (pl_state p') = lp_fee_bps (pl_state p)" "lp_protocol_fee_bps (pl_state p') = lp_protocol_fee_bps (pl_state p)"
    "pl_supply p' = pl_supply p - n" "pl_lp p' = (pl_lp p)(u := pl_lp p u - n)"
  have r: "0 < lp_xlm (pl_state p)" "0 < lp_sxlm (pl_state p)" using assms(1) h(3) by (simp_all add: pool_ok_def)
  then have o: "xo = n * lp_xlm (pl_state p) div pl_supply p" "so = n * lp_sxlm (pl_state p) div pl_supply p"
    using h pos by (simp_all add: bdiv_nonneg)
  show ?thesis
  proof (cases "n = pl_supply p")
    case True
    then show ?thesis using assms(1,2) h o by (auto simp: pool_ok_def sum_update)
  next
    case False
    then have "n < pl_supply p" using h(2) pos by simp
    then have "xo < lp_xlm (pl_state p)" "so < lp_sxlm (pl_state p)" using h(1) r by (simp_all add: o share_below)
    then show ?thesis using assms(1,2) h(1,2,3,6-) \<open>n < pl_supply p\<close> by (auto simp: pool_ok_def sum_update)
  qed
qed

lemma lp_step_ok:
  assumes "lp_step U p p'" "pool_ok U p"
  shows "pool_ok U p'"
  using assms
proof (induction rule: lp_step.induct)
  case (Add u now x s p r p')
  obtain ax as lp where r: "r = (ax, as, lp)" by (cases r)
  show ?case
    by (rule add_did [OF Add(2) [unfolded r]]) (use Add(1,3) pool_ok_supply [OF Add(3,1)] in \<open>auto simp: pool_ok_def sum_update split: if_splits\<close>)
next
  case (Remove u now n p r p')
  then show ?case by (cases r) (auto intro: remove_ok)
next
  case (Claim now u p n p')
  then obtain p1 where "update_pool now p = Some p1" "pl_state p' = pl_state p1" "pl_supply p' = pl_supply p1" "pl_lp p' = pl_lp p1"
    by (auto simp: claim_rewards_def Let_def bind_eq_Some_conv split: if_splits)
  then show ?case using Claim(2) update_pool_did(2) by (intro pool_ok_frame [of p' p]) auto
next
  case (Program now rate tot a b p p')
  then obtain p1 where "update_pool now p = Some p1" "pl_state p' = pl_state p1" "pl_supply p' = pl_supply p1" "pl_lp p' = pl_lp p1"
    by (auto simp: set_mining_program_def bind_eq_Some_conv)
  then show ?case using Program(2) update_pool_did(2) by (intro pool_ok_frame [of p' p]) auto
next
  case (Swap now p p0 n m q st)
  obtain cx cs t where "p0 = p\<lparr>pl_cumXlm := cx, pl_cumSxlm := cs, pl_priceAt := t\<rparr>"
    using Swap(1) by (rule update_cumulative_price_did)
  then show ?case using Swap(3) swap_did [OF Swap(2)] by (auto simp: pool_ok_def split: if_splits)
qed

text \<open>
  C20. Whatever a finite set of users does with the pool, the supply of shares stays the sum of their
  shares, none of them negative, and both reserves are positive exactly while there are shares.\<close>

theorem pool_shares_are_backed:
  assumes "(lp_step U)\<^sup>*\<^sup>* p p'" "pool_ok U p"
  shows "pl_supply p' = sum (pl_lp p') U \<and> (\<forall>u. 0 \<le> pl_lp p' u) \<and>
    (0 < pl_supply p' \<longleftrightarrow> 0 < lp_xlm (pl_state p') \<and> 0 < lp_sxlm (pl_state p'))"
proof -
  have "pool_ok U p'" using assms by (induction rule: rtranclp_induct) (auto intro: lp_step_ok)
  then show ?thesis by (auto simp: pool_ok_def sum_nonneg order_less_le split: if_splits)
qed

definition empty_pool :: lp_pool where
  "empty_pool = \<lparr>pl_state = \<lparr>lp_xlm = 0, lp_sxlm = 0, lp_fee_bps = 30, lp_protocol_fee_bps = 5, lp_accrued = 0\<rparr>,
     pl_supply = 0, pl_lp = (\<lambda>_. 0), pl_program = None, pl_acc = 0, pl_last = None, pl_debt = (\<lambda>_. 0),
     pl_cumXlm = 0, pl_cumSxlm = 0, pl_priceAt = None\<rparr>"

lemma empty_pool_ok: "pool_ok {''A'', ''B''} empty_pool"
  by (simp add: pool_ok_def empty_pool_def)

definition started_pool :: lp_pool where
  "started_pool = snd (the (add_liquidity 5 ''A'' 4000 9000 empty_pool))"

lemma started: "add_liquidity 5 ''A'' 4000 9000 empty_pool = Some ((4000, 9000, 6000), started_pool)"
proof -
  have "map_option fst (add_liquidity 5 ''A'' 4000 9000 empty_pool) = Some (4000, 9000, 6000)" by code_simp
  then show ?thesis by (auto simp: started_pool_def)
qed

theorem pool_shares_are_backed_witness:
  "pl_supply started_pool = pl_lp started_pool ''A'' + pl_lp started_pool ''B'' \<and> 0 \<le> pl_lp started_pool ''B''"
proof -
  have "(lp_step {''A'', ''B''})\<^sup>*\<^sup>* empty_pool started_pool"
    using lp_step.Add [OF _ started, of "{''A'', ''B''}"] by blast
  from pool_shares_are_backed [OF this empty_pool_ok] show ?thesis by simp
qed

subsection \<open>What a share is worth\<close>

lemma floor_times: "0 < r \<Longrightarrow> v div r * r \<le> (v :: int)" "0 < r \<Longrightarrow> v < (v div r + 1) * r"
  using pos_mod_sign [of r v] pos_mod_bound [of r v]
  by (simp_all add: distrib_right minus_mod_eq_div_mult [symmetric])

text \<open>Paying at least the proportional amount, or that amount rounded down, is never got back with a gain.\<close>

lemma paid_covers_share:
  fixes a :: int
  assumes "0 < L" "0 < n" "n * R \<le> a * L \<or> a = n * R div L"
  shows "n * (R + a) div (L + n) \<le> a"
proof -
  have "n * R < (a + 1) * L"
  proof (rule disjE [OF assms(3)])
    assume "n * R \<le> a * L"
    then show ?thesis using assms(1) by (simp add: algebra_simps)
  next
    assume a: "a = n * R div L"
    show ?thesis using floor_times(2) [OF assms(1)] by (simp add: a)
  qed
  then have "n * (R + a) < (a + 1) * (L + n)" using assms(2) by (simp add: algebra_simps)
  then have "n * (R + a) div (L + n) * (L + n) < (a + 1) * (L + n)"
    using floor_times(1) [of "L + n" "n * (R + a)"] assms(1,2) by linarith
  then have "n * (R + a) div (L + n) < a + 1" using assms(1,2) by (simp only: mult_less_cancel_right_pos [of "L + n"] add_pos_pos)
  then show ?thesis by simp
qed

lemma share_kept: "0 < L \<Longrightarrow> r * (L - n) \<le> (r - n * r div L) * (L :: int)"
  using floor_times(1) [of L "n * r"] by (simp add: left_diff_distrib right_diff_distrib mult.commute)

lemma deposit_proportion:
  assumes "deposit_shares x s p = Some (ax, as, n)" "0 < x" "0 < s" "0 < pl_supply p"
    "0 < lp_xlm (pl_state p)" "0 < lp_sxlm (pl_state p)"
  shows "n * lp_xlm (pl_state p) \<le> ax * pl_supply p \<or> ax = n * lp_xlm (pl_state p) div pl_supply p"
    "n * lp_sxlm (pl_state p) \<le> as * pl_supply p \<or> as = n * lp_sxlm (pl_state p) div pl_supply p"
proof -
  note d = deposit_shares_did(2) [OF assms(1-6)]
  have "n * lp_xlm (pl_state p) \<le> x * pl_supply p div lp_xlm (pl_state p) * lp_xlm (pl_state p)"
    using d assms(5) by (intro mult_right_mono) auto
  then have x: "n * lp_xlm (pl_state p) \<le> x * pl_supply p" using floor_times(1) [OF assms(5)] by (rule order_trans)
  have "n * lp_sxlm (pl_state p) \<le> s * pl_supply p div lp_sxlm (pl_state p) * lp_sxlm (pl_state p)"
    using d assms(6) by (intro mult_right_mono) auto
  then have s: "n * lp_sxlm (pl_state p) \<le> s * pl_supply p" using floor_times(1) [OF assms(6)] by (rule order_trans)
  show "n * lp_xlm (pl_state p) \<le> ax * pl_supply p \<or> ax = n * lp_xlm (pl_state p) div pl_supply p"
    "n * lp_sxlm (pl_state p) \<le> as * pl_supply p \<or> as = n * lp_sxlm (pl_state p) div pl_supply p"
    using d x s by auto
qed

text \<open>
  C21. Adding liquidity and removing it again, with nothing in between, never pays out more of either token than was taken,
  in the first deposit as in any later one.\<close>

theorem add_then_remove_gains_nothing:
  assumes "pool_ok U p" "u \<in> U" "add_liquidity now u x s p = Some ((ax, as, n), p1)"
    "remove_liquidity now' u n p1 = Some ((xo, so, paid), p2)"
  shows "xo \<le> ax \<and> so \<le> as"
proof (rule add_did [OF assms(3)], rule remove_did [OF assms(4)])
  fix p0
  assume a: "0 < x" "0 < s" "0 < n" "0 < ax" "0 < as" "update_pool now p = Some p0" "deposit_shares x s p0 = Some (ax, as, n)"
    "lp_xlm (pl_state p1) = lp_xlm (pl_state p) + ax" "lp_sxlm (pl_state p1) = lp_sxlm (pl_state p) + as"
    "pl_supply p1 = pl_supply p + n"
  assume r: "xo = bdiv (n * lp_xlm (pl_state p1)) (pl_supply p1)" "so = bdiv (n * lp_sxlm (pl_state p1)) (pl_supply p1)"
  note same = update_pool_did(2) [OF a(6)]
  have pos: "0 \<le> pl_supply p" using pool_ok_supply [OF assms(1,2)] by simp
  have res: "0 \<le> lp_xlm (pl_state p)" "0 \<le> lp_sxlm (pl_state p)" using assms(1) by (auto simp: pool_ok_def split: if_splits)
  have o: "xo = n * (lp_xlm (pl_state p) + ax) div (pl_supply p + n)" "so = n * (lp_sxlm (pl_state p) + as) div (pl_supply p + n)"
    using a r res pos by (simp_all add: bdiv_nonneg)
  show "xo \<le> ax \<and> so \<le> as"
  proof (cases "pl_supply p = 0")
    case True
    then show ?thesis using assms(1) a(3) by (simp add: pool_ok_def o)
  next
    case False
    then have L: "0 < pl_supply p" "0 < lp_xlm (pl_state p0)" "0 < lp_sxlm (pl_state p0)"
      using assms(1) pos same by (auto simp: pool_ok_def)
    then have "0 < pl_supply p0" using same by simp
    note d = deposit_proportion [OF a(7,1,2) this L(2,3)]
    show ?thesis using paid_covers_share [OF L(1) a(3)] d same by (auto simp: o)
  qed
qed

theorem add_then_remove_gains_nothing_witness:
  "\<exists>xo so paid p2. remove_liquidity 9 ''A'' 6000 started_pool = Some ((xo, so, paid), p2) \<and> xo \<le> 4000 \<and> so \<le> 9000"
proof -
  have "map_option fst (remove_liquidity 9 ''A'' 6000 started_pool) = Some (4000, 9000, 0)" by code_simp
  then obtain p2 where "remove_liquidity 9 ''A'' 6000 started_pool = Some ((4000, 9000, 0), p2)" by auto
  then show ?thesis using add_then_remove_gains_nothing [OF empty_pool_ok _ started] by blast
qed

text \<open>
  Nobody's shares lose value when liquidity is removed. When it is added they may, because the
  second amount is rounded down in the depositor's favour, but by less than one unit of a token for
  all shares together.\<close>

theorem shares_keep_their_value:
  assumes "pool_ok U p" "u \<in> U"
  shows "(\<forall>n r p'. remove_liquidity now u n p = Some (r, p') \<longrightarrow>
      lp_xlm (pl_state p) * pl_supply p' \<le> lp_xlm (pl_state p') * pl_supply p \<and>
      lp_sxlm (pl_state p) * pl_supply p' \<le> lp_sxlm (pl_state p') * pl_supply p) \<and>
    (\<forall>x s r p'. add_liquidity now u x s p = Some (r, p') \<and> 0 < pl_supply p \<longrightarrow>
      lp_xlm (pl_state p) * pl_supply p' < (lp_xlm (pl_state p') + 1) * pl_supply p \<and>
      lp_sxlm (pl_state p) * pl_supply p' < (lp_sxlm (pl_state p') + 1) * pl_supply p)"
proof (intro conjI allI impI)
  fix n r p'
  assume "remove_liquidity now u n p = Some (r, p')"
  moreover obtain xo so paid where r: "r = (xo, so, paid)" by (cases r)
  ultimately have run: "remove_liquidity now u n p = Some ((xo, so, paid), p')" by simp
  have pos: "0 \<le> pl_supply p" using pool_ok_supply [OF assms] by simp
  have res: "0 \<le> lp_xlm (pl_state p)" "0 \<le> lp_sxlm (pl_state p)" using assms(1) by (auto simp: pool_ok_def split: if_splits)
  from run show "lp_xlm (pl_state p) * pl_supply p' \<le> lp_xlm (pl_state p') * pl_supply p"
    by (rule remove_did) (use pos res(1) share_kept [of "pl_supply p" "lp_xlm (pl_state p)" n] in \<open>simp add: bdiv_nonneg\<close>)
  from run show "lp_sxlm (pl_state p) * pl_supply p' \<le> lp_sxlm (pl_state p') * pl_supply p"
    by (rule remove_did) (use pos res(2) share_kept [of "pl_supply p" "lp_sxlm (pl_state p)" n] in \<open>simp add: bdiv_nonneg\<close>)
next
  fix x s r p'
  assume "add_liquidity now u x s p = Some (r, p') \<and> 0 < pl_supply p"
  moreover obtain ax as n where r: "r = (ax, as, n)" by (cases r)
  ultimately have run: "add_liquidity now u x s p = Some ((ax, as, n), p')" and L: "0 < pl_supply p" by simp_all
  have res: "0 < lp_xlm (pl_state p)" "0 < lp_sxlm (pl_state p)" using assms(1) L by (auto simp: pool_ok_def)
  show "lp_xlm (pl_state p) * pl_supply p' < (lp_xlm (pl_state p') + 1) * pl_supply p"
    and "lp_sxlm (pl_state p) * pl_supply p' < (lp_sxlm (pl_state p') + 1) * pl_supply p"
  proof (atomize (full), rule add_did [OF run])
    fix p0
    assume a: "0 < x" "0 < s" "update_pool now p = Some p0" "deposit_shares x s p0 = Some (ax, as, n)"
      "lp_xlm (pl_state p') = lp_xlm (pl_state p) + ax" "lp_sxlm (pl_state p') = lp_sxlm (pl_state p) + as"
      "pl_supply p' = pl_supply p + n"
    have same: "pl_state p0 = pl_state p" "pl_supply p0 = pl_supply p" using update_pool_did(2) [OF a(3)] by simp_all
    note d = deposit_proportion [OF a(4,1,2), unfolded same, OF L res]
    have "n * lp_xlm (pl_state p) < (ax + 1) * pl_supply p" "n * lp_sxlm (pl_state p) < (as + 1) * pl_supply p"
      using d floor_times(2) [OF L] L by (auto simp: algebra_simps)
    then show "lp_xlm (pl_state p) * pl_supply p' < (lp_xlm (pl_state p') + 1) * pl_supply p \<and>
        lp_sxlm (pl_state p) * pl_supply p' < (lp_sxlm (pl_state p') + 1) * pl_supply p"
      unfolding a(5-7) by (simp add: algebra_simps)
  qed
qed

subsection \<open>Rewards that are lost\<close>

text \<open>Nothing more accrues at the time of an update.\<close>

lemma updated_now:
  assumes "update_pool now p = Some p1" "pl_program q = pl_program p1" "pl_last q = pl_last p1" "pl_acc q = pl_acc p1"
    "pl_supply p \<noteq> 0 \<or> pl_program p = None \<or> pl_last p1 \<noteq> None"
  shows "projected_acc now q = Some (pl_acc q)"
proof (cases "pl_program p")
  case None
  then show ?thesis using assms by (auto simp: update_pool_def projected_acc_def)
next
  case (Some m)
  let ?e = "if now > mg_end m then mg_end m else now"
  show ?thesis
  proof (cases "now \<le> last_time m p \<or> mg_end m \<le> last_time m p")
    case True
    then have "p1 = p" using assms(1) Some by (auto simp: update_pool_def Let_def)
    then show ?thesis using True Some assms(2-4) by (auto simp: projected_acc_def last_time_def Let_def)
  next
    case False
    then obtain m' where "pl_last p1 = Some ?e" "pl_program p1 = Some m'" "mg_end m' = mg_end m"
      using assms(1) Some unfolding update_pool_def
      by (auto simp: Let_def bind_eq_Some_conv split: if_splits)
    then show ?thesis using assms(2-4) by (simp add: projected_acc_def last_time_def Let_def)
  qed
qed

text \<open>
  Adding liquidity forfeits what the depositor has earned: right after it nothing is pending, and
  nothing was paid, whatever was pending before.\<close>

theorem adding_liquidity_forfeits_rewards:
  assumes "add_liquidity now u x s p = Some (r, p')" "pl_supply p \<noteq> 0 \<or> pl_program p = None \<or> pl_last p \<noteq> None"
  shows "pending_rewards now u p' = Some 0"
proof -
  obtain ax as n where r: "r = (ax, as, n)" by (cases r)
  show ?thesis
  proof (rule add_did [OF assms(1) [unfolded r]])
    fix p1
    assume a: "update_pool now p = Some p1" "pl_acc p' = pl_acc p1" "pl_program p' = pl_program p1" "pl_last p' = pl_last p1"
      "\<exists>d. accrued (pl_lp p' u) (pl_acc p') = Some d \<and> pl_debt p' u = d"
    have "pl_last p1 \<noteq> None" if "pl_last p \<noteq> None"
      using a(1) that by (auto simp: update_pool_def Let_def bind_eq_Some_conv split: option.splits if_splits)
    then have "projected_acc now p' = Some (pl_acc p')" using assms(2) by (intro updated_now [OF a(1,3,4,2)]) auto
    then show ?thesis using a(5) by (auto simp: pending_rewards_def)
  qed
qed

text \<open>
  A new program starts everyone's rewards at what they had accrued under the old one, below zero: until a
  provider's share of the new program exceeds that debt nothing is pending, and what was pending of the old
  program is gone.\<close>

theorem new_program_starts_in_debt:
  assumes "set_mining_program now rate tot a b p = Some p'" "projected_acc t p' = Some acc"
    "accrued (pl_lp p u) acc = Some earned"
  shows "pending_rewards t u p' = Some (if pl_lp p u = 0 then 0 else max 0 (earned - pl_debt p u))"
proof -
  obtain p1 where "update_pool now p = Some p1" "pl_lp p' = pl_lp p1" "pl_debt p' = pl_debt p1"
    using assms(1) by (auto simp: set_mining_program_def bind_eq_Some_conv)
  then have "pl_lp p' = pl_lp p" "pl_debt p' = pl_debt p" using update_pool_did(2) by auto
  then show ?thesis using assms(2,3) by (simp add: pending_rewards_def max_def)
qed

definition mined_pool :: lp_pool where
  "mined_pool = the (set_mining_program 10 7 70000 10 1000 started_pool)"

lemma mined: "set_mining_program 10 7 70000 10 1000 started_pool = Some mined_pool"
proof -
  have "set_mining_program 10 7 70000 10 1000 started_pool \<noteq> None" by code_simp
  then show ?thesis by (simp add: mined_pool_def)
qed

theorem adding_liquidity_forfeits_rewards_witness:
  "pending_rewards 110 ''A'' mined_pool = Some 699 \<and>
   (\<exists>r p'. add_liquidity 110 ''A'' 4 9 mined_pool = Some (r, p') \<and> pending_rewards 110 ''A'' p' = Some 0)"
proof
  show "pending_rewards 110 ''A'' mined_pool = Some 699" by code_simp
  have "add_liquidity 110 ''A'' 4 9 mined_pool \<noteq> None" by code_simp
  then obtain r p' where run: "add_liquidity 110 ''A'' 4 9 mined_pool = Some (r, p')" by auto
  moreover have "pl_supply mined_pool \<noteq> 0" by code_simp
  ultimately have "pending_rewards 110 ''A'' p' = Some 0" using adding_liquidity_forfeits_rewards [OF run] by simp
  with run show "\<exists>r p'. add_liquidity 110 ''A'' 4 9 mined_pool = Some (r, p') \<and> pending_rewards 110 ''A'' p' = Some 0"
    by blast
qed

definition claimed_pool :: lp_pool where
  "claimed_pool = snd (the (claim_rewards 110 ''A'' mined_pool))"

theorem new_program_starts_in_debt_witness:
  "\<exists>p'. set_mining_program 1100 1 5000 1100 9000 claimed_pool = Some p' \<and> pending_rewards 1700 ''A'' p' = Some 0"
proof -
  have "set_mining_program 1100 1 5000 1100 9000 claimed_pool \<noteq> None" by code_simp
  then obtain p' where p': "set_mining_program 1100 1 5000 1100 9000 claimed_pool = Some p'" by auto
  have "map_option (projected_acc 1700) (set_mining_program 1100 1 5000 1100 9000 claimed_pool) = Some (Some 100000000000)"
    by code_simp
  then have "projected_acc 1700 p' = Some 100000000000" by (simp add: p')
  moreover have "accrued (pl_lp claimed_pool ''A'') 100000000000 = Some 600" "pl_debt claimed_pool ''A'' = 699"
    by code_simp+
  ultimately show ?thesis using new_program_starts_in_debt [OF p', of 1700 100000000000 "''A''" 600] p' by auto
qed

theorem pending_view_matches_claim_witness:
  "\<exists>p'. claim_rewards 110 ''A'' mined_pool = Some (699, p') \<and> pending_rewards 110 ''A'' mined_pool = Some 699"
proof -
  have "map_option fst (claim_rewards 110 ''A'' mined_pool) = Some 699" "pl_lp mined_pool ''A'' = 6000" by code_simp+
  then obtain p' where "claim_rewards 110 ''A'' mined_pool = Some (699, p')" by auto
  then show ?thesis using pending_view_matches_claim [of 110 "''A''" mined_pool 699 p'] \<open>pl_lp mined_pool ''A'' = 6000\<close> by auto
qed

end
