(* ===== verification/Api_Lending.thy ===== *)
theory Api_Lending
  imports Api_Staking Lending_Contract
begin

text \<open>
  \<open>api-gateway/routes/lending.ts\<close>: the unsigned lending transactions, the position of a wallet with its copy in
  the \<open>collateral_positions\<close> table, the statistics, and the risk class of a wallet. A contract view
  is \<open>None\<close> when its simulation does not succeed, and may throw.
\<close>

subsection \<open>Requests\<close>

definition address56 :: "json option \<Rightarrow> string parsed" where
  "address56 v =
     (case v of Some (J_str s) \<Rightarrow> if length s = 56 then Inr s else Inl [([], Type_issue)] | _ \<Rightarrow> Inl [([], Type_issue)])"

definition positive_number :: "json option \<Rightarrow> number parsed" where
  "positive_number v =
     (case v of Some (J_num n) \<Rightarrow> if n > 0 then Inr n else Inl [([], Type_issue)] | _ \<Rightarrow> Inl [([], Type_issue)])"

definition amountSchema :: "body \<Rightarrow> (string \<times> number) parsed" where
  "amountSchema b = zod_both (zod_field ''userAddress'' address56 b) (zod_field ''amount'' positive_number b)"

definition liquidateSchema :: "body \<Rightarrow> (string \<times> string) parsed" where
  "liquidateSchema b =
     zod_both (zod_field ''liquidatorAddress'' address56 b) (zod_field ''borrowerAddress'' address56 b)"

text \<open>What a trapped simulation is reported as.\<close>

definition trap_messages :: "(string \<times> string) list" where
  "trap_messages =
     [(''deposit_collateral'', ''Insufficient sXLM balance. Stake XLM first to receive sXLM, then deposit it as collateral.''),
      (''withdraw_collateral'', ''Withdrawal would make your position unhealthy, or you have no collateral deposited.''),
      (''borrow'', ''Borrow exceeds your collateral limit. Deposit more sXLM or reduce the borrow amount.''),
      (''repay'', ''Repay amount exceeds your outstanding debt.''),
      (''liquidate'', ''This position cannot be liquidated - it may already be healthy or have no debt.'')]"

definition buildContractTx :: "invocation \<Rightarrow> build_env \<Rightarrow> thrown + (invocation \<times> string)" where
  "buildContractTx iv ev =
     (case build_tx ev of
        Threw t \<Rightarrow> Inl t
      | Built xdr \<Rightarrow> Inr (iv, xdr)
      | Sim_failed e \<Rightarrow>
          Inl (Some (case (if hasSubstring e ''UnreachableCodeReached'' then map_of trap_messages (call_method iv) else None) of
                 Some m \<Rightarrow> m | None \<Rightarrow> ''Simulation failed: '' @ e)))"

definition lending_invocation :: "string \<Rightarrow> sc_arg list \<Rightarrow> invocation" where
  "lending_invocation meth args = \<lparr>on_contract = Lending, call_method = meth, call_args = args\<rparr>"

text \<open>\<open>nativeToScVal\<close> refuses an integer that does not fit its type.\<close>

definition to_i128 :: "stroops \<Rightarrow> thrown + sc_arg" where
  "to_i128 n = (case i128 n of None \<Rightarrow> Inl (Some ''value out of range'') | Some m \<Rightarrow> Inr (SC_i128 m))"

datatype lending_error = Rejected error_text | Not_enough number number

text \<open>
  The body shared by the routes that move an amount. \<open>check\<close> is the pool or balance the route looks at
  first, if it looks at one.\<close>

definition amount_route ::
  "string \<Rightarrow> string \<Rightarrow> (thrown + int option) option \<Rightarrow> build_env \<Rightarrow> body \<Rightarrow> lending_error + (invocation \<times> string)" where
  "amount_route meth dflt check ev b =
     (let failed = (\<lambda>t. Inl (Rejected (message_or dflt t)));
          submit = (\<lambda>user s. case to_i128 s of
             Inl t \<Rightarrow> failed t
           | Inr arg \<Rightarrow> (case buildContractTx (lending_invocation meth [SC_address user, arg]) ev of Inl t \<Rightarrow> failed t | Inr r \<Rightarrow> Inr r))
      in case amountSchema b of
           Inl iss \<Rightarrow> Inl (Rejected (Issues iss))
         | Inr (user, a) \<Rightarrow>
         (case amount_stroops a of
            Inl e \<Rightarrow> failed (Some ''RangeError'')
          | Inr s \<Rightarrow>
              (case check of
                 None \<Rightarrow> submit user s
               | Some (Inl t) \<Rightarrow> failed t
               | Some (Inr v) \<Rightarrow>
                   (let available = (case v of None \<Rightarrow> 0 | Some n \<Rightarrow> n)
                    in if available < s then Inl (Not_enough (num_of_big available / lit 10000000) a) else submit user s))))"

definition deposit_route :: "(thrown + int option) \<Rightarrow> build_env \<Rightarrow> body \<Rightarrow> lending_error + (invocation \<times> string)" where
  "deposit_route balance = amount_route ''deposit_collateral'' ''Deposit failed'' (Some balance)"

definition withdraw_route :: "build_env \<Rightarrow> body \<Rightarrow> lending_error + (invocation \<times> string)" where
  "withdraw_route = amount_route ''withdraw_collateral'' ''Withdraw failed'' None"

definition borrow_route :: "(thrown + int option) \<Rightarrow> build_env \<Rightarrow> body \<Rightarrow> lending_error + (invocation \<times> string)" where
  "borrow_route pool = amount_route ''borrow'' ''Borrow failed'' (Some pool)"

definition repay_route :: "build_env \<Rightarrow> body \<Rightarrow> lending_error + (invocation \<times> string)" where
  "repay_route = amount_route ''repay'' ''Repay failed'' None"

definition liquidate_route :: "build_env \<Rightarrow> body \<Rightarrow> lending_error + (invocation \<times> string)" where
  "liquidate_route ev b =
     (case liquidateSchema b of
        Inl iss \<Rightarrow> Inl (Rejected (Issues iss))
      | Inr (liquidator, borrower) \<Rightarrow>
          (case buildContractTx (lending_invocation ''liquidate'' [SC_address liquidator, SC_address borrower]) ev of
             Inl t \<Rightarrow> Inl (Rejected (message_or ''Liquidation failed'' t))
           | Inr r \<Rightarrow> Inr r))"

subsection \<open>Risk classes\<close>

datatype risk_level = Safe | Warning | Critical

definition classifyRisk :: "number \<Rightarrow> risk_level \<times> string" where
  "classifyRisk hf =
     (if hf \<le> 0 then (Safe, ''No active debt position detected.'')
      else if hf < 1 then (Critical, ''Position is liquidatable. Repay debt or add collateral immediately.'')
      else if hf < lit (3/2)
      then (Warning, ''Health factor is low. Consider adding collateral or repaying part of your debt.'')
      else (Safe, ''Position health is stable.''))"

subsection \<open>Positions\<close>

record position_row =
  po_id :: int
  po_wallet :: wallet
  po_sxlm :: stroops
  po_xlm :: stroops
  po_hf :: number
  po_updatedAt :: millis

record position_env =
  pe_position :: "thrown + (int \<times> int) option"
  pe_health :: "thrown + int option"
  pe_factor :: "thrown + int option"
  pe_rate :: "thrown + int option"
  pe_find :: "thrown option"
  pe_write :: "thrown option"
  pe_fallback :: "thrown option"
  pe_now :: millis

record position_reply =
  pr_wallet :: wallet
  pr_sxlmDeposited :: number
  pr_sxlmDepositedRaw :: string
  pr_xlmBorrowed :: number
  pr_xlmBorrowedRaw :: string
  pr_healthFactor :: number
  pr_maxBorrow :: number
  pr_collateralFactorBps :: number
  pr_exchangeRate :: number

definition or_else :: "'a \<Rightarrow> 'a option \<Rightarrow> 'a" where
  "or_else d v = (case v of None \<Rightarrow> d | Some x \<Rightarrow> x)"

definition shown_max_borrow :: "int \<Rightarrow> number \<Rightarrow> number \<Rightarrow> number" where
  "shown_max_borrow c er cf = num_of_big c * er * cf / (lit 10000 * lit 10000000) / lit 10000000"

text \<open>The copy in the table: the first row of the wallet is updated, or a new one inserted.\<close>

definition set_position :: "int \<times> int \<times> number \<times> millis \<Rightarrow> position_row \<Rightarrow> position_row" where
  "set_position v r = (case v of (c, d, hf, now) \<Rightarrow> r\<lparr>po_sxlm := c, po_xlm := d, po_hf := hf, po_updatedAt := now\<rparr>)"

definition new_position :: "int \<Rightarrow> wallet \<Rightarrow> int \<times> int \<times> number \<times> millis \<Rightarrow> position_row" where
  "new_position i w v = (case v of (c, d, hf, now) \<Rightarrow>
     \<lparr>po_id = i, po_wallet = w, po_sxlm = c, po_xlm = d, po_hf = hf, po_updatedAt = now\<rparr>)"

definition sync_position :: "position_env \<Rightarrow> wallet \<Rightarrow> int \<Rightarrow> int \<Rightarrow> number \<Rightarrow> position_row list \<Rightarrow> thrown + position_row list" where
  "sync_position ev w c d hf tbl =
     (if c > 0 \<or> d > 0
      then (case pe_find ev of
              Some t \<Rightarrow> Inl t
            | None \<Rightarrow>
                (case pe_write ev of
                   Some t \<Rightarrow> Inl t
                 | None \<Rightarrow> Inr (write_by po_id po_wallet set_position new_position w (c, d, hf, pe_now ev) tbl)))
      else Inr tbl)"

text \<open>The row a query ordered by \<open>updatedAt\<close>, newest first, gives.\<close>

definition newest_position :: "wallet \<Rightarrow> position_row list \<Rightarrow> position_row option" where
  "newest_position w tbl =
     (case sort_key (\<lambda>r. - po_updatedAt r) (filter (\<lambda>r. po_wallet r = w) tbl) of [] \<Rightarrow> None | r # rs \<Rightarrow> Some r)"

definition fallback_position :: "wallet \<Rightarrow> position_row list \<Rightarrow> position_reply" where
  "fallback_position w tbl =
     (case newest_position w tbl of
        Some r \<Rightarrow> \<lparr>pr_wallet = w, pr_sxlmDeposited = num_of_big (po_sxlm r) / lit 10000000, pr_sxlmDepositedRaw = dec_int (po_sxlm r),
                   pr_xlmBorrowed = num_of_big (po_xlm r) / lit 10000000, pr_xlmBorrowedRaw = dec_int (po_xlm r),
                   pr_healthFactor = po_hf r, pr_maxBorrow = 0, pr_collateralFactorBps = lit 7000, pr_exchangeRate = 1\<rparr>
      | None \<Rightarrow> \<lparr>pr_wallet = w, pr_sxlmDeposited = 0, pr_sxlmDepositedRaw = ''0'', pr_xlmBorrowed = 0,
                 pr_xlmBorrowedRaw = ''0'', pr_healthFactor = 0, pr_maxBorrow = 0, pr_collateralFactorBps = lit 7000,
                 pr_exchangeRate = 1\<rparr>)"

text \<open>The \<open>try\<close> block, then the whole route; an error of the fallback's query leaves the handler.\<close>

definition chain_position ::
  "position_env \<Rightarrow> wallet \<Rightarrow> position_row list \<Rightarrow> thrown + (position_row list \<times> position_reply)" where
  "chain_position ev w tbl =
     (case (pe_position ev, pe_health ev, pe_factor ev, pe_rate ev) of
        (Inr p, Inr h, Inr f, Inr r) \<Rightarrow>
          (let (c, d) = or_else (0, 0) p;
               hf = (case h of None \<Rightarrow> 0 | Some n \<Rightarrow> num_of_big n / lit 10000000);
               cf = num_of_big (or_else 7000 f); er = num_of_big (or_else 10000000 r)
           in case sync_position ev w c d hf tbl of
                Inl t \<Rightarrow> Inl t
              | Inr tbl' \<Rightarrow> Inr (tbl',
                  \<lparr>pr_wallet = w, pr_sxlmDeposited = num_of_big c / lit 10000000, pr_sxlmDepositedRaw = dec_int c,
                   pr_xlmBorrowed = num_of_big d / lit 10000000, pr_xlmBorrowedRaw = dec_int d, pr_healthFactor = hf,
                   pr_maxBorrow = shown_max_borrow c er cf, pr_collateralFactorBps = cf, pr_exchangeRate = er / lit 10000000\<rparr>))
      | _ \<Rightarrow> Inl None)"

definition position_route ::
  "position_env \<Rightarrow> wallet \<Rightarrow> position_row list \<Rightarrow> position_row list \<times> (thrown + position_reply)" where
  "position_route ev w tbl =
     (case chain_position ev w tbl of
        Inr (tbl', r) \<Rightarrow> (tbl', Inr r)
      | Inl t \<Rightarrow> (tbl, case pe_fallback ev of Some e \<Rightarrow> Inl e | None \<Rightarrow> Inr (fallback_position w tbl)))"

subsection \<open>Alerts and statistics\<close>

datatype source = Chain | Db

record alert_reply =
  al_wallet :: wallet
  al_healthFactor :: number
  al_riskLevel :: risk_level
  al_recommendation :: string
  al_source :: source

definition alert_of :: "wallet \<Rightarrow> number \<Rightarrow> source \<Rightarrow> alert_reply" where
  "alert_of w hf src =
     \<lparr>al_wallet = w, al_healthFactor = hf, al_riskLevel = fst (classifyRisk hf), al_recommendation = snd (classifyRisk hf),
      al_source = src\<rparr>"

definition alerts_route ::
  "(thrown + int option) \<Rightarrow> thrown option \<Rightarrow> wallet \<Rightarrow> position_row list \<Rightarrow> thrown + alert_reply" where
  "alerts_route health fallback w tbl =
     (case health of
        Inr h \<Rightarrow> Inr (alert_of w (num_of_big (or_else 0 h) / lit 10000000) Chain)
      | Inl _ \<Rightarrow>
          (case fallback of
             Some e \<Rightarrow> Inl e
           | None \<Rightarrow> Inr (alert_of w (case newest_position w tbl of None \<Rightarrow> 0 | Some r \<Rightarrow> po_hf r) Db)))"

record lending_stats =
  ls_totalCollateral :: number
  ls_totalCollateralRaw :: string
  ls_totalBorrowed :: number
  ls_totalBorrowedRaw :: string
  ls_poolBalance :: number
  ls_collateralFactorBps :: number
  ls_liquidationThresholdBps :: number
  ls_borrowRateBps :: number
  ls_utilizationRate :: number

definition stats_route :: "(string \<Rightarrow> thrown + int option) \<Rightarrow> lending_stats" where
  "stats_route view =
     (case (view ''total_collateral'', view ''total_borrowed'', view ''get_collateral_factor'',
            view ''get_liquidation_threshold'', view ''get_borrow_rate'', view ''get_pool_balance'') of
        (Inr c, Inr b, Inr cf, Inr lt, Inr br, Inr p) \<Rightarrow>
          (let tc = num_of_big (or_else 0 c); tb = num_of_big (or_else 0 b)
           in \<lparr>ls_totalCollateral = tc / lit 10000000, ls_totalCollateralRaw = dec_int (or_else 0 c),
               ls_totalBorrowed = tb / lit 10000000, ls_totalBorrowedRaw = dec_int (or_else 0 b),
               ls_poolBalance = num_of_big (or_else 0 p) / lit 10000000,
               ls_collateralFactorBps = num_of_big (or_else 7000 cf),
               ls_liquidationThresholdBps = num_of_big (or_else 8000 lt),
               ls_borrowRateBps = num_of_big (or_else 500 br),
               ls_utilizationRate = (if tc > 0 then tb / tc else 0)\<rparr>)
      | _ \<Rightarrow> \<lparr>ls_totalCollateral = 0, ls_totalCollateralRaw = ''0'', ls_totalBorrowed = 0, ls_totalBorrowedRaw = ''0'',
              ls_poolBalance = 0, ls_collateralFactorBps = lit 7000, ls_liquidationThresholdBps = lit 8000,
              ls_borrowRateBps = lit 500, ls_utilizationRate = 0\<rparr>)"

subsection \<open>Scaled integers\<close>

lemma scaled_division:
  assumes "0 \<le> n" "n < 2^127"
  shows "num_of_big n / Fin 10000000 = Fin (rndq (rndq (of_int n) / 10000000))"
proof -
  have "(of_int n :: rat) \<le> of_int (2^127)" using less_imp_le [OF assms(2)] by (simp only: of_int_le_iff)
  then have n: "(of_int n :: rat) \<le> 2^127" by simp
  then have one: "num_of_big n = Fin (rndq (of_int n))"
    unfolding num_of_big_def using assms(1) by (intro rnd_Fin_300) simp
  have "rndq (of_int n) \<le> rndq (of_int (2^53) * 2 powi 74)" using n by (intro rndq_mono) simp
  also have "\<dots> = of_int (2^53) * 2 powi 74" by (rule rndq_grid) simp_all
  finally have up: "rndq (of_int n) \<le> 2^127" by simp
  have "rnd (rndq (of_int n) / 10000000) = Fin (rndq (rndq (of_int n) / 10000000))"
    using up rndq_nonneg [of "of_int n"] assms(1) by (intro rnd_Fin_300) simp
  then show ?thesis using one by simp
qed

lemma ratio_below:
  assumes "0 < n" "n < m" "m \<le> 100000000"
  shows "0 < rndq (of_int n / 10000000)" "rndq (of_int n / 10000000) < of_int m / 10000000"
proof -
  let ?y = "of_int n / 10000000 :: rat"
  have n: "1 \<le> (of_int n :: rat)" "of_int n + 1 \<le> (of_int m :: rat)"
    using assms by (simp_all add: int_le_real_less)
  have m: "(of_int m :: rat) \<le> 100000000" using assms(3) by (metis of_int_le_iff of_int_numeral)
  have "(2::rat) powi (-1022) \<le> 2 powi (-24)" by (rule powi_mono) simp
  also have "\<dots> \<le> ?y" using n(1) by (simp add: power_int_minus_divide field_simps)
  finally have e: "\<bar>rndq ?y - ?y\<bar> \<le> ?y * 2 powi (-53)" using rndq_error [of ?y] n(1) by simp
  have "?y * 2 powi (-53) \<le> 10 * 2 powi (-53)" using n m by (intro mult_right_mono) auto
  also have "\<dots> < 1 / 100000000" by (simp add: power_int_minus_divide)
  finally have "\<bar>rndq ?y - ?y\<bar> < 1 / 100000000" using e by linarith
  then show "0 < rndq ?y" "rndq ?y < of_int m / 10000000" using n unfolding abs_less_iff by (simp_all add: field_simps)
qed

text \<open>The class of a health factor, read off the contract's integer.\<close>

definition risk_of_units :: "int \<Rightarrow> risk_level" where
  "risk_of_units n = (if n \<le> 0 then Safe else if n < 10000000 then Critical else if n < 15000000 then Warning else Safe)"

lemma risk_of_scaled:
  assumes "0 \<le> n" "n < 2^127"
  shows "fst (classifyRisk (num_of_big n / Fin 10000000)) = risk_of_units n"
proof -
  let ?y = "rndq (rndq (of_int n) / 10000000)"
  have half: "lit (3/2) = Fin (3/2)" "rndq (3/2) = 3/2"
    using rndq_grid [of 3 "-1"] rnd_110 [of "3/2"] by (simp_all add: power_int_minus_divide)
  have exact: "rndq (of_int n) = of_int n" if "n < 15000000" using that assms(1) by (intro rndq_of_int) simp
  have ge: "rndq (of_int m / 10000000) \<le> ?y" if "m \<le> n" "0 \<le> m" "m \<le> 15000000" for m
    using rndq_mono [of "of_int m" "of_int n"] rndq_of_int [of m] that by (intro rndq_mono divide_right_mono) auto
  consider "n = 0" | "0 < n" "n < 10000000" | "10000000 \<le> n" "n < 15000000" | "15000000 \<le> n"
    using assms(1) by linarith
  then have "fst (classifyRisk (Fin ?y)) = risk_of_units n"
  proof cases
    case 2
    then have "0 < ?y" "?y < 1" using ratio_below [of n 10000000] exact by simp_all
    then show ?thesis using 2 by (simp add: classifyRisk_def risk_of_units_def one_number_def)
  next
    case 3
    then have "1 \<le> ?y" "?y < 3/2" using ge [of 10000000] ratio_below [of n 15000000] exact by simp_all
    then show ?thesis using 3 by (simp add: classifyRisk_def risk_of_units_def one_number_def half)
  next
    case 4
    then have "3/2 \<le> ?y" using ge [of 15000000] half by simp
    then show ?thesis using 4 by (simp add: classifyRisk_def risk_of_units_def one_number_def half)
  qed (simp add: classifyRisk_def risk_of_units_def)
  then show ?thesis by (simp only: scaled_division [OF assms])
qed

subsection \<open>Alerts against the contract\<close>

lemma health_factor_range:
  assumes "books_ok U s" "health_factor u s = Some hf"
  shows "0 \<le> hf \<and> hf < 2^127"
proof -
  note ok = assms(1)[unfolded books_ok_def]
  have "hf < 2^127"
    using assms(2) by (auto simp: health_factor_def compute_health_factor_def quo_def i128_def I128_MAX_def bind_eq_Some_conv split: if_splits)
  moreover have "0 \<le> hf"
  proof (cases "borrowed s u = 0")
    case True
    then show ?thesis using assms(2) by (simp add: health_factor_def compute_health_factor_def I128_MAX_def)
  next
    case False
    then have b: "0 < borrowed s u" using ok by (metis order_le_neq_trans)
    then have "hf = collateral s u * exchange_rate s * liquidation_threshold s div (10000 * borrowed s u)"
      using assms(2) ok unfolding health_factor_def by (intro health_factor_value) auto
    then show ?thesis using ok b by (simp add: pos_imp_zdiv_nonneg_iff)
  qed
  ultimately show ?thesis by simp
qed

lemma liquidate_succeeds_iff:
  assumes "health_factor u s = Some hf" "borrowed s u \<le> xlm_of s l" "seized (collateral s u) (borrowed s u) s = Some q"
    "q \<le> sxlm_pool s" "0 \<le> borrowed s u"
  shows "liquidate l u s \<noteq> None \<longleftrightarrow> hf < RATE_PRECISION"
proof
  assume "hf < RATE_PRECISION"
  moreover have "borrowed s u \<noteq> 0"
    using assms(1) calculation by (auto simp: health_factor_def compute_health_factor_def I128_MAX_def RATE_PRECISION_def)
  moreover have "seized c b (s\<lparr>xlm_of := f, xlm_pool := p\<rparr>) = seized c b s" for c b f p by (simp add: seized_def)
  ultimately show "liquidate l u s \<noteq> None"
    using assms by (simp add: liquidate_def health_factor_def assert_that_def xlm_to_pool_def sxlm_from_pool_def Let_def)
qed (use assms(1) liquidate_refuses_healthy [of u s hf l] in linarith)

lemma alert_outcomes:
  assumes "books_ok U s" "health_factor u s = Some hf" "borrowed s u \<le> xlm_of s l"
    "seized (collateral s u) (borrowed s u) s = Some q" "q \<le> sxlm_pool s"
    and "alerts_route (Inr (Some hf)) fallback u tbl = Inr a"
  shows "al_riskLevel a = Critical \<longleftrightarrow> liquidate l u s \<noteq> None \<and> hf \<noteq> 0"
    and "hf = 0 \<Longrightarrow> liquidate l u s \<noteq> None \<and> al_riskLevel a = Safe \<and> al_recommendation a = ''No active debt position detected.''"
proof -
  note range = health_factor_range [OF assms(1,2)]
  have "0 \<le> borrowed s u" using assms(1) by (simp add: books_ok_def)
  note liq = liquidate_succeeds_iff [OF assms(2-5) this]
  have a: "a = alert_of u (num_of_big hf / Fin 10000000) Chain" using assms(6) by (simp add: alerts_route_def or_else_def)
  show "al_riskLevel a = Critical \<longleftrightarrow> liquidate l u s \<noteq> None \<and> hf \<noteq> 0"
    unfolding liq a using range by (auto simp: alert_of_def risk_of_scaled risk_of_units_def RATE_PRECISION_def)
  show "liquidate l u s \<noteq> None \<and> al_riskLevel a = Safe \<and> al_recommendation a = ''No active debt position detected.''" if "hf = 0"
    using that liq by (simp add: a alert_of_def RATE_PRECISION_def scaled_division classifyRisk_def)
qed

text \<open>
  C29. The alert a wallet gets is critical exactly when the contract would let a liquidator with enough funds liquidate it,
  except at a health factor of zero units: there the contract liquidates, and the alert is that there is
  no active debt.\<close>

theorem alerts_match_liquidation:
  assumes "books_ok U s" "health_factor u s = Some hf" "borrowed s u \<le> xlm_of s l"
    "seized (collateral s u) (borrowed s u) s = Some q" "q \<le> sxlm_pool s"
    and "alerts_route (Inr (Some hf)) fallback u tbl = Inr a"
  shows "(al_riskLevel a = Critical \<longleftrightarrow> liquidate l u s \<noteq> None \<and> hf \<noteq> 0) \<and>
    (hf = 0 \<longrightarrow> liquidate l u s \<noteq> None \<and> al_riskLevel a = Safe \<and> al_recommendation a = ''No active debt position detected.'')"
  using alert_outcomes [OF assms] by blast

text \<open>A position whose collateral was all seized, with debt left over.\<close>

definition insolvent :: lending where
  "insolvent = demo_lending\<lparr>collateral := (\<lambda>_. 0), total_collateral := 0\<rparr>"

theorem alerts_match_liquidation_witness:
  "liquidate ''L'' ''B'' insolvent \<noteq> None \<and>
   alerts_route (Inr (Some 0)) None ''B'' [] = Inr (alert_of ''B'' (num_of_big 0 / Fin 10000000) Chain) \<and>
   al_riskLevel (alert_of ''B'' (num_of_big 0 / Fin 10000000) Chain) = Safe"
proof -
  have books: "books_ok {''B'', ''L''} insolvent"
    by (simp add: books_ok_def insolvent_def demo_lending_def)
  have hf: "health_factor ''B'' insolvent = Some 0" "seized (collateral insolvent ''B'') (borrowed insolvent ''B'') insolvent = Some 0"
    by code_simp+
  have run: "alerts_route (Inr (Some 0)) None ''B'' [] = Inr (alert_of ''B'' (num_of_big 0 / Fin 10000000) Chain)"
    by (simp add: alerts_route_def or_else_def)
  have "borrowed insolvent ''B'' \<le> xlm_of insolvent ''L''" "0 \<le> sxlm_pool insolvent"
    by (simp_all add: insolvent_def demo_lending_def)
  then show ?thesis using alerts_match_liquidation [OF books hf(1) _ hf(2) _ run] run by simp
qed

subsection \<open>The copy of the positions\<close>

definition position_table_ok :: "position_row list \<Rightarrow> bool" where
  "position_table_ok tbl \<longleftrightarrow> distinct (map po_id tbl) \<and> distinct (map po_wallet tbl)"

interpretation positions: copy_table po_id po_wallet set_position new_position position_table_ok
  by unfold_locales (auto simp: set_position_def new_position_def position_table_ok_def split: prod.split)

lemma sync_keeps_table:
  "sync_position ev w c d hf tbl = Inr tbl' \<Longrightarrow> position_table_ok tbl \<Longrightarrow> position_table_ok tbl'"
  by (auto simp: sync_position_def positions.write_keeps_ok split: if_splits option.splits)

lemma sync_shows:
  assumes "sync_position ev w c d hf tbl = Inr tbl'" "position_table_ok tbl" "0 < c \<or> 0 < d"
  shows "\<exists>row. lookup_by po_wallet w tbl' = Some row \<and> po_sxlm row = c \<and> po_xlm row = d"
    and "v \<noteq> w \<Longrightarrow> lookup_by po_wallet v tbl' = lookup_by po_wallet v tbl"
  using assms
  by (auto simp: sync_position_def positions.lookup_write set_position_def new_position_def
      split: if_splits option.splits)

text \<open>Requests for positions, one after the other.\<close>

fun position_requests :: "(position_env \<times> wallet) list \<Rightarrow> position_row list \<Rightarrow> position_row list" where
  "position_requests [] tbl = tbl"
| "position_requests ((ev, w) # rs) tbl = position_requests rs (fst (position_route ev w tbl))"

lemma position_route_cases:
  assumes "position_route ev w tbl = (tbl', r)"
  obtains (kept) "tbl' = tbl" | (wrote) c d hf where "sync_position ev w c d hf tbl = Inr tbl'" "0 < c \<or> 0 < d"
      "pe_position ev = Inr (Some (c, d))"
proof (cases "chain_position ev w tbl")
  case (Inr p)
  then obtain c d hf where "sync_position ev w c d hf tbl = Inr tbl'" "or_else (0, 0) (case pe_position ev of Inr p \<Rightarrow> p | _ \<Rightarrow> None) = (c, d)"
    using assms by (auto simp: position_route_def chain_position_def Let_def split: sum.splits prod.splits)
  then show ?thesis using kept wrote
    by (cases "0 < c \<or> 0 < d") (auto simp: sync_position_def or_else_def split: sum.splits option.splits)
qed (use assms kept in \<open>simp add: position_route_def\<close>)

lemma position_requests_outcome:
  assumes "position_table_ok tbl"
  shows "position_table_ok (position_requests rs tbl)"
    and "position_route ev w tbl = (tbl', r) \<Longrightarrow> tbl' \<noteq> tbl \<Longrightarrow>
      \<exists>c d row. pe_position ev = Inr (Some (c, d)) \<and> lookup_by po_wallet w tbl' = Some row \<and> po_sxlm row = c \<and> po_xlm row = d \<and>
        (\<forall>v. v \<noteq> w \<longrightarrow> lookup_by po_wallet v tbl' = lookup_by po_wallet v tbl)"
proof -
  have "position_table_ok tbl \<Longrightarrow> position_table_ok (fst (position_route ev w tbl))" for ev w and tbl :: "position_row list"
    using sync_keeps_table
    by (cases "position_route ev w tbl") (auto elim!: position_route_cases)
  then show "position_table_ok (position_requests rs tbl)" using assms
    by (induction rs tbl rule: position_requests.induct) auto
  assume run: "position_route ev w tbl = (tbl', r)" and ne: "tbl' \<noteq> tbl"
  from run show "\<exists>c d row. pe_position ev = Inr (Some (c, d)) \<and> lookup_by po_wallet w tbl' = Some row \<and> po_sxlm row = c \<and> po_xlm row = d \<and>
        (\<forall>v. v \<noteq> w \<longrightarrow> lookup_by po_wallet v tbl' = lookup_by po_wallet v tbl)"
  proof (cases rule: position_route_cases)
    case (wrote c d hf)
    then show ?thesis using sync_shows [OF wrote(1) assms wrote(2)] by auto
  qed (use ne in simp)
qed


definition demo_position :: "(thrown + (int \<times> int) option) \<Rightarrow> position_env" where
  "demo_position p = \<lparr>pe_position = p, pe_health = Inr (Some 12000000), pe_factor = Inr None, pe_rate = Inr None,
     pe_find = None, pe_write = None, pe_fallback = None, pe_now = 9\<rparr>"


lemma closed_position_outcome:
  assumes "pe_position ev = Inr (Some (0, 0))" "position_table_ok tbl" "lookup_by po_wallet w tbl = Some old"
    and "pe_position ev2 = Inl t" "pe_fallback ev2 = None"
  shows "fst (position_route ev w tbl) = tbl"
    and "\<exists>r. snd (position_route ev2 w (fst (position_route ev w tbl))) = Inr r \<and> pr_xlmBorrowedRaw r = dec_int (po_xlm old) \<and>
           pr_healthFactor r = po_hf old"
proof -
  show keep: "fst (position_route ev w tbl) = tbl"
  proof (cases "position_route ev w tbl")
    case (Pair a b)
    then show ?thesis using assms(1) by (auto elim!: position_route_cases)
  qed
  have "filter (\<lambda>r. po_wallet r = w) tbl = [old]"
  proof -
    have "old \<in> set tbl" "po_wallet old = w" using lookup_by_Some [OF assms(3)] by auto
    then show ?thesis using assms(2) unfolding position_table_ok_def
      by (induction tbl) (auto simp: filter_empty_conv image_iff)
  qed
  then have "newest_position w tbl = Some old" by (simp add: newest_position_def)
  then show "\<exists>r. snd (position_route ev2 w (fst (position_route ev w tbl))) = Inr r \<and> pr_xlmBorrowedRaw r = dec_int (po_xlm old) \<and>
           pr_healthFactor r = po_hf old"
    using assms(4,5) unfolding keep by (simp add: position_route_def chain_position_def fallback_position_def)
qed

text \<open>
  A position that has been closed on chain is never removed: a request that finds it empty leaves the old row, and as soon as the
  chain cannot be read the old debt is reported again.\<close>

theorem closed_positions_stay:
  assumes "pe_position ev = Inr (Some (0, 0))" "position_table_ok tbl" "lookup_by po_wallet w tbl = Some old"
    and "pe_position ev2 = Inl t" "pe_fallback ev2 = None"
  shows "fst (position_route ev w tbl) = tbl \<and>
    (\<exists>r. snd (position_route ev2 w (fst (position_route ev w tbl))) = Inr r \<and> pr_xlmBorrowedRaw r = dec_int (po_xlm old) \<and>
           pr_healthFactor r = po_hf old)"
  using closed_position_outcome [OF assms] by blast

theorem closed_positions_stay_witness:
  "\<exists>r. snd (position_route (demo_position (Inl None)) ''B'' (fst (position_route (demo_position (Inr (Some (0, 0)))) ''B''
     [\<lparr>po_id = 1, po_wallet = ''B'', po_sxlm = 1000, po_xlm = 600, po_hf = Fin 2, po_updatedAt = 3\<rparr>]))) = Inr r \<and>
     pr_xlmBorrowedRaw r = dec_int 600"
  using closed_positions_stay [of "demo_position (Inr (Some (0, 0)))"
      "[\<lparr>po_id = 1, po_wallet = ''B'', po_sxlm = 1000, po_xlm = 600, po_hf = Fin 2, po_updatedAt = 3\<rparr>]" "''B''"
      "\<lparr>po_id = 1, po_wallet = ''B'', po_sxlm = 1000, po_xlm = 600, po_hf = Fin 2, po_updatedAt = 3\<rparr>" "demo_position (Inl None)" None]
  by (auto simp: demo_position_def position_table_ok_def lookup_by_def)

subsection \<open>The borrowing limit shown\<close>

text \<open>\<open>y\<close> is \<open>x\<close> up to \<open>k\<close> roundings.\<close>

definition near :: "nat \<Rightarrow> rat \<Rightarrow> rat \<Rightarrow> bool" where
  "near k x y \<longleftrightarrow> x * (1 - 1/2^53) ^ k \<le> y \<and> y \<le> x * (1 + 1/2^53) ^ k"

lemma near_refl: "near 0 x x"
  by (simp add: near_def)

lemma near_scale: "near k x y \<Longrightarrow> 0 \<le> a \<Longrightarrow> near k (x * a) (y * a)"
  unfolding near_def
  using mult_right_mono [of "x * (1 - 1/2^53) ^ k" y a] mult_right_mono [of y "x * (1 + 1/2^53) ^ k" a]
  by (simp add: mult.commute mult.left_commute)

lemma near_half_double:
  assumes "near k x y" "k \<le> 5" "0 \<le> x"
  shows "x / 2 \<le> y" "y \<le> 2 * x"
proof -
  have low: "(1 - 1/2^53 :: rat) ^ 5 \<le> (1 - 1/2^53) ^ k" using assms(2) by (intro power_decreasing) auto
  have "(1/2 :: rat) \<le> (1 - 1/2^53) ^ 5" by (simp add: eval_nat_numeral)
  from mult_left_mono [OF order_trans [OF this low] assms(3)] have "x * (1/2) \<le> x * (1 - 1/2^53) ^ k" .
  then show "x / 2 \<le> y" using assms(1) unfolding near_def by linarith
  have high: "(1 + 1/2^53 :: rat) ^ k \<le> (1 + 1/2^53) ^ 5" using assms(2) by (intro power_increasing) auto
  have "(1 + 1/2^53 :: rat) ^ 5 \<le> 2" by (simp add: eval_nat_numeral)
  from mult_left_mono [OF order_trans [OF high this] assms(3)] have "x * (1 + 1/2^53) ^ k \<le> x * 2" .
  then show "y \<le> 2 * x" using assms(1) unfolding near_def by linarith
qed

lemma near_rndq:
  assumes "near k x y" "k \<le> 5" "1 / 2^100 \<le> x"
  shows "near (Suc k) x (rndq y)"
proof -
  let ?u = "1/2^53 :: rat"
  have x: "0 < x" using assms(3) by (rule less_le_trans [rotated]) simp
  have "(2::rat) powi (-1022) \<le> 2 powi (-101)" by (rule powi_mono) simp
  also have "\<dots> = 1 / 2^100 / 2" by (simp add: power_int_minus_divide)
  also have "\<dots> \<le> y" using near_half_double(1) [OF assms(1,2) less_imp_le [OF x]] assms(3) by (meson divide_right_mono order_trans zero_le_numeral)
  finally have small: "2 powi (-1022) \<le> y" .
  then have y: "0 < y" using powi_pos [of "-1022"] by linarith
  have "\<bar>rndq y - y\<bar> \<le> y * ?u" using rndq_error [of y] small y by (simp add: power_int_minus_divide)
  then have r: "y * (1 - ?u) \<le> rndq y" "rndq y \<le> y * (1 + ?u)" unfolding abs_le_iff by (simp_all add: algebra_simps)
  have "x * (1 - ?u) ^ k * (1 - ?u) \<le> y * (1 - ?u)" "y * (1 + ?u) \<le> x * (1 + ?u) ^ k * (1 + ?u)"
    using assms(1) unfolding near_def by (intro mult_right_mono; simp)+
  then show ?thesis using r unfolding near_def power_Suc2 mult.assoc by linarith
qed

lemma near_rnd:
  assumes "near k x y" "k \<le> 5" "1 / 2^100 \<le> x" "x \<le> 2^290"
  obtains z where "rnd y = Fin z" "near (Suc k) x z"
proof -
  have x: "0 \<le> x" using assms(3) by (rule order_trans [rotated]) simp
  have "y \<le> 2 * 2^290" "0 \<le> y" using near_half_double [OF assms(1,2) x] assms(4) x by linarith+
  moreover have "2 * 2^290 \<le> (2^300 :: rat)" by simp
  ultimately have "rnd y = Fin (rndq y)" by (intro rnd_Fin_300) simp
  then show ?thesis using near_rndq [OF assms(1-3)] that by blast
qed

lemma near_5:
  assumes "near 5 x y" "0 \<le> x"
  shows "\<bar>y - x\<bar> \<le> x * (6 / 2^53)"
proof -
  have "(1 - 6/2^53 :: rat) \<le> (1 - 1/2^53) ^ 5" "(1 + 1/2^53 :: rat) ^ 5 \<le> 1 + 6/2^53"
    by (simp_all add: eval_nat_numeral)
  then have "x * (1 - 6/2^53) \<le> x * (1 - 1/2^53) ^ 5" "x * (1 + 1/2^53) ^ 5 \<le> x * (1 + 6/2^53)"
    using assms(2) by (intro mult_left_mono; simp)+
  then have "x * (1 - 6/2^53) \<le> y" "y \<le> x * (1 + 6/2^53)" using assms(1) unfolding near_def by linarith+
  then have "x - x * (6/2^53) \<le> y" "y \<le> x + x * (6/2^53)" by (simp_all only: right_diff_distrib distrib_left mult_1_right)
  then show ?thesis unfolding abs_le_iff by linarith
qed

text \<open>
  The borrowing limit the position route shows is the contract's formula, in XLM instead of stroops and without its
  last rounding down, up to a relative error of six units in the last place.\<close>

theorem shown_max_borrow_accurate:
  assumes "0 < c" "c \<le> 2^127" "0 < er" "er \<le> 2^53" "0 < cf" "cf \<le> 2^53"
  shows "\<exists>x. shown_max_borrow c (num_of_big er) (num_of_big cf) = Fin x \<and>
    \<bar>x * 10000000 - of_int (c * er * cf) / 100000000000\<bar> \<le> of_int (c * er * cf) / 100000000000 * (6 / 2^53)"
proof -
  define C E F where "C = (of_int c :: rat)" and "E = (of_int er :: rat)" and "F = (of_int cf :: rat)"
  have le: "(of_int n :: rat) \<le> 2^k" if "n \<le> 2^k" for n k using that by (metis of_int_le_iff of_int_numeral of_int_power)
  have b: "1 \<le> C" "C \<le> 2^127" "1 \<le> E" "E \<le> 2^53" "1 \<le> F" "F \<le> 2^53"
    using assms le by (simp_all add: C_def E_def F_def)
  have CE: "1 \<le> C * E" "C * E \<le> 2^127 * 2^53" using b mult_mono [of 1 C 1 E] mult_mono [of C "2^127" E "2^53"] by simp_all
  have CEF: "1 \<le> C * E * F" "C * E * F \<le> 2^127 * 2^53 * 2^53"
    using b CE mult_mono [of 1 "C * E" 1 F] mult_mono [of "C * E" "2^127 * 2^53" F "2^53"] by simp_all
  have num: "num_of_big er = Fin E" "num_of_big cf = Fin F" using assms by (simp_all add: num_of_big_exact E_def F_def)
  obtain z1 where z1: "num_of_big c = Fin z1" "near 1 C z1"
    using near_rnd [OF near_refl, of C] b by (auto simp: num_of_big_def C_def)
  obtain z2 where z2: "rnd (z1 * E) = Fin z2" "near 2 (C * E) z2"
    using near_rnd [OF near_scale [OF z1(2), of E]] b CE by (auto simp: numeral_2_eq_2)
  obtain z3 where z3: "rnd (z2 * F) = Fin z3" "near 3 (C * E * F) z3"
    using near_rnd [OF near_scale [OF z2(2), of F]] b CEF by (auto simp: numeral_3_eq_3 numeral_2_eq_2)
  let ?X = "C * E * F / 100000000000"
  have X: "1 / 100000000000 \<le> ?X" "?X \<le> 2^240" using CEF by simp_all
  obtain z4 where z4: "rnd (z3 / 100000000000) = Fin z4" "near 4 ?X z4"
    using near_rnd [OF near_scale [OF z3(2), of "1/100000000000"]] X by (auto simp: eval_nat_numeral)
  obtain z5 where z5: "rnd (z4 / 10000000) = Fin z5" "near 5 (?X / 10000000) z5"
    using near_rnd [OF near_scale [OF z4(2), of "1/10000000"]] X by (auto simp: eval_nat_numeral)
  have "shown_max_borrow c (num_of_big er) (num_of_big cf) = Fin z5"
    by (simp add: shown_max_borrow_def num z1 z2 z3 z4 z5)
  moreover have "near 5 ?X (z5 * 10000000)" using near_scale [OF z5(2), of 10000000] by (simp add: mult.assoc)
  then have "\<bar>z5 * 10000000 - ?X\<bar> \<le> ?X * (6 / 2^53)" using X(1) by (intro near_5) auto
  ultimately show ?thesis unfolding C_def E_def F_def of_int_mult by blast
qed

theorem shown_max_borrow_accurate_witness:
  "\<exists>x. shown_max_borrow 10000000000 (num_of_big 10000000) (num_of_big 7000) = Fin x \<and>
    \<bar>x * 10000000 - 7000000000\<bar> \<le> 7000000000 * (6 / 2^53)"
  using shown_max_borrow_accurate [of 10000000000 10000000 7000] by simp

end
