(* ===== verification/Api_Liquidity.thy ===== *)
theory Api_Liquidity
  imports Dex_Service Lp_Pool Api_Lending
begin

text \<open>
  \<open>api-gateway/routes/liquidity.ts\<close>: the unsigned transactions that add, remove and swap, the share of a wallet with
  its copy in the \<open>lp_positions\<close> table, and the pool's statistics.
\<close>

subsection \<open>Requests\<close>

definition addLiquiditySchema :: "body \<Rightarrow> ((string \<times> number) \<times> number) parsed" where
  "addLiquiditySchema b =
     zod_both (zod_both (zod_field ''userAddress'' address56 b) (zod_field ''xlmAmount'' positive_number b))
       (zod_field ''sxlmAmount'' positive_number b)"

definition removeLiquiditySchema :: "body \<Rightarrow> (string \<times> number) parsed" where
  "removeLiquiditySchema b = zod_both (zod_field ''userAddress'' address56 b) (zod_field ''lpAmount'' positive_number b)"

definition minOut_field :: "json option \<Rightarrow> number parsed" where
  "minOut_field v =
     (case v of
        None \<Rightarrow> Inr 0
      | Some (Api_Gateway.J_num n) \<Rightarrow> if n \<ge> 0 then Inr n else Inl [([], Type_issue)]
      | _ \<Rightarrow> Inl [([], Type_issue)])"

definition swapSchema :: "body \<Rightarrow> ((string \<times> number) \<times> number) parsed" where
  "swapSchema b =
     zod_both (zod_both (zod_field ''userAddress'' address56 b) (zod_field ''amount'' positive_number b))
       (zod_field ''minOut'' minOut_field b)"

definition buildLpTx :: "invocation \<Rightarrow> build_env \<Rightarrow> thrown + (invocation \<times> string)" where
  "buildLpTx iv ev =
     (case build_tx ev of
        Threw t \<Rightarrow> Inl t
      | Built xdr \<Rightarrow> Inr (iv, xdr)
      | Sim_failed e \<Rightarrow> Inl (Some (''Simulation failed: '' @ e)))"

text \<open>
  What the four routes share: amounts in stroops, each refused if it is no integer after scaling or does not fit its
  type; whatever is thrown is answered with status 400.\<close>

fun each_ok :: "('a \<Rightarrow> 'e + 'b) \<Rightarrow> 'a list \<Rightarrow> 'e + 'b list" where
  "each_ok f [] = Inr []"
| "each_ok f (a # as) = bind_result (f a) (\<lambda>b. bind_result (each_ok f as) (\<lambda>bs. return (b # bs)))"

definition to_stroops :: "number \<Rightarrow> thrown + stroops" where
  "to_stroops a = (case amount_stroops a of Inl e \<Rightarrow> Inl (Some ''RangeError'') | Inr s \<Rightarrow> Inr s)"

definition to_args :: "number list \<Rightarrow> thrown + sc_arg list" where
  "to_args amounts = bind_result (each_ok to_stroops amounts) (each_ok to_i128)"

definition lp_route :: "string \<Rightarrow> string \<Rightarrow> (string \<times> number list) parsed \<Rightarrow> build_env \<Rightarrow> (invocation \<times> string) reply" where
  "lp_route meth dflt q ev =
     (case q of
        Inl iss \<Rightarrow> Inl (400, Issues iss)
      | Inr (user, amounts) \<Rightarrow>
          (case bind_result (to_args amounts) (\<lambda>args.
                  buildLpTx \<lparr>on_contract = Lp_Pool, call_method = meth, call_args = SC_address user # args\<rparr> ev) of
             Inl t \<Rightarrow> Inl (400, message_or dflt t)
           | Inr r \<Rightarrow> Inr r))"

definition map_parsed :: "('a \<Rightarrow> 'b) \<Rightarrow> 'a parsed \<Rightarrow> 'b parsed" where
  "map_parsed f p = (case p of Inl iss \<Rightarrow> Inl iss | Inr v \<Rightarrow> Inr (f v))"

definition add_route :: "build_env \<Rightarrow> body \<Rightarrow> (invocation \<times> string) reply" where
  "add_route ev b = lp_route ''add_liquidity'' ''Add liquidity failed''
     (map_parsed (\<lambda>((u, x), s). (u, [x, s])) (addLiquiditySchema b)) ev"

definition remove_route :: "build_env \<Rightarrow> body \<Rightarrow> (invocation \<times> string) reply" where
  "remove_route ev b = lp_route ''remove_liquidity'' ''Remove liquidity failed''
     (map_parsed (\<lambda>(u, l). (u, [l])) (removeLiquiditySchema b)) ev"

definition swap_xlm_route :: "build_env \<Rightarrow> body \<Rightarrow> (invocation \<times> string) reply" where
  "swap_xlm_route ev b = lp_route ''swap_xlm_to_sxlm'' ''Swap failed''
     (map_parsed (\<lambda>((u, a), m). (u, [a, m])) (swapSchema b)) ev"

definition swap_sxlm_route :: "build_env \<Rightarrow> body \<Rightarrow> (invocation \<times> string) reply" where
  "swap_sxlm_route ev b = lp_route ''swap_sxlm_to_xlm'' ''Swap failed''
     (map_parsed (\<lambda>((u, a), m). (u, [a, m])) (swapSchema b)) ev"

subsection \<open>Positions\<close>

record lp_row =
  lr_id :: int
  lr_wallet :: wallet
  lr_tokens :: stroops
  lr_xlm :: stroops
  lr_sxlm :: stroops
  lr_updatedAt :: millis

record lp_env =
  lq_balance :: "thrown + int option"
  lq_reserves :: "thrown + (int \<times> int) option"
  lq_total :: "thrown + int option"
  lq_find :: "thrown option"
  lq_write :: "thrown option"
  lq_fallback :: "thrown option"
  lq_now :: millis

record lp_reply =
  lp_wallet :: wallet
  lp_lpTokens :: number
  lp_lpTokensRaw :: string
  lp_sharePercent :: number
  lp_xlmShare :: number
  lp_sxlmShare :: number

definition pool_share :: "int \<Rightarrow> int \<Rightarrow> int \<Rightarrow> int" where
  "pool_share lpTokens reserve totalLp = (if totalLp > 0 then bdiv (lpTokens * reserve) totalLp else 0)"

definition set_lp_row :: "int \<times> int \<times> int \<times> millis \<Rightarrow> lp_row \<Rightarrow> lp_row" where
  "set_lp_row v r = (case v of (n, x, s, now) \<Rightarrow> r\<lparr>lr_tokens := n, lr_xlm := x, lr_sxlm := s, lr_updatedAt := now\<rparr>)"

definition new_lp_row :: "int \<Rightarrow> wallet \<Rightarrow> int \<times> int \<times> int \<times> millis \<Rightarrow> lp_row" where
  "new_lp_row i w v = (case v of (n, x, s, now) \<Rightarrow>
     \<lparr>lr_id = i, lr_wallet = w, lr_tokens = n, lr_xlm = x, lr_sxlm = s, lr_updatedAt = now\<rparr>)"

definition sync_lp_row :: "lp_env \<Rightarrow> wallet \<Rightarrow> int \<Rightarrow> int \<Rightarrow> int \<Rightarrow> lp_row list \<Rightarrow> thrown + lp_row list" where
  "sync_lp_row ev w n x s tbl =
     (if n > 0
      then (case lq_find ev of
              Some t \<Rightarrow> Inl t
            | None \<Rightarrow>
                (case lq_write ev of
                   Some t \<Rightarrow> Inl t
                 | None \<Rightarrow> Inr (write_by lr_id lr_wallet set_lp_row new_lp_row w (n, x, s, lq_now ev) tbl)))
      else Inr tbl)"

definition chain_share :: "lp_env \<Rightarrow> wallet \<Rightarrow> lp_row list \<Rightarrow> thrown + (lp_row list \<times> lp_reply)" where
  "chain_share ev w tbl =
     bind_result (lq_balance ev) (\<lambda>lpBalance. bind_result (lq_reserves ev) (\<lambda>reserves. bind_result (lq_total ev) (\<lambda>totalLp.
       let n = or_else 0 lpBalance; total_lp = or_else 0 totalLp; (rx, rs) = or_else (0, 0) reserves;
           sharePercent = (if total_lp > 0 then num_of_big n / num_of_big total_lp * lit 100 else 0);
           userXlm = pool_share n rx total_lp; userSxlm = pool_share n rs total_lp
       in bind_result (sync_lp_row ev w n userXlm userSxlm tbl) (\<lambda>tbl'.
          return (tbl', \<lparr>lp_wallet = w, lp_lpTokens = num_of_big n / lit 10000000, lp_lpTokensRaw = dec_int n,
            lp_sharePercent = sharePercent, lp_xlmShare = num_of_big userXlm / lit 10000000,
            lp_sxlmShare = num_of_big userSxlm / lit 10000000\<rparr>)))))"

definition fallback_share :: "wallet \<Rightarrow> lp_row list \<Rightarrow> lp_reply" where
  "fallback_share w tbl =
     (case sort_key (\<lambda>r. - lr_updatedAt r) (filter (\<lambda>r. lr_wallet r = w) tbl) of
        r # _ \<Rightarrow> \<lparr>lp_wallet = w, lp_lpTokens = num_of_big (lr_tokens r) / lit 10000000, lp_lpTokensRaw = dec_int (lr_tokens r),
                 lp_sharePercent = 0, lp_xlmShare = num_of_big (lr_xlm r) / lit 10000000,
                 lp_sxlmShare = num_of_big (lr_sxlm r) / lit 10000000\<rparr>
      | [] \<Rightarrow> \<lparr>lp_wallet = w, lp_lpTokens = 0, lp_lpTokensRaw = ''0'', lp_sharePercent = 0, lp_xlmShare = 0, lp_sxlmShare = 0\<rparr>)"

definition share_route :: "lp_env \<Rightarrow> wallet \<Rightarrow> lp_row list \<Rightarrow> lp_row list \<times> (thrown + lp_reply)" where
  "share_route ev w tbl =
     (case chain_share ev w tbl of
        Inr (tbl', r) \<Rightarrow> (tbl', Inr r)
      | Inl t \<Rightarrow> (tbl, case lq_fallback ev of Some e \<Rightarrow> Inl e | None \<Rightarrow> Inr (fallback_share w tbl)))"

subsection \<open>Statistics\<close>

record pool_stats =
  pt_reserveXlm :: number
  pt_reserveSxlm :: number
  pt_totalLpSupply :: number
  pt_price :: number
  pt_feeBps :: int
  pt_tvl :: number
  pt_oracle :: "oracle_snapshot option"
  pt_activePrograms :: nat

text \<open>
  The pool is read twice, for the snapshot and for the oracle, which records it; the programs are
  synchronised whether or not the others succeed.\<close>

definition pool_stats_route :: "dex_env \<Rightarrow> dex_env \<Rightarrow> dex_db \<Rightarrow> dex_db \<times> pool_stats" where
  "pool_stats_route ev oracle_ev db =
     (let (db1, oracle) = getOracleSnapshot 900 oracle_ev db; (db2, programs) = programs_in_db ev db1
      in (db2, case (getCurrentPoolSnapshot ev, oracle, programs) of
           (Inr snap, Inr o1, Inr ps) \<Rightarrow>
             (let rx = rawAmountToDisplay (reserveXlmRaw snap); rs = rawAmountToDisplay (reserveSxlmRaw snap)
              in \<lparr>pt_reserveXlm = rx, pt_reserveSxlm = rs, pt_totalLpSupply = rawAmountToDisplay (totalLpSupplyRaw snap),
                  pt_price = os_spotPrice o1, pt_feeBps = feeBps snap, pt_tvl = rx + rs * os_twapPrice o1,
                  pt_oracle = Some o1,
                  pt_activePrograms = length (filter (\<lambda>r. lm_status (row_program r) = ''active'') ps)\<rparr>)
         | _ \<Rightarrow> \<lparr>pt_reserveXlm = 0, pt_reserveSxlm = 0, pt_totalLpSupply = 0, pt_price = 1, pt_feeBps = 30, pt_tvl = 0,
                 pt_oracle = None, pt_activePrograms = 0\<rparr>))"

subsection \<open>Mining\<close>

text \<open>What is thrown here is left to the error handler.\<close>

record program_view =
  pv_row :: lm_row
  pv_rewardPerDay :: number
  pv_rewardPerDayRaw :: string
  pv_minLpTokens :: number
  pv_minLpTokensRaw :: string
  pv_totalRewardsRaw :: string
  pv_distributedRewardsRaw :: string

definition view_program :: "lm_row \<Rightarrow> program_view" where
  "view_program r =
     (let p = row_program r
      in \<lparr>pv_row = r, pv_rewardPerDay = rawAmountToDisplay (lm_rewardPerDayRaw p),
          pv_rewardPerDayRaw = dec_int (lm_rewardPerDayRaw p), pv_minLpTokens = rawAmountToDisplay (lm_minLpTokensRaw p),
          pv_minLpTokensRaw = dec_int (lm_minLpTokensRaw p), pv_totalRewardsRaw = dec_int (lm_totalRewardsRaw p),
          pv_distributedRewardsRaw = dec_int (lm_distributedRewardsRaw p)\<rparr>)"

definition mining_programs_route :: "dex_env \<Rightarrow> dex_db \<Rightarrow> dex_db \<times> (js_error + program_view list \<times> nat)" where
  "mining_programs_route ev db =
     then_call (programs_in_db ev db) (\<lambda>rs db'. (db', Inr (map view_program rs, length rs)))"

text \<open>The programs are synchronised whatever the pool and the balance answer.\<close>

definition mining_position_route ::
  "(string \<Rightarrow> bool) \<Rightarrow> js_error + stroops sim_reply \<Rightarrow> js_error + stroops option \<Rightarrow> dex_env \<Rightarrow> wallet \<Rightarrow> dex_db \<Rightarrow>
     dex_db \<times> (js_error + (wallet \<times> number \<times> string \<times> (lm_estimate \<times> string) list))" where
  "mining_position_route isAddress view cached ev w db =
     (let (db', programs) = programs_in_db ev db
      in (db', bind_result (getLiquidityMiningPosition (getCurrentPoolSnapshot ev) (loadLiveLpBalance isAddress view cached w)
                 programs (dx_now ev)) (\<lambda>(user, es).
               return (w, rawAmountToDisplay user, dec_int user, map (\<lambda>e. (e, dec_int (es_dailyRaw e))) es))))"

subsection \<open>From a quote to a swap\<close>

lemma scaled_again:
  assumes "0 \<le> n" "n < 2^52"
  shows "\<exists>m. amount_stroops (rawAmountToDisplay n) = Inr m \<and> n - 1 \<le> m \<and> m \<le> n \<and> 0 \<le> m \<and> rawAmountToDisplay n \<ge> 0"
proof (cases "n = 0")
  case True
  then show ?thesis
    by (simp add: rawAmountToDisplay_def STROOPS_PER_XLM_def num_of_big_exact amount_stroops_def zero_number_def)
next
  case False
  then have n: "0 < n" using assms(1) by simp
  obtain m where m: "amount_stroops (num_of_big n / Fin 10000000) = Inr m" "n - 1 \<le> m" "m \<le> n"
    using shown_amount [OF n assms(2)] .
  have "num_of_big n / Fin 10000000 = Fin (rndq (rndq (of_int n) / 10000000))"
    using assms by (intro scaled_division) auto
  moreover have "0 \<le> rndq (rndq (of_int n) / 10000000)" using assms(1) by (intro rndq_nonneg) (simp add: rndq_nonneg)
  ultimately show ?thesis using m n by (simp add: rawAmountToDisplay_def STROOPS_PER_XLM_def)
qed

lemma quote_parts:
  assumes "quoteExactIn s t amt slip = Inr q"
  shows "q_amountInRaw q = amt" "q_minimumAmountOut q = rawAmountToDisplay (q_minimumAmountOutRaw q)" "0 < amt"
  using assms by (auto simp: quoteExactIn_def Let_def bind_result_Inr_iff split: if_splits)

lemma swap_out_min: "swap_out rin rout amt fee m = Some q \<Longrightarrow> m' \<le> m \<Longrightarrow> swap_out rin rout amt fee m' = Some q"
  by (auto simp: swap_out_def Let_def split: option.splits if_splits)

text \<open>The contract's swap for a token, and the route that asks for it.\<close>

definition contract_swap :: "token \<Rightarrow> lp_state \<Rightarrow> int \<Rightarrow> int \<Rightarrow> (int \<times> lp_state) option" where
  "contract_swap t = (if t = XLM then swap_xlm_to_sxlm else swap_sxlm_to_xlm)"

definition swap_route :: "token \<Rightarrow> build_env \<Rightarrow> body \<Rightarrow> (invocation \<times> string) reply" where
  "swap_route t = (if t = XLM then swap_xlm_route else swap_sxlm_route)"

lemma contract_swap_pays:
  assumes "swap_out (if t = XLM then lp_xlm st else lp_sxlm st) (if t = XLM then lp_sxlm st else lp_xlm st) amt (lp_fee_bps st) m = Some q"
    "lp_fee_bps st = 30" "0 \<le> lp_protocol_fee_bps st" "lp_protocol_fee_bps st \<le> 30" "amt * 10000 < 2^127"
  shows "\<exists>st'. contract_swap t st amt m = Some (q, st')"
proof (cases t)
  case XLM
  have d: "0 < amt" "0 \<le> after_fee amt 30" "after_fee amt 30 \<le> amt"
    using swap_out_did [OF assms(1)] assms(2) by simp_all
  have "0 \<le> (amt - after_fee amt 30) * lp_protocol_fee_bps st" using d assms(3) by simp
  moreover have "(amt - after_fee amt 30) * lp_protocol_fee_bps st \<le> amt * 10000"
    using d assms(3,4) by (intro mult_mono) auto
  ultimately have "i128 ((amt - after_fee amt 30) * lp_protocol_fee_bps st) = Some ((amt - after_fee amt 30) * lp_protocol_fee_bps st)"
    using assms(5) by (simp add: i128_def)
  then show ?thesis using assms(1,2) XLM
    by (simp add: contract_swap_def swap_xlm_to_sxlm_def checked_mul_div_def after_fee_def Let_def)
qed (use assms(1) in \<open>simp add: contract_swap_def swap_sxlm_to_xlm_def\<close>)


definition demo_swap_env :: dex_env where
  "demo_swap_env = demo_dex (Inr (Sim_success (Some (10000000, 20000000)))) 40000 []"

definition demo_swap_body :: body where
  "demo_swap_body = (\<lambda>_. None)(''userAddress'' := Some (Api_Gateway.J_str (replicate 56 CHR ''G'')),
     ''amount'' := Some (Api_Gateway.J_num (Fin (1/128))), ''minOut'' := Some (Api_Gateway.J_num (rawAmountToDisplay 153804)))"

definition demo_build :: build_env where
  "demo_build = \<lparr>bt_account = None, bt_sim = Inr None, bt_assemble = Inr ''AAAA''\<rparr>"

definition demo_reserves :: lp_state where
  "demo_reserves = \<lparr>lp_xlm = 10000000, lp_sxlm = 20000000, lp_fee_bps = 30, lp_protocol_fee_bps = 5, lp_accrued = 0\<rparr>"

lemma demo_amount: "displayAmountToRaw (Fin (1/128)) = Inr 78125"
  using rnd_of_int [of 78125] by (simp add: displayAmountToRaw_def STROOPS_PER_XLM_def)

lemma demo_quote:
  "\<exists>q. snd (getQuote XLM (Fin (1/128)) (Fin 50) demo_swap_env demo_dex_db) = Inr q \<and> q_amountInRaw q = 78125 \<and>
     q_amountOutRaw q = 154577 \<and> q_minimumAmountOutRaw q = 153804"
proof -
  have o: "applyConstantProductQuote 10000000 20000000 78125 30 = 154577"
    by (simp add: applyConstantProductQuote_def after_fee_def bdiv_def)
  show ?thesis
    by (simp add: getQuote_def demo_swap_env_def demo_dex_def getCurrentPoolSnapshot_def queryContractView_def
        demo_amount quoteExactIn_def reserve_of_def other_token_def DEFAULT_SWAP_FEE_BPS_def o slip_50 Let_def bdiv_def
        then_call_def record_in_db_def)
qed


subsection \<open>Shares\<close>

definition pool_view :: "wallet \<Rightarrow> lp_pool \<Rightarrow> lp_env" where
  "pool_view u p =
     \<lparr>lq_balance = Inr (Some (pl_lp p u)), lq_reserves = Inr (Some (lp_xlm (pl_state p), lp_sxlm (pl_state p))),
      lq_total = Inr (Some (pl_supply p)), lq_find = None, lq_write = None, lq_fallback = None, lq_now = 0\<rparr>"

text \<open>
  The share a wallet is shown is what the contract pays for all its shares, if nothing happens in
  between.\<close>

theorem shown_share_is_paid_out:
  assumes "pool_ok U p" "u \<in> U" "remove_liquidity now u (pl_lp p u) p = Some ((xo, so, paid), p')"
    "share_route (pool_view u p) u tbl = (tbl', r)"
  shows "\<exists>v. r = Inr v \<and> lp_xlmShare v = rawAmountToDisplay xo \<and> lp_sxlmShare v = rawAmountToDisplay so \<and>
    lp_lpTokensRaw v = dec_int (pl_lp p u)"
proof -
  have "0 < pl_supply p \<and> xo = pool_share (pl_lp p u) (lp_xlm (pl_state p)) (pl_supply p) \<and>
      so = pool_share (pl_lp p u) (lp_sxlm (pl_state p)) (pl_supply p) \<and> 0 < pl_lp p u"
    by (rule remove_did [OF assms(3)]) (use pool_ok_supply [OF assms(1,2)] in \<open>simp add: pool_share_def\<close>)
  then show ?thesis
    using assms(4)
    by (auto simp: share_route_def chain_share_def pool_view_def Let_def or_else_def sync_lp_row_def rawAmountToDisplay_def
        STROOPS_PER_XLM_def)
qed

theorem shown_share_is_paid_out_witness:
  "\<exists>v. snd (share_route (pool_view ''A'' started_pool) ''A'' []) = Inr v \<and> lp_xlmShare v = rawAmountToDisplay 4000"
proof -
  have "map_option fst (remove_liquidity 9 ''A'' (pl_lp started_pool ''A'') started_pool) = Some (4000, 9000, 0)"
    by code_simp
  then obtain p' where run: "remove_liquidity 9 ''A'' (pl_lp started_pool ''A'') started_pool = Some ((4000, 9000, 0), p')" by auto
  have ok: "pool_ok {''A'', ''B''} started_pool"
    using lp_step_ok [OF lp_step.Add [OF _ started] empty_pool_ok] by simp
  obtain tbl' r where "share_route (pool_view ''A'' started_pool) ''A'' [] = (tbl', r)" by fastforce
  with shown_share_is_paid_out [OF ok _ run this] show ?thesis by auto
qed

text \<open>All shares together are within the reserve they are taken from.\<close>

theorem shares_within_reserves:
  assumes "pool_ok U p" "0 \<le> reserve"
  shows "(\<Sum>u\<in>U. pool_share (pl_lp p u) reserve (pl_supply p)) \<le> reserve"
proof (cases "0 < pl_supply p")
  case True
  have nn: "0 \<le> pl_lp p u" for u using assms(1) by (simp add: pool_ok_def)
  have "(\<Sum>u\<in>U. pool_share (pl_lp p u) reserve (pl_supply p)) * pl_supply p \<le> (\<Sum>u\<in>U. pl_lp p u * reserve)"
    unfolding sum_distrib_right
    using True nn assms(2) floor_times(1) [OF True] by (intro sum_mono) (simp add: pool_share_def bdiv_nonneg)
  also have "\<dots> = reserve * pl_supply p" using assms(1) sum_distrib_right [of "pl_lp p" U reserve]
    by (simp add: pool_ok_def mult.commute [of reserve])
  finally show ?thesis using True by simp
qed (use assms(2) in \<open>simp add: pool_share_def\<close>)

subsection \<open>The copy of the shares\<close>

definition lp_table_ok :: "lp_row list \<Rightarrow> bool" where
  "lp_table_ok tbl \<longleftrightarrow> distinct (map lr_id tbl) \<and> distinct (map lr_wallet tbl)"

interpretation lp_rows: copy_table lr_id lr_wallet set_lp_row new_lp_row lp_table_ok
  by unfold_locales (auto simp: set_lp_row_def new_lp_row_def lp_table_ok_def split: prod.split)

fun share_requests :: "(lp_env \<times> wallet) list \<Rightarrow> lp_row list \<Rightarrow> lp_row list" where
  "share_requests [] tbl = tbl"
| "share_requests ((ev, w) # rs) tbl = share_requests rs (fst (share_route ev w tbl))"

lemma share_route_cases:
  assumes "share_route ev w tbl = (tbl', r)"
  obtains (kept) "tbl' = tbl" | (wrote) n x s where "lq_balance ev = Inr (Some n)" "0 < n"
      "tbl' = write_by lr_id lr_wallet set_lp_row new_lp_row w (n, x, s, lq_now ev) tbl"
proof (cases "chain_share ev w tbl")
  case (Inr p)
  then obtain b rv tl where v: "lq_balance ev = Inr b" "lq_reserves ev = Inr rv" "lq_total ev = Inr tl"
    by (auto simp: chain_share_def bind_result_Inr_iff)
  obtain rx rs where "or_else (0, 0) rv = (rx, rs)" by fastforce
  then obtain x s where "sync_lp_row ev w (or_else 0 b) x s tbl = Inr tbl'"
    using assms Inr v by (auto simp: share_route_def chain_share_def Let_def bind_result_Inr_iff)
  then show ?thesis using kept wrote v(1)
    by (cases b) (auto simp: sync_lp_row_def or_else_def split: if_splits option.splits)
qed (use assms kept in \<open>simp add: share_route_def\<close>)

text \<open>
  However shares are asked for, the table keeps one row per wallet, and a request that writes
  leaves the wallet's row with the chain's number of shares and the others as they were.\<close>

theorem share_table_mirrors_chain:
  assumes "lp_table_ok tbl"
  shows "lp_table_ok (share_requests rs tbl) \<and>
    (\<forall>ev w tbl' r. share_route ev w tbl = (tbl', r) \<and> tbl' \<noteq> tbl \<longrightarrow>
      (\<exists>n row. lq_balance ev = Inr (Some n) \<and> lookup_by lr_wallet w tbl' = Some row \<and> lr_tokens row = n \<and>
        (\<forall>v. v \<noteq> w \<longrightarrow> lookup_by lr_wallet v tbl' = lookup_by lr_wallet v tbl)))"
proof (intro conjI allI impI)
  have "lp_table_ok tbl \<Longrightarrow> lp_table_ok (fst (share_route ev w tbl))" for ev w tbl
    by (cases "share_route ev w tbl") (auto elim!: share_route_cases intro: lp_rows.write_keeps_ok)
  then show "lp_table_ok (share_requests rs tbl)" using assms
    by (induction rs tbl rule: share_requests.induct) auto
next
  fix ev w tbl' r
  assume run: "share_route ev w tbl = (tbl', r) \<and> tbl' \<noteq> tbl"
  then have "share_route ev w tbl = (tbl', r)" by simp
  then show "\<exists>n row. lq_balance ev = Inr (Some n) \<and> lookup_by lr_wallet w tbl' = Some row \<and> lr_tokens row = n \<and>
        (\<forall>v. v \<noteq> w \<longrightarrow> lookup_by lr_wallet v tbl' = lookup_by lr_wallet v tbl)"
  proof (cases rule: share_route_cases)
    case (wrote n x s)
    then show ?thesis using assms
      by (auto simp: lp_rows.lookup_write set_lp_row_def new_lp_row_def split: option.split)
  qed (use run in simp)
qed

text \<open>
  Shares that were all removed stay in the table, and a wallet that cannot be looked up on chain
  is still credited with them, in its position and in the rewards it is shown.\<close>

theorem removed_shares_still_earn:
  assumes "lq_balance ev = Inr (Some 0)" "lp_table_ok tbl" "lookup_by lr_wallet w tbl = Some old"
    and "\<not> isAddress w \<or> isl view"
  shows "fst (share_route ev w tbl) = tbl \<and>
    loadLiveLpBalance isAddress view (Inr (map_option lr_tokens (lookup_by lr_wallet w (fst (share_route ev w tbl))))) w =
      Inr (lr_tokens old)"
proof -
  have "fst (share_route ev w tbl) = tbl"
  proof (cases "share_route ev w tbl")
    case (Pair a b)
    then show ?thesis using assms(1) by (auto elim!: share_route_cases)
  qed
  then show ?thesis using assms(3,4)
    by (auto simp: loadLiveLpBalance_def queryContractView_def isl_def Let_def)
qed

end
