(* ===== verification/Api_Governance.thy ===== *)
theory Api_Governance
  imports Gov_Contract Api_Liquidity
begin

text \<open>
  \<open>api-gateway/routes/governance.ts\<close>: the unsigned governance transactions and the views of the proposals
  and parameters. Reading the proposals runs the synchronisation, with all it writes.
\<close>

subsection \<open>Requests\<close>

definition nonempty_field :: "json option \<Rightarrow> string parsed" where
  "nonempty_field v =
     (case v of Some (Api_Gateway.J_str s) \<Rightarrow> if s \<noteq> [] then Inr s else Inl [([], Type_issue)] | _ \<Rightarrow> Inl [([], Type_issue)])"

definition proposalId_field :: "json option \<Rightarrow> int parsed" where
  "proposalId_field v =
     (case v of
        Some (Api_Gateway.J_num (Fin x)) \<Rightarrow>
          (let iss = (if x = of_int \<lfloor>x\<rfloor> then [] else [([], Type_issue)]) @ (if x \<ge> 0 then [] else [([], Type_issue)])
           in if iss = [] then Inr \<lfloor>x\<rfloor> else Inl iss)
      | _ \<Rightarrow> Inl [([], Type_issue)])"

definition support_field :: "json option \<Rightarrow> bool parsed" where
  "support_field v = (case v of Some (Api_Gateway.J_bool b) \<Rightarrow> Inr b | _ \<Rightarrow> Inl [([], Type_issue)])"

definition createProposalSchema :: "body \<Rightarrow> ((string \<times> string) \<times> string) parsed" where
  "createProposalSchema b =
     zod_both (zod_both (zod_field ''userAddress'' address56 b) (zod_field ''paramKey'' nonempty_field b))
       (zod_field ''newValue'' nonempty_field b)"

definition voteSchema :: "body \<Rightarrow> ((string \<times> int) \<times> bool) parsed" where
  "voteSchema b =
     zod_both (zod_both (zod_field ''userAddress'' address56 b) (zod_field ''proposalId'' proposalId_field b))
       (zod_field ''support'' support_field b)"

definition executeSchema :: "body \<Rightarrow> (string \<times> int) parsed" where
  "executeSchema b = zod_both (zod_field ''userAddress'' address56 b) (zod_field ''proposalId'' proposalId_field b)"

definition governance_traps :: "(string \<times> string) list" where
  "governance_traps =
     [(''vote'', ''You need sXLM to vote. Stake XLM first to receive sXLM, then vote.''),
      (''create_proposal'', ''You need at least 100 sXLM to create a proposal. Stake XLM first.''),
      (''execute_proposal'', ''Proposal cannot be executed - voting period may not be over, quorum not met, or it already executed.'')]"

definition buildGovernanceTx :: "invocation \<Rightarrow> build_env \<Rightarrow> thrown + (invocation \<times> string)" where
  "buildGovernanceTx iv ev =
     (case build_tx ev of
        Threw t \<Rightarrow> Inl t
      | Built xdr \<Rightarrow> Inr (iv, xdr)
      | Sim_failed e \<Rightarrow>
          Inl (Some (case (if hasSubstring e ''UnreachableCodeReached'' then map_of governance_traps (call_method iv) else None) of
                 Some m \<Rightarrow> m | None \<Rightarrow> ''Simulation failed: '' @ e)))"

definition governance_invocation :: "string \<Rightarrow> sc_arg list \<Rightarrow> invocation" where
  "governance_invocation meth args = \<lparr>on_contract = Governance, call_method = meth, call_args = args\<rparr>"

definition create_proposal_route :: "build_env \<Rightarrow> body \<Rightarrow> (invocation \<times> string) reply" where
  "create_proposal_route ev b =
     (case createProposalSchema b of
        Inl iss \<Rightarrow> Inl (400, Issues iss)
      | Inr ((user, k), v) \<Rightarrow>
          (case buildGovernanceTx (governance_invocation ''create_proposal'' [SC_address user, SC_string k, SC_string v]) ev of
             Inl t \<Rightarrow> Inl (400, message_or ''Create proposal failed'' t) | Inr r \<Rightarrow> Inr r))"

text \<open>The balance is looked at first; a view without a result counts as no balance.\<close>

definition vote_route :: "(thrown + int option) \<Rightarrow> build_env \<Rightarrow> body \<Rightarrow> (invocation \<times> string) reply" where
  "vote_route balance ev b =
     (let failed = (\<lambda>t. Inl (400, message_or ''Vote failed'' t))
      in case voteSchema b of
           Inl iss \<Rightarrow> Inl (400, Issues iss)
         | Inr ((user, i), support) \<Rightarrow>
             (case balance of
                Inl t \<Rightarrow> failed t
              | Inr raw \<Rightarrow>
                  if or_else 0 raw \<le> 0
                  then Inl (400, Text ''You have no sXLM to vote with. Stake XLM first to receive sXLM, then vote.'')
                  else if \<not> i < 2^64 then failed (Some ''value out of range'')
                  else (case buildGovernanceTx (governance_invocation ''vote'' [SC_address user, SC_u64 i, SC_bool support]) ev of
                          Inl t \<Rightarrow> failed t | Inr r \<Rightarrow> Inr r)))"

definition execute_route :: "build_env \<Rightarrow> body \<Rightarrow> (invocation \<times> string) reply" where
  "execute_route ev b =
     (let failed = (\<lambda>t. Inl (400, message_or ''Execution failed'' t))
      in case executeSchema b of
           Inl iss \<Rightarrow> Inl (400, Issues iss)
         | Inr (user, i) \<Rightarrow>
             if \<not> i < 2^64 then failed (Some ''value out of range'')
             else (case buildGovernanceTx (governance_invocation ''execute_proposal'' [SC_u64 i]) ev of
                     Inl t \<Rightarrow> failed t | Inr r \<Rightarrow> Inr r))"

subsection \<open>Views\<close>

text \<open>
  \<open>sync\<close> is \<open>Some e\<close> if the synchronisation throws before its loop (the columns, the latest
  ledger, the number of proposals), else the ledger, the number and the answers per proposal; \<open>list\<close> is
  the error of the query of the cached rows.\<close>

record gov_env =
  gv_sync :: "js_error + (ledger_no \<times> int)"
  gv_props :: "int \<Rightarrow> prop_env"
  gv_list :: "js_error option"

definition cached_proposals :: "gov_env \<Rightarrow> gov_state \<Rightarrow> js_error + synced_proposal list" where
  "cached_proposals ev s =
     (case gv_list ev of Some e \<Rightarrow> Inl e | None \<Rightarrow> Inr (listCachedGovernanceProposals (gs_rows s)))"

definition proposals_route :: "gov_env \<Rightarrow> gov_state \<Rightarrow> gov_state \<times> (js_error + synced_proposal list)" where
  "proposals_route ev s =
     (case gv_sync ev of
        Inl e \<Rightarrow> (s, cached_proposals ev s)
      | Inr (latest, count) \<Rightarrow>
          (let (s', ps) = syncGovernanceProposals (gv_props ev) latest None count s
           in (s', if ps = [] then cached_proposals ev s' else Inr ps)))"

text \<open>\<open>parseInt\<close> of the path; a request for no number asks for no proposal.\<close>

definition proposal_route ::
  "gov_env \<Rightarrow> string \<Rightarrow> gov_state \<Rightarrow> gov_state \<times> ((nat \<times> error_text) + synced_proposal)" where
  "proposal_route ev path s =
     (let notFound = Inl (404, Text ''Proposal not found'')
      in case (gv_sync ev, js_parseInt path) of
           (Inr (latest, count), Fin x) \<Rightarrow>
             (let (s', ps) = syncGovernanceProposals (gv_props ev) latest (Some \<lfloor>x\<rfloor>) count s
              in (s', case ps of [] \<Rightarrow> notFound | p # _ \<Rightarrow> Inr p))
         | (Inr _, _) \<Rightarrow> (s, notFound)
         | (Inl _, i) \<Rightarrow>
             (case cached_proposals ev s of
                Inl e \<Rightarrow> (s, Inl (500, error_of [] e))
              | Inr ps \<Rightarrow> (s, case find (\<lambda>p. i = Fin (of_int (sp_id p))) ps of None \<Rightarrow> notFound | Some p \<Rightarrow> Inr p)))"

definition param_defaults :: "(string \<times> string) list" where
  "param_defaults =
     [(''protocol_fee_bps'', ''1000''), (''cooldown_period'', ''17280''), (''collateral_factor'', ''7000''),
      (''borrow_rate_bps'', ''400''), (''liquidation_threshold'', ''8000''), (''lp_protocol_fee_bps'', ''5''),
      (''buffer_safety_factor'', ''250''),
      (''liquidity_mining_program'',
       ''{\"programId\":\"ecosystem-bootstrap\",\"title\":\"sXLM/XLM Ecosystem Bootstrap\",\"status\":\"active\",\"rewardAsset\":\"sXLM\",\"rewardPerDayRaw\":\"250000000\",\"startAt\":\"2026-04-01T00:00:00.000Z\",\"endAt\":\"2026-06-30T00:00:00.000Z\",\"minLpTokensRaw\":\"0\",\"dexes\":[\"StellarX\",\"Lumenswap\"]}'')]"

text \<open>\<open>view\<close> is the contract's parameter, empty if it was never set.\<close>

definition params_route :: "(string \<Rightarrow> thrown + string option) \<Rightarrow> (string \<times> string) list" where
  "params_route view =
     map (\<lambda>(k, d). (k, case view k of Inr (Some v) \<Rightarrow> if v \<noteq> [] then v else d | _ \<Rightarrow> d)) param_defaults"

subsection \<open>The users' transactions against the contracts\<close>

text \<open>The parameter types of the functions the users' transactions call, from the contracts' sources.\<close>

definition lending_user_signature :: "(string \<times> sc_type list) list" where
  "lending_user_signature =
     [(''deposit_collateral'', [T_address, T_i128]), (''withdraw_collateral'', [T_address, T_i128]),
      (''borrow'', [T_address, T_i128]), (''repay'', [T_address, T_i128]), (''liquidate'', [T_address, T_address])]"

definition lp_user_signature :: "(string \<times> sc_type list) list" where
  "lp_user_signature =
     [(''add_liquidity'', [T_address, T_i128, T_i128]), (''remove_liquidity'', [T_address, T_i128]),
      (''swap_xlm_to_sxlm'', [T_address, T_i128, T_i128]), (''swap_sxlm_to_xlm'', [T_address, T_i128, T_i128])]"

definition governance_user_signature :: "(string \<times> sc_type list) list" where
  "governance_user_signature =
     [(''create_proposal'', [T_address, T_string, T_string]), (''vote'', [T_address, T_u64, T_bool]),
      (''execute_proposal'', [T_u64])]"

definition user_call_ok :: "invocation \<Rightarrow> bool" where
  "user_call_ok iv \<longleftrightarrow>
     map_of (case on_contract iv of Lending \<Rightarrow> lending_user_signature | Lp_Pool \<Rightarrow> lp_user_signature
               | Governance \<Rightarrow> governance_user_signature | _ \<Rightarrow> []) (call_method iv) =
     Some (map sc_type_of (call_args iv))"

lemma buildContractTx_call: "buildContractTx iv ev = Inr (iv', x) \<Longrightarrow> iv' = iv"
  by (auto simp: buildContractTx_def split: build_result.splits)

lemma buildLpTx_call: "buildLpTx iv ev = Inr (iv', x) \<Longrightarrow> iv' = iv"
  by (auto simp: buildLpTx_def split: build_result.splits)

lemma buildGovernanceTx_call: "buildGovernanceTx iv ev = Inr (iv', x) \<Longrightarrow> iv' = iv"
  by (auto simp: buildGovernanceTx_def split: build_result.splits)

lemma amount_route_call:
  assumes "amount_route meth dflt check ev b = Inr (iv, x)"
  obtains user n where "iv = lending_invocation meth [SC_address user, SC_i128 n]"
  using assms
  by (auto simp: amount_route_def to_i128_def Let_def split: sum.splits option.splits if_splits prod.splits
      dest!: buildContractTx_call)

lemma to_i128_is: "to_i128 n = Inr a \<Longrightarrow> sc_type_of a = T_i128"
  by (auto simp: to_i128_def split: option.splits)

lemma to_args_types: "to_args amounts = Inr args \<Longrightarrow> map sc_type_of args = replicate (length amounts) T_i128"
proof -
  have one: "each_ok to_i128 ns = Inr args \<Longrightarrow> map sc_type_of args = replicate (length ns) T_i128" for ns args
    by (induction ns arbitrary: args) (auto simp: bind_result_Inr_iff to_i128_is)
  have two: "each_ok to_stroops amounts = Inr ns \<Longrightarrow> length ns = length amounts" for ns
    by (induction amounts arbitrary: ns) (auto simp: bind_result_Inr_iff)
  show "to_args amounts = Inr args \<Longrightarrow> map sc_type_of args = replicate (length amounts) T_i128"
    using one two by (auto simp: to_args_def bind_result_Inr_iff)
qed

lemma lp_route_call:
  assumes "lp_route meth dflt q ev = Inr (iv, x)"
  obtains user amounts args where "q = Inr (user, amounts)" "to_args amounts = Inr args"
    "iv = \<lparr>on_contract = Lp_Pool, call_method = meth, call_args = SC_address user # args\<rparr>"
  using assms by (auto simp: lp_route_def bind_result_Inr_iff split: sum.splits dest!: buildLpTx_call)

lemma lp_routes_ok:
  "lp_route meth dflt (map_parsed f p) ev = Inr (iv, x) \<Longrightarrow> (\<And>v. length (snd (f v)) = k) \<Longrightarrow>
   map_of lp_user_signature meth = Some (T_address # replicate k T_i128) \<Longrightarrow> user_call_ok iv"
proof -
  assume run: "lp_route meth dflt (map_parsed f p) ev = Inr (iv, x)" and k: "\<And>v. length (snd (f v)) = k"
    and meth: "map_of lp_user_signature meth = Some (T_address # replicate k T_i128)"
  from run obtain user amounts args where "map_parsed f p = Inr (user, amounts)" "to_args amounts = Inr args"
    "iv = \<lparr>on_contract = Lp_Pool, call_method = meth, call_args = SC_address user # args\<rparr>"
    by (rule lp_route_call)
  moreover have "length amounts = k" using calculation(1) k by (auto simp: map_parsed_def split: sum.splits) (metis snd_conv)
  ultimately show "user_call_ok iv" using meth by (simp add: user_call_ok_def to_args_types)
qed

text \<open>
  C23. Every lending, liquidity and governance transaction the API hands out for signing calls a function of the
  contract with arguments of the declared types, whatever the request, the chain and the SDK answer.\<close>

theorem user_transactions_well_typed:
  assumes "deposit_route bal ev b = Inr (iv, x) \<or> withdraw_route ev b = Inr (iv, x) \<or> borrow_route bal ev b = Inr (iv, x) \<or>
      repay_route ev b = Inr (iv, x) \<or> liquidate_route ev b = Inr (iv, x) \<or>
      add_route ev b = Inr (iv, x) \<or> remove_route ev b = Inr (iv, x) \<or> swap_xlm_route ev b = Inr (iv, x) \<or>
      swap_sxlm_route ev b = Inr (iv, x) \<or>
      create_proposal_route ev b = Inr (iv, x) \<or> vote_route bal ev b = Inr (iv, x) \<or> execute_route ev b = Inr (iv, x)"
  shows "user_call_ok iv"
proof -
  have lending: "amount_route meth dflt check ev b = Inr (iv, x) \<Longrightarrow>
      map_of lending_user_signature meth = Some [T_address, T_i128] \<Longrightarrow> user_call_ok iv" for meth dflt check
    by (elim amount_route_call) (simp add: user_call_ok_def lending_invocation_def)
  have "liquidate_route ev b = Inr (iv, x) \<Longrightarrow> user_call_ok iv"
    by (auto simp: liquidate_route_def user_call_ok_def lending_invocation_def lending_user_signature_def
        split: sum.splits prod.splits dest!: buildContractTx_call)
  moreover have "create_proposal_route ev b = Inr (iv, x) \<Longrightarrow> user_call_ok iv"
    by (auto simp: create_proposal_route_def user_call_ok_def governance_invocation_def governance_user_signature_def
        split: sum.splits prod.splits dest!: buildGovernanceTx_call)
  moreover have "vote_route bal ev b = Inr (iv, x) \<Longrightarrow> user_call_ok iv"
    by (auto simp: vote_route_def Let_def user_call_ok_def governance_invocation_def governance_user_signature_def
        split: sum.splits prod.splits if_splits dest!: buildGovernanceTx_call)
  moreover have "execute_route ev b = Inr (iv, x) \<Longrightarrow> user_call_ok iv"
    by (auto simp: execute_route_def Let_def user_call_ok_def governance_invocation_def governance_user_signature_def
        split: sum.splits prod.splits if_splits dest!: buildGovernanceTx_call)
  moreover have "add_route ev b = Inr (iv, x) \<Longrightarrow> user_call_ok iv" "swap_xlm_route ev b = Inr (iv, x) \<Longrightarrow> user_call_ok iv"
    "swap_sxlm_route ev b = Inr (iv, x) \<Longrightarrow> user_call_ok iv"
    unfolding add_route_def swap_xlm_route_def swap_sxlm_route_def
    by (erule lp_routes_ok [where k = 2]; simp add: lp_user_signature_def numeral_2_eq_2 split: prod.split)+
  moreover have "remove_route ev b = Inr (iv, x) \<Longrightarrow> user_call_ok iv"
    unfolding remove_route_def
    by (erule lp_routes_ok [where k = 1]; simp add: lp_user_signature_def split: prod.split)
  ultimately show ?thesis using assms
    unfolding deposit_route_def withdraw_route_def borrow_route_def repay_route_def
    by (elim disjE) (auto elim!: lending simp: lending_user_signature_def)
qed

subsection \<open>Reading with effects\<close>

lemma param_setter_None: "param_setter ''protocol_fee_bps'' = None" "param_setter ''buffer_safety_factor'' = None"
  by (simp_all add: param_setter_def)

text \<open>
  Two of the parameters the API lists as governable have no effect: an executed proposal for one of
  them is recorded as applied, and no contract is called.\<close>

theorem listed_parameters_without_effect:
  assumes "k = ''protocol_fee_bps'' \<or> k = ''buffer_safety_factor''" "cp_paramKey p = k" "cp_executed p"
    "js_parseInt (cp_newValue p) \<noteq> NaN" "pe_select ev = None" "prop_env.pe_write ev = None" "pe_mark ev = None"
    "\<not> already_applied i (gs_rows s)"
  shows "k \<in> fst ` set param_defaults \<and>
    gs_calls (fst (upsertGovernanceProposal ev i p vf va st l s)) = gs_calls s \<and>
    already_applied i (gs_rows (fst (upsertGovernanceProposal ev i p vf va st l s)))"
proof -
  have none: "param_setter k = None" "\<not> startsWith k program_prefix"
    using assms(1) by (auto simp: param_setter_None program_prefix_def)
  have a: "applyGovernanceParam k (cp_newValue p) i ev t = (t, return True)" for t
    using none assms(4) by (simp add: applyGovernanceParam_def split: number.split)
  have "already_applied i (mark_applied i now (write_row i p vf va st x now' (gs_rows s)))" for now x now'
    by (intro mark_applied_sets) (rule write_row_present)
  then have "gs_calls (fst (upsertGovernanceProposal ev i p vf va st l s)) = gs_calls s \<and>
    already_applied i (gs_rows (fst (upsertGovernanceProposal ev i p vf va st l s)))"
    using assms(2,3,5-8) by (simp add: upsertGovernanceProposal_def Let_def a)
  moreover have "k \<in> fst ` set param_defaults" using assms(1) by (auto simp: param_defaults_def)
  ultimately show ?thesis by simp
qed

text \<open>
  Whoever asks for a proposal makes the backend's administrator act: if the proposal is executed and not yet
  applied, an unauthenticated GET submits the administrator's call to the contract.\<close>

theorem reading_a_proposal_applies_it:
  assumes "gv_sync ev = Inr (latest, count)" "js_parseInt path = Fin (of_int i)" "pe_proposal (gv_props ev i) = Inr (Some p)"
    "pe_votes (gv_props ev i) = Inr vc" "cp_executed p" "\<not> already_applied i (gs_rows s)"
    "pe_select (gv_props ev i) = None" "prop_env.pe_write (gv_props ev i) = None" "pe_mark (gv_props ev i) = None"
    "\<not> startsWith (cp_paramKey p) program_prefix" "param_setter (cp_paramKey p) = Some setter"
    "js_parseInt (cp_newValue p) = Fin (of_int n)" "setter n (pe_call (gv_props ev i)) = (sent, r)"
  shows "gs_calls (fst (proposal_route ev path s)) = gs_calls s @ sent"
proof -
  have applied: "applyGovernanceParam (cp_paramKey p) (cp_newValue p) i (gv_props ev i) t =
      (t\<lparr>gs_calls := gs_calls t @ sent\<rparr>, return (\<not> isl r))" for t
    using assms(10-13) by (simp add: applyGovernanceParam_def)
  have up: "gs_calls (fst (upsertGovernanceProposal (gv_props ev i) i p vf va st l s)) = gs_calls s @ sent" for vf va st l
    using assms(5-9) by (cases "isl r") (simp_all add: upsertGovernanceProposal_def Let_def applied)
  obtain vf va where vc: "(case vc of None \<Rightarrow> (0, 0) | Some v \<Rightarrow> v) = (vf, va)" by fastforce
  have "gs_calls (fst (sync_one (gv_props ev i) latest i s)) = gs_calls s @ sent"
    using up [of vf va] assms(3,4) vc
    by (auto simp: sync_one_def Let_def split: prod.split sum.split) (metis fst_conv)+
  then have "gs_calls (fst (syncGovernanceProposals (gv_props ev) latest (Some i) count s)) = gs_calls s @ sent"
    by (simp add: fst_sync proposal_ids_def split_beta Let_def)
  then show ?thesis using assms(1,2) by (simp add: proposal_route_def split_beta Let_def)
qed

theorem listed_parameters_without_effect_witness:
  "already_applied 7 (gs_rows (fst (upsertGovernanceProposal (sample_prop_env (dec 30) None) 7
     ((fee_proposal (dec 30))\<lparr>cp_paramKey := ''protocol_fee_bps''\<rparr>) 2 1 ''passed'' 9 empty_gov)))"
  by (rule listed_parameters_without_effect [of "''protocol_fee_bps''", THEN conjunct2, THEN conjunct2])
    (simp_all add: fee_proposal_def sample_prop_env_def empty_gov_def already_applied_def find_row_def js_parseInt_dec)

theorem reading_a_proposal_applies_it_witness:
  "gs_calls (fst (proposal_route \<lparr>gv_sync = Inr (10, 9), gv_props = (\<lambda>_. sample_prop_env (dec 30) None), gv_list = None\<rparr> (dec 7) empty_gov)) =
   [\<lparr>on_contract = Lp_Pool, call_method = ''set_protocol_fee_bps'', call_args = [SC_u32 30]\<rparr>]"
proof -
  let ?ev = "\<lparr>gv_sync = Inr (10, 9), gv_props = (\<lambda>_. sample_prop_env (dec 30) None), gv_list = None\<rparr>"
  obtain sent r where s: "callSetLpProtocolFeeBps 30 (pe_call (sample_prop_env (dec 30) None)) = (sent, r)" by fastforce
  have "fst (callSetLpProtocolFeeBps 30 (pe_call (sample_prop_env (dec 30) None))) =
      [\<lparr>on_contract = Lp_Pool, call_method = ''set_protocol_fee_bps'', call_args = [SC_u32 30]\<rparr>]"
    by (simp add: callSetLpProtocolFeeBps_def fst_submit submit_call_accepted sample_prop_env_def)
  then have sent: "sent = [\<lparr>on_contract = Lp_Pool, call_method = ''set_protocol_fee_bps'', call_args = [SC_u32 30]\<rparr>]"
    by (simp add: s)
  have "gs_calls (fst (proposal_route ?ev (dec 7) empty_gov)) = gs_calls empty_gov @ sent"
    by (rule reading_a_proposal_applies_it [where i = 7 and p = "fee_proposal (dec 30)" and setter = callSetLpProtocolFeeBps and n = 30])
      (simp_all add: sample_prop_env_def fee_proposal_def empty_gov_def already_applied_def find_row_def js_parseInt_dec
        program_prefix_def param_setter_def s [unfolded sample_prop_env_def, simplified])
  then show ?thesis by (simp add: sent empty_gov_def)
qed

theorem user_transactions_well_typed_witness:
  "user_call_ok (governance_invocation ''vote'' [SC_address (replicate 56 CHR ''G''), SC_u64 7, SC_bool True])"
proof -
  let ?b = "(\<lambda>_. None)(''userAddress'' := Some (Api_Gateway.J_str (replicate 56 CHR ''G'')),
     ''proposalId'' := Some (Api_Gateway.J_num (Fin 7)), ''support'' := Some (Api_Gateway.J_bool True)) :: body"
  have v: "vote_route (Inr (Some 5)) demo_build ?b =
      Inr (governance_invocation ''vote'' [SC_address (replicate 56 CHR ''G''), SC_u64 7, SC_bool True], ''AAAA'')"
    by (simp add: vote_route_def voteSchema_def zod_both_def zod_field_def address56_def proposalId_field_def
        support_field_def or_else_def buildGovernanceTx_def build_tx_def demo_build_def)
  show ?thesis
    by (rule user_transactions_well_typed [where bal = "Inr (Some 5)" and ev = demo_build and b = ?b and x = "''AAAA''"])
      (simp only: v simp_thms)
qed

end
