(* ===== verification/Health_Checks.thy ===== *)
theory Health_Checks
  imports Api_Gateway Metric_Aggregator Reward_Engine Staking_Engine
begin

text \<open>
  Two descriptions of the system's health: the monitoring utilities of \<open>utils/monitoring.ts\<close>, with their
  latency thresholds and alerts, and the health endpoints of \<open>api-gateway/routes/health.ts\<close>. A clock
  gives the times the checks read; what the probed services answer is an environment.
\<close>

subsection \<open>Statuses and their order\<close>

text \<open>\<open>Up < Degraded < Down\<close>: the larger, the worse.\<close>

datatype service_status = Up | Degraded | Down

fun severity :: "service_status \<Rightarrow> nat" where
  "severity Up = 0"
| "severity Degraded = 1"
| "severity Down = 2"

instantiation service_status :: linorder
begin

definition less_eq_service_status :: "service_status \<Rightarrow> service_status \<Rightarrow> bool" where
  "a \<le> b \<longleftrightarrow> severity a \<le> severity b"

definition less_service_status :: "service_status \<Rightarrow> service_status \<Rightarrow> bool" where
  "a < b \<longleftrightarrow> severity a < severity b"

instance
proof
  fix a b :: service_status
  show "a \<le> b \<Longrightarrow> b \<le> a \<Longrightarrow> a = b" by (cases a; cases b) (simp_all add: less_eq_service_status_def)
qed (auto simp: less_eq_service_status_def less_service_status_def)

end

subsection \<open>The monitoring utilities\<close>

record health_status =
  hs_status :: service_status
  hs_latency :: millis
  hs_error :: "string option"

text \<open>A probe throws (with the error's message, if it is an \<open>Error\<close>) or answers, at a later time.\<close>

definition failed_check :: "string option \<Rightarrow> millis \<Rightarrow> health_status" where
  "failed_check e latency =
     \<lparr>hs_status = Down, hs_latency = latency, hs_error = Some (case e of Some m \<Rightarrow> m | None \<Rightarrow> ''Unknown error'')\<rparr>"

definition timed_check :: "millis \<Rightarrow> millis \<Rightarrow> health_status" where
  "timed_check limit latency =
     \<lparr>hs_status = (if latency < limit then Up else Degraded), hs_latency = latency, hs_error = None\<rparr>"

definition checkDatabaseHealth :: "string option + unit \<Rightarrow> millis \<Rightarrow> millis \<Rightarrow> health_status" where
  "checkDatabaseHealth r startTime now =
     (case r of Inl e \<Rightarrow> failed_check e (now - startTime) | Inr _ \<Rightarrow> timed_check 100 (now - startTime))"

definition checkRedisHealth :: "string option + unit \<Rightarrow> millis \<Rightarrow> millis \<Rightarrow> health_status" where
  "checkRedisHealth r startTime now =
     (case r of Inl e \<Rightarrow> failed_check e (now - startTime) | Inr _ \<Rightarrow> timed_check 50 (now - startTime))"

text \<open>An HTTP response by its status; \<open>ok\<close> is 200 to 299.\<close>

definition http_ok :: "int \<Rightarrow> bool" where
  "http_ok code \<longleftrightarrow> 200 \<le> code \<and> code \<le> 299"

definition checkStellarHealth :: "string option + int \<Rightarrow> millis \<Rightarrow> millis \<Rightarrow> health_status" where
  "checkStellarHealth r startTime now =
     (let latency = now - startTime
      in case r of
           Inl e \<Rightarrow> failed_check e latency
         | Inr code \<Rightarrow>
             if \<not> http_ok code
             then \<lparr>hs_status = Down, hs_latency = latency, hs_error = Some (''HTTP '' @ dec_int code)\<rparr>
             else timed_check 500 latency)"

definition checkContractHealth :: "string option + int \<Rightarrow> millis \<Rightarrow> millis \<Rightarrow> health_status" where
  "checkContractHealth r startTime now =
     (let latency = now - startTime
      in case r of
           Inl e \<Rightarrow> failed_check e latency
         | Inr code \<Rightarrow>
             if \<not> http_ok code
             then \<lparr>hs_status = Degraded, hs_latency = latency, hs_error = Some (''HTTP '' @ dec_int code)\<rparr>
             else \<lparr>hs_status = Up, hs_latency = latency, hs_error = None\<rparr>)"

datatype overall = Healthy | Partial | Unhealthy

definition services :: "string list" where
  "services = [''database'', ''redis'', ''stellar'', ''contracts'']"

type_synonym checks = "(string \<times> health_status) list"

definition overall_status :: "service_status list \<Rightarrow> overall" where
  "overall_status statuses =
     (if list_all (\<lambda>s. s = Up) statuses then Healthy
      else if list_ex (\<lambda>s. s = Down) statuses then Unhealthy
      else Partial)"

definition performHealthCheck ::
  "health_status \<Rightarrow> health_status \<Rightarrow> health_status \<Rightarrow> health_status \<Rightarrow> overall \<times> checks" where
  "performHealthCheck db redis stellar contracts =
     (let checks = zip services [db, redis, stellar, contracts]
      in (overall_status (map (hs_status \<circ> snd) checks), checks))"

datatype alert_severity = Info_alert | Warning_alert | Critical_alert

text \<open>The alert \<open>monitorHealth\<close> sends; the text lists the services.\<close>

definition affected :: "service_status \<Rightarrow> checks \<Rightarrow> string list" where
  "affected st cs = map fst (filter (\<lambda>(n, h). hs_status h = st) cs)"

definition monitorHealth :: "overall \<times> checks \<Rightarrow> (string \<times> alert_severity) option" where
  "monitorHealth r =
     (case r of
        (Unhealthy, cs) \<Rightarrow>
          Some (''System unhealthy! Down services: '' @ join_with '', '' (affected Down cs), Critical_alert)
      | (Partial, cs) \<Rightarrow>
          Some (''System degraded. Affected services: '' @ join_with '', '' (affected Degraded cs), Warning_alert)
      | (Healthy, cs) \<Rightarrow> None)"

text \<open>What an alert does: the line it logs and the text it posts; a failed post is only logged.\<close>

definition severity_name :: "alert_severity \<Rightarrow> string" where
  "severity_name s = (case s of Info_alert \<Rightarrow> ''INFO'' | Warning_alert \<Rightarrow> ''WARNING'' | Critical_alert \<Rightarrow> ''CRITICAL'')"

definition sendAlert :: "string \<Rightarrow> alert_severity \<Rightarrow> string option \<Rightarrow> string \<times> string option" where
  "sendAlert message s webhookUrl =
     (''[Alert]['' @ severity_name s @ ''] '' @ message,
      case webhookUrl of
        None \<Rightarrow> None
      | Some url \<Rightarrow> if url = [] then None else Some (''['' @ severity_name s @ ''] '' @ message))"

text \<open>\<open>Math.round\<close> of the share of the heap in use.\<close>

definition memory_percentage :: "int \<Rightarrow> int \<Rightarrow> number" where
  "memory_percentage heapUsed heapTotal = js_round (num_of_big heapUsed / num_of_big heapTotal * lit 100)"

record performance_metric =
  pm_operation :: string
  pm_duration :: millis
  pm_success :: bool
  pm_error :: "string option"

definition trackPerformance :: "string \<Rightarrow> millis \<Rightarrow> bool \<Rightarrow> string option \<Rightarrow> performance_metric \<times> string option" where
  "trackPerformance operation duration success err =
     (\<lparr>pm_operation = operation, pm_duration = duration, pm_success = success, pm_error = err\<rparr>,
      if duration > 1000
      then Some (''[Performance] Slow operation detected: '' @ operation @ '' took '' @ dec_int duration @ ''ms'') else None)"

text \<open>The decorator: the method's outcome, and the metric written when it is over.\<close>

definition measurePerformance ::
  "string \<Rightarrow> (js_error + 'a) \<Rightarrow> millis \<Rightarrow> millis \<Rightarrow> (js_error + 'a) \<times> performance_metric \<times> string option" where
  "measurePerformance operationName outcome startTime now =
     (outcome, trackPerformance operationName (now - startTime) (\<not> isl outcome)
        (case outcome of Inl (Err m) \<Rightarrow> Some m | Inl _ \<Rightarrow> Some [] | Inr _ \<Rightarrow> None))"

subsection \<open>The health endpoints\<close>

record service_health =
  sv_status :: service_status
  sv_latencyMs :: millis
  sv_message :: "string option"

definition checkDatabase :: "string option + unit \<Rightarrow> millis \<Rightarrow> millis \<Rightarrow> service_health" where
  "checkDatabase r start now =
     (case r of
        Inr _ \<Rightarrow> \<lparr>sv_status = Up, sv_latencyMs = now - start, sv_message = None\<rparr>
      | Inl e \<Rightarrow> \<lparr>sv_status = Down, sv_latencyMs = now - start,
                 sv_message = Some (case e of Some m \<Rightarrow> m | None \<Rightarrow> ''Database unreachable'')\<rparr>)"

text \<open>
  \<open>publisher\<close> is \<open>None\<close> when the bus has no publisher that can be pinged; a ping that takes three
  seconds loses the race and throws.\<close>

definition checkRedis :: "(string option + string) option \<Rightarrow> bool \<Rightarrow> millis \<Rightarrow> millis \<Rightarrow> service_health" where
  "checkRedis publisher flagged start now =
     (let connection = (if flagged then \<lparr>sv_status = Up, sv_latencyMs = now - start, sv_message = None\<rparr>
                        else \<lparr>sv_status = Degraded, sv_latencyMs = now - start, sv_message = Some ''Connection state unknown''\<rparr>)
      in case publisher of
           None \<Rightarrow> connection
         | Some (Inl e) \<Rightarrow> \<lparr>sv_status = Down, sv_latencyMs = now - start,
                           sv_message = Some (case e of Some m \<Rightarrow> m | None \<Rightarrow> ''Redis unreachable'')\<rparr>
         | Some (Inr pong) \<Rightarrow>
             if pong = ''PONG'' then \<lparr>sv_status = Up, sv_latencyMs = now - start, sv_message = None\<rparr> else connection)"

definition checkStellarRpc :: "string option + string option \<Rightarrow> millis \<Rightarrow> millis \<Rightarrow> service_health" where
  "checkStellarRpc r start now =
     (case r of
        Inl e \<Rightarrow> \<lparr>sv_status = Down, sv_latencyMs = now - start,
                 sv_message = Some (case e of Some m \<Rightarrow> m | None \<Rightarrow> ''Stellar RPC unreachable'')\<rparr>
      | Inr st \<Rightarrow>
          if st = Some ''healthy'' then \<lparr>sv_status = Up, sv_latencyMs = now - start, sv_message = None\<rparr>
          else \<lparr>sv_status = Degraded, sv_latencyMs = now - start,
                sv_message = Some (''RPC status: '' @ (case st of Some s \<Rightarrow> s | None \<Rightarrow> ''unknown''))\<rparr>)"

definition ready_route :: "service_health \<Rightarrow> service_health \<Rightarrow> int \<times> string" where
  "ready_route db redis =
     (let isReady = sv_status db \<noteq> Down \<and> sv_status redis \<noteq> Down
      in (if isReady then 200 else 503, if isReady then ''ready'' else ''not_ready''))"

definition detailed_status :: "service_health \<Rightarrow> service_health \<Rightarrow> service_health \<Rightarrow> service_status" where
  "detailed_status db redis stellarRpc =
     (let serviceStatuses = [sv_status db, sv_status redis, sv_status stellarRpc]
      in if Down \<in> set serviceStatuses then Down else if Degraded \<in> set serviceStatuses then Degraded else Up)"

definition status_code :: "service_status \<Rightarrow> int" where
  "status_code s = (case s of Up \<Rightarrow> 200 | Degraded \<Rightarrow> 207 | Down \<Rightarrow> 503)"

record protocol_data =
  pd_exchangeRate :: number
  pd_isPaused :: bool
  pd_totalStakedXlm :: number
  pd_totalSxlmSupply :: number
  pd_liquidityBufferXlm :: number

text \<open>The newest row of the protocol metrics, as a query gives it.\<close>

definition newest_metrics :: "metrics_row list \<Rightarrow> metrics_row option" where
  "newest_metrics ms = (case sort_key (\<lambda>m. - me_updatedAt m) ms of [] \<Rightarrow> None | m # _ \<Rightarrow> Some m)"

definition getProtocolData :: "js_error + protocol_stats \<Rightarrow> js_error + metrics_row list \<Rightarrow> protocol_data" where
  "getProtocolData stats metrics =
     (case stats of
        Inr s \<Rightarrow> \<lparr>pd_exchangeRate = ps_exchangeRate s, pd_isPaused = ps_isPaused s,
                  pd_totalStakedXlm = num_of_big (ps_totalStaked s) / lit 10000000,
                  pd_totalSxlmSupply = num_of_big (ps_totalSupply s) / lit 10000000,
                  pd_liquidityBufferXlm = num_of_big (ps_liquidityBuffer s) / lit 10000000\<rparr>
      | Inl _ \<Rightarrow>
          (case metrics of
             Inr ms \<Rightarrow>
               (let shown = (\<lambda>f. case newest_metrics ms of Some m \<Rightarrow> num_of_big (f m) / lit 10000000 | None \<Rightarrow> 0)
                in \<lparr>pd_exchangeRate = 1, pd_isPaused = False, pd_totalStakedXlm = shown me_totalStaked,
                    pd_totalSxlmSupply = shown me_totalSupply, pd_liquidityBufferXlm = 0\<rparr>)
           | Inl _ \<Rightarrow> \<lparr>pd_exchangeRate = 0, pd_isPaused = False, pd_totalStakedXlm = 0, pd_totalSxlmSupply = 0,
                      pd_liquidityBufferXlm = 0\<rparr>))"

record validator_data =
  vd_total :: nat
  vd_avgScore :: number
  vd_avgUptime :: number

definition average :: "('a \<Rightarrow> number) \<Rightarrow> 'a list \<Rightarrow> number" where
  "average f vs = fold (\<lambda>v sum. sum + f v) vs 0 / num_of_big (int (length vs))"

definition getValidatorData :: "js_error + validator list \<Rightarrow> validator_data" where
  "getValidatorData vs =
     (case vs of
        Inl _ \<Rightarrow> \<lparr>vd_total = 0, vd_avgScore = 0, vd_avgUptime = 0\<rparr>
      | Inr [] \<Rightarrow> \<lparr>vd_total = 0, vd_avgScore = 0, vd_avgUptime = 0\<rparr>
      | Inr (v # vs') \<Rightarrow>
          (let avgScore = average (\<lambda>v. Fin (performanceScore v)) (v # vs'); avgUptime = average (\<lambda>v. Fin (uptime v)) (v # vs')
           in \<lparr>vd_total = length (v # vs'), vd_avgScore = js_round (avgScore * lit 1000) / lit 1000,
               vd_avgUptime = js_round (avgUptime * lit 10000) / lit 10000\<rparr>))"

record staking_data =
  sd_pendingWithdrawals :: int
  sd_snapshotCount :: int
  sd_lastSnapshotAge :: "int option"

definition getStakingData :: "js_error + (withdrawal list \<times> snapshot list) \<Rightarrow> millis \<Rightarrow> staking_data" where
  "getStakingData r now =
     (case r of
        Inl _ \<Rightarrow> \<lparr>sd_pendingWithdrawals = 0, sd_snapshotCount = 0, sd_lastSnapshotAge = None\<rparr>
      | Inr (ws, ss) \<Rightarrow>
          \<lparr>sd_pendingWithdrawals = count_status ''pending'' ws, sd_snapshotCount = int (length ss),
           sd_lastSnapshotAge = (case sort_key (\<lambda>s. - sn_timestamp s) ss of [] \<Rightarrow> None
              | s # _ \<Rightarrow> Some ((now - sn_timestamp s) div 1000))\<rparr>)"

subsection \<open>Every summary is the worst status\<close>

lemma service_status_bounds [simp]: "Up \<le> s" "s \<le> Down" "s \<le> Up \<longleftrightarrow> s = Up" "Down \<le> s \<longleftrightarrow> s = Down"
  by (cases s; simp add: less_eq_service_status_def)+

text \<open>A non-empty list's worst status by its members.\<close>

lemma worst_of:
  assumes "ss \<noteq> []"
  shows "Max (set ss) = (if Down \<in> set ss then Down else if Degraded \<in> set ss then Degraded else Up)"
proof -
  define m where "m = Max (set ss)"
  have "m \<in> set ss" using assms unfolding m_def by simp
  moreover have "Down \<in> set ss \<Longrightarrow> Down \<le> m" "Degraded \<in> set ss \<Longrightarrow> Degraded \<le> m" unfolding m_def
    by (auto intro!: Max_ge simp del: service_status_bounds)
  ultimately show ?thesis unfolding m_def [symmetric] by - (cases m, auto simp: less_eq_service_status_def)
qed

lemma only_up: "Down \<notin> set ss \<Longrightarrow> Degraded \<notin> set ss \<Longrightarrow> s \<in> set ss \<Longrightarrow> s = Up"
  by (cases s) auto

fun overall_of :: "service_status \<Rightarrow> overall" where
  "overall_of Up = Healthy"
| "overall_of Degraded = Partial"
| "overall_of Down = Unhealthy"

lemma overall_status_worst: "ss \<noteq> [] \<Longrightarrow> overall_status ss = overall_of (Max (set ss))"
  unfolding worst_of overall_status_def
  by (auto simp: list_all_iff list_ex_iff dest: only_up)

text \<open>
  Both descriptions of the system's health are the worst of the statuses they looked at, in the order
  up, degraded, down.\<close>

theorem health_is_the_worst_status:
  "fst (performHealthCheck db redis stellar contracts) =
     overall_of (Max {hs_status db, hs_status redis, hs_status stellar, hs_status contracts}) \<and>
   detailed_status d r s = Max {sv_status d, sv_status r, sv_status s}"
proof
  show "fst (performHealthCheck db redis stellar contracts) =
     overall_of (Max {hs_status db, hs_status redis, hs_status stellar, hs_status contracts})"
    using overall_status_worst [of "map hs_status [db, redis, stellar, contracts]"]
    by (simp add: performHealthCheck_def services_def del: Max_insert)
  show "detailed_status d r s = Max {sv_status d, sv_status r, sv_status s}"
    using worst_of [of "[sv_status d, sv_status r, sv_status s]"]
    by (simp add: detailed_status_def Let_def del: Max_insert)
qed

text \<open>
  Ready implies nothing worse than what the detailed endpoint checks beside it: the readiness probe
  fails exactly when the database or Redis is down, and then the detailed endpoint answers 503 too.\<close>

theorem not_ready_means_down:
  "fst (ready_route d r) = 503 \<Longrightarrow> status_code (detailed_status d r s) = 503"
  by (auto simp: ready_route_def detailed_status_def status_code_def Let_def split: if_splits)

theorem not_ready_means_down_witness:
  "status_code (detailed_status (checkDatabase (Inl None) 5 9) (checkRedis None True 5 6)
     (checkStellarRpc (Inr (Some ''healthy'')) 5 8)) = 503"
  by (rule not_ready_means_down) (simp add: ready_route_def checkDatabase_def)

subsection \<open>Alerts\<close>

definition alert_text :: "service_status \<Rightarrow> string list \<Rightarrow> (string \<times> alert_severity) option" where
  "alert_text worst names =
     (case worst of
        Up \<Rightarrow> None
      | Degraded \<Rightarrow> Some (''System degraded. Affected services: '' @ join_with '', '' names, Warning_alert)
      | Down \<Rightarrow> Some (''System unhealthy! Down services: '' @ join_with '', '' names, Critical_alert))"

text \<open>
  An alert is sent exactly when some service is not up; it names the services with the worst status, at
  least one and no other, in the order of the checks.\<close>

theorem alert_names_worst_services:
  fixes hs :: "health_status list"
  assumes "hs = [db, redis, stellar, contracts]"
  defines "worst \<equiv> Max (hs_status ` set hs)"
  shows "monitorHealth (performHealthCheck db redis stellar contracts) =
      alert_text worst [services ! k. k \<leftarrow> [0..<4], hs_status (hs ! k) = worst] \<and>
    [services ! k. k \<leftarrow> [0..<4], hs_status (hs ! k) = worst] \<noteq> []"
proof
  have fst: "fst (performHealthCheck db redis stellar contracts) = overall_of worst"
    using overall_status_worst [of "map hs_status hs"] unfolding worst_def
    by (simp add: assms(1) performHealthCheck_def services_def del: Max_insert)
  have names: "affected st (zip services [db, redis, stellar, contracts]) =
      [services ! k. k \<leftarrow> [0..<4], hs_status (hs ! k) = st]" for st
    by (simp add: affected_def services_def assms(1) upt_rec)
  have run: "performHealthCheck db redis stellar contracts =
      (overall_of worst, zip services [db, redis, stellar, contracts])"
    using fst by (simp add: performHealthCheck_def Let_def)
  show "monitorHealth (performHealthCheck db redis stellar contracts) =
      alert_text worst [services ! k. k \<leftarrow> [0..<4], hs_status (hs ! k) = worst]"
    unfolding run monitorHealth_def alert_text_def
    by (cases worst) (simp_all add: names)
  have "worst \<in> hs_status ` set hs" unfolding worst_def assms(1) by (rule Max_in) simp_all
  then show "[services ! k. k \<leftarrow> [0..<4], hs_status (hs ! k) = worst] \<noteq> []"
    unfolding assms(1) by (auto simp: upt_rec)
qed

subsection \<open>What is shown while the chain is unreachable\<close>

lemma view_unreachable: "ve_account v = Some e \<Longrightarrow> view_or_throw n v = throw e"
  by (simp add: view_or_throw_def simulate_view_def bind_result_def)

text \<open>
  The fallback to the stored metrics is never taken: the statistics settle with a default for every
  call that fails, so while the chain is unreachable the endpoint reports that nothing is staked,
  whatever the database knows.\<close>

theorem chain_outage_shows_nothing_staked:
  assumes "ve_account staked = Some e" "ve_account minted = Some e" "ve_account buffer = Some e" "ve_account paused = Some e"
  shows "getProtocolData (Inr (getProtocolStats staked minted r buffer t paused f)) metrics =
     \<lparr>pd_exchangeRate = settled r 1, pd_isPaused = False, pd_totalStakedXlm = 0, pd_totalSxlmSupply = 0,
      pd_liquidityBufferXlm = 0\<rparr>"
  using assms
  by (simp add: getProtocolData_def getProtocolStats_def settled_def getTotalStaked_def getTotalSupply_def
      getLiquidityBuffer_def getIsPaused_def view_unreachable simulate_view_def num_of_big_exact bind_result_def
      zero_number_def)

definition no_chain :: "'v view_env" where
  "no_chain = \<lparr>ve_account = Some (Err ''connect ECONNREFUSED''), ve_sim = Inl TypeError\<rparr>"

theorem chain_outage_shows_nothing_staked_witness:
  "pd_totalStakedXlm (getProtocolData (Inr (getProtocolStats no_chain no_chain (Inl TypeError) no_chain no_chain
     no_chain no_chain))
     (Inr [\<lparr>me_totalStaked = 50000000000, me_totalSupply = 50000000000, me_tvlUsd = 0, me_avgValidatorScore = 0,
            me_protocolFees = 0, me_updatedAt = 3\<rparr>])) = 0"
  by (subst chain_outage_shows_nothing_staked [of _ "Err ''connect ECONNREFUSED''"]) (simp_all add: no_chain_def)

subsection \<open>The figures shown for the validators\<close>

context rounding
begin

text \<open>A sum of values between 0 and 1, rounded at every step, is at most the number of its terms.\<close>

lemma rounded_sum_bounds:
  assumes "\<And>x. x \<in> set xs \<Longrightarrow> 0 \<le> x \<and> x \<le> 1" "int (length xs) + k \<le> 2^53" "0 \<le> s" "s \<le> of_int k" "0 \<le> k"
  shows "0 \<le> fold (\<lambda>x s. rd (s + x)) xs s \<and> fold (\<lambda>x s. rd (s + x)) xs s \<le> of_int (int (length xs) + k)"
  using assms
proof (induction xs arbitrary: s k)
  case (Cons x xs)
  have x: "0 \<le> x \<and> x \<le> 1" using Cons.prems(1) by simp
  have "s + x \<le> of_int k + 1" using Cons.prems x by linarith
  then have "rd (s + x) \<le> of_int (k + 1)" using Cons.prems by (intro rd_le_int) auto
  moreover have "0 \<le> rd (s + x)" using Cons.prems x by (intro rd_nonneg) simp
  ultimately show ?case using Cons.IH [of "k + 1" "rd (s + x)"] Cons.prems by (simp add: algebra_simps)
qed simp

end

lemma fold_Fin:
  assumes "\<And>x. x \<in> set xs \<Longrightarrow> 0 \<le> x \<and> x \<le> 1" "int (length xs) + k \<le> 2^53" "0 \<le> s" "s \<le> of_int k" "0 \<le> k"
  shows "fold (\<lambda>x s. s + Fin x) xs (Fin s) = Fin (fold (\<lambda>x s. rndq (s + x)) xs s)"
  using assms
proof (induction xs arbitrary: s k)
  case (Cons x xs)
  have x: "0 \<le> x \<and> x \<le> 1" using Cons.prems(1) by simp
  have sx: "s + x \<le> of_int (k + 1)" using add_mono [OF Cons.prems(4), of x 1] x by simp
  moreover have "(of_int (k + 1) :: rat) \<le> of_int (2^53)" using Cons.prems(2) by (simp only: of_int_le_iff) simp
  ultimately have "\<bar>s + x\<bar> \<le> 2 ^ 110" using Cons.prems(3) x by (simp add: abs_le_iff)
  moreover have "rndq (s + x) \<le> of_int (k + 1)" using Cons.prems by (intro dbl.rd_le_int [OF sx]) auto
  moreover have "0 \<le> rndq (s + x)" using Cons.prems x by (intro dbl.rd_nonneg) simp
  ultimately show ?case using Cons.IH [of "k + 1" "rndq (s + x)"] Cons.prems by (simp add: rnd_110)
qed simp

text \<open>An average of values between 0 and 1, scaled, rounded and scaled back, is between 0 and 1.\<close>

lemma average_bounds:
  assumes "vs \<noteq> []" "length vs \<le> 2^53" "\<And>v. v \<in> set vs \<Longrightarrow> 0 \<le> f v \<and> f v \<le> 1"
  shows "\<exists>a. average (\<lambda>v. Fin (f v)) vs = Fin a \<and> 0 \<le> a \<and> a \<le> 1"
proof -
  let ?s = "fold (\<lambda>x s. rndq (s + x)) (map f vs) 0"
  have len: "int (length vs) \<le> 2^53" using assms(2) by simp
  have s: "fold (\<lambda>v s. s + Fin (f v)) vs 0 = Fin ?s"
    using fold_Fin [of "map f vs" 0 0] assms(3) len by (force simp: fold_map comp_def zero_number_def)
  have b: "0 \<le> ?s \<and> ?s \<le> of_int (int (length vs))"
    using dbl.rounded_sum_bounds [of "map f vs" 0 0] assms(3) len by force
  have q: "0 \<le> rndq (?s / of_int (int (length vs)))" "rndq (?s / of_int (int (length vs))) \<le> 1"
    using b by (auto intro: dbl.quotient_nonneg dbl.quotient_le_one)
  have n: "(1::rat) \<le> of_nat (length vs)" using assms(1) by (cases vs) simp_all
  have "?s / of_int (int (length vs)) \<le> 1" using b n by (simp add: divide_le_eq_1)
  moreover have "0 \<le> ?s / of_int (int (length vs))" using b by simp
  ultimately have "\<bar>?s / of_int (int (length vs))\<bar> \<le> 2^110" by simp
  then have "average (\<lambda>v. Fin (f v)) vs = Fin (rndq (?s / of_int (int (length vs))))"
    using assms(1) len n unfolding average_def s by (simp add: num_of_big_exact rnd_110)
  then show ?thesis using q by blast
qed

lemma scaled_round_bounds:
  assumes "0 \<le> a" "a \<le> 1" "0 < n" "n \<le> 10000"
  shows "\<exists>r. js_round (Fin a * lit (of_int n)) / lit (of_int n) = Fin r \<and> 0 \<le> r \<and> r \<le> 1"
proof -
  have n: "\<bar>n\<bar> \<le> 2^53" using assms by simp
  have an: "a * of_int n \<le> of_int n" using assms by (simp add: mult_left_le_one_le)
  moreover have nr: "(of_int n :: rat) \<le> of_int 10000" using assms(4) by (simp only: of_int_le_iff)
  moreover have "0 \<le> a * of_int n" using assms by simp
  ultimately have "\<bar>a * of_int n\<bar> \<le> 2^110" by simp
  then have m: "Fin a * lit (of_int n) = Fin (rndq (a * of_int n))" using n by (simp add: rnd_110)
  have up: "rndq (a * of_int n) \<le> of_int n" using an n by (rule dbl.rd_le_int)
  have lo: "0 \<le> rndq (a * of_int n)" using assms by (intro dbl.rd_nonneg) simp
  let ?k = "\<lfloor>rndq (a * of_int n) + 1/2\<rfloor>"
  have k: "0 \<le> ?k" "?k \<le> n" using up lo by (simp_all add: floor_le_iff)
  have kq: "0 \<le> rndq (of_int ?k / of_int n)" "rndq (of_int ?k / of_int n) \<le> 1"
    using k assms(3) by (auto intro: dbl.quotient_nonneg dbl.quotient_le_one)
  have "of_int ?k / of_int n \<le> (1::rat)" using k assms(3) by (simp add: divide_le_eq_1)
  moreover have "0 \<le> of_int ?k / (of_int n :: rat)" using k assms(3) by simp
  ultimately have "\<bar>of_int ?k / of_int n :: rat\<bar> \<le> 2^110" by simp
  then have "Fin (of_int ?k) / lit (of_int n) = Fin (rndq (of_int ?k / of_int n))"
    using assms(3) n by (simp add: rnd_110)
  then show ?thesis using kq unfolding m js_round.simps by blast
qed

text \<open>The average score and uptime shown are between 0 and 1 when those of the validators are.\<close>

theorem validator_figures_in_range:
  assumes "getValidatorData (Inr vs) = d" "length vs \<le> 2^53"
    "\<And>v. v \<in> set vs \<Longrightarrow> 0 \<le> performanceScore v \<and> performanceScore v \<le> 1 \<and> 0 \<le> uptime v \<and> uptime v \<le> 1"
  shows "vd_total d = length vs \<and> 0 \<le> vd_avgScore d \<and> vd_avgScore d \<le> 1 \<and> 0 \<le> vd_avgUptime d \<and> vd_avgUptime d \<le> 1"
proof (cases vs)
  case Nil
  then show ?thesis using assms(1) by (auto simp: getValidatorData_def one_number_def zero_number_def)
next
  case (Cons v vs')
  obtain a u where a: "average (\<lambda>v. Fin (performanceScore v)) vs = Fin a" "0 \<le> a" "a \<le> 1"
    and u: "average (\<lambda>v. Fin (uptime v)) vs = Fin u" "0 \<le> u" "u \<le> 1"
    using average_bounds [of vs performanceScore] average_bounds [of vs uptime] assms(2,3) Cons by blast
  obtain x y where "js_round (Fin a * lit (of_int 1000)) / lit (of_int 1000) = Fin x" "0 \<le> x" "x \<le> 1"
    "js_round (Fin u * lit (of_int 10000)) / lit (of_int 10000) = Fin y" "0 \<le> y" "y \<le> 1"
    using scaled_round_bounds [of a 1000] scaled_round_bounds [of u 10000] a u by auto
  then show ?thesis using assms(1) a(1) u(1) unfolding Cons
    by (auto simp: getValidatorData_def Let_def one_number_def)
qed

definition demo_validators :: "validator list" where
  "demo_validators =
     [\<lparr>pubkey = ''V1'', uptime = 99/100, performanceScore = 7/10, allocatedStake = 5, lastChecked = 0\<rparr>,
      \<lparr>pubkey = ''V2'', uptime = 1/3, performanceScore = 1, allocatedStake = 7, lastChecked = 0\<rparr>]"

theorem validator_figures_in_range_witness:
  "vd_total (getValidatorData (Inr demo_validators)) = 2 \<and> vd_avgScore (getValidatorData (Inr demo_validators)) \<le> 1"
proof -
  have "length demo_validators = 2" by (simp add: demo_validators_def)
  moreover have "0 \<le> performanceScore v \<and> performanceScore v \<le> 1 \<and> 0 \<le> uptime v \<and> uptime v \<le> 1"
    if "v \<in> set demo_validators" for v using that by (auto simp: demo_validators_def)
  ultimately show ?thesis using validator_figures_in_range [OF refl, of demo_validators] by simp
qed

theorem alert_names_worst_services_witness:
  "monitorHealth (performHealthCheck (checkDatabaseHealth (Inr ()) 0 120) (checkRedisHealth (Inr ()) 0 10)
     (checkStellarHealth (Inr 502) 0 30) (checkContractHealth (Inl None) 0 40)) =
   Some (''System unhealthy! Down services: stellar, contracts'', Critical_alert)"
proof -
  define d r c h where "d = checkDatabaseHealth (Inr ()) 0 120" and "r = checkRedisHealth (Inr ()) 0 10"
    and "c = checkStellarHealth (Inr 502) 0 30" and "h = checkContractHealth (Inl None) 0 40"
  then have st: "hs_status d = Degraded" "hs_status r = Up" "hs_status c = Down" "hs_status h = Down"
    by (simp_all add: checkDatabaseHealth_def checkRedisHealth_def checkStellarHealth_def checkContractHealth_def
        timed_check_def failed_check_def http_ok_def)
  have "Max (hs_status ` set [d, r, c, h]) = Down"
    using worst_of [of "map hs_status [d, r, c, h]"] by (simp add: st del: Max_insert)
  then show ?thesis
    using alert_names_worst_services [OF refl, of d r c h]
    unfolding d_def [symmetric] r_def [symmetric] c_def [symmetric] h_def [symmetric]
    by (simp add: alert_text_def upt_rec services_def st del: Max_insert)
qed

end
