(* ===== verification/Api_Analytics.thy ===== *)
theory Api_Analytics
  imports Health_Checks Cohort_Aggregator Api_Staking
begin

text \<open>
  \<open>api-gateway/routes/analytics.ts\<close>: the time series, the cohorts and the export of a wallet's transactions as CSV.
  Each route answers with an empty result whatever a query throws. The tables are the ones
  the aggregators write; a query that fails is \<open>Inl\<close>. Times are milliseconds, whose printing as ISO strings
  is one to one; one reading of the clock serves a request.
\<close>

subsection \<open>Time series\<close>

text \<open>\<open>parse\<close> is \<open>Date\<close>'s reading of a string, \<open>None\<close> for an invalid date.\<close>

definition parseDate :: "(string \<Rightarrow> millis option) \<Rightarrow> string option \<Rightarrow> millis \<Rightarrow> millis" where
  "parseDate parse v fallback =
     (case v of None \<Rightarrow> fallback
      | Some s \<Rightarrow> if s = [] then fallback else (case parse s of None \<Rightarrow> fallback | Some d \<Rightarrow> d))"

definition daysAgo :: "millis \<Rightarrow> int \<Rightarrow> millis" where
  "daysAgo now n = now - n * 24 * 60 * 60 * 1000"

type_synonym window_query = "string option \<times> string option"

definition window_of :: "(string \<Rightarrow> millis option) \<Rightarrow> millis \<Rightarrow> window_query \<Rightarrow> millis \<times> millis" where
  "window_of parse now q = (parseDate parse (fst q) (daysAgo now 90), parseDate parse (snd q) now)"

text \<open>The rows of a window, oldest first.\<close>

definition rows_between :: "('r \<Rightarrow> millis) \<Rightarrow> millis \<times> millis \<Rightarrow> 'r list \<Rightarrow> 'r list" where
  "rows_between time win rs = sort_key time (filter (\<lambda>r. fst win \<le> time r \<and> time r \<le> snd win) rs)"

abbreviation xlm_of :: "stroops \<Rightarrow> number" where "xlm_of n \<equiv> num_of_big n / lit 10000000"

record tvl_point =
  tv_timestamp :: millis
  tv_totalStakedXlm :: number
  tv_tvlUsd :: number
  tv_exchangeRate :: number

definition xlmPriceUsd :: "metrics_row list \<Rightarrow> number" where
  "xlmPriceUsd ms =
     (case newest_metrics ms of
        Some m \<Rightarrow> if num_of_big (me_totalStaked m) > 0 then me_tvlUsd m / xlm_of (me_totalStaked m) else lit (12/100)
      | None \<Rightarrow> lit (12/100))"

definition tvl_route ::
  "(string \<Rightarrow> millis option) \<Rightarrow> millis \<Rightarrow> window_query \<Rightarrow> js_error + snapshot list \<Rightarrow> js_error + metrics_row list \<Rightarrow>
     (millis \<times> millis) option \<times> tvl_point list" where
  "tvl_route parse now q snaps metrics =
     (let win = window_of parse now q
      in case (snaps, metrics) of
           (Inr ss, Inr ms) \<Rightarrow>
             (Some win, map (\<lambda>s. let stakedXlm = xlm_of (sn_totalStaked s)
                in \<lparr>tv_timestamp = sn_timestamp s, tv_totalStakedXlm = stakedXlm, tv_tvlUsd = stakedXlm * xlmPriceUsd ms,
                    tv_exchangeRate = sn_exchangeRate s\<rparr>) (rows_between sn_timestamp win ss))
         | _ \<Rightarrow> (None, []))"

record util_point =
  up_contractId :: contract_id
  up_windowStart :: millis
  up_windowEnd :: millis
  up_totalDepositedXlm :: number
  up_totalBorrowedXlm :: number
  up_utilizationRate :: number

definition util_point_of :: "util_row \<Rightarrow> util_point" where
  "util_point_of r =
     \<lparr>up_contractId = ut_contract r, up_windowStart = ut_windowStart r, up_windowEnd = ut_windowEnd r,
      up_totalDepositedXlm = xlm_of (ut_totalDeposited r), up_totalBorrowedXlm = xlm_of (ut_totalBorrowed r),
      up_utilizationRate = ut_rate r\<rparr>"

definition utilization_route ::
  "(string \<Rightarrow> millis option) \<Rightarrow> millis \<Rightarrow> window_query \<Rightarrow> js_error + util_row list \<Rightarrow>
     (millis \<times> millis) option \<times> util_point list" where
  "utilization_route parse now q tbl =
     (let win = window_of parse now q
      in case tbl of
           Inl _ \<Rightarrow> (None, [])
         | Inr rs \<Rightarrow> (Some win, map util_point_of (rows_between ut_windowStart win rs)))"

subsection \<open>Revenue\<close>

record revenue_point =
  rq_windowStart :: millis
  rq_windowEnd :: millis
  rq_amountXlm :: number

definition revenue_point_of :: "revenue_row \<Rightarrow> revenue_point" where
  "revenue_point_of r =
     \<lparr>rq_windowStart = rv_windowStart r, rq_windowEnd = rv_windowEnd r, rq_amountXlm = xlm_of (rv_amount r)\<rparr>"

datatype revenue_reply =
    By_source "millis \<times> millis" "(revenue_source \<times> revenue_point list) list"
  | By_window "millis \<times> millis" "(revenue_source \<times> revenue_point) list"
  | No_revenue

definition revenue_route ::
  "(string \<Rightarrow> millis option) \<Rightarrow> millis \<Rightarrow> window_query \<Rightarrow> string option \<Rightarrow> js_error + revenue_row list \<Rightarrow> revenue_reply" where
  "revenue_route parse now q groupBy tbl =
     (let win = window_of parse now q
      in case tbl of
           Inl _ \<Rightarrow> No_revenue
         | Inr all_rows \<Rightarrow>
             (let rs = rows_between rv_windowStart win all_rows
              in if (case groupBy of None \<Rightarrow> ''source'' | Some g \<Rightarrow> g) = ''source''
                 then By_source win (group_rows rv_source revenue_point_of rs)
                 else By_window win (map (\<lambda>r. (rv_source r, revenue_point_of r)) rs)))"

text \<open>
  Grouped by source the revenue is the flat answer split by source: each source that occurs has one
  series, which is its rows of the flat answer in their order.\<close>

theorem revenue_series_split_the_window:
  assumes "g \<noteq> ''source''"
  shows "(case revenue_route parse now q (Some g) tbl of
      By_window win flat \<Rightarrow> revenue_route parse now q None tbl =
        By_source win (map (\<lambda>s. (s, map snd (filter (\<lambda>p. fst p = s) flat))) (firsts (map fst flat)))
    | other \<Rightarrow> other = No_revenue \<and> revenue_route parse now q None tbl = No_revenue)"
  using assms by (cases tbl) (auto simp: revenue_route_def Let_def group_rows_eq filter_map comp_def)

subsection \<open>Live\<close>

record live_reply =
  li_timestamp :: millis
  li_tvl :: "(millis \<times> number \<times> number) option"
  li_utilization :: "(contract_id \<times> millis \<times> number \<times> number \<times> number) option"
  li_revenue :: "(revenue_source \<times> number) list"

text \<open>The first row of each key, as a query for distinct values gives them.\<close>

fun distinct_on :: "('r \<Rightarrow> 'k) \<Rightarrow> 'r list \<Rightarrow> 'r list" where
  "distinct_on key [] = []"
| "distinct_on key (r # rs) = r # filter (\<lambda>x. key x \<noteq> key r) (distinct_on key rs)"

definition newest_by :: "('r \<Rightarrow> millis) \<Rightarrow> 'r list \<Rightarrow> 'r option" where
  "newest_by time rs = (case sort_key (\<lambda>r. - time r) rs of [] \<Rightarrow> None | r # _ \<Rightarrow> Some r)"

definition live_route ::
  "millis \<Rightarrow> js_error + util_row list \<Rightarrow> js_error + revenue_row list \<Rightarrow> js_error + snapshot list \<Rightarrow> live_reply" where
  "live_route now util revenue snaps =
     (case (util, revenue, snaps) of
        (Inr us, Inr rs, Inr ss) \<Rightarrow>
          \<lparr>li_timestamp = now,
           li_tvl = map_option (\<lambda>s. (sn_timestamp s, xlm_of (sn_totalStaked s), sn_exchangeRate s)) (newest_by sn_timestamp ss),
           li_utilization = map_option (\<lambda>u. (ut_contract u, ut_windowStart u, xlm_of (ut_totalDeposited u),
             xlm_of (ut_totalBorrowed u), ut_rate u)) (newest_by ut_windowStart us),
           li_revenue = map (\<lambda>r. (rv_source r, xlm_of (rv_amount r)))
             (distinct_on rv_source (sort_key (\<lambda>r. - rv_windowStart r) rs))\<rparr>
      | _ \<Rightarrow> \<lparr>li_timestamp = now, li_tvl = None, li_utilization = None, li_revenue = []\<rparr>)"

subsection \<open>Cohorts\<close>

record cohort_point =
  ct_dayOffset :: int
  ct_totalWallets :: nat
  ct_retainedWallets :: nat
  ct_retentionRate :: number
  ct_avgCollateralSizeXlm :: number
  ct_avgBorrowSizeXlm :: number

definition cohort_point_of :: "(millis \<times> int \<Rightarrow> avg_row option) \<Rightarrow> retention_row \<Rightarrow> cohort_point" where
  "cohort_point_of positionIndex r =
     (let pos = positionIndex (rt_key r); size = (\<lambda>f. case pos of Some p \<Rightarrow> f p / lit 10000000 | None \<Rightarrow> 0)
      in \<lparr>ct_dayOffset = rt_dayOffset r, ct_totalWallets = rt_total r, ct_retainedWallets = rt_retained r,
          ct_retentionRate = rt_rate r, ct_avgCollateralSizeXlm = size av_collateral, ct_avgBorrowSizeXlm = size av_borrow\<rparr>)"

text \<open>\<open>Math.min(parseInt(v ?? "30", 10), 365)\<close>.\<close>

definition count_param :: "string option \<Rightarrow> number" where
  "count_param v = js_min (js_parseInt (case v of None \<Rightarrow> ''30'' | Some s \<Rightarrow> s)) (lit 365)"

text \<open>A query's \<open>take\<close>: so many from the front, or with a negative number from the end.\<close>

definition prisma_take :: "int \<Rightarrow> 'a list \<Rightarrow> 'a list" where
  "prisma_take n xs = (if n \<ge> 0 then take (nat n) xs else drop (length xs - nat (- n)) xs)"

text \<open>The rows from a date on, up to an offset, grouped by date.\<close>

definition cohorts_from :: "millis \<Rightarrow> int \<Rightarrow> retention_row list \<Rightarrow> avg_row list \<Rightarrow> (millis \<times> cohort_point list) list" where
  "cohorts_from oldest maxOffset rts avs =
     (let retentionRows = sort_key rt_cohortDate (sort_key rt_dayOffset
            (filter (\<lambda>r. oldest \<le> rt_cohortDate r \<and> rt_dayOffset r \<le> maxOffset) rts));
          positionRows = sort_key av_cohortDate (sort_key av_dayOffset
            (filter (\<lambda>p. oldest \<le> av_cohortDate p \<and> av_dayOffset p \<le> maxOffset) avs));
          positionIndex = map_of (rev (map (\<lambda>p. (av_key p, p)) positionRows))
      in group_rows rt_cohortDate (cohort_point_of positionIndex) retentionRows)"

text \<open>\<open>as_int\<close> is the integer the database client takes a number for; it refuses others.\<close>

definition cohorts_route ::
  "(number \<Rightarrow> int option) \<Rightarrow> string option \<Rightarrow> string option \<Rightarrow> js_error + retention_row list \<Rightarrow> js_error + avg_row list \<Rightarrow>
     (millis \<times> cohort_point list) list" where
  "cohorts_route as_int cohortWindow maxOffset retention avgs =
     (case (retention, as_int (count_param cohortWindow)) of
        (Inr rts, Some n) \<Rightarrow>
          (let dateValues = prisma_take n (rev (sort (remdups (map rt_cohortDate rts))))
           in if dateValues = [] then []
              else case (as_int (count_param maxOffset), avgs) of
                     (Some m, Inr avs) \<Rightarrow> cohorts_from (last dateValues) m rts avs
                   | _ \<Rightarrow> [])
      | _ \<Rightarrow> [])"

lemma cohorts_from_eq:
  "cohorts_from oldest m rts avs =
     (let index = map_of (rev (map (\<lambda>p. (av_key p, p)) (sort_key av_cohortDate (sort_key av_dayOffset
            (filter (\<lambda>p. oldest \<le> av_cohortDate p \<and> av_dayOffset p \<le> m) avs)))))
      in map (\<lambda>d. (d, map (cohort_point_of index)
              (sort_key rt_dayOffset (filter (\<lambda>r. rt_cohortDate r = d \<and> rt_dayOffset r \<le> m) rts))))
           (sort (remdups (map rt_cohortDate (filter (\<lambda>r. oldest \<le> rt_cohortDate r \<and> rt_dayOffset r \<le> m) rts)))))"
proof -
  let ?P = "\<lambda>r. oldest \<le> rt_cohortDate r \<and> rt_dayOffset r \<le> m"
  let ?R = "sort_key rt_cohortDate (sort_key rt_dayOffset (filter ?P rts))"
  have group: "filter (\<lambda>r. rt_cohortDate r = d) ?R = sort_key rt_dayOffset (filter (\<lambda>r. rt_cohortDate r = d \<and> rt_dayOffset r \<le> m) rts)"
    if "oldest \<le> d" for d
  proof -
    have "filter (\<lambda>r. rt_cohortDate r = d) ?R = sort_key rt_dayOffset (filter (\<lambda>r. rt_cohortDate r = d) (filter ?P rts))"
      by (simp only: sort_key_stable filter_sort)
    also have "filter (\<lambda>r. rt_cohortDate r = d) (filter ?P rts) = filter (\<lambda>r. rt_cohortDate r = d \<and> rt_dayOffset r \<le> m) rts"
      using that by (auto intro: filter_cong)
    finally show ?thesis .
  qed
  have "firsts (map rt_cohortDate ?R) = sort (remdups (map rt_cohortDate (filter ?P rts)))"
    by (simp add: firsts_sorted) (intro sorted_distinct_set_unique, simp_all)
  then show ?thesis unfolding cohorts_from_def Let_def group_rows_eq using group by (auto intro!: map_cong)
qed

text \<open>A query for the newest dates asks for the dates from the oldest of them on.\<close>

lemma sorted_suffix_iff:
  fixes xs :: "millis list"
  assumes "sorted xs" "distinct xs" "k < length xs" "d \<in> set xs"
  shows "hd (drop k xs) \<le> d \<longleftrightarrow> d \<in> set (drop k xs)"
proof -
  have "set (take k xs) \<union> set (drop k xs) = set xs" by (metis append_take_drop_id set_append)
  then have mem: "d \<in> set (take k xs) \<or> d \<in> set (drop k xs)" using assms(4) by auto
  have "sorted_wrt (<) (take k xs @ drop k xs)" using assms(1,2) by (simp add: strict_sorted_iff)
  then have lt: "\<And>a b. a \<in> set (take k xs) \<Longrightarrow> b \<in> set (drop k xs) \<Longrightarrow> a < b" and s: "sorted_wrt (<) (drop k xs)"
    by (auto simp only: sorted_wrt_append)
  have ne: "drop k xs \<noteq> []" using assms(3) by simp
  have "hd (drop k xs) \<le> b" if "b \<in> set (drop k xs)" for b
    using s that ne by (cases "drop k xs") auto
  then show ?thesis using lt [of d "hd (drop k xs)"] mem ne by fastforce
qed

lemma last_rev_take: "1 \<le> n \<Longrightarrow> xs \<noteq> [] \<Longrightarrow> last (take n (rev xs)) = hd (drop (length xs - n) xs)"
  by (simp add: take_rev last_rev)

lemma shown_dates:
  assumes "xs = sort (remdups (map rt_cohortDate rts))" "k < length xs"
  shows "map fst (cohorts_from (hd (drop k xs)) m rts avs) =
    filter (\<lambda>d. \<exists>r\<in>set rts. rt_cohortDate r = d \<and> rt_dayOffset r \<le> m) (drop k xs)"
proof -
  have "sort (remdups (map rt_cohortDate (filter (\<lambda>r. hd (drop k xs) \<le> rt_cohortDate r \<and> rt_dayOffset r \<le> m) rts))) =
    filter (\<lambda>d. \<exists>r\<in>set rts. rt_cohortDate r = d \<and> rt_dayOffset r \<le> m) (drop k xs)"
  proof (rule sorted_distinct_set_unique)
    have "hd (drop k xs) \<le> rt_cohortDate r \<longleftrightarrow> rt_cohortDate r \<in> set (drop k xs)" if "r \<in> set rts" for r
      using that assms by (intro sorted_suffix_iff) auto
    then show "set (sort (remdups (map rt_cohortDate (filter (\<lambda>r. hd (drop k xs) \<le> rt_cohortDate r \<and> rt_dayOffset r \<le> m) rts)))) =
      set (filter (\<lambda>d. \<exists>r\<in>set rts. rt_cohortDate r = d \<and> rt_dayOffset r \<le> m) (drop k xs))"
      by auto
  qed (use assms(1) in \<open>auto intro: sorted_filter [where f = "\<lambda>x. x", simplified] sorted_wrt_drop\<close>)
  then show ?thesis by (simp add: cohorts_from_eq Let_def comp_def)
qed

text \<open>
  The cohorts shown for a positive number are the newest so many that have a row within the offsets, oldest first.\<close>

theorem newest_cohorts_are_shown:
  assumes "as_int (count_param window) = Some n" "1 \<le> n" "as_int (count_param offset) = Some m"
  shows "map fst (cohorts_route as_int window offset (Inr rts) (Inr avs)) =
    filter (\<lambda>d. \<exists>r\<in>set rts. rt_cohortDate r = d \<and> rt_dayOffset r \<le> m)
      (rev (take (nat n) (rev (sort (remdups (map rt_cohortDate rts))))))"
proof -
  define xs where "xs = sort (remdups (map rt_cohortDate rts))"
  let ?k = "length xs - nat n"
  show ?thesis
  proof (cases "xs = []")
    case False
    then have "take (nat n) (rev xs) \<noteq> []" "last (take (nat n) (rev xs)) = hd (drop ?k xs)" "?k < length xs"
      using assms(2) last_rev_take [of "nat n" xs] by simp_all
    then show ?thesis using assms shown_dates [OF xs_def, of ?k m avs]
      by (simp add: cohorts_route_def Let_def prisma_take_def xs_def [symmetric] take_rev)
  qed (use assms in \<open>simp add: cohorts_route_def Let_def prisma_take_def xs_def [symmetric]\<close>)
qed

text \<open>
  A negative number asks for all of them: the bound of 365 is one from above only.\<close>

theorem negative_window_shows_all_cohorts:
  assumes "as_int (count_param window) = Some n" "n < 0" "as_int (count_param offset) = Some m"
  shows "map fst (cohorts_route as_int window offset (Inr rts) (Inr avs)) =
    filter (\<lambda>d. \<exists>r\<in>set rts. rt_cohortDate r = d \<and> rt_dayOffset r \<le> m) (sort (remdups (map rt_cohortDate rts)))"
proof -
  define xs where "xs = sort (remdups (map rt_cohortDate rts))"
  let ?j = "length xs - nat (- n)"
  show ?thesis
  proof (cases "xs = []")
    case False
    then have "0 < length xs" by simp
    moreover have "0 < nat (- n)" using assms(2) by simp
    ultimately have j: "?j < length xs" "0 < length xs" by (simp_all only: diff_less)
    then have "drop ?j (rev xs) \<noteq> []" by simp
    moreover have "last (drop ?j (rev xs)) = hd (drop 0 xs)" using j(1) by (simp add: last_rev)
    ultimately show ?thesis using j(2) assms shown_dates [OF xs_def, of 0 m avs]
      by (simp add: cohorts_route_def Let_def prisma_take_def xs_def [symmetric])
  qed (use assms in \<open>simp add: cohorts_route_def Let_def prisma_take_def xs_def [symmetric]\<close>)
qed

subsection \<open>Export\<close>

text \<open>The day of a time, as \<open>toISOString().split("T")[0]\<close>: years of four digits, else a sign and six.\<close>

definition iso_year :: "int \<Rightarrow> string" where
  "iso_year y =
     (if 0 \<le> y \<and> y \<le> 9999 then pad0 4 (dec (nat y))
      else (if y < 0 then ''-'' else ''+'') @ pad0 6 (dec (nat \<bar>y\<bar>)))"

definition civil_day :: "millis \<Rightarrow> int \<times> int \<times> int" where
  "civil_day ms =
     (let z = ms div 86400000 + 719468;
          era = z div 146097;
          doe = z mod 146097;
          yoe = (doe - doe div 1460 + doe div 36524 - doe div 146096) div 365;
          doy = doe - (365 * yoe + yoe div 4 - yoe div 100);
          mp = (5 * doy + 2) div 153;
          d = doy - (153 * mp + 2) div 5 + 1;
          m = (if mp < 10 then mp + 3 else mp - 9);
          y = yoe + era * 400 + (if m \<le> 2 then 1 else 0)
      in (y, m, d))"

definition iso_day :: "millis \<Rightarrow> string" where
  "iso_day ms = (case civil_day ms of (y, m, d) \<Rightarrow> iso_year y @ ''-'' @ pad0 2 (dec (nat m)) @ ''-'' @ pad0 2 (dec (nat d)))"

lemma iso_day_examples:
  "iso_day 0 = ''1970-01-01''" "iso_day 951868799999 = ''2000-02-29''" "iso_day 951868800000 = ''2000-03-01''"
  "iso_day 1774915200000 = ''2026-03-31''" "iso_day (- 1) = ''1969-12-31''"
  by code_simp+

record event_row =
  er_wallet :: wallet
  er_txHash :: tx_hash
  er_amount :: stroops
  er_closedAt :: millis

record stake_export = event_row + er_type :: stake_type

record loan_export = event_row + er_asset :: string

record flash_export = loan_export + er_fee :: stroops

record liq_export =
  er_borrower :: wallet
  er_liqHash :: tx_hash
  er_debtRepaid :: stroops
  er_collateralSeized :: stroops
  er_liqClosedAt :: millis

record export_db =
  xp_stakes :: "stake_export list"
  xp_borrows :: "loan_export list"
  xp_repays :: "loan_export list"
  xp_liqs :: "liq_export list"
  xp_flash :: "flash_export list"

text \<open>The rows, in the order they are written, as lists of their seven fields; \<open>shown\<close> prints an amount.\<close>

definition stake_line :: "(stroops \<Rightarrow> string) \<Rightarrow> stake_export \<Rightarrow> string list" where
  "stake_line shown r =
     [iso_day (er_closedAt r), if er_type r = STAKE then ''Stake'' else ''Unstake'', ''sXLM'', shown (er_amount r), [],
      er_txHash r, ''Confirmed'']"

definition loan_line :: "string \<Rightarrow> (stroops \<Rightarrow> string) \<Rightarrow> loan_export \<Rightarrow> string list" where
  "loan_line kind shown r =
     [iso_day (er_closedAt r), kind, er_asset r, shown (er_amount r), [], er_txHash r, ''Confirmed'']"

definition liq_lines :: "(stroops \<Rightarrow> string) \<Rightarrow> liq_export \<Rightarrow> string list list" where
  "liq_lines shown r =
     [[iso_day (er_liqClosedAt r), ''Liquidated (Debt)'', ''XLM'', ''-'' @ shown (er_debtRepaid r), [], er_liqHash r, ''Confirmed''],
      [iso_day (er_liqClosedAt r), ''Liquidated (Collateral)'', ''sXLM'', ''-'' @ shown (er_collateralSeized r), [], er_liqHash r,
       ''Confirmed'']]"

definition flash_line :: "(stroops \<Rightarrow> string) \<Rightarrow> flash_export \<Rightarrow> string list" where
  "flash_line shown r =
     [iso_day (er_closedAt r), ''Flash Loan'', er_asset r, shown (er_amount r), shown (er_fee r), er_txHash r, ''Confirmed'']"

definition export_rows :: "(stroops \<Rightarrow> string) \<Rightarrow> wallet \<Rightarrow> export_db \<Rightarrow> string list list" where
  "export_rows shown w db =
     map (stake_line shown) (sort_key er_closedAt (filter (\<lambda>r. er_wallet r = w) (xp_stakes db))) @
     map (loan_line ''Borrow'' shown) (sort_key er_closedAt (filter (\<lambda>r. er_wallet r = w) (xp_borrows db))) @
     map (loan_line ''Repay'' shown) (sort_key er_closedAt (filter (\<lambda>r. er_wallet r = w) (xp_repays db))) @
     concat (map (liq_lines shown) (sort_key er_liqClosedAt (filter (\<lambda>r. er_borrower r = w) (xp_liqs db)))) @
     map (flash_line shown) (sort_key er_closedAt (filter (\<lambda>r. er_wallet r = w) (xp_flash db)))"

definition csv_header :: "string list" where
  "csv_header = [''Date'', ''Type'', ''Asset'', ''Amount'', ''Fee'', ''Tx Hash'', ''Status'']"

definition csv_of :: "string list list \<Rightarrow> string" where
  "csv_of cells = join_with [CHR 0x0A] (map (join_with '','') cells)"

definition shown_amount7 :: "(number \<Rightarrow> string) \<Rightarrow> stroops \<Rightarrow> string" where
  "shown_amount7 fmt n = toFixed fmt 7 (xlm_of n)"

text \<open>The file and its name; \<open>fmt\<close> prints numbers from \<open>1e21\<close> on, which no amount of 64 bits reaches.\<close>

definition export_route ::
  "(number \<Rightarrow> string) \<Rightarrow> millis \<Rightarrow> string option \<Rightarrow> js_error + export_db \<Rightarrow> (string \<times> string) reply" where
  "export_route fmt now w tbls =
     (if w = None \<or> w = Some [] then Inl (400, Text ''wallet query parameter is required'')
      else case tbls of
             Inl e \<Rightarrow> Inl (400, error_of ''Export failed'' e)
           | Inr db \<Rightarrow>
               Inr (csv_of (csv_header # export_rows (shown_amount7 fmt) (the w) db),
                    ''sxlm-transactions-'' @ take 8 (the w) @ ''-'' @ iso_day now @ ''.csv''))"

subsection \<open>The exported file reads back\<close>

text \<open>Reading lines and cells without any quoting, as the export writes them.\<close>

fun split_at :: "char \<Rightarrow> string \<Rightarrow> string list" where
  "split_at c [] = [[]]"
| "split_at c (x # xs) = (if x = c then [] # split_at c xs else (case split_at c xs of [] \<Rightarrow> [[x]] | y # ys \<Rightarrow> (x # y) # ys))"

definition read_csv :: "string \<Rightarrow> string list list" where
  "read_csv s = map (split_at CHR '','') (split_at (CHR 0x0A) s)"

definition plain_cell :: "string \<Rightarrow> bool" where
  "plain_cell f \<longleftrightarrow> CHR '','' \<notin> set f \<and> CHR 0x0A \<notin> set f"

lemma split_at_cell: "c \<notin> set x \<Longrightarrow> split_at c x = [x]" "c \<notin> set x \<Longrightarrow> split_at c (x @ c # rest) = x # split_at c rest"
  by (induction x) auto

lemma split_join: "xs \<noteq> [] \<Longrightarrow> \<forall>x\<in>set xs. c \<notin> set x \<Longrightarrow> split_at c (join_with [c] xs) = xs"
  by (induction "[c]" xs rule: join_with.induct) (simp_all add: split_at_cell)

lemma set_join: "set (join_with sep xs) \<subseteq> set sep \<union> \<Union> (set ` set xs)"
  by (induction sep xs rule: join_with.induct) auto

lemma read_csv_of:
  assumes "cells \<noteq> []" "\<forall>row\<in>set cells. row \<noteq> [] \<and> (\<forall>f\<in>set row. plain_cell f)"
  shows "read_csv (csv_of cells) = cells"
proof -
  have "CHR 0x0A \<notin> set (join_with '','' row)" if "row \<in> set cells" for row
    using set_join [of "'',''" row] assms(2) that by (fastforce simp: plain_cell_def)
  then have "split_at (CHR 0x0A) (csv_of cells) = map (join_with '','') cells"
    unfolding csv_of_def using assms(1) by (intro split_join) auto
  moreover have "split_at CHR '','' (join_with '','' row) = row" if "row \<in> set cells" for row
    using assms(2) that by (intro split_join) (auto simp: plain_cell_def)
  ultimately show ?thesis by (simp add: read_csv_def map_idI)
qed

lemma plain_cell_simps [simp]:
  "plain_cell []" "plain_cell (c # f) \<longleftrightarrow> c \<noteq> CHR '','' \<and> c \<noteq> CHR 0x0A \<and> plain_cell f"
  "plain_cell (f @ g) \<longleftrightarrow> plain_cell f \<and> plain_cell g"
  by (auto simp: plain_cell_def)

lemma plain_digits: "set f \<subseteq> set ''0123456789'' \<Longrightarrow> plain_cell f"
  by (auto simp: plain_cell_def)

lemma plain_numeral [simp]: "plain_cell (dec n)" "plain_cell (pad0 k (dec n))"
  by (rule plain_digits [OF set_dec], rule plain_digits [OF set_pad0_dec])

lemma plain_day [simp]: "plain_cell (iso_day t)"
  by (simp add: iso_day_def iso_year_def split: prod.split)

text \<open>An amount below \<open>2^52\<close> stroops is printed exactly, with its seven decimals.\<close>

definition exact_amount :: "stroops \<Rightarrow> string" where
  "exact_amount n = fixed_text 7 (nat n)"

lemma plain_exact [simp]: "plain_cell (exact_amount n)"
  by (simp add: exact_amount_def fixed_text_def)

lemma shown_amount7_exact:
  assumes "0 \<le> n" "n < 2^52"
  shows "shown_amount7 fmt n = exact_amount n"
proof (cases "n = 0")
  case False
  then have n: "0 < n" using assms(1) by simp
  let ?x = "rndq (of_int n / 10000000)"
  note close = shown_close [OF n assms(2)]
  have "of_int n \<le> (2^52 :: rat)" using stroops_as_rat [OF n assms(2)] by auto
  then have "?x \<le> 2^52" using rndq_mono [of "of_int n / 10000000" "of_int (2^52)"] rndq_of_int [of "2^52"] by simp
  moreover have "0 \<le> ?x" using n by (intro rndq_nonneg) simp
  ultimately have x: "0 \<le> ?x" "\<bar>?x\<bar> < 10 ^ 21" by simp_all
  have "\<lfloor>?x * 10 ^ 7 + 1/2\<rfloor> = n"
    using close by (intro floor_unique) (simp_all only: abs_less_iff of_int_numeral, simp_all)
  moreover have "xlm_of n = Fin ?x"
    using n assms \<open>of_int n \<le> (2^52 :: rat)\<close> by (simp add: num_of_big_exact) (subst rnd_110, simp_all)
  ultimately show ?thesis
    using x by (simp add: shown_amount7_def exact_amount_def toFixed_def fixed_units_def)
qed (simp add: shown_amount7_def exact_amount_def toFixed_def fixed_units_def num_of_big_exact)

text \<open>What the rows of a wallet must satisfy: hashes and assets without separators, amounts in range.\<close>

definition amount_in_range :: "stroops \<Rightarrow> bool" where
  "amount_in_range n \<longleftrightarrow> 0 \<le> n \<and> n < 2^52"

definition event_exportable :: "('a event_row_scheme) \<Rightarrow> bool" where
  "event_exportable r \<longleftrightarrow> plain_cell (er_txHash r) \<and> amount_in_range (er_amount r)"

definition exportable :: "wallet \<Rightarrow> export_db \<Rightarrow> bool" where
  "exportable w db \<longleftrightarrow>
     (\<forall>r\<in>set (xp_stakes db). er_wallet r = w \<longrightarrow> event_exportable r) \<and>
     (\<forall>r\<in>set (xp_borrows db) \<union> set (xp_repays db). er_wallet r = w \<longrightarrow> event_exportable r \<and> plain_cell (er_asset r)) \<and>
     (\<forall>r\<in>set (xp_liqs db). er_borrower r = w \<longrightarrow> plain_cell (er_liqHash r) \<and> amount_in_range (er_debtRepaid r) \<and>
        amount_in_range (er_collateralSeized r)) \<and>
     (\<forall>r\<in>set (xp_flash db). er_wallet r = w \<longrightarrow> event_exportable r \<and> plain_cell (er_asset r) \<and> amount_in_range (er_fee r))"

lemma shown_in_range: "amount_in_range n \<Longrightarrow> shown_amount7 fmt n = exact_amount n"
  by (simp add: amount_in_range_def shown_amount7_exact)

lemmas export_line_defs = stake_line_def loan_line_def liq_lines_def flash_line_def event_exportable_def

lemma export_rows_exact:
  assumes "exportable w db"
  shows "export_rows (shown_amount7 fmt) w db = export_rows exact_amount w db"
proof -
  have "stake_line (shown_amount7 fmt) r = stake_line exact_amount r" if "r \<in> set (xp_stakes db)" "er_wallet r = w" for r
    using assms that by (simp add: exportable_def export_line_defs shown_in_range)
  moreover have "loan_line k (shown_amount7 fmt) r = loan_line k exact_amount r"
    if "r \<in> set (xp_borrows db) \<or> r \<in> set (xp_repays db)" "er_wallet r = w" for r k
    using assms that by (auto simp: exportable_def export_line_defs shown_in_range)
  moreover have "liq_lines (shown_amount7 fmt) r = liq_lines exact_amount r" if "r \<in> set (xp_liqs db)" "er_borrower r = w" for r
    using assms that by (simp add: exportable_def export_line_defs shown_in_range)
  moreover have "flash_line (shown_amount7 fmt) r = flash_line exact_amount r" if "r \<in> set (xp_flash db)" "er_wallet r = w" for r
    using assms that by (simp add: exportable_def export_line_defs shown_in_range)
  ultimately show ?thesis
    unfolding export_rows_def by (intro arg_cong2 [where f = append] arg_cong [where f = concat] map_cong refl) auto
qed

lemma export_rows_plain:
  assumes "exportable w db" "row \<in> set (export_rows exact_amount w db)"
  shows "row \<noteq> [] \<and> (\<forall>f\<in>set row. plain_cell f)"
proof -
  consider r where "r \<in> set (xp_stakes db)" "er_wallet r = w" "row = stake_line exact_amount r"
    | r k where "r \<in> set (xp_borrows db) \<union> set (xp_repays db)" "er_wallet r = w" "row = loan_line k exact_amount r" "k \<in> {''Borrow'', ''Repay''}"
    | r where "r \<in> set (xp_liqs db)" "er_borrower r = w" "row \<in> set (liq_lines exact_amount r)"
    | r where "r \<in> set (xp_flash db)" "er_wallet r = w" "row = flash_line exact_amount r"
    using assms(2) by (auto simp: export_rows_def)
  then show ?thesis
  proof cases
    case 2
    then have "plain_cell k" by auto
    then show ?thesis using 2 assms(1) by (auto simp: exportable_def export_line_defs)
  qed (use assms(1) in \<open>auto simp: exportable_def export_line_defs\<close>)
qed


definition demo_export :: export_db where
  "demo_export = \<lparr>xp_stakes = [\<lparr>er_wallet = ''A'', er_txHash = ''h1'', er_amount = 30000001, er_closedAt = 951868800000, er_type = STAKE\<rparr>],
     xp_borrows = [], xp_repays = [],
     xp_liqs = [\<lparr>er_borrower = ''A'', er_liqHash = ''h2'', er_debtRepaid = 21, er_collateralSeized = 10000000, er_liqClosedAt = 951868800000\<rparr>],
     xp_flash = []\<rparr>"


text \<open>The integers a database client accepts, for the witnesses.\<close>

definition whole :: "number \<Rightarrow> int option" where
  "whole n = (case n of Fin x \<Rightarrow> if of_int \<lfloor>x\<rfloor> = x then Some \<lfloor>x\<rfloor> else None | _ \<Rightarrow> None)"

lemma count_param_dec: "n \<le> 365 \<Longrightarrow> 0 \<le> n \<Longrightarrow> whole (count_param (Some (dec n))) = Some (int n)"
  by (simp add: count_param_def js_parseInt_dec js_min_def whole_def)

definition demo_retention :: "retention_row list" where
  "demo_retention = map (\<lambda>(d, k). \<lparr>rt_cohortDate = d, rt_dayOffset = k, rt_total = 4, rt_retained = 2, rt_rate = Fin (1/2)\<rparr>)
     [(0, 0), (0, 1), (86400000, 0), (172800000, 0)]"

theorem newest_cohorts_are_shown_witness:
  "map fst (cohorts_route whole (Some (dec 2)) (Some (dec 30)) (Inr demo_retention) (Inr [])) = [86400000, 172800000]"
  using newest_cohorts_are_shown [OF count_param_dec [of 2] _ count_param_dec [of 30], of demo_retention "[]"]
  by (simp add: demo_retention_def)

theorem negative_window_shows_all_cohorts_witness:
  "map fst (cohorts_route whole (Some ''-1'') (Some (dec 30)) (Inr demo_retention) (Inr [])) = [0, 86400000, 172800000]"
proof -
  have "js_parseInt ''-1'' = Fin (- 1)"
    using parse_int_prefix_dec_int [of "- 1"] by (simp add: js_parseInt_def dec_int_def num_of_big_exact dec.simps digit_def)
  moreover have "\<lfloor>- 1 :: rat\<rfloor> = - 1" by (rule floor_unique) simp_all
  ultimately have "whole (count_param (Some ''-1'')) = Some (- 1)" by (simp add: count_param_def js_min_def whole_def)
  from negative_window_shows_all_cohorts [OF this _ count_param_dec [of 30], of demo_retention "[]"]
  show ?thesis by (simp add: demo_retention_def)
qed

theorem revenue_series_split_the_window_witness:
  "revenue_route (\<lambda>_. None) 0 (None, None) None (Inl (Err [])) = No_revenue"
  using revenue_series_split_the_window [of "''window''" "\<lambda>_. None" 0 "(None, None)" "Inl (Err [])"]
  by (simp add: revenue_route_def)

end
