(* ===== verification/Api_Protocol.thy ===== *)
theory Api_Protocol
  imports Health_Checks Leverage Api_Lending
begin

text \<open>
  The remaining routes: \<open>routes/stats.ts\<close>, \<open>routes/apy.ts\<close>, \<open>routes/admin.ts\<close>,
  \<open>routes/leverage.ts\<close> and \<open>routes/restaking.ts\<close>, and the key \<open>server.ts\<close> limits the
  rate of requests by.
\<close>

subsection \<open>Statistics\<close>

record chart_reply =
  ch_apyHistory :: "(millis \<times> number) list"
  ch_exchangeRateHistory :: "(millis \<times> number) list"
  ch_totalStakedHistory :: "(millis \<times> number) list"
  ch_tvlHistory :: "(millis \<times> number) list"

definition chart_route :: "millis \<Rightarrow> js_error + snapshot list \<Rightarrow> body \<Rightarrow> chart_reply" where
  "chart_route now tbl b =
     (let none = \<lparr>ch_apyHistory = [], ch_exchangeRateHistory = [], ch_totalStakedHistory = [], ch_tvlHistory = []\<rparr>
      in case (chartDaysSchema b, tbl) of
           (Inr (Fin days), Inr snaps) \<Rightarrow>
             (let since = now - \<lfloor>days\<rfloor> * day_ms;
                  ss = sort_key sn_timestamp (filter (\<lambda>s. since \<le> sn_timestamp s) snaps);
                  series = (\<lambda>f. map (\<lambda>s. (sn_timestamp s, f s)) ss)
              in \<lparr>ch_apyHistory = series (\<lambda>s. sn_apy s * lit 100), ch_exchangeRateHistory = series sn_exchangeRate,
                  ch_totalStakedHistory = series (\<lambda>s. num_of_big (sn_totalStaked s) / lit 10000000),
                  ch_tvlHistory = series (\<lambda>s. num_of_big (sn_totalStaked s) / lit 10000000 * lit (12/100))\<rparr>)
         | _ \<Rightarrow> none)"

record stats_view =
  st_totalStaked :: number
  st_totalSxlmSupply :: number
  st_exchangeRate :: number
  st_tvlUsd :: number
  st_xlmPrice :: number
  st_liquidityBuffer :: number
  st_avgValidatorScore :: number
  st_treasuryBalance :: number
  st_isPaused :: bool
  st_protocolFeePct :: number

text \<open>\<open>truthy\<close> numbers: neither zero nor \<open>NaN\<close>.\<close>

definition protocol_stats_route ::
  "js_error + metrics_row list \<Rightarrow> js_error + protocol_stats \<Rightarrow> js_error + number \<Rightarrow> stats_view" where
  "protocol_stats_route metricsResult statsResult rate =
     (let metrics = (case metricsResult of Inr ms \<Rightarrow> newest_metrics ms | Inl _ \<Rightarrow> None);
          protocolStats = (case statsResult of Inr s \<Rightarrow> Some s | Inl _ \<Rightarrow> None);
          exchangeRate = (case protocolStats of Some s \<Rightarrow> ps_exchangeRate s | None \<Rightarrow> (case rate of Inr r \<Rightarrow> r | Inl _ \<Rightarrow> 1));
          xlm = (\<lambda>f. case protocolStats of Some s \<Rightarrow> num_of_big (f s) / lit 10000000 | None \<Rightarrow> 0);
          tvl = (case metrics of Some m \<Rightarrow> me_tvlUsd m | None \<Rightarrow> 0)
      in \<lparr>st_totalStaked = xlm ps_totalStaked, st_totalSxlmSupply = xlm ps_totalSupply, st_exchangeRate = exchangeRate,
          st_tvlUsd = tvl,
          st_xlmPrice = (if tvl \<noteq> 0 \<and> tvl \<noteq> NaN \<and> xlm ps_totalStaked > 0 then tvl / xlm ps_totalStaked else lit (12/100)),
          st_liquidityBuffer = xlm ps_liquidityBuffer,
          st_avgValidatorScore = (case metrics of Some m \<Rightarrow> me_avgValidatorScore m | None \<Rightarrow> 0),
          st_treasuryBalance = xlm ps_treasuryBalance,
          st_isPaused = (case protocolStats of Some s \<Rightarrow> ps_isPaused s | None \<Rightarrow> False),
          st_protocolFeePct = (case protocolStats of Some s \<Rightarrow> ps_protocolFeeBps s / lit 100 | None \<Rightarrow> lit 10)\<rparr>)"

record apy_view =
  ay_currentApr :: number
  ay_currentApy :: number
  ay_apy7d :: number
  ay_apy30d :: number
  ay_apy90d :: number
  ay_exchangeRate :: number
  ay_totalStaked :: string
  ay_totalSupply :: string
  ay_timestamp :: millis

text \<open>\<open>pow\<close> is \<open>Math.pow\<close>; the staking engine, if there is one, answers with a rate or throws.\<close>

definition apy_route ::
  "(number \<Rightarrow> number \<Rightarrow> number) \<Rightarrow> millis \<Rightarrow> js_error + snapshot list \<Rightarrow> (js_error + number) option \<Rightarrow> apy_view" where
  "apy_route pow now tbl stakingEngine =
     (case tbl of
        Inl _ \<Rightarrow> \<lparr>ay_currentApr = 0, ay_currentApy = 0, ay_apy7d = 0, ay_apy30d = 0, ay_apy90d = 0, ay_exchangeRate = 1,
                 ay_totalStaked = ''0'', ay_totalSupply = ''0'', ay_timestamp = now\<rparr>
      | Inr snaps \<Rightarrow>
          (let derivedAPR = getDerivedAPR now snaps;
               derivedAPY = (if derivedAPR > 0 then pow (1 + derivedAPR / lit 1460) (lit 1460) - 1 else 0)
           in case getLatestSnapshot now snaps of
                None \<Rightarrow> \<lparr>ay_currentApr = derivedAPR * lit 100, ay_currentApy = derivedAPY * lit 100, ay_apy7d = 0, ay_apy30d = 0,
                         ay_apy90d = 0, ay_exchangeRate = (case stakingEngine of Some (Inr r) \<Rightarrow> r | _ \<Rightarrow> 1),
                         ay_totalStaked = ''0'', ay_totalSupply = ''0'', ay_timestamp = now\<rparr>
              | Some v \<Rightarrow>
                  (let s = lv_snapshot v
                   in \<lparr>ay_currentApr = derivedAPR * lit 100, ay_currentApy = derivedAPY * lit 100,
                       ay_apy7d = lv_yield7d v * lit 100, ay_apy30d = lv_yield30d v * lit 100, ay_apy90d = derivedAPY * lit 100,
                       ay_exchangeRate = sn_exchangeRate s, ay_totalStaked = dec_int (sn_totalStaked s),
                       ay_totalSupply = dec_int (sn_totalSupply s), ay_timestamp = sn_timestamp s\<rparr>)))"

subsection \<open>Administration\<close>

text \<open>The hook before every handler: the answer it sends instead, if it sends one.\<close>

definition admin_hook :: "string \<Rightarrow> string option \<Rightarrow> (nat \<times> error_text) option" where
  "admin_hook secretKey adminKey =
     (if secretKey = [] then Some (500, Text ''Admin key not configured'')
      else if adminKey \<noteq> Some secretKey then Some (403, Text ''Unauthorized - admin key required'')
      else None)"

definition slashSchema :: "body \<Rightarrow> (number \<times> string option) parsed" where
  "slashSchema b =
     zod_both (zod_field ''amountXlm'' positive_number b)
       (zod_field ''reason'' (\<lambda>v. case v of None \<Rightarrow> Inr None | Some (Api_Gateway.J_str s) \<Rightarrow> Inr (Some s) | _ \<Rightarrow> Inl [([], Type_issue)]) b)"

datatype admin_request = Pause | Unpause | Slash body

datatype admin_answer = Tx_sent tx_hash string | Slashed tx_hash number string

record admin_env =
  ad_call :: call_env
  ad_recalibrate :: call_env
  ad_now :: millis

type_synonym admin_effects = "invocation list \<times> (string \<times> js_val) option"

definition admin_handler ::
  "admin_env \<Rightarrow> 'w bus \<Rightarrow> admin_request \<Rightarrow> admin_effects \<times> admin_answer reply" where
  "admin_handler ev bus req =
     (let answer = (\<lambda>dflt ok r. case r of Inl e \<Rightarrow> Inl (500, error_of dflt e) | Inr h \<Rightarrow> Inr (ok h))
      in case req of
           Pause \<Rightarrow> (let (sent, r) = pause_protocol (ad_call ev)
                     in ((sent, None), answer ''Pause failed'' (\<lambda>h. Tx_sent h ''Protocol paused'') r))
         | Unpause \<Rightarrow> (let (sent, r) = unpause_protocol (ad_call ev)
                       in ((sent, None), answer ''Unpause failed'' (\<lambda>h. Tx_sent h ''Protocol unpaused'') r))
         | Slash b \<Rightarrow>
             (case slashSchema b of
                Inl iss \<Rightarrow> (([], None), Inl (500, Issues iss))
              | Inr (amountXlm, reason) \<Rightarrow>
                  (case amount_stroops amountXlm of
                     Inl e \<Rightarrow> (([], None), Inl (500, error_of ''Slash failed'' e))
                   | Inr slashStroops \<Rightarrow>
                       (let (sent, published, r) = applySlashing slashStroops (ad_now ev) (ad_call ev) (ad_recalibrate ev) bus
                        in ((sent, published),
                            answer ''Slash failed'' (\<lambda>h. Slashed h amountXlm (case reason of None \<Rightarrow> ''manual'' | Some s \<Rightarrow> s)) r)))))"

definition admin_route ::
  "string \<Rightarrow> string option \<Rightarrow> admin_env \<Rightarrow> 'w bus \<Rightarrow> admin_request \<Rightarrow> admin_effects \<times> admin_answer reply" where
  "admin_route secretKey adminKey ev bus req =
     (case admin_hook secretKey adminKey of Some e \<Rightarrow> (([], None), Inl e) | None \<Rightarrow> admin_handler ev bus req)"

subsection \<open>Simulations\<close>

definition number_between :: "number \<Rightarrow> number \<Rightarrow> json option \<Rightarrow> number parsed" where
  "number_between lo hi v =
     (case v of
        Some (Api_Gateway.J_num n) \<Rightarrow> if n \<ge> lo \<and> n \<le> hi then Inr n else Inl [([], Type_issue)]
      | _ \<Rightarrow> Inl [([], Type_issue)])"

definition with_default :: "'a \<Rightarrow> (json option \<Rightarrow> 'a parsed) \<Rightarrow> json option \<Rightarrow> 'a parsed" where
  "with_default d p v = (case v of None \<Rightarrow> Inr d | Some _ \<Rightarrow> p v)"

definition loops_field :: "json option \<Rightarrow> nat parsed" where
  "loops_field v =
     (case number_between 1 (lit 20) v of
        Inl iss \<Rightarrow> Inl iss
      | Inr n \<Rightarrow> (case n of Fin x \<Rightarrow> if of_int \<lfloor>x\<rfloor> = x then Inr (nat \<lfloor>x\<rfloor>) else Inl [([], Type_issue)]
                  | _ \<Rightarrow> Inl [([], Type_issue)]))"

definition leverageSchema :: "body \<Rightarrow> leverage_input parsed" where
  "leverageSchema b =
     (case zod_both (zod_both (zod_both (zod_both (zod_field ''principal'' positive_number b) (zod_field ''loops'' loops_field b))
        (zod_field ''collateralFactor'' (number_between (lit (1/10)) (lit (95/100))) b))
        (zod_field ''stakingAPR'' (number_between 0 1) b)) (zod_field ''borrowAPR'' (number_between 0 1) b) of
        Inl iss \<Rightarrow> Inl iss
      | Inr ((((p, l), c), s), r) \<Rightarrow>
          Inr \<lparr>li_principal = p, li_loops = l, li_collateralFactor = c, li_stakingAPR = s, li_borrowAPR = r\<rparr>)"

definition leverage_route :: "body \<Rightarrow> leverage_result reply" where
  "leverage_route b = (case leverageSchema b of Inl iss \<Rightarrow> Inl (400, Issues iss) | Inr i \<Rightarrow> Inr (leverage_simulate i))"

definition restakingSchema :: "body \<Rightarrow> ((((number \<times> nat) \<times> number) \<times> number) \<times> number) parsed" where
  "restakingSchema b =
     zod_both (zod_both (zod_both (zod_both (zod_field ''principal'' positive_number b) (zod_field ''loops'' loops_field b))
       (zod_field ''collateralFactor'' (with_default (lit (7/10)) (number_between (lit (1/10)) (lit (95/100)))) b))
       (zod_field ''stakingAPR'' (with_default 0 (number_between 0 1)) b))
       (zod_field ''borrowAPR'' (with_default (lit (4/100)) (number_between 0 1)) b)"

definition restaking_route :: "body \<Rightarrow> restaking_result reply" where
  "restaking_route b =
     (case restakingSchema b of
        Inl iss \<Rightarrow> Inl (400, Issues iss)
      | Inr ((((p, l), c), s), r) \<Rightarrow> Inr (restaking_simulate p l c s r))"

subsection \<open>Rate limiting\<close>

text \<open>The first entry of \<open>X-Forwarded-For\<close> if the request has the header, else the peer's address.\<close>

definition rate_key :: "string option \<Rightarrow> string \<Rightarrow> string" where
  "rate_key forwarded ip =
     (case forwarded of None \<Rightarrow> ip | Some h \<Rightarrow> trim (takeWhile (\<lambda>c. c \<noteq> CHR '','') h))"

definition RATE_LIMIT_MAX :: nat where "RATE_LIMIT_MAX = 200"

subsection \<open>The administrator's key\<close>

definition admin_methods :: "admin_request \<Rightarrow> string set" where
  "admin_methods req =
     (case req of Pause \<Rightarrow> {''pause''} | Unpause \<Rightarrow> {''unpause''} | Slash _ \<Rightarrow> {''apply_slashing'', ''recalibrate_rate''})"

lemma submitted_is_call: "iv \<in> set (fst (submit_call label call ev)) \<Longrightarrow> iv = call"
  using submit_call_sent by fast

lemma admin_handler_calls:
  "iv \<in> set (fst (fst (admin_handler ev bus req))) \<Longrightarrow> on_contract iv = Staking \<and> call_method iv \<in> admin_methods req"
  by (auto dest!: submitted_is_call simp: admin_handler_def admin_methods_def pause_protocol_def unpause_protocol_def applySlashing_def callPause_def
      callUnpause_def callApplySlashing_def callRecalibrateRate_def fst_submit split_beta Let_def
      split: admin_request.splits sum.splits prod.splits)

text \<open>
  Without the configured key nothing happens: a request that submits a call, publishes a message or is
  answered with success had the key, and submits only the staking contract's calls of its kind.\<close>

theorem admin_requests_need_the_key:
  assumes "admin_route secretKey adminKey ev bus req = ((sent, published), r)" "sent \<noteq> [] \<or> published \<noteq> None \<or> \<not> isl r"
  shows "adminKey = Some secretKey \<and> secretKey \<noteq> [] \<and>
    (\<forall>iv\<in>set sent. on_contract iv = Staking \<and> call_method iv \<in> admin_methods req)"
  using assms admin_handler_calls [of _ ev bus req]
  by (auto simp: admin_route_def admin_hook_def split: if_splits)

subsection \<open>Accepted simulations\<close>

lemma zod_both_Inr: "zod_both p q = Inr (a, b) \<longleftrightarrow> p = Inr a \<and> q = Inr b"
  by (auto simp: zod_both_def split: sum.splits)

lemma zod_field_Inr: "zod_field name schema b = Inr v \<longleftrightarrow> schema (b name) = Inr v"
  by (auto simp: zod_field_def split: sum.splits)

lemma loops_field_range: "loops_field v = Inr l \<Longrightarrow> 1 \<le> l \<and> l \<le> 20"
  by (auto simp: loops_field_def number_between_def one_number_def le_nat_iff split: option.splits json.splits if_splits number.splits)

text \<open>
  A body the leverage route accepts is within the bounds the simulation is meant for; the restaking
  route, given the same fields, accepts it too and reports the same totals.\<close>

theorem simulation_routes_agree:
  assumes "leverage_route b = Inr r" "b ''collateralFactor'' \<noteq> None" "b ''stakingAPR'' \<noteq> None" "b ''borrowAPR'' \<noteq> None"
  shows "(\<exists>i. leverageSchema b = Inr i \<and> leverage_input_ok i) \<and>
    (\<exists>r'. restaking_route b = Inr r' \<and> rr_totalStaked r' = lr_totalStaked r \<and> rr_totalBorrowed r' = lr_totalBorrowed r)"
proof -
  obtain i where i: "leverageSchema b = Inr i" and r: "r = leverage_simulate i"
    using assms(1) by (auto simp: leverage_route_def split: sum.splits)
  then obtain p l c s a where i': "i = \<lparr>li_principal = p, li_loops = l, li_collateralFactor = c, li_stakingAPR = s, li_borrowAPR = a\<rparr>"
    and f: "zod_field ''principal'' positive_number b = Inr p" "zod_field ''loops'' loops_field b = Inr l"
      "zod_field ''collateralFactor'' (number_between (lit (1/10)) (lit (95/100))) b = Inr c"
      "zod_field ''stakingAPR'' (number_between 0 1) b = Inr s" "zod_field ''borrowAPR'' (number_between 0 1) b = Inr a"
    by (auto simp: leverageSchema_def zod_both_Inr split: sum.splits)
  have "leverage_input_ok i"
    using f(1,3-5) loops_field_range [of "b ''loops''" l] f(2)
    by (auto simp: i' leverage_input_ok_def zod_field_Inr number_between_def positive_number_def
        split: option.splits json.splits if_splits)
  moreover have "restakingSchema b = Inr ((((p, l), c), s), a)"
    using f assms(2-4) by (auto simp: restakingSchema_def zod_both_Inr zod_field_Inr with_default_def split: option.splits)
  ultimately show ?thesis
    using i restaking_agrees_with_leverage [of p l c s a] by (simp add: restaking_route_def r i' Let_def)
qed

subsection \<open>The rate limit\<close>

text \<open>
  The client chooses the key its requests are counted by: whatever the limiter does beyond admitting a request whose key
  is below the limit, some sequence of headers has every one of \<open>n\<close> requests of one address admitted.\<close>

theorem forwarded_header_evades_limit:
  assumes "\<And>ks k. count_list ks k < RATE_LIMIT_MAX \<Longrightarrow> admits ks k"
  shows "\<exists>headers. length headers = n \<and>
    list_all (\<lambda>i. admits (map (\<lambda>h. rate_key (Some h) ip) (take i headers)) (rate_key (Some (headers ! i)) ip)) [0..<n]"
proof -
  have key: "rate_key (Some (dec k)) ip = dec k" for k
  proof -
    have "takeWhile (\<lambda>c. c \<noteq> CHR '','') (dec k) = dec k" using set_dec [of k] by (auto simp: takeWhile_eq_all_conv)
    then show ?thesis by (simp only: rate_key_def option.case trim_dec)
  qed
  have "admits (map dec [0..<i]) (dec i)" for i
  proof (rule assms)
    have "dec i \<notin> set (map dec [0..<i])" by (auto simp: dec_inj)
    then show "count_list (map dec [0..<i]) (dec i) < RATE_LIMIT_MAX" by (simp add: RATE_LIMIT_MAX_def)
  qed
  then show ?thesis
    by (intro exI [of _ "map dec [0..<n]"]) (auto simp: list_all_iff key take_map comp_def)
qed

theorem forwarded_header_evades_limit_witness:
  "\<exists>headers. length headers = 1000 \<and>
    list_all (\<lambda>i. count_list (map (\<lambda>h. rate_key (Some h) ''10.0.0.1'') (take i headers)) (rate_key (Some (headers ! i)) ''10.0.0.1'') < 200)
      [0..<1000]"
  by (rule forwarded_header_evades_limit) (simp add: RATE_LIMIT_MAX_def)

definition demo_admin :: admin_env where
  "demo_admin = \<lparr>ad_call = accepting_call, ad_recalibrate = accepting_call, ad_now = 7\<rparr>"

theorem admin_requests_need_the_key_witness:
  "\<exists>published r. admin_route ''S1'' (Some ''S1'') demo_admin slash_bus Pause =
     (([\<lparr>on_contract = Staking, call_method = ''pause'', call_args = []\<rparr>], published), r) \<and>
   admin_methods Pause = {''pause''}"
proof -
  have "fst (fst (admin_route ''S1'' (Some ''S1'') demo_admin slash_bus Pause)) =
      [\<lparr>on_contract = Staking, call_method = ''pause'', call_args = []\<rparr>]"
    by (simp add: admin_route_def admin_hook_def admin_handler_def pause_protocol_def callPause_def fst_submit
        submit_call_def sample_call_def demo_admin_def accepting_call_def split_beta Let_def)
  then obtain published r where run: "admin_route ''S1'' (Some ''S1'') demo_admin slash_bus Pause =
     (([\<lparr>on_contract = Staking, call_method = ''pause'', call_args = []\<rparr>], published), r)"
    by (metis prod.collapse)
  moreover from admin_requests_need_the_key [OF run] have "''pause'' \<in> admin_methods Pause" by simp
  ultimately show ?thesis by (simp add: admin_methods_def)
qed

theorem simulation_routes_agree_witness:
  "\<exists>r'. restaking_route ((\<lambda>_. None)(''principal'' := Some (Api_Gateway.J_num (Fin 100)), ''loops'' := Some (Api_Gateway.J_num 1),
     ''collateralFactor'' := Some (Api_Gateway.J_num (Fin (1/2))), ''stakingAPR'' := Some (Api_Gateway.J_num 0),
     ''borrowAPR'' := Some (Api_Gateway.J_num 0))) = Inr r'"
proof -
  let ?b = "(\<lambda>_. None)(''principal'' := Some (Api_Gateway.J_num (Fin 100)), ''loops'' := Some (Api_Gateway.J_num 1),
     ''collateralFactor'' := Some (Api_Gateway.J_num (Fin (1/2))), ''stakingAPR'' := Some (Api_Gateway.J_num 0),
     ''borrowAPR'' := Some (Api_Gateway.J_num 0)) :: body"
  have "rndq (1/2) = 1/2" using rndq_grid [of 1 "-1"] by (simp add: power_int_minus_divide)
  then have "rndq (1/10) \<le> 1/2" "1/2 \<le> rndq (95/100)"
    using rndq_mono [of "1/10" "1/2"] rndq_mono [of "1/2" "95/100"] by linarith+
  then have "lit (1/10) \<le> Fin (1/2)" "Fin (1/2) \<le> lit (95/100)"
    by (auto simp: rnd_110 order.order_iff_strict)
  moreover have "(1 :: number) \<le> lit 20" using rndq_of_int [of 20] by (simp add: rnd_110 one_number_def)
  ultimately have "lit (1/10) \<le> Fin (1/2)" "Fin (1/2) \<le> lit (95/100)" "(1 :: number) \<le> lit 20" .
  then have "\<exists>r. leverage_route ?b = Inr r"
    by (simp add: leverage_route_def leverageSchema_def zod_both_def zod_field_def positive_number_def number_between_def
        loops_field_def one_number_def zero_number_def)
  then obtain r where "leverage_route ?b = Inr r" by blast
  from simulation_routes_agree [OF this] show ?thesis by auto
qed

end
