(* ===== verification/Process.thy ===== *)
theory Process
  imports Dex_Service Gov_Contract
begin

text \<open>
  \<open>index.ts\<close>: the process connects, initialises the services one after the other, starts the API
  gateway last, and exits as soon as one of these throws. Stopping runs through the same services.
\<close>

subsection \<open>Starting and stopping\<close>

definition services_in_order :: "string list" where
  "services_in_order =
     [''stakingEngine'', ''rewardEngine'', ''riskEngine'', ''eventListener'', ''hubbleIndexer'', ''userService'', ''metricsCron'',
      ''metricAggregator'', ''cohortAggregator'', ''keeperBot'', ''dexIntegrationService'']"

text \<open>Awaited one after the other, up to the first that throws.\<close>

fun await_all :: "(string \<Rightarrow> js_error option) \<Rightarrow> string list \<Rightarrow> string list \<times> js_error option" where
  "await_all run [] = ([], None)"
| "await_all run (s # ss) =
     (case run s of
        Some e \<Rightarrow> ([], Some e)
      | None \<Rightarrow> (let (finished, r) = await_all run ss in (s # finished, r)))"

definition start_order :: "string list" where
  "start_order = [''database'', ''eventBus''] @ services_in_order @ [''apiGateway'']"

datatype process_state = Running "string list" | Exited nat

definition start_process :: "(string \<Rightarrow> js_error option) \<Rightarrow> process_state" where
  "start_process run =
     (case await_all run start_order of
        (started, None) \<Rightarrow> Running started
      | (_, Some _) \<Rightarrow> Exited 1)"

text \<open>
  The handler of the signals; what it throws is an unhandled rejection, which ends the process with
  status 1 and leaves the rest as it is.\<close>

definition stop_process :: "(string \<Rightarrow> js_error option) \<Rightarrow> string list \<times> process_state" where
  "stop_process run =
     (case await_all run ([''apiGateway''] @ services_in_order @ [''eventBus'', ''database'']) of
        (stopped, None) \<Rightarrow> (stopped, Exited 0)
      | (stopped, Some _) \<Rightarrow> (stopped, Exited 1))"

lemma await_all_stops:
  "run s = Some e \<Longrightarrow> s \<in> set ss \<Longrightarrow> snd (await_all run ss) \<noteq> None"
  by (induction ss) (auto split: option.split prod.split simp: Let_def split_beta)

lemma start_fails: "run s = Some e \<Longrightarrow> s \<in> set start_order \<Longrightarrow> start_process run = Exited 1"
  using await_all_stops [of run s e start_order] by (auto simp: start_process_def split: prod.split option.split)

subsection \<open>One proposal keeps the process down\<close>

text \<open>The dex service's step of a start, for what the database holds.\<close>

definition dex_step :: "js_error option \<Rightarrow> dex_env \<Rightarrow> dex_service \<Rightarrow> js_error option" where
  "dex_step ens ev s = (case snd (dex_initialize ens ev s) of Inl e \<Rightarrow> Some e | Inr _ \<Rightarrow> None)"

text \<open>A synchronised program proposal whose value is \<open>null\<close> stays in the table as executed, whatever applying it does.\<close>

lemma written_row:
  obtains g where "g \<in> set (write_row i p vf va st x now rs)" "gr_paramKey g = cp_paramKey p" "gr_newValue g = cp_newValue p"
    "gr_status g = st"
proof (cases "find_row i rs")
  case (Some r)
  then have "r \<in> set rs" by (auto simp: find_row_def find_Some_iff)
  then show thesis using Some by (intro that [of "r\<lparr>gr_proposer := cp_proposer p, gr_paramKey := cp_paramKey p,
    gr_newValue := cp_newValue p, gr_votesFor := vf, gr_votesAgainst := va, gr_status := st, gr_expiresAt := x\<rparr>"])
    (force simp: write_row_def)+
qed (rule that [of "\<lparr>gr_id = next_gid rs, gr_chainProposalId = Some i, gr_proposer = cp_proposer p, gr_paramKey = cp_paramKey p,
    gr_newValue = cp_newValue p, gr_votesFor = vf, gr_votesAgainst = va, gr_status = st, gr_appliedAt = None, gr_createdAt = now,
    gr_expiresAt = x\<rparr>"], simp_all add: write_row_def)

lemma synced_null_row:
  assumes "pe_proposal ev = Inr (Some p)" "pe_votes ev = Inr vc" "pe_select ev = None" "prop_env.pe_write ev = None" "cp_executed p"
    "startsWith (cp_paramKey p) program_prefix" "le_json (pe_lm ev) (cp_newValue p) = Some js_val.J_null"
  obtains g where "g \<in> set (gs_rows (fst (sync_one ev latest i s)))" "gr_paramKey g = cp_paramKey p"
    "gr_newValue g = cp_newValue p" "gr_status g = ''executed''"
proof -
  obtain vf va where vc: "(case vc of None \<Rightarrow> (0, 0) | Some v \<Rightarrow> v) = (vf, va)" by fastforce
  have apply_rows: "gs_rows (fst (applyGovernanceParam (cp_paramKey p) (cp_newValue p) i ev t)) = gs_rows t" for t
    using assms(6) by (simp add: applyGovernanceParam_def split: sum.split)
  have null: "\<exists>e. snd (applyGovernanceParam (cp_paramKey p) (cp_newValue p) i ev t) = Inl e" for t
    using assms(6,7)
    by (auto simp: applyGovernanceParam_def applyLiquidityMiningProposal_def parseLiquidityMiningProgramProposal_def split: sum.split)
  define rs where "rs = write_row i p vf va ''executed'' (pe_now ev + max 0 (cp_endLedger p - latest) * 5000) (pe_now ev) (gs_rows s)"
  obtain t2 e where a: "applyGovernanceParam (cp_paramKey p) (cp_newValue p) i ev (s\<lparr>gs_rows := rs\<rparr>) = (t2, Inl e)"
    using null by (metis prod.collapse)
  then have "gs_rows t2 = rs" using apply_rows [of "s\<lparr>gs_rows := rs\<rparr>"] by simp
  then have "gs_rows (fst (sync_one ev latest i s)) = rs"
    using assms(1-5) vc a by (simp add: sync_one_def upsertGovernanceProposal_def deriveStatus_def Let_def rs_def [symmetric])
  moreover obtain g where "g \<in> set rs" "gr_paramKey g = cp_paramKey p" "gr_newValue g = cp_newValue p" "gr_status g = ''executed''"
    unfolding rs_def by (rule written_row)
  ultimately show thesis using that by simp
qed

text \<open>
  C28. Governance, database, dex service and process together: once a liquidity-mining proposal with the value \<open>null\<close> is
  executed on chain and synchronised, the process exits at every start, whatever its other parts do, and serves nothing.\<close>

theorem null_proposal_keeps_process_down:
  assumes "pe_proposal ev = Inr (Some p)" "pe_votes ev = Inr vc" "pe_select ev = None" "prop_env.pe_write ev = None"
    and "cp_executed p" "startsWith (cp_paramKey p) program_prefix" "cp_newValue p = ''null''"
    and "le_json (pe_lm ev) ''null'' = Some js_val.J_null" "le_json (dx_lm dev) ''null'' = Some js_val.J_null"
    and "dx_gov dev = gs_rows (fst (sync_one ev latest i s))"
    and "\<not> dex_initialized d" "run ''dexIntegrationService'' = dex_step ens dev d"
  shows "start_process run = Exited 1"
proof -
  have "le_json (pe_lm ev) (cp_newValue p) = Some js_val.J_null" using assms(7,8) by simp
  then obtain g where "g \<in> set (gs_rows (fst (sync_one ev latest i s)))" "gr_paramKey g = cp_paramKey p"
      "gr_newValue g = cp_newValue p" "gr_status g = ''executed''"
    by (rule synced_null_row [OF assms(1-6)])
  then have g: "g \<in> set (dx_gov dev)" "gr_paramKey g = cp_paramKey p" "gr_newValue g = ''null''" "gr_status g = ''executed''"
    using assms(7,10) by simp_all
  obtain rs' e where "syncLiquidityMiningProgramsFromGovernance (dx_lm dev) (dx_gov dev) (pg_rows (dex_tables d)) = (rs', Some e)"
    by (rule sync_stops_service [OF g(1,4)]) (simp_all add: g assms(6,9))
  then have "\<exists>e. dex_step ens dev d = Some e"
    using assms(11) by (cases ens) (simp_all add: dex_step_def dex_initialize_def)
  then obtain e where "run ''dexIntegrationService'' = Some e" using assms(12) by auto
  then show ?thesis by (rule start_fails) (simp add: start_order_def services_in_order_def)
qed

definition null_prop_env :: prop_env where
  "null_prop_env = (sample_prop_env ''null'' None)
     \<lparr>pe_proposal := Inr (Some ((fee_proposal ''null'')\<lparr>cp_paramKey := ''liquidity_mining_program''\<rparr>)),
      pe_lm := dx_lm (demo_dex (Inl TypeError) 40000 [])\<rparr>"

definition null_dex_env :: dex_env where
  "null_dex_env = demo_dex (Inl TypeError) 40000 (gs_rows (fst (sync_one null_prop_env 9 7 empty_gov)))"

theorem null_proposal_keeps_process_down_witness:
  "start_process (\<lambda>s. if s = ''dexIntegrationService'' then
     dex_step None null_dex_env \<lparr>dex_tables = demo_dex_db, dex_refresh = False, dex_initialized = False\<rparr> else None) = Exited 1"
  by (rule null_proposal_keeps_process_down [where ev = null_prop_env and latest = 9 and i = 7 and s = empty_gov and dev = null_dex_env
        and p = "(fee_proposal ''null'')\<lparr>cp_paramKey := ''liquidity_mining_program''\<rparr>" and vc = "Some (2, 1)"
        and d = "\<lparr>dex_tables = demo_dex_db, dex_refresh = False, dex_initialized = False\<rparr>" and ens = None])
    (simp_all add: null_prop_env_def null_dex_env_def sample_prop_env_def fee_proposal_def demo_dex_def program_prefix_def)

end
