(* ===== verification/Web_Client.thy ===== *)
theory Web_Client
  imports Api_Staking
begin

text \<open>
  How the web frontend talks to the backend: the HTTP client of \<open>frontend/src/lib/apiClient.ts\<close> with
  its timeout and its retry, the wallet session of \<open>hooks/useWallet.ts\<close>, and the life of a
  transaction in \<open>hooks/useStaking.ts\<close>, from the click to the message shown. The browser wallet
  and what the network does to a request come from an environment; the backend's side of a request
  is its route of \<open>Api_Gateway\<close> and \<open>Api_Staking\<close>.
\<close>

subsection \<open>The HTTP client\<close>

text \<open>
  What a rejected call is: an error of the HTTP library, with the status and the \<open>error\<close> text of
  the response if there was one, and its own message; or something else thrown.\<close>

datatype failure = Axios "(nat \<times> string option) option" string | Other thrown

definition isNetworkError :: "failure \<Rightarrow> bool" where
  "isNetworkError err = (case err of Axios None _ \<Rightarrow> True | _ \<Rightarrow> False)"

definition client_MAX_RETRIES :: nat where "client_MAX_RETRIES = 1"

definition client_timeout :: millis where "client_timeout = 8000"

text \<open>
  The interceptor: a request nobody answered is sent again. The server's state is threaded through the
  attempts, which are numbered by \<open>_retryCount\<close>.\<close>

function send_request :: "(nat \<Rightarrow> 's \<Rightarrow> 's \<times> (failure + 'a)) \<Rightarrow> nat \<Rightarrow> 's \<Rightarrow> 's \<times> (failure + 'a)" where
  "send_request attempt retryCount s =
     (case attempt retryCount s of
        (s', Inr res) \<Rightarrow> (s', Inr res)
      | (s', Inl err) \<Rightarrow>
          if isNetworkError err \<and> retryCount < client_MAX_RETRIES
          then send_request attempt (Suc retryCount) s' else (s', Inl err))"
  by pat_completeness auto
termination by (relation "measure (\<lambda>(attempt, n, s). client_MAX_RETRIES - n)") auto

declare send_request.simps [simp del]

text \<open>
  What the network does to one attempt: it never reaches the server, it is handled and the reply
  takes a while (beyond what the handler itself waits), or it is handled and the reply is lost. A reply
  later than the timeout counts as none.\<close>

datatype delivery = Unsent string | Arrived nat | Reply_lost string

definition await_reply :: "millis \<Rightarrow> failure + 'a \<Rightarrow> failure + 'a" where
  "await_reply elapsed r =
     (if client_timeout < elapsed then Inl (Axios None ''timeout of 8000ms exceeded'') else r)"

definition deliver :: "delivery \<Rightarrow> 's \<Rightarrow> 's \<times> millis \<times> (failure + 'a) \<Rightarrow> 's \<times> (failure + 'a)" where
  "deliver d s handled =
     (case d of
        Unsent m \<Rightarrow> (s, Inl (Axios None m))
      | Reply_lost m \<Rightarrow> (fst handled, Inl (Axios None m))
      | Arrived t \<Rightarrow> (fst handled, await_reply (int t + fst (snd handled)) (snd (snd handled))))"

definition api_call ::
  "(nat \<Rightarrow> delivery) \<Rightarrow> (nat \<Rightarrow> 's \<Rightarrow> 's \<times> millis \<times> (failure + 'a)) \<Rightarrow> 's \<Rightarrow> 's \<times> (failure + 'a)" where
  "api_call net handler = send_request (\<lambda>i s. deliver (net i) s (handler i s)) 0"

text \<open>A route's reply as the client sees it; the text of a schema error is the parameter \<open>zt\<close>.\<close>

definition http_reply :: "(issue list \<Rightarrow> string) \<Rightarrow> 'a reply \<Rightarrow> failure + 'a" where
  "http_reply zt r =
     (case r of
        Inr a \<Rightarrow> Inr a
      | Inl (st, e) \<Rightarrow> Inl (Axios (Some (st, Some (case e of Text m \<Rightarrow> m | Issues iss \<Rightarrow> zt iss)))
                               (''Request failed with status code '' @ dec st)))"

text \<open>The message every hook shows for a failed call.\<close>

definition failure_message :: "string \<Rightarrow> failure \<Rightarrow> string" where
  "failure_message dflt err =
     (case err of
        Axios (Some (st, Some e)) m \<Rightarrow> if e \<noteq> [] then e else m
      | Axios _ m \<Rightarrow> m
      | Other (Some m) \<Rightarrow> m
      | Other None \<Rightarrow> dflt)"

subsection \<open>The wallet session\<close>

text \<open>A text is truthy when it is there and not empty.\<close>

definition nonempty_text :: "string option \<Rightarrow> bool" where
  "nonempty_text v = (case v of None \<Rightarrow> False | Some s \<Rightarrow> s \<noteq> [])"

record wallet_state =
  publicKey :: "wallet option"
  isConnected :: bool
  isConnecting :: bool
  wallet_error :: "string option"
  jwtToken :: "string option"

text \<open>The two keys of \<open>localStorage\<close> the session uses.\<close>

record local_storage =
  stored_token :: "string option"
  stored_wallet :: "string option"

text \<open>
  The browser wallet: whether it is there (loading its library included), its answers, and its two ways
  to a signature: \<open>signBlob\<close>, if it exists, may give a text or an object (\<open>None\<close>); otherwise a digest.\<close>

record freighter =
  fr_isConnected :: "thrown + bool"
  fr_getPublicKey :: "thrown + string"
  fr_requestAccess :: "thrown + string"
  fr_signBlob :: "(thrown + string option) option"
  fr_digest :: "thrown + string"
  fr_signTransaction :: "string \<Rightarrow> string \<Rightarrow> thrown + string"

definition disconnected :: wallet_state where
  "disconnected = \<lparr>publicKey = None, isConnected = False, isConnecting = False, wallet_error = None, jwtToken = None\<rparr>"

definition session_of :: "wallet \<Rightarrow> string option \<Rightarrow> wallet_state" where
  "session_of w token =
     \<lparr>publicKey = Some w, isConnected = True, isConnecting = False, wallet_error = None, jwtToken = token\<rparr>"

definition initial_session :: "local_storage \<Rightarrow> wallet_state" where
  "initial_session ls =
     (if nonempty_text (stored_token ls) \<and> nonempty_text (stored_wallet ls)
      then session_of (the (stored_wallet ls)) (stored_token ls) else disconnected)"

definition checkConnection :: "freighter \<Rightarrow> local_storage \<Rightarrow> wallet_state \<Rightarrow> wallet_state" where
  "checkConnection fr ls st =
     (case fr_isConnected fr of
        Inr True \<Rightarrow>
          (case fr_getPublicKey fr of
             Inr pubKey \<Rightarrow>
               if pubKey \<noteq> [] \<and> nonempty_text (stored_token ls) \<and> stored_wallet ls = Some pubKey
               then session_of pubKey (stored_token ls) else st
           | Inl t \<Rightarrow> st)
      | _ \<Rightarrow> st)"

definition login_signature :: "freighter \<Rightarrow> string" where
  "login_signature fr =
     (case fr_signBlob fr of
        Some (Inr (Some s)) \<Rightarrow> s
      | Some _ \<Rightarrow> []
      | None \<Rightarrow> (case fr_digest fr of Inr s \<Rightarrow> s | Inl t \<Rightarrow> []))"

definition login_message :: "wallet \<Rightarrow> millis \<Rightarrow> string" where
  "login_message w now = ''sXLM Protocol Login: '' @ w @ '' at '' @ dec_int now"

definition login_body :: "wallet \<Rightarrow> string \<Rightarrow> string \<Rightarrow> body" where
  "login_body w signature message =
     [''wallet'' \<mapsto> J_str w, ''signature'' \<mapsto> J_str signature, ''message'' \<mapsto> J_str message]"

text \<open>\<open>login\<close> is the request to the backend; it gives the token of the reply.\<close>

definition authenticateWithBackend ::
  "(body \<Rightarrow> failure + string) \<Rightarrow> freighter \<Rightarrow> millis \<Rightarrow> wallet \<Rightarrow> failure + string" where
  "authenticateWithBackend login fr now w = login (login_body w (login_signature fr) (login_message w now))"

definition connect_failed :: "thrown \<Rightarrow> wallet_state \<Rightarrow> wallet_state" where
  "connect_failed t st =
     st\<lparr>isConnecting := False, wallet_error := Some (case t of Some m \<Rightarrow> m | None \<Rightarrow> ''Failed to connect wallet'')\<rparr>"

definition connect ::
  "(body \<Rightarrow> failure + string) \<Rightarrow> freighter \<Rightarrow> millis \<Rightarrow> local_storage \<times> wallet_state \<Rightarrow> local_storage \<times> wallet_state" where
  "connect login fr now s =
     (let ls = fst s; st = (snd s)\<lparr>isConnecting := True, wallet_error := None\<rparr>
      in case fr_isConnected fr of
           Inl t \<Rightarrow> (ls, connect_failed t st)
         | Inr False \<Rightarrow> (ls, connect_failed (Some ''Freighter wallet extension not detected. Please install it from https://freighter.app'') st)
         | Inr True \<Rightarrow>
         (case fr_requestAccess fr of
            Inl t \<Rightarrow> (ls, connect_failed t st)
          | Inr w \<Rightarrow>
              if w = [] then (ls, connect_failed (Some ''No address returned from Freighter. Please unlock your wallet and try again.'') st)
              else (let token = (case authenticateWithBackend login fr now w of Inr t \<Rightarrow> t | Inl e \<Rightarrow> []);
                        ls1 = (if token \<noteq> [] then ls\<lparr>stored_token := Some token\<rparr> else ls)
                    in (ls1\<lparr>stored_wallet := Some w\<rparr>, session_of w (if token \<noteq> [] then Some token else None)))))"

definition disconnect :: "local_storage \<times> wallet_state \<Rightarrow> local_storage \<times> wallet_state" where
  "disconnect s = (\<lparr>stored_token = None, stored_wallet = None\<rparr>, disconnected)"

definition wallet_signTransaction :: "freighter \<Rightarrow> wallet_state \<Rightarrow> string \<Rightarrow> string \<Rightarrow> failure + string" where
  "wallet_signTransaction fr st xdr networkPassphrase =
     (if \<not> isConnected st then Inl (Other (Some ''Wallet not connected''))
      else case fr_signTransaction fr xdr networkPassphrase of
             Inr signed \<Rightarrow> Inr signed
           | Inl t \<Rightarrow> Inl (Other (Some (case t of Some m \<Rightarrow> m | None \<Rightarrow> ''Failed to sign transaction''))))"

definition getAuthHeaders :: "wallet_state \<Rightarrow> string option" where
  "getAuthHeaders st = (if nonempty_text (jwtToken st) then Some (''Bearer '' @ the (jwtToken st)) else None)"

subsection \<open>Staking from the browser\<close>

text \<open>The fields of a reply that builds a transaction which the hooks read.\<close>

record tx_data =
  tx_xdr :: "string option"
  tx_networkPassphrase :: string
  tx_txHash :: "string option"

record balance_info =
  bi_sxlmBalance :: number
  bi_xlmValue :: number
  bi_exchangeRate :: number
  bi_xlmNativeBalance :: number
  bi_archived :: bool

record staking_hook =
  hk_isStaking :: bool
  hk_isUnstaking :: bool
  hk_isClaiming :: bool
  hk_error :: "string option"
  hk_lastTxHash :: "string option"
  hk_isPending :: bool
  hk_pendingWithdrawals :: "withdrawal_view list"
  hk_balance :: balance_info

definition initial_hook :: staking_hook where
  "initial_hook =
     \<lparr>hk_isStaking = False, hk_isUnstaking = False, hk_isClaiming = False, hk_error = None, hk_lastTxHash = None,
      hk_isPending = False, hk_pendingWithdrawals = [],
      hk_balance = \<lparr>bi_sxlmBalance = 0, bi_xlmValue = 0, bi_exchangeRate = 1, bi_xlmNativeBalance = 0, bi_archived = False\<rparr>\<rparr>"

text \<open>
  What a refresh of the balance meets: the account's balances by type of asset (if they could be had), the
  backend's reply, and the simulation on chain, which throws or gives the stroops if it succeeds.\<close>

record refresh_env =
  rf_account :: "(string \<times> string) list option"
  rf_api :: "balance_reply option"
  rf_chain :: "thrown + int option"

definition native_balance :: "(string \<times> string) list option \<Rightarrow> number" where
  "native_balance bs =
     (case bs of
        None \<Rightarrow> 0
      | Some l \<Rightarrow> (case map_of l ''native'' of None \<Rightarrow> 0 | Some b \<Rightarrow> js_parseFloat b))"

definition refreshBalance :: "refresh_env \<Rightarrow> wallet_state \<Rightarrow> staking_hook \<Rightarrow> staking_hook" where
  "refreshBalance rf st h =
     (if \<not> nonempty_text (publicKey st) then h
      else (let rate = (case rf_api rf of Some d \<Rightarrow> br_exchangeRate d | None \<Rightarrow> 1);
                sxlm = (case rf_chain rf of
                          Inr (Some n) \<Rightarrow> num_of_big n / lit 10000000
                        | Inr None \<Rightarrow> 0
                        | Inl t \<Rightarrow> (case rf_api rf of Some d \<Rightarrow> br_sxlmBalance d | None \<Rightarrow> 0))
            in h\<lparr>hk_balance := \<lparr>bi_sxlmBalance = sxlm, bi_xlmValue = sxlm * rate, bi_exchangeRate = rate,
                               bi_xlmNativeBalance = native_balance (rf_account rf),
                               bi_archived = (case rf_api rf of Some d \<Rightarrow> br_archived d | None \<Rightarrow> False)\<rparr>\<rparr>))"

text \<open>The calls of the backend, by endpoint, authorisation header and body; each with its retry.\<close>

record backend =
  bk_build :: "string \<Rightarrow> string option \<Rightarrow> body \<Rightarrow> failure + tx_data"
  bk_submit :: "string option \<Rightarrow> body \<Rightarrow> failure + submit_reply"
  bk_withdrawals :: "string option \<Rightarrow> wallet \<Rightarrow> failure + withdrawal_view list"
  bk_refresh :: refresh_env

text \<open>The middle of every flow: sign the transaction, if there is one, and submit it.\<close>

definition sign_and_submit :: "backend \<Rightarrow> freighter \<Rightarrow> wallet_state \<Rightarrow> tx_data \<Rightarrow> failure + submit_reply option" where
  "sign_and_submit bk fr st tx =
     (if nonempty_text (tx_xdr tx)
      then case wallet_signTransaction fr st (the (tx_xdr tx)) (tx_networkPassphrase tx) of
             Inl err \<Rightarrow> Inl err
           | Inr signedXdr \<Rightarrow>
               (case bk_submit bk (getAuthHeaders st) [''signedXdr'' \<mapsto> J_str signedXdr] of
                  Inl err \<Rightarrow> Inl err
                | Inr d \<Rightarrow> Inr (Some d))
      else Inr None)"

definition build_and_submit ::
  "backend \<Rightarrow> freighter \<Rightarrow> wallet_state \<Rightarrow> string \<Rightarrow> body \<Rightarrow> failure + tx_data \<times> submit_reply option" where
  "build_and_submit bk fr st endpoint b =
     (case bk_build bk endpoint (getAuthHeaders st) b of
        Inl err \<Rightarrow> Inl err
      | Inr tx \<Rightarrow> (case sign_and_submit bk fr st tx of Inl err \<Rightarrow> Inl err | Inr r \<Rightarrow> Inr (tx, r)))"

definition may_act :: "wallet_state \<Rightarrow> bool" where
  "may_act st \<longleftrightarrow> isConnected st \<and> nonempty_text (publicKey st)"

definition not_connected :: "staking_hook \<Rightarrow> staking_hook \<times> bool" where
  "not_connected h = (h\<lparr>hk_error := Some ''Please connect your wallet first''\<rparr>, False)"

text \<open>The hash and the pending flag a finished flow leaves.\<close>

definition show_result :: "tx_data \<times> submit_reply option \<Rightarrow> staking_hook \<Rightarrow> staking_hook" where
  "show_result r h =
     (case r of
        (tx, Some d) \<Rightarrow> h\<lparr>hk_lastTxHash := Some (sb_txHash d), hk_isPending := sb_pending d\<rparr>
      | (tx, None) \<Rightarrow> h\<lparr>hk_lastTxHash := (if nonempty_text (tx_txHash tx) then tx_txHash tx else None), hk_isPending := False\<rparr>)"

definition stake_flow ::
  "backend \<Rightarrow> freighter \<Rightarrow> wallet_state \<Rightarrow> number \<Rightarrow> staking_hook \<Rightarrow> staking_hook \<times> bool" where
  "stake_flow bk fr st xlmAmount h =
     (if \<not> may_act st then not_connected h
      else (let h1 = h\<lparr>hk_isStaking := True, hk_error := None\<rparr>
            in case build_and_submit bk fr st ''staking/stake''
                      [''userAddress'' \<mapsto> J_str (the (publicKey st)), ''amount'' \<mapsto> J_num xlmAmount] of
                 Inl err \<Rightarrow> (h1\<lparr>hk_isStaking := False, hk_error := Some (failure_message ''Staking failed'' err)\<rparr>, False)
               | Inr r \<Rightarrow> (refreshBalance (bk_refresh bk) st (show_result r (h1\<lparr>hk_isStaking := False\<rparr>)), True)))"

definition unstake_flow ::
  "backend \<Rightarrow> freighter \<Rightarrow> wallet_state \<Rightarrow> number \<Rightarrow> bool \<Rightarrow> staking_hook \<Rightarrow> staking_hook \<times> bool" where
  "unstake_flow bk fr st sxlmAmount instant h =
     (if \<not> may_act st then not_connected h
      else (let h1 = h\<lparr>hk_isUnstaking := True, hk_error := None\<rparr>
            in case build_and_submit bk fr st ''staking/unstake''
                      [''userAddress'' \<mapsto> J_str (the (publicKey st)), ''amount'' \<mapsto> J_num sxlmAmount, ''instant'' \<mapsto> J_bool instant] of
                 Inl err \<Rightarrow> (h1\<lparr>hk_isUnstaking := False, hk_error := Some (failure_message ''Unstaking failed'' err)\<rparr>, False)
               | Inr r \<Rightarrow> (refreshBalance (bk_refresh bk) st (show_result r (h1\<lparr>hk_isUnstaking := False\<rparr>)), True)))"

text \<open>
  A claim. The row is marked as claimed by a request of its own, the last component of the result; its answer
  is ignored, and the row leaves the list either way.\<close>

definition claim_flow ::
  "backend \<Rightarrow> freighter \<Rightarrow> wallet_state \<Rightarrow> string \<Rightarrow> staking_hook \<Rightarrow> staking_hook \<times> bool \<times> (string option \<times> body) option" where
  "claim_flow bk fr st withdrawalId h =
     (if \<not> may_act st then (fst (not_connected h), False, None)
      else (let h1 = h\<lparr>hk_isClaiming := True, hk_error := None\<rparr>
            in case build_and_submit bk fr st ''staking/claim''
                      [''userAddress'' \<mapsto> J_str (the (publicKey st)), ''withdrawalId'' \<mapsto> J_str withdrawalId] of
                 Inl err \<Rightarrow> (h1\<lparr>hk_isClaiming := False, hk_error := Some (failure_message ''Claim failed'' err)\<rparr>, False, None)
               | Inr r \<Rightarrow>
                   (refreshBalance (bk_refresh bk) st
                      (h1\<lparr>hk_isClaiming := False,
                          hk_pendingWithdrawals := filter (\<lambda>w. wv_id w \<noteq> withdrawalId) (hk_pendingWithdrawals h1)\<rparr>),
                    True,
                    Some (getAuthHeaders st,
                          [''wallet'' \<mapsto> J_str (the (publicKey st)), ''withdrawalId'' \<mapsto> J_str withdrawalId]))))"

definition fetchPendingWithdrawals :: "backend \<Rightarrow> wallet_state \<Rightarrow> staking_hook \<Rightarrow> staking_hook" where
  "fetchPendingWithdrawals bk st h =
     (if \<not> nonempty_text (publicKey st) then h
      else case bk_withdrawals bk (getAuthHeaders st) (the (publicKey st)) of
             Inr ws \<Rightarrow> h\<lparr>hk_pendingWithdrawals := ws\<rparr>
           | Inl err \<Rightarrow> h)"

definition hook_clearError :: "staking_hook \<Rightarrow> staking_hook" where
  "hook_clearError h = h\<lparr>hk_error := None\<rparr>"

subsection \<open>The backend at the other end\<close>

text \<open>
  The three requests the theorems follow to the backend: logging in, submitting and unstaking. A submit
  request waits for the polls of its route; every attempt has its own answers.\<close>

definition backend_login ::
  "(string \<Rightarrow> bool) \<Rightarrow> (wallet \<Rightarrow> string) \<Rightarrow> (issue list \<Rightarrow> string) \<Rightarrow> (nat \<Rightarrow> delivery) \<Rightarrow> body \<Rightarrow> failure + string" where
  "backend_login isValid sign zt net b =
     snd (api_call net (\<lambda>i s. (s, 0, map_sum id fst (http_reply zt (login_route isValid sign b)))) ())"

record submit_env =
  sv_net :: "nat \<Rightarrow> delivery"
  sv_sent :: "nat \<Rightarrow> thrown + rpc_result"
  sv_polls :: "nat \<Rightarrow> nat \<Rightarrow> tx_answer"

definition polls_started :: "(thrown + rpc_result) \<Rightarrow> body \<Rightarrow> bool" where
  "polls_started sent b =
     (case (signedXdrSchema b, sent) of
        (Inr x, Inr r) \<Rightarrow> rr_error r = None \<and> (case rr_result r of Some (h, st, e) \<Rightarrow> st \<noteq> ''ERROR'' | None \<Rightarrow> False)
      | _ \<Rightarrow> False)"

text \<open>The time the sleeps of the poll loop take until an answer decides.\<close>

fun schedule_time :: "(nat \<Rightarrow> tx_answer) \<Rightarrow> nat \<Rightarrow> millis list \<Rightarrow> millis" where
  "schedule_time ans i [] = 0"
| "schedule_time ans i (intervalMs # rest) =
     intervalMs + (case decide_answer (ans i) of Some r \<Rightarrow> 0 | None \<Rightarrow> schedule_time ans (Suc i) rest)"

definition submit_handler ::
  "(issue list \<Rightarrow> string) \<Rightarrow> submit_env \<Rightarrow> body \<Rightarrow> nat \<Rightarrow> unit \<Rightarrow> unit \<times> millis \<times> (failure + submit_reply)" where
  "submit_handler zt ev b i s =
     (s, if polls_started (sv_sent ev i) b then schedule_time (sv_polls ev i) 0 schedule else 0,
      http_reply zt (submit_route (sv_sent ev i) (sv_polls ev i) b))"

definition submit_call :: "(issue list \<Rightarrow> string) \<Rightarrow> submit_env \<Rightarrow> body \<Rightarrow> failure + submit_reply" where
  "submit_call zt ev b = snd (api_call (sv_net ev) (submit_handler zt ev b) ())"

definition unstake_refusal :: "(issue list \<Rightarrow> string) \<Rightarrow> (number \<Rightarrow> number \<Rightarrow> string) \<Rightarrow> unstake_error \<Rightarrow> string" where
  "unstake_refusal zt insufficient e =
     (case e of
        Refused (Text m) \<Rightarrow> m
      | Refused (Issues iss) \<Rightarrow> zt iss
      | Archived \<Rightarrow> ''Your sXLM balance entry has expired (TTL) on testnet. Use the Restore Balance button to recover it first.''
      | Insufficient a b \<Rightarrow> insufficient a b)"

definition unstake_handler ::
  "(string \<Rightarrow> bool) \<Rightarrow> (number \<Rightarrow> string) \<Rightarrow> (unstake_error \<Rightarrow> string) \<Rightarrow> (nat \<Rightarrow> unstake_env) \<Rightarrow> string \<Rightarrow> body \<Rightarrow> nat \<Rightarrow>
     withdrawal list \<Rightarrow> withdrawal list \<times> millis \<times> (failure + tx_data)" where
  "unstake_handler isValid fmt refusal evs passphrase b i ws =
     (case unstake_route isValid fmt (evs i) b ws of
        (ws', Inl e) \<Rightarrow> (ws', 0, Inl (Axios (Some (400, Some (refusal e))) ''Request failed with status code 400''))
      | (ws', Inr r) \<Rightarrow> (ws', 0, Inr \<lparr>tx_xdr = Some (ur_xdr r), tx_networkPassphrase = passphrase, tx_txHash = None\<rparr>))"

definition unstake_call ::
  "(string \<Rightarrow> bool) \<Rightarrow> (number \<Rightarrow> string) \<Rightarrow> (unstake_error \<Rightarrow> string) \<Rightarrow> (nat \<Rightarrow> delivery) \<Rightarrow> (nat \<Rightarrow> unstake_env) \<Rightarrow>
     string \<Rightarrow> body \<Rightarrow> withdrawal list \<Rightarrow> withdrawal list \<times> (failure + tx_data)" where
  "unstake_call isValid fmt refusal net evs passphrase b =
     api_call net (unstake_handler isValid fmt refusal evs passphrase b)"

subsection \<open>One retry\<close>

lemma isNetworkError_simps [simp]:
  "isNetworkError (Axios None m)" "\<not> isNetworkError (Axios (Some r) m)" "\<not> isNetworkError (Other t)"
  by (simp_all add: isNetworkError_def)

text \<open>A call is one attempt, and a second one exactly when nobody answered the first.\<close>

lemma api_call_two_attempts:
  "api_call net h s =
     (case deliver (net 0) s (h 0 s) of
        (s1, Inr a) \<Rightarrow> (s1, Inr a)
      | (s1, Inl err) \<Rightarrow> if isNetworkError err then deliver (net 1) s1 (h 1 s1) else (s1, Inl err))"
  by (auto simp: api_call_def send_request.simps [of _ 0] send_request.simps [of _ "Suc 0"] client_MAX_RETRIES_def
      split: prod.splits sum.splits)

text \<open>What the client gets is the reply of one of the two attempts, and that reply was in time.\<close>

lemma api_call_Inr:
  assumes "snd (api_call net h s) = Inr a"
  shows "\<exists>i<2. \<exists>s0 t. net i = Arrived t \<and> snd (snd (h i s0)) = Inr a \<and> int t + fst (snd (h i s0)) \<le> client_timeout"
proof -
  have one: "\<exists>t. d = Arrived t \<and> snd (snd x) = Inr a \<and> int t + fst (snd x) \<le> client_timeout"
    if "snd (deliver d s0 x) = Inr a" for d s0 x
    using that by (cases d) (auto simp: deliver_def await_reply_def split: if_splits)
  consider (first) "snd (deliver (net 0) s (h 0 s)) = Inr a"
    | (second) s1 where "snd (deliver (net 1) s1 (h 1 s1)) = Inr a"
    using assms unfolding api_call_two_attempts by (auto split: prod.splits sum.splits if_splits)
  then show ?thesis
  proof cases
    case first
    then show ?thesis using one [OF first] by (intro exI [of _ 0]) auto
  next
    case second
    then show ?thesis using one [OF second] by (intro exI [of _ 1]) auto
  qed
qed

subsection \<open>Slow confirmations\<close>

lemma schedule_time_nonneg: "\<forall>ms\<in>set sched. 0 \<le> ms \<Longrightarrow> 0 \<le> schedule_time ans i sched"
  by (induction sched arbitrary: i) (auto split: option.split)

lemma schedule_unrolled:
  "schedule = [2000, 2000, 2000, 2000] @ drop 4 schedule" "\<forall>ms\<in>set (drop 4 schedule). 2000 \<le> ms" "drop 4 schedule \<noteq> []"
  by (simp_all add: schedule_def numeral_eq_Suc)

lemma schedule_time_first:
  "schedule_time ans 0 schedule =
     2000 + (if decide_answer (ans 0) \<noteq> None then 0 else
     2000 + (if decide_answer (ans 1) \<noteq> None then 0 else
     2000 + (if decide_answer (ans 2) \<noteq> None then 0 else
     2000 + (if decide_answer (ans 3) \<noteq> None then 0 else schedule_time ans 4 (drop 4 schedule)))))"
  by (subst schedule_unrolled(1)) (simp add: numeral_eq_Suc split: option.split)

lemma rest_takes_time: "2000 \<le> schedule_time ans i (drop 4 schedule)"
proof (cases "drop 4 schedule")
  case (Cons ms rest)
  then have "0 \<le> schedule_time ans (Suc i) rest" "2000 \<le> ms"
    using schedule_unrolled(2) by (auto intro!: schedule_time_nonneg)
  then show ?thesis by (simp add: Cons split: option.split)
qed (use schedule_unrolled(3) in simp)

lemma walk_first:
  "submit_pollTransaction ans =
     (case decide_answer (ans 0) of Some r \<Rightarrow> r | None \<Rightarrow>
     (case decide_answer (ans 1) of Some r \<Rightarrow> r | None \<Rightarrow>
     (case decide_answer (ans 2) of Some r \<Rightarrow> r | None \<Rightarrow>
     (case decide_answer (ans 3) of Some r \<Rightarrow> r | None \<Rightarrow> walk_schedule ans 4 (drop 4 schedule)))))"
  unfolding submit_pollTransaction_def
  by (subst schedule_unrolled(1)) (simp add: numeral_eq_Suc split: option.split)

lemma decided_confirmation:
  "decide_answer a = Some (Inr c) \<Longrightarrow> cf_status c = ''SUCCESS'' \<and> \<not> cf_pending c"
  by (auto simp: decide_answer_def split: tx_answer.splits option.splits prod.splits if_splits)

text \<open>A request whose polls take at most eight seconds was decided by one of the first four answers.\<close>

lemma quick_decision:
  assumes "schedule_time ans 0 schedule \<le> client_timeout" "submit_pollTransaction ans = Inr c"
  shows "\<exists>k<4. decide_answer (ans k) = Some (Inr c)"
proof -
  have "\<not> (decide_answer (ans 0) = None \<and> decide_answer (ans 1) = None \<and> decide_answer (ans 2) = None \<and> decide_answer (ans 3) = None)"
  proof (intro notI; elim conjE)
    assume "decide_answer (ans 0) = None" "decide_answer (ans 1) = None" "decide_answer (ans 2) = None" "decide_answer (ans 3) = None"
    then show False using assms(1) rest_takes_time [of ans 4] by (simp add: schedule_time_first client_timeout_def)
  qed
  then consider "decide_answer (ans 0) = Some (Inr c)" | "decide_answer (ans 1) = Some (Inr c)"
    | "decide_answer (ans 2) = Some (Inr c)" | "decide_answer (ans 3) = Some (Inr c)"
    using assms(2) unfolding walk_first by (auto split: option.splits)
  then show ?thesis by cases (auto intro: exI [of _ 0] exI [of _ 1] exI [of _ 2] exI [of _ 3])
qed

lemma submit_route_Inr:
  assumes "submit_route sent ans b = Inr sd"
  shows "polls_started sent b \<and> (\<exists>c. submit_pollTransaction ans = Inr c \<and> sb_pending sd = cf_pending c \<and> sb_status sd = cf_status c)"
  using assms by (auto simp: submit_route_def polls_started_def split: sum.splits option.splits prod.splits if_splits)

lemma http_reply_Inr [simp]: "http_reply zt r = Inr a \<longleftrightarrow> r = Inr a"
  by (auto simp: http_reply_def split: sum.splits prod.splits)

text \<open>A submission succeeds only if the network confirms it within the first four polls of an attempt.\<close>

lemma submit_call_confirmed:
  assumes "submit_call zt ev b = Inr sd"
  shows "sb_status sd = ''SUCCESS'' \<and> \<not> sb_pending sd \<and>
     (\<exists>i<2. \<exists>k<4. \<exists>c. decide_answer (sv_polls ev i k) = Some (Inr c))"
proof -
  obtain i t where i: "i < 2" "http_reply zt (submit_route (sv_sent ev i) (sv_polls ev i) b) = Inr sd"
    "int t + (if polls_started (sv_sent ev i) b then schedule_time (sv_polls ev i) 0 schedule else 0) \<le> client_timeout"
    using api_call_Inr [of "sv_net ev" "submit_handler zt ev b" "()" sd] assms
    by (auto simp: submit_call_def submit_handler_def)
  then obtain c where c: "polls_started (sv_sent ev i) b" "submit_pollTransaction (sv_polls ev i) = Inr c"
    "sb_pending sd = cf_pending c" "sb_status sd = cf_status c"
    using submit_route_Inr [of "sv_sent ev i" "sv_polls ev i" b sd] by auto
  then have "schedule_time (sv_polls ev i) 0 schedule \<le> client_timeout" using i(3) by simp
  then obtain k where "k < 4" "decide_answer (sv_polls ev i k) = Some (Inr c)" using quick_decision [OF _ c(2)] by blast
  then show ?thesis using c i(1) decided_confirmation by auto
qed

text \<open>
  What a sequence of clicks does to the staking hook; each has its own backend, wallet and session.\<close>

datatype staking_click = Stake number | Unstake number bool | Claim string | Show_withdrawals | Clear_error

fun click :: "backend \<times> freighter \<times> wallet_state \<times> staking_click \<Rightarrow> staking_hook \<Rightarrow> staking_hook" where
  "click (bk, fr, st, Stake a) h = fst (stake_flow bk fr st a h)"
| "click (bk, fr, st, Unstake a inst) h = fst (unstake_flow bk fr st a inst h)"
| "click (bk, fr, st, Claim i) h = fst (claim_flow bk fr st i h)"
| "click (bk, fr, st, Show_withdrawals) h = fetchPendingWithdrawals bk st h"
| "click (bk, fr, st, Clear_error) h = hook_clearError h"

definition submits_to_backend :: "(issue list \<Rightarrow> string) \<Rightarrow> backend \<Rightarrow> bool" where
  "submits_to_backend zt bk \<longleftrightarrow> (\<exists>ev. \<forall>hdr b. bk_submit bk hdr b = submit_call zt ev b)"

lemma refresh_keeps [simp]:
  "hk_isPending (refreshBalance rf st h) = hk_isPending h"
  "hk_error (refreshBalance rf st h) = hk_error h"
  "hk_lastTxHash (refreshBalance rf st h) = hk_lastTxHash h"
  by (simp_all add: refreshBalance_def Let_def)

lemma submitted_not_pending:
  assumes "submits_to_backend zt bk" "build_and_submit bk fr st endpoint b = Inr r"
  shows "\<not> hk_isPending (show_result r h)"
  using assms submit_call_confirmed
  by (auto simp: submits_to_backend_def build_and_submit_def sign_and_submit_def show_result_def
      split: sum.splits if_splits prod.splits)

lemma click_keeps_not_pending:
  assumes "submits_to_backend zt bk" "\<not> hk_isPending h"
  shows "\<not> hk_isPending (click (bk, fr, st, c) h)"
  using assms submitted_not_pending [OF assms(1)]
  by (cases c) (auto simp: stake_flow_def unstake_flow_def claim_flow_def not_connected_def fetchPendingWithdrawals_def
      hook_clearError_def Let_def split: sum.splits)

text \<open>
  C35. The notice that a transaction is still being confirmed is never shown: the backend says so only after
  72 seconds of polling, and the client gives up after eight.\<close>

theorem pending_notice_never_shown:
  assumes "list_all (\<lambda>(bk, fr, st, c). submits_to_backend zt bk) clicks"
  shows "\<not> hk_isPending (fold click clicks initial_hook)"
proof -
  have "\<not> hk_isPending (fold click clicks h)" if "\<not> hk_isPending h" for h
    using assms that
  proof (induction clicks arbitrary: h)
    case (Cons x xs)
    obtain bk fr st c where x: "x = (bk, fr, st, c)" by (cases x)
    show ?case using Cons.prems Cons.IH click_keeps_not_pending [of zt bk h fr st c] by (simp add: x)
  qed simp
  then show ?thesis by (simp add: initial_hook_def)
qed

text \<open>An attempt that is accepted and still undecided after four polls is lost to the client.\<close>

lemma slow_attempt_lost:
  assumes "signedXdrSchema b = Inr x" "sv_sent ev i = Inr \<lparr>rr_error = None, rr_result = Some (hash, st, e)\<rparr>" "st \<noteq> ''ERROR''"
    "list_all (\<lambda>k. decide_answer (sv_polls ev i k) = None) [0, 1, 2, 3]" "sv_net ev i = Arrived t"
  shows "deliver (sv_net ev i) s (submit_handler zt ev b i s) = (s, Inl (Axios None ''timeout of 8000ms exceeded''))"
proof -
  have "polls_started (sv_sent ev i) b" using assms(1-3) by (simp add: polls_started_def)
  moreover have "client_timeout < int t + schedule_time (sv_polls ev i) 0 schedule"
    using assms(4) rest_takes_time [of "sv_polls ev i" 4] by (simp add: schedule_time_first client_timeout_def)
  ultimately show ?thesis using assms(5) by (simp add: deliver_def submit_handler_def await_reply_def)
qed

text \<open>
  C30. Late success is shown as failure: a transaction the network confirms at the fifth poll of each attempt, after ten
  seconds, is a success for the backend, and the user is told that staking failed with a time-out.\<close>

theorem late_success_shown_as_failure:
  assumes "may_act st" "\<And>hdr b. bk_submit bk hdr b = submit_call zt ev b"
    "bk_build bk ''staking/stake'' (getAuthHeaders st) [''userAddress'' \<mapsto> J_str (the (publicKey st)), ''amount'' \<mapsto> J_num a] = Inr tx"
    "tx_xdr tx = Some xdr" "xdr \<noteq> []" "fr_signTransaction fr xdr (tx_networkPassphrase tx) = Inr signed"
    "signedXdrSchema [''signedXdr'' \<mapsto> J_str signed] = Inr signed"
    "list_all (\<lambda>i. sv_net ev i = Arrived (t i) \<and>
       sv_sent ev i = Inr \<lparr>rr_error = None, rr_result = Some (hash, sts i, None)\<rparr> \<and> sts i \<noteq> ''ERROR'' \<and>
       list_all (\<lambda>k. decide_answer (sv_polls ev i k) = None) [0, 1, 2, 3] \<and>
       sv_polls ev i 4 = Tx_answer (Some (''SUCCESS'', ledger, None))) [0, 1]"
  shows "submit_route (sv_sent ev 1) (sv_polls ev 1) [''signedXdr'' \<mapsto> J_str signed] =
           Inr \<lparr>sb_txHash = hash, sb_status = ''SUCCESS'', sb_ledger = ledger, sb_pending = False\<rparr> \<and>
         stake_flow bk fr st a h =
           (h\<lparr>hk_isStaking := False, hk_error := Some ''timeout of 8000ms exceeded''\<rparr>, False)"
proof
  let ?b = "[''signedXdr'' \<mapsto> J_str signed] :: body"
  have "decide_answer (sv_polls ev 1 4) = Some (Inr \<lparr>cf_status = ''SUCCESS'', cf_ledger = ledger, cf_pending = False\<rparr>)"
    using assms(8) by (simp add: decide_answer_def)
  moreover have "drop 4 schedule = 2000 # drop 5 schedule" by (simp add: schedule_def numeral_eq_Suc)
  ultimately have "submit_pollTransaction (sv_polls ev 1) =
      Inr \<lparr>cf_status = ''SUCCESS'', cf_ledger = ledger, cf_pending = False\<rparr>"
    using assms(8) by (simp add: walk_first)
  then show "submit_route (sv_sent ev 1) (sv_polls ev 1) ?b =
      Inr \<lparr>sb_txHash = hash, sb_status = ''SUCCESS'', sb_ledger = ledger, sb_pending = False\<rparr>"
    using assms(7,8) by (simp add: submit_route_def)
  have lost: "deliver (sv_net ev i) () (submit_handler zt ev ?b i ()) = ((), Inl (Axios None ''timeout of 8000ms exceeded''))"
    if "i \<in> {0, 1}" for i
    using that assms(8) by (intro slow_attempt_lost [OF assms(7), of ev i hash "sts i" None "t i"]) auto
  have "submit_call zt ev ?b = Inl (Axios None ''timeout of 8000ms exceeded'')"
    using lost [of 0] lost [of 1] by (simp add: submit_call_def api_call_two_attempts)
  then show "stake_flow bk fr st a h =
      (h\<lparr>hk_isStaking := False, hk_error := Some ''timeout of 8000ms exceeded''\<rparr>, False)"
    using assms(1-6)
    by (simp add: stake_flow_def build_and_submit_def sign_and_submit_def nonempty_text_def may_act_def wallet_signTransaction_def
        failure_message_def Let_def)
qed

text \<open>Nobody sees the hash either; the numbers of the first attempt's polls are those of the answers below.\<close>

definition demo_session :: wallet_state where
  "demo_session = session_of ''GA'' None"

definition demo_freighter :: freighter where
  "demo_freighter =
     \<lparr>fr_isConnected = Inr True, fr_getPublicKey = Inr ''GA'', fr_requestAccess = Inr ''GA'', fr_signBlob = None,
      fr_digest = Inr ''sig'', fr_signTransaction = (\<lambda>xdr np. Inr ''AAAA'')\<rparr>"

definition demo_submit :: submit_env where
  "demo_submit =
     \<lparr>sv_net = (\<lambda>i. Arrived 50),
      sv_sent = (\<lambda>i. Inr \<lparr>rr_error = None, rr_result = Some (''h'', if i = 0 then ''PENDING'' else ''DUPLICATE'', None)\<rparr>),
      sv_polls = (\<lambda>i k. if k < 4 then Tx_answer (Some (''NOT_FOUND'', None, None)) else Tx_answer (Some (''SUCCESS'', Some 9, None)))\<rparr>"

definition demo_backend :: backend where
  "demo_backend =
     \<lparr>bk_build = (\<lambda>e hdr b. Inr \<lparr>tx_xdr = Some ''XDR'', tx_networkPassphrase = ''Test'', tx_txHash = None\<rparr>),
      bk_submit = (\<lambda>hdr. submit_call (\<lambda>_. []) demo_submit),
      bk_withdrawals = (\<lambda>hdr w. Inr []), bk_refresh = \<lparr>rf_account = None, rf_api = None, rf_chain = Inr None\<rparr>\<rparr>"

lemma demo_signed: "signedXdrSchema [''signedXdr'' \<mapsto> J_str ''AAAA''] = Inr ''AAAA''"
  by (simp add: signedXdrSchema_def zod_field_def is_base64_def base64_char_def)

theorem late_success_shown_as_failure_witness:
  "stake_flow demo_backend demo_freighter demo_session (Fin 5) initial_hook =
     (initial_hook\<lparr>hk_isStaking := False, hk_error := Some ''timeout of 8000ms exceeded''\<rparr>, False)"
  using late_success_shown_as_failure [of demo_session demo_backend "\<lambda>_. []" demo_submit "Fin 5"
      "\<lparr>tx_xdr = Some ''XDR'', tx_networkPassphrase = ''Test'', tx_txHash = None\<rparr>" "''XDR''" demo_freighter "''AAAA''"
      "\<lambda>_. 50" "''h''" "\<lambda>i. if i = 0 then ''PENDING'' else ''DUPLICATE''" "Some 9" initial_hook]
  by (simp add: demo_signed demo_session_def session_of_def may_act_def nonempty_text_def demo_backend_def demo_freighter_def
      demo_submit_def decide_answer_def)

theorem pending_notice_never_shown_witness:
  "\<not> hk_isPending (fold click [(demo_backend, demo_freighter, demo_session, Stake (Fin 5)),
       (demo_backend, demo_freighter, demo_session, Claim ''1'')] initial_hook)"
proof (rule pending_notice_never_shown)
  have "submits_to_backend (\<lambda>_. []) demo_backend"
    unfolding submits_to_backend_def by (rule exI [of _ demo_submit]) (simp add: demo_backend_def)
  then show "list_all (\<lambda>(bk, fr, st, c). submits_to_backend (\<lambda>_. []) bk)
      [(demo_backend, demo_freighter, demo_session, Stake (Fin 5)), (demo_backend, demo_freighter, demo_session, Claim ''1'')]"
    by simp
qed

subsection \<open>One click, two withdrawals\<close>

text \<open>
  C31. An impatient client duplicates withdrawals: when the backend needs longer than eight seconds for an unstake
  request, the client sends it again, and one click leaves two pending rows of the whole amount, of which the user
  signs one.\<close>

theorem slow_unstake_recorded_twice:
  assumes "unstakeSchema isValid b = Inr ((user, a), inst)" "amount_stroops a = Inr s"
    "request_accepted b isValid fmt (evs 0)" "request_accepted b isValid fmt (evs 1)"
    "net 0 = Arrived t0" "8000 < t0" "net 1 = Arrived t1" "t1 \<le> 8000"
  shows "qs_totalPendingAmount (getQueueStats (fst (unstake_call isValid fmt refusal net evs passphrase b ws))) =
           qs_totalPendingAmount (getQueueStats ws) + 2 * s \<and>
         \<not> isl (snd (unstake_call isValid fmt refusal net evs passphrase b ws))"
proof -
  have ok: "\<exists>r. unstake_route isValid fmt ev b vs = (fst (unstake_route isValid fmt ev b vs), Inr r)"
    if "request_accepted b isValid fmt ev" for ev vs
    using that unstake_answer_ignores_rows [of isValid fmt ev b vs "[]"]
    by (cases "unstake_route isValid fmt ev b vs"; cases "snd (unstake_route isValid fmt ev b [])")
       (auto simp: request_accepted_def)
  define ws1 where "ws1 = fst (unstake_route isValid fmt (evs 0) b ws)"
  define ws2 where "ws2 = fst (unstake_route isValid fmt (evs 1) b ws1)"
  obtain r0 where r0: "unstake_route isValid fmt (evs 0) b ws = (ws1, Inr r0)" using ok [OF assms(3)] by (auto simp: ws1_def)
  obtain r1 where r1: "unstake_route isValid fmt (evs 1) b ws1 = (ws2, Inr r1)" using ok [OF assms(4)] by (auto simp: ws2_def)
  have "unstake_call isValid fmt refusal net evs passphrase b ws =
      (ws2, Inr \<lparr>tx_xdr = Some (ur_xdr r1), tx_networkPassphrase = passphrase, tx_txHash = None\<rparr>)"
    using assms(5-8) r0 r1
    by (simp add: unstake_call_def api_call_two_attempts unstake_handler_def deliver_def await_reply_def client_timeout_def)
  moreover have "ws2 = unstake_requests isValid fmt b [evs 0, evs 1] ws" by (simp add: ws1_def ws2_def)
  ultimately show ?thesis
    using requests_pile_up(1) [OF assms(1,2), of fmt "[evs 0, evs 1]" ws] assms(3,4) by simp
qed

theorem slow_unstake_recorded_twice_witness:
  "qs_totalPendingAmount (getQueueStats (fst (unstake_call (\<lambda>_. True) (\<lambda>_. []) (\<lambda>_. []) (\<lambda>i. if i = 0 then Arrived 9000 else Arrived 300)
     (\<lambda>_. demo_unstake_env 20000000) ''Test'' (demo_unstake 2) []))) = 40000000"
  using slow_unstake_recorded_twice [OF demo_unstake_ok(1,2), of "\<lambda>_. []" "\<lambda>_. demo_unstake_env 20000000"
      "\<lambda>i. if i = 0 then Arrived 9000 else Arrived 300" 9000 300 "\<lambda>_. []" "''Test''" "[]"]
  by (simp add: demo_unstake_ok(3) getQueueStats_def)

subsection \<open>Whose token a session holds\<close>

text \<open>
  What one tab does: it looks for the wallet, connects when it is not connected, disconnects, or is loaded again.\<close>

inductive tab_step ::
  "(string \<Rightarrow> bool) \<Rightarrow> (wallet \<Rightarrow> string) \<Rightarrow> (issue list \<Rightarrow> string) \<Rightarrow>
     local_storage \<times> wallet_state \<Rightarrow> local_storage \<times> wallet_state \<Rightarrow> bool"
  for isValid sign zt where
  check: "tab_step isValid sign zt (ls, st) (ls, checkConnection fr ls st)"
| connect: "\<not> isConnected st \<Longrightarrow> tab_step isValid sign zt (ls, st) (connect (backend_login isValid sign zt net) fr now (ls, st))"
| disconnect: "tab_step isValid sign zt (ls, st) (disconnect (ls, st))"
| reload: "tab_step isValid sign zt (ls, st) (ls, initial_session ls)"

definition token_for :: "(wallet \<Rightarrow> string) \<Rightarrow> string option \<Rightarrow> wallet option \<Rightarrow> bool" where
  "token_for sign token w = (case token of None \<Rightarrow> True | Some t \<Rightarrow> \<exists>v. w = Some v \<and> v \<noteq> [] \<and> t \<noteq> [] \<and> t = sign (trim v))"

text \<open>A stored token belongs to the stored wallet and to a connected session, and so does the session's own.\<close>

definition own_tokens :: "(wallet \<Rightarrow> string) \<Rightarrow> local_storage \<times> wallet_state \<Rightarrow> bool" where
  "own_tokens sign s \<longleftrightarrow>
     token_for sign (stored_token (fst s)) (stored_wallet (fst s)) \<and>
     (stored_token (fst s) \<noteq> None \<longrightarrow> isConnected (snd s)) \<and>
     token_for sign (jwtToken (snd s)) (publicKey (snd s))"

lemma backend_login_token:
  assumes "backend_login isValid sign zt net (login_body w sig msg) = Inr t"
  shows "t = sign (trim w)"
proof -
  have "map_sum id fst (http_reply zt (login_route isValid sign (login_body w sig msg))) = Inr t"
    using api_call_Inr [OF assms [unfolded backend_login_def]] by auto
  then obtain u where "http_reply zt (login_route isValid sign (login_body w sig msg)) = Inr (t, u)"
    by (cases "http_reply zt (login_route isValid sign (login_body w sig msg))") auto
  then show ?thesis
    by (auto simp: login_route_def login_body_def zod_field_def loginWallet_def split: if_splits)
qed

lemma connect_own_tokens:
  assumes "own_tokens sign (ls, st)" "\<not> isConnected st"
  shows "own_tokens sign (connect (backend_login isValid sign zt net) fr now (ls, st))"
proof -
  have "stored_token ls = None" using assms by (auto simp: own_tokens_def)
  moreover have "t = sign (trim w)"
    if "authenticateWithBackend (backend_login isValid sign zt net) fr now w = Inr t" for w t
    using that backend_login_token by (simp add: authenticateWithBackend_def)
  ultimately show ?thesis
    using assms(1)
    by (auto simp: connect_def own_tokens_def token_for_def connect_failed_def session_of_def Let_def
        split: sum.split bool.split option.splits)
qed

lemma tab_step_own_tokens:
  assumes "tab_step isValid sign zt s s'" "own_tokens sign s"
  shows "own_tokens sign s'"
  using assms
proof (cases rule: tab_step.cases)
  case (check ls st fr)
  then show ?thesis using assms(2)
    by (auto simp: checkConnection_def own_tokens_def session_of_def split: sum.split bool.split option.splits)
next
  case (connect st ls net fr now)
  then show ?thesis using assms(2) connect_own_tokens by blast
next
  case (disconnect ls st)
  then show ?thesis by (simp add: disconnect_def own_tokens_def token_for_def disconnected_def)
next
  case (reload ls st)
  then show ?thesis using assms(2)
    by (auto simp: initial_session_def own_tokens_def token_for_def session_of_def disconnected_def nonempty_text_def
        split: option.splits)
qed

definition fresh_browser :: "local_storage \<times> wallet_state" where
  "fresh_browser = (\<lparr>stored_token = None, stored_wallet = None\<rparr>, disconnected)"

lemma fresh_own_tokens: "(tab_step isValid sign zt)\<^sup>*\<^sup>* fresh_browser s \<Longrightarrow> own_tokens sign s"
proof (induction rule: rtranclp_induct)
  case base
  show ?case by (simp add: fresh_browser_def own_tokens_def token_for_def disconnected_def)
next
  case (step y z)
  then show ?case using tab_step_own_tokens by blast
qed

lemma bearer_token: "requireAuth verifyToken (Some (''Bearer '' @ t)) =
    (case verifyToken t of None \<Rightarrow> Inl (401, Text ''Invalid or expired token'') | Some w \<Rightarrow> Inr w)"
proof -
  have "startsWith (''Bearer '' @ t) ''Bearer ''" by (simp add: startsWith_append)
  then show ?thesis by (simp add: requireAuth_def)
qed


definition demo_connected :: "local_storage \<times> wallet_state" where
  "demo_connected =
     connect (backend_login (\<lambda>_. True) (\<lambda>w. CHR ''T'' # w) (\<lambda>_. []) (\<lambda>_. Arrived 10)) demo_freighter 1 fresh_browser"

lemma demo_login: "backend_login (\<lambda>_. True) (\<lambda>w. CHR ''T'' # w) (\<lambda>_. []) (\<lambda>_. Arrived 10) (login_body ''GA'' sig msg) = Inr ''TGA''"
  by (simp add: backend_login_def api_call_two_attempts deliver_def await_reply_def client_timeout_def http_reply_def
      login_route_def login_body_def zod_field_def loginWallet_def trim_GA)

lemma demo_connected_is: "demo_connected = (\<lparr>stored_token = Some ''TGA'', stored_wallet = Some ''GA''\<rparr>, session_of ''GA'' (Some ''TGA''))"
  by (simp add: demo_connected_def connect_def demo_freighter_def authenticateWithBackend_def demo_login fresh_browser_def Let_def)


text \<open>
  Two tabs share the storage. Connecting the second one while the log-in fails, after the first has logged in another
  wallet, leaves that wallet's token next to the second one's address: once loaded again, the second
  tab shows its own wallet and is the other one for the backend.\<close>

theorem second_tab_takes_over_token:
  assumes "fst (connect login1 fr1 t1 fresh_browser) = ls" "stored_token ls = Some (sign a)" "sign a \<noteq> []"
    "login2 = (\<lambda>b. Inl err)" "fr_isConnected fr2 = Inr True" "fr_requestAccess fr2 = Inr w" "w \<noteq> []"
    "verifyToken (sign a) = Some a"
  shows "let tab = initial_session (fst (connect login2 fr2 t2 (ls, disconnected)))
         in publicKey tab = Some w \<and> requireAuth verifyToken (getAuthHeaders tab) = Inr a"
  using assms(2-)
  by (simp add: connect_def authenticateWithBackend_def initial_session_def nonempty_text_def session_of_def getAuthHeaders_def
      bearer_token Let_def del: append.simps)

theorem second_tab_takes_over_token_witness:
  "publicKey (initial_session (fst (connect (\<lambda>b. Inl (Other None)) (demo_freighter\<lparr>fr_requestAccess := Inr ''GB''\<rparr>) 2
       (fst demo_connected, disconnected)))) = Some ''GB''"
proof -
  have "fst (connect (backend_login (\<lambda>_. True) (\<lambda>w. CHR ''T'' # w) (\<lambda>_. []) (\<lambda>_. Arrived 10)) demo_freighter 1 fresh_browser) =
      fst demo_connected" by (simp add: demo_connected_def)
  moreover have "fr_isConnected demo_freighter = Inr True" by (simp add: demo_freighter_def)
  moreover have "stored_token (fst demo_connected) = Some ''TGA''" by (simp add: demo_connected_is)
  ultimately show ?thesis
    using second_tab_takes_over_token [where sign = "\<lambda>w. CHR ''T'' # w" and a = "''GA''" and err = "Other None" and w = "''GB''"
        and ?fr2.0 = "demo_freighter\<lparr>fr_requestAccess := Inr ''GB''\<rparr>" and verifyToken = "\<lambda>t. Some (drop 1 t)" and ?t2.0 = 2]
    by (simp add: Let_def)
qed

end
