(* ===== verification/Web_Hooks.thy ===== *)
theory Web_Hooks
  imports Web_Client Api_Governance Api_Protocol Api_Analytics
begin

text \<open>
  The other hooks of the frontend: \<open>useLending.ts\<close>, \<open>useLiquidity.ts\<close> and \<open>useGovernance.ts\<close>, which
  show figures and submit transactions, and \<open>useProtocol.ts\<close>, \<open>useAnalytics.ts\<close> and
  \<open>useTransactionExport.ts\<close>, which only show and download. A settled promise is a value of a sum; the
  session stays as it is during one flow. Random numbers and \<open>Math.exp\<close> are parameters.
\<close>

subsection \<open>Submitting a transaction\<close>

text \<open>The state the three hooks share, and the life of a transaction in it; \<open>fetch\<close> reads the figures again.\<close>

record tx_hook =
  th_isLoading :: bool
  th_isSubmitting :: bool
  th_error :: "string option"
  th_lastTxHash :: "string option"

definition th_refuse :: "'z tx_hook_scheme \<Rightarrow> 'z tx_hook_scheme \<times> bool" where
  "th_refuse h = (h\<lparr>th_error := Some ''Please connect your wallet first''\<rparr>, False)"

definition th_start :: "'z tx_hook_scheme \<Rightarrow> 'z tx_hook_scheme" where
  "th_start h = h\<lparr>th_isSubmitting := True, th_error := None, th_lastTxHash := None\<rparr>"

definition th_fail :: "string \<Rightarrow> failure \<Rightarrow> 'z tx_hook_scheme \<Rightarrow> 'z tx_hook_scheme \<times> bool" where
  "th_fail dflt err h = (h\<lparr>th_error := Some (failure_message dflt err), th_isSubmitting := False\<rparr>, False)"

definition th_hash :: "submit_reply option \<Rightarrow> 'z tx_hook_scheme \<Rightarrow> 'z tx_hook_scheme" where
  "th_hash r h = (case r of Some d \<Rightarrow> h\<lparr>th_lastTxHash := Some (sb_txHash d)\<rparr> | None \<Rightarrow> h)"

definition user_body :: "wallet_state \<Rightarrow> body \<Rightarrow> body" where
  "user_body st payload = [''userAddress'' \<mapsto> Api_Gateway.J_str (the (publicKey st))] ++ payload"

definition hook_submit ::
  "backend \<Rightarrow> freighter \<Rightarrow> wallet_state \<Rightarrow> ('z tx_hook_scheme \<Rightarrow> 'z tx_hook_scheme) \<Rightarrow> string \<Rightarrow> body \<Rightarrow>
     'z tx_hook_scheme \<Rightarrow> 'z tx_hook_scheme \<times> bool" where
  "hook_submit bk fr st fetch endpoint b h =
     (if \<not> may_act st then th_refuse h
      else case build_and_submit bk fr st endpoint b of
             Inl err \<Rightarrow> th_fail ''Transaction failed'' err (th_start h)
           | Inr (tx, r) \<Rightarrow> ((fetch (th_hash r (th_start h)))\<lparr>th_isSubmitting := False\<rparr>, True))"

definition add_liquidity_click where
  "add_liquidity_click bk fr st fetch xlmAmount sxlmAmount =
     hook_submit bk fr st fetch ''liquidity/add''
       (user_body st [''xlmAmount'' \<mapsto> Api_Gateway.J_num xlmAmount, ''sxlmAmount'' \<mapsto> Api_Gateway.J_num sxlmAmount])"

definition remove_liquidity_click where
  "remove_liquidity_click bk fr st fetch lpAmount =
     hook_submit bk fr st fetch ''liquidity/remove'' (user_body st [''lpAmount'' \<mapsto> Api_Gateway.J_num lpAmount])"

definition swap_body :: "wallet_state \<Rightarrow> number \<Rightarrow> body" where
  "swap_body st amt = user_body st [''amount'' \<mapsto> Api_Gateway.J_num amt]"

definition swap_click where
  "swap_click bk fr st fetch t amt =
     hook_submit bk fr st fetch (if t = XLM then ''liquidity/swap-xlm-to-sxlm'' else ''liquidity/swap-sxlm-to-xlm'')
       (swap_body st amt)"

definition create_proposal_click where
  "create_proposal_click bk fr st fetch paramKey newValue =
     hook_submit bk fr st fetch ''governance/create-proposal''
       (user_body st [''paramKey'' \<mapsto> Api_Gateway.J_str paramKey, ''newValue'' \<mapsto> Api_Gateway.J_str newValue])"

definition vote_click where
  "vote_click bk fr st fetch proposalId support =
     hook_submit bk fr st fetch ''governance/vote''
       (user_body st [''proposalId'' \<mapsto> Api_Gateway.J_num proposalId, ''support'' \<mapsto> Api_Gateway.J_bool support])"

definition execute_click where
  "execute_click bk fr st fetch proposalId =
     hook_submit bk fr st fetch ''governance/execute'' (user_body st [''proposalId'' \<mapsto> Api_Gateway.J_num proposalId])"

subsection \<open>Lending\<close>

record lending_position =
  lpos_sxlmDeposited :: number
  lpos_xlmBorrowed :: number
  lpos_healthFactor :: number
  lpos_maxBorrow :: number

record lending_alert =
  la_healthFactor :: number
  la_riskLevel :: risk_level
  la_recommendation :: string

record lending_figures =
  lf_totalCollateral :: number
  lf_totalBorrowed :: number
  lf_poolBalance :: number
  lf_collateralFactorBps :: number
  lf_liquidationThresholdBps :: number
  lf_borrowRateBps :: number
  lf_utilizationRate :: number

record lending_hook = tx_hook +
  lh_isPending :: bool
  lh_position :: lending_position
  lh_stats :: lending_figures
  lh_alert :: lending_alert

definition default_position :: lending_position where
  "default_position = \<lparr>lpos_sxlmDeposited = 0, lpos_xlmBorrowed = 0, lpos_healthFactor = 0, lpos_maxBorrow = 0\<rparr>"

definition default_lending :: lending_figures where
  "default_lending =
     \<lparr>lf_totalCollateral = 0, lf_totalBorrowed = 0, lf_poolBalance = 0, lf_collateralFactorBps = lit 7000,
      lf_liquidationThresholdBps = lit 8000, lf_borrowRateBps = lit 500, lf_utilizationRate = 0\<rparr>"

definition default_alert :: lending_alert where
  "default_alert = \<lparr>la_healthFactor = 0, la_riskLevel = Safe, la_recommendation = ''No active debt position detected.''\<rparr>"

definition initial_lending :: lending_hook where
  "initial_lending =
     \<lparr>th_isLoading = True, th_isSubmitting = False, th_error = None, th_lastTxHash = None, lh_isPending = False,
      lh_position = default_position, lh_stats = default_lending, lh_alert = default_alert\<rparr>"

definition position_of_reply :: "position_reply \<Rightarrow> lending_position" where
  "position_of_reply r =
     \<lparr>lpos_sxlmDeposited = pr_sxlmDeposited r, lpos_xlmBorrowed = pr_xlmBorrowed r,
      lpos_healthFactor = pr_healthFactor r, lpos_maxBorrow = pr_maxBorrow r\<rparr>"

definition alert_of_reply :: "alert_reply \<Rightarrow> lending_alert" where
  "alert_of_reply r =
     \<lparr>la_healthFactor = al_healthFactor r, la_riskLevel = al_riskLevel r, la_recommendation = al_recommendation r\<rparr>"

definition figures_of_reply :: "lending_stats \<Rightarrow> lending_figures" where
  "figures_of_reply r =
     \<lparr>lf_totalCollateral = ls_totalCollateral r, lf_totalBorrowed = ls_totalBorrowed r, lf_poolBalance = ls_poolBalance r,
      lf_collateralFactorBps = ls_collateralFactorBps r, lf_liquidationThresholdBps = ls_liquidationThresholdBps r,
      lf_borrowRateBps = ls_borrowRateBps r, lf_utilizationRate = ls_utilizationRate r\<rparr>"

record lending_answers =
  ln_stats :: "failure + lending_stats"
  ln_position :: "wallet \<Rightarrow> failure + position_reply"
  ln_alert :: "wallet \<Rightarrow> failure + alert_reply"

text \<open>The position and the alert are only asked for when there is a wallet.\<close>

definition fetch_lending :: "lending_answers \<Rightarrow> wallet_state \<Rightarrow> lending_hook \<Rightarrow> lending_hook" where
  "fetch_lending an st h =
     (let h1 = (case ln_stats an of Inr r \<Rightarrow> h\<lparr>lh_stats := figures_of_reply r\<rparr> | Inl e \<Rightarrow> h);
          h2 = (if nonempty_text (publicKey st)
                then case ln_position an (the (publicKey st)) of Inr r \<Rightarrow> h1\<lparr>lh_position := position_of_reply r\<rparr> | Inl e \<Rightarrow> h1
                else h1);
          h3 = (if nonempty_text (publicKey st)
                then case ln_alert an (the (publicKey st)) of Inr r \<Rightarrow> h2\<lparr>lh_alert := alert_of_reply r\<rparr> | Inl e \<Rightarrow> h2
                else h2\<lparr>lh_alert := default_alert\<rparr>)
      in h3\<lparr>th_isLoading := False\<rparr>)"

definition lending_submit ::
  "backend \<Rightarrow> freighter \<Rightarrow> wallet_state \<Rightarrow> lending_answers \<Rightarrow> string \<Rightarrow> string \<Rightarrow> body \<Rightarrow> lending_hook \<Rightarrow> lending_hook \<times> bool" where
  "lending_submit bk fr st an dflt endpoint b h =
     (if \<not> may_act st then th_refuse h
      else (let h1 = (th_start h)\<lparr>lh_isPending := False\<rparr>
            in case build_and_submit bk fr st endpoint b of
                 Inl err \<Rightarrow> th_fail dflt err h1
               | Inr (tx, r) \<Rightarrow>
                   (let h2 = (case r of Some d \<Rightarrow> (th_hash r h1)\<lparr>lh_isPending := sb_pending d\<rparr> | None \<Rightarrow> h1)
                    in ((fetch_lending an st h2)\<lparr>th_isSubmitting := False\<rparr>, True))))"

datatype lending_action = Deposit_Collateral | Withdraw_Collateral | Borrow | Repay

definition lending_endpoint :: "lending_action \<Rightarrow> string" where
  "lending_endpoint a =
     (case a of
        Deposit_Collateral \<Rightarrow> ''lending/deposit-collateral''
      | Withdraw_Collateral \<Rightarrow> ''lending/withdraw-collateral''
      | Borrow \<Rightarrow> ''lending/borrow''
      | Repay \<Rightarrow> ''lending/repay'')"

definition lending_click ::
  "backend \<Rightarrow> freighter \<Rightarrow> wallet_state \<Rightarrow> lending_answers \<Rightarrow> lending_action \<Rightarrow> number \<Rightarrow> lending_hook \<Rightarrow> lending_hook \<times> bool" where
  "lending_click bk fr st an a amt =
     lending_submit bk fr st an ''Transaction failed'' (lending_endpoint a) (user_body st [''amount'' \<mapsto> Api_Gateway.J_num amt])"

definition liquidate_click ::
  "backend \<Rightarrow> freighter \<Rightarrow> wallet_state \<Rightarrow> lending_answers \<Rightarrow> string \<Rightarrow> lending_hook \<Rightarrow> lending_hook \<times> bool" where
  "liquidate_click bk fr st an borrower =
     lending_submit bk fr st an ''Liquidation failed'' ''lending/liquidate''
       [''liquidatorAddress'' \<mapsto> Api_Gateway.J_str (the (publicKey st)), ''borrowerAddress'' \<mapsto> Api_Gateway.J_str borrower]"

subsection \<open>Liquidity and governance\<close>

record share_view =
  sv_lpTokens :: number
  sv_sharePercent :: number
  sv_xlmShare :: number
  sv_sxlmShare :: number

record liquidity_hook = tx_hook +
  lq_pool :: pool_stats
  lq_position :: share_view
  lq_oracle :: "oracle_snapshot option"
  lq_miningPrograms :: "program_view list"
  lq_eligiblePrograms :: "(lm_estimate \<times> string) list"

definition default_pool :: pool_stats where
  "default_pool =
     \<lparr>pt_reserveXlm = 0, pt_reserveSxlm = 0, pt_totalLpSupply = 0, pt_price = 1, pt_feeBps = 30, pt_tvl = 0,
      pt_oracle = None, pt_activePrograms = 0\<rparr>"

definition initial_liquidity :: liquidity_hook where
  "initial_liquidity =
     \<lparr>th_isLoading = True, th_isSubmitting = False, th_error = None, th_lastTxHash = None, lq_pool = default_pool,
      lq_position = \<lparr>sv_lpTokens = 0, sv_sharePercent = 0, sv_xlmShare = 0, sv_sxlmShare = 0\<rparr>, lq_oracle = None,
      lq_miningPrograms = [], lq_eligiblePrograms = []\<rparr>"

definition share_of_reply :: "lp_reply \<Rightarrow> share_view" where
  "share_of_reply r =
     \<lparr>sv_lpTokens = lp_lpTokens r, sv_sharePercent = lp_sharePercent r, sv_xlmShare = lp_xlmShare r, sv_sxlmShare = lp_sxlmShare r\<rparr>"

record liquidity_answers =
  lqa_pool :: "failure + pool_stats"
  lqa_position :: "wallet \<Rightarrow> failure + lp_reply"
  lqa_programs :: "failure + program_view list"
  lqa_mining :: "wallet \<Rightarrow> failure + (lm_estimate \<times> string) list"

definition fetch_liquidity :: "liquidity_answers \<Rightarrow> wallet_state \<Rightarrow> liquidity_hook \<Rightarrow> liquidity_hook" where
  "fetch_liquidity an st h =
     (let h1 = (case lqa_pool an of Inr r \<Rightarrow> h\<lparr>lq_pool := r, lq_oracle := pt_oracle r\<rparr> | Inl e \<Rightarrow> h);
          h2 = (if nonempty_text (publicKey st)
                then case lqa_position an (the (publicKey st)) of Inr r \<Rightarrow> h1\<lparr>lq_position := share_of_reply r\<rparr> | Inl e \<Rightarrow> h1
                else h1);
          h3 = (case lqa_programs an of Inr ps \<Rightarrow> h2\<lparr>lq_miningPrograms := ps\<rparr> | Inl e \<Rightarrow> h2);
          h4 = (if nonempty_text (publicKey st)
                then case lqa_mining an (the (publicKey st)) of Inr ps \<Rightarrow> h3\<lparr>lq_eligiblePrograms := ps\<rparr> | Inl e \<Rightarrow> h3
                else h3\<lparr>lq_eligiblePrograms := []\<rparr>)
      in h4\<lparr>th_isLoading := False\<rparr>)"

record gov_hook = tx_hook +
  gh_proposals :: "synced_proposal list"
  gh_params :: "(string \<times> string) list"

definition fetch_governance ::
  "failure + synced_proposal list \<Rightarrow> failure + (string \<times> string) list \<Rightarrow> gov_hook \<Rightarrow> gov_hook" where
  "fetch_governance proposals params h =
     (let h1 = (case proposals of Inr ps \<Rightarrow> h\<lparr>gh_proposals := ps\<rparr> | Inl e \<Rightarrow> h);
          h2 = (case params of Inr ps \<Rightarrow> h1\<lparr>gh_params := ps\<rparr> | Inl e \<Rightarrow> h1)
      in h2\<lparr>th_isLoading := False\<rparr>)"

subsection \<open>Protocol figures\<close>

record protocol_figures =
  pf_totalStaked :: number
  pf_totalSxlmSupply :: number
  pf_exchangeRate :: number
  pf_tvlUsd :: number
  pf_totalStakers :: nat
  pf_totalValidators :: nat
  pf_xlmPrice :: number
  pf_treasuryBalance :: number
  pf_isPaused :: bool
  pf_protocolFeePct :: number

record apy_figures =
  af_currentApr :: number
  af_currentApy :: number
  af_apy7d :: number
  af_apy30d :: number
  af_apy90d :: number

type_synonym history = "(millis \<times> number) list"

record protocol_hook =
  ph_stats :: protocol_figures
  ph_apy :: apy_figures
  ph_apyHistory :: history
  ph_exchangeRateHistory :: history
  ph_tvlHistory :: history
  ph_totalStakedHistory :: history
  ph_isLoading :: bool
  ph_error :: "string option"

definition default_stats :: protocol_figures where
  "default_stats =
     \<lparr>pf_totalStaked = lit 28473500000000, pf_totalSxlmSupply = lit 27822140000000, pf_exchangeRate = lit (10234/10000),
      pf_tvlUsd = lit 341682, pf_totalStakers = 1247, pf_totalValidators = 12, pf_xlmPrice = lit (12/100),
      pf_treasuryBalance = lit 2847350000000, pf_isPaused = False, pf_protocolFeePct = lit 10\<rparr>"

definition default_apy :: apy_figures where
  "default_apy =
     \<lparr>af_currentApr = lit (648/100), af_currentApy = lit (669/100), af_apy7d = lit (652/100), af_apy30d = lit (644/100),
      af_apy90d = lit (631/100)\<rparr>"

text \<open>\<open>rand i\<close> is the random number drawn for the i-th point.\<close>

definition generateMockHistory :: "(nat \<Rightarrow> number) \<Rightarrow> millis \<Rightarrow> nat \<Rightarrow> number \<Rightarrow> number \<Rightarrow> history" where
  "generateMockHistory rand now days baseValue variance =
     map (\<lambda>k. let i = days - k;
                  trend = num_of_big (int k) / num_of_big (int days);
                  noise = (rand k - lit (1/2)) * variance
              in (now - int i * 24 * 60 * 60 * 1000,
                  js_max 0 (baseValue * (1 + trend * lit (15/100)) + noise)))
       [0..<Suc days]"

definition initial_protocol :: "(nat \<Rightarrow> nat \<Rightarrow> number) \<Rightarrow> millis \<Rightarrow> protocol_hook" where
  "initial_protocol rand now =
     \<lparr>ph_stats = default_stats, ph_apy = default_apy,
      ph_apyHistory = generateMockHistory (rand 0) now 90 (lit (65/10)) (lit (1/2)),
      ph_exchangeRateHistory = generateMockHistory (rand 1) now 90 (lit (102/100)) (lit (5/1000)),
      ph_tvlHistory = generateMockHistory (rand 2) now 90 (lit 1200000) (lit 50000),
      ph_totalStakedHistory = generateMockHistory (rand 3) now 90 (lit 10000000) (lit 500000),
      ph_isLoading = True, ph_error = None\<rparr>"

text \<open>The backend's answer has no stakers and no validators: both are the constant 0.\<close>

definition figures_of_stats :: "stats_view \<Rightarrow> protocol_figures" where
  "figures_of_stats s =
     \<lparr>pf_totalStaked = st_totalStaked s, pf_totalSxlmSupply = st_totalSxlmSupply s, pf_exchangeRate = st_exchangeRate s,
      pf_tvlUsd = st_tvlUsd s, pf_totalStakers = 0, pf_totalValidators = 0, pf_xlmPrice = st_xlmPrice s,
      pf_treasuryBalance = st_treasuryBalance s, pf_isPaused = st_isPaused s, pf_protocolFeePct = st_protocolFeePct s\<rparr>"

definition figures_of_apy :: "apy_view \<Rightarrow> apy_figures" where
  "figures_of_apy a =
     \<lparr>af_currentApr = ay_currentApr a, af_currentApy = ay_currentApy a, af_apy7d = ay_apy7d a, af_apy30d = ay_apy30d a,
      af_apy90d = ay_apy90d a\<rparr>"

record protocol_answers =
  pa_apiUrl :: string
  pa_stats :: "failure + stats_view"
  pa_apy :: "failure + apy_view"
  pa_chart :: "failure + chart_reply"
  pa_rand :: "nat \<Rightarrow> nat \<Rightarrow> number"
  pa_now :: millis

definition history_or_mock :: "history \<Rightarrow> history \<Rightarrow> history" where
  "history_or_mock given mock = (if given \<noteq> [] then given else mock)"

definition fetchProtocolData :: "protocol_answers \<Rightarrow> protocol_hook \<Rightarrow> protocol_hook" where
  "fetchProtocolData an h =
     (if pa_apiUrl an = [] then h\<lparr>ph_isLoading := False\<rparr>
      else (let mock = (\<lambda>k. generateMockHistory (pa_rand an k) (pa_now an) 90);
                apy = mock 0 (lit (65/10)) (lit (1/2));
                tvl = mock 2 (lit 1200000) (lit 50000); staked = mock 3 (lit 10000000) (lit 500000);
                rate = mock 1 (lit 1) (lit (5/1000));
                h1 = (case pa_stats an of Inr s \<Rightarrow> h\<lparr>ph_stats := figures_of_stats s\<rparr> | Inl e \<Rightarrow> h);
                h2 = (case pa_apy an of Inr a \<Rightarrow> h1\<lparr>ph_apy := figures_of_apy a\<rparr> | Inl e \<Rightarrow> h1);
                h3 = (case pa_chart an of
                        Inr c \<Rightarrow> h2\<lparr>ph_apyHistory := history_or_mock (ch_apyHistory c) apy,
                                   ph_exchangeRateHistory := history_or_mock (ch_exchangeRateHistory c) rate,
                                   ph_tvlHistory := history_or_mock (ch_tvlHistory c) tvl,
                                   ph_totalStakedHistory := history_or_mock (ch_totalStakedHistory c) staked\<rparr>
                      | Inl e \<Rightarrow> h2\<lparr>ph_apyHistory := apy, ph_exchangeRateHistory := rate, ph_tvlHistory := tvl,
                                    ph_totalStakedHistory := staked\<rparr>)
            in h3\<lparr>ph_error := None, ph_isLoading := False\<rparr>))"

subsection \<open>Analytics\<close>

text \<open>The series are keyed by the names of their sources; those of the mock differ from the backend's.\<close>

definition source_name :: "revenue_source \<Rightarrow> string" where
  "source_name s = (case s of LENDING \<Rightarrow> ''LENDING'' | LP \<Rightarrow> ''LP'' | TREASURY \<Rightarrow> ''TREASURY'')"

record analytics_hook =
  ah_utilization :: "util_point list"
  ah_revenue :: "(string \<times> revenue_point list) list"
  ah_cohorts :: "(millis \<times> cohort_point list) list"
  ah_live :: "live_reply option"
  ah_lastUpdated :: "millis option"
  ah_isLoading :: bool
  ah_error :: "string option"
  ah_historicalLoaded :: bool

definition initial_analytics :: analytics_hook where
  "initial_analytics =
     \<lparr>ah_utilization = [], ah_revenue = [], ah_cohorts = [], ah_live = None, ah_lastUpdated = None, ah_isLoading = True,
      ah_error = None, ah_historicalLoaded = False\<rparr>"

text \<open>The moment \<open>i\<close> points into \<open>days\<close> days before now, and how far that is as a fraction.\<close>

definition mock_time :: "millis \<Rightarrow> nat \<Rightarrow> nat \<Rightarrow> millis" where
  "mock_time now days i = now - int (days - i) * 24 * 60 * 60 * 1000"

definition mock_trend :: "nat \<Rightarrow> nat \<Rightarrow> number" where
  "mock_trend days i = num_of_big (int i) / num_of_big (int days)"

definition LENDING_CONTRACT_ID :: string where
  "LENDING_CONTRACT_ID = ''CAOWXZ6BWA2ZYY7GHD75OFKADKUJS4WCKPDYGGXULQWFJRB55TXAQNJG''"

definition generateMockUtilization :: "(nat \<Rightarrow> nat \<Rightarrow> number) \<Rightarrow> millis \<Rightarrow> nat \<Rightarrow> util_point list" where
  "generateMockUtilization rand now days =
     map (\<lambda>i. let trend = mock_trend days i;
                  rate = js_min (lit (93/100)) (js_max (lit (1/10))
                           (lit (38/100) + trend * lit (18/100) + (rand i 0 - lit (1/2)) * lit (6/100)));
                  deposited = js_max 0 (lit 8200000 + trend * lit 1800000 + (rand i 1 - lit (1/2)) * lit 400000)
              in \<lparr>up_contractId = LENDING_CONTRACT_ID, up_windowStart = mock_time now days i, up_windowEnd = mock_time now days i,
                  up_totalDepositedXlm = deposited, up_totalBorrowedXlm = deposited * rate, up_utilizationRate = rate\<rparr>)
       [0..<Suc days]"

definition REVENUE_BASELINES :: "(string \<times> number) list" where
  "REVENUE_BASELINES =
     [(''LENDING_FEES'', lit 420), (''LP_FEES'', lit 165), (''STAKING_REWARDS'', lit 580), (''LIQUIDATION_FEES'', lit 75)]"

definition generateMockRevenueSeries ::
  "(string \<Rightarrow> nat \<Rightarrow> number) \<Rightarrow> millis \<Rightarrow> nat \<Rightarrow> (string \<times> revenue_point list) list" where
  "generateMockRevenueSeries rand now days =
     map (\<lambda>(src, base). (src, map (\<lambda>i.
            \<lparr>rq_windowStart = mock_time now days i, rq_windowEnd = mock_time now days i,
             rq_amountXlm = js_max 0 (base * (1 + mock_trend days i * lit (22/100)) +
                                      (rand src i - lit (1/2)) * base * lit (18/100))\<rparr>) [0..<Suc days])) REVENUE_BASELINES"

definition nat_of_num :: "number \<Rightarrow> nat" where
  "nat_of_num v = (case v of Fin x \<Rightarrow> nat \<lfloor>x\<rfloor> | _ \<Rightarrow> 0)"

text \<open>\<open>expf\<close> is \<open>Math.exp\<close>; \<open>rand c\<close> and \<open>rand3 c d\<close> are the random numbers of a cohort and of its offsets.\<close>

definition generateMockCohortData ::
  "(number \<Rightarrow> number) \<Rightarrow> (nat \<Rightarrow> number) \<Rightarrow> (nat \<Rightarrow> nat \<Rightarrow> number \<times> number \<times> number) \<Rightarrow> millis \<Rightarrow> nat \<Rightarrow> nat \<Rightarrow>
     (millis \<times> cohort_point list) list" where
  "generateMockCohortData expf rand rand3 now numCohorts maxOffset =
     map (\<lambda>c. let totalWallets = js_round (lit 55 + rand c * lit 125)
              in (now - int (numCohorts - 1 - c + maxOffset + 1) * 24 * 60 * 60 * 1000,
                  map (\<lambda>d. let (r0, r1, r2) = rand3 c d;
                               retentionRate = js_min 1 (js_max (lit (4/100))
                                 (expf (- num_of_big (int d) * lit (1/10)) + (r0 - lit (1/2)) * lit (5/100)))
                           in \<lparr>ct_dayOffset = int d, ct_totalWallets = nat_of_num totalWallets,
                               ct_retainedWallets = nat_of_num (js_round (totalWallets * retentionRate)),
                               ct_retentionRate = retentionRate, ct_avgCollateralSizeXlm = lit 4200 + r1 * lit 3600,
                               ct_avgBorrowSizeXlm = lit 1600 + r2 * lit 1800\<rparr>)
                    [0..<Suc (min maxOffset c)]))
       [0..<numCohorts]"

record analytics_mocks =
  am_utilization :: "util_point list"
  am_revenue :: "(string \<times> revenue_point list) list"
  am_cohorts :: "(millis \<times> cohort_point list) list"

record analytics_answers =
  aa_utilization :: "failure + util_point list"
  aa_revenue :: "failure + revenue_reply"
  aa_cohorts :: "failure + (millis \<times> cohort_point list) list"
  aa_mocks :: analytics_mocks

text \<open>A figure of the backend, if there is one; before anything was loaded the mock; else what is shown already.\<close>

definition shown_series :: "bool \<Rightarrow> failure + 'a list \<Rightarrow> 'a list \<Rightarrow> 'a list \<Rightarrow> 'a list" where
  "shown_series loaded answer mock old =
     (case answer of
        Inr xs \<Rightarrow> if xs \<noteq> [] then xs else if \<not> loaded then mock else old
      | Inl e \<Rightarrow> if \<not> loaded then mock else old)"

definition series_of_reply :: "revenue_reply \<Rightarrow> (string \<times> revenue_point list) list" where
  "series_of_reply r = (case r of By_source win ss \<Rightarrow> map (\<lambda>(s, ps). (source_name s, ps)) ss | _ \<Rightarrow> [])"

definition fetchHistorical :: "analytics_answers \<Rightarrow> analytics_hook \<Rightarrow> analytics_hook" where
  "fetchHistorical an h =
     (let loaded = ah_historicalLoaded h
      in h\<lparr>ah_utilization := shown_series loaded (aa_utilization an) (am_utilization (aa_mocks an)) (ah_utilization h),
           ah_revenue := shown_series loaded (map_sum id series_of_reply (aa_revenue an)) (am_revenue (aa_mocks an)) (ah_revenue h),
           ah_cohorts := shown_series loaded (aa_cohorts an) (am_cohorts (aa_mocks an)) (ah_cohorts h),
           ah_error := None, ah_historicalLoaded := True, ah_isLoading := False\<rparr>)"

definition fetchLive :: "millis \<Rightarrow> failure + live_reply \<Rightarrow> analytics_hook \<Rightarrow> analytics_hook" where
  "fetchLive now answer h =
     (case answer of Inr r \<Rightarrow> h\<lparr>ah_live := Some r, ah_lastUpdated := Some now\<rparr> | Inl e \<Rightarrow> h)"

subsection \<open>The export\<close>

text \<open>
  The file is asked for as a blob, so the text of a refusal is not found in it. The result is the name of the
  download, if there is one.\<close>

definition exportTransactionsCSV ::
  "failure + string \<Rightarrow> millis \<Rightarrow> wallet_state \<Rightarrow> string option \<Rightarrow> string option \<times> (string \<times> string) option" where
  "exportTransactionsCSV answer now st err =
     (if \<not> nonempty_text (publicKey st) then (Some ''Please connect your wallet first'', None)
      else case answer of
             Inl e \<Rightarrow> (Some (failure_message ''Export failed''
                        (case e of Axios (Some (s, t)) m \<Rightarrow> Axios (Some (s, None)) m | x \<Rightarrow> x)), None)
           | Inr csv \<Rightarrow> (None, Some (''sxlm-transactions-'' @ take 8 (the (publicKey st)) @ ''-'' @ iso_day now @ ''.csv'', csv)))"

subsection \<open>What is shown when the database is down\<close>

text \<open>The backend's answers to a historical fetch; every table is a query that may fail.\<close>

definition backend_analytics ::
  "(string \<Rightarrow> millis option) \<Rightarrow> (number \<Rightarrow> int option) \<Rightarrow> string \<Rightarrow> millis \<Rightarrow> js_error + util_row list \<Rightarrow> js_error + revenue_row list \<Rightarrow>
     js_error + retention_row list \<Rightarrow> js_error + avg_row list \<Rightarrow> analytics_mocks \<Rightarrow> analytics_answers" where
  "backend_analytics parse as_int from now utils revenue retention avgs mocks =
     \<lparr>aa_utilization = Inr (snd (utilization_route parse now (Some from, None) utils)),
      aa_revenue = Inr (revenue_route parse now (Some from, None) (Some ''source'') revenue),
      aa_cohorts = Inr (cohorts_route as_int None None retention avgs), aa_mocks = mocks\<rparr>"

abbreviation failing_backend where
  "failing_backend parse as_int from e \<equiv>
     (\<lambda>(now, mocks). backend_analytics parse as_int from now (Inl e) (Inl e) (Inl e) (Inl e) mocks)"

definition generated_mocks ::
  "(number \<Rightarrow> number) \<Rightarrow> (nat \<Rightarrow> nat \<Rightarrow> number) \<Rightarrow> (string \<Rightarrow> nat \<Rightarrow> number) \<Rightarrow> (nat \<Rightarrow> number) \<Rightarrow>
     (nat \<Rightarrow> nat \<Rightarrow> number \<times> number \<times> number) \<Rightarrow> millis \<Rightarrow> analytics_mocks" where
  "generated_mocks expf r1 r2 r3 r4 now =
     \<lparr>am_utilization = generateMockUtilization r1 now 90, am_revenue = generateMockRevenueSeries r2 now 90,
      am_cohorts = generateMockCohortData expf r3 r4 now 10 14\<rparr>"

lemma failing_fetch:
  "fetchHistorical (failing_backend parse as_int from e (now, mk)) h =
     h\<lparr>ah_utilization := if ah_historicalLoaded h then ah_utilization h else am_utilization mk,
       ah_revenue := if ah_historicalLoaded h then ah_revenue h else am_revenue mk,
       ah_cohorts := if ah_historicalLoaded h then ah_cohorts h else am_cohorts mk,
       ah_error := None, ah_historicalLoaded := True, ah_isLoading := False\<rparr>"
  by (simp add: fetchHistorical_def backend_analytics_def shown_series_def utilization_route_def revenue_route_def
      cohorts_route_def series_of_reply_def Let_def)

lemma failing_fetches:
  assumes "ah_historicalLoaded h" "ah_error h = None" "\<not> ah_isLoading h"
  shows "fold (\<lambda>x. fetchHistorical (failing_backend parse as_int from e x)) later h = h"
proof (induction later)
  case (Cons x xs)
  have "fetchHistorical (failing_backend parse as_int from e x) h = h"
    using assms failing_fetch [of parse as_int "from" e "fst x" "snd x" h] by simp
  then show ?case using Cons.IH by simp
qed simp

text \<open>
  C33. A database outage shows invented figures: while every query of the backend fails, the analytics page shows
  the generated series of its first load, 91 points of utilisation among them, without an error and as loaded, and
  keeps them through every later load.\<close>

theorem outage_shows_invented_figures:
  "fold (\<lambda>x. fetchHistorical (failing_backend parse as_int from e x)) ((now, generated_mocks expf r1 r2 r3 r4 now) # later) initial_analytics =
     initial_analytics\<lparr>ah_utilization := generateMockUtilization r1 now 90, ah_revenue := generateMockRevenueSeries r2 now 90,
       ah_cohorts := generateMockCohortData expf r3 r4 now 10 14, ah_historicalLoaded := True, ah_isLoading := False\<rparr> \<and>
   length (generateMockUtilization r1 now 90) = 91"
proof
  show "length (generateMockUtilization r1 now 90) = 91" by (simp add: generateMockUtilization_def)
  have "fetchHistorical (failing_backend parse as_int from e (now, generated_mocks expf r1 r2 r3 r4 now)) initial_analytics =
      initial_analytics\<lparr>ah_utilization := generateMockUtilization r1 now 90, ah_revenue := generateMockRevenueSeries r2 now 90,
        ah_cohorts := generateMockCohortData expf r3 r4 now 10 14, ah_historicalLoaded := True, ah_isLoading := False\<rparr>"
    unfolding failing_fetch by (simp add: initial_analytics_def generated_mocks_def)
  then show "fold (\<lambda>x. fetchHistorical (failing_backend parse as_int from e x)) ((now, generated_mocks expf r1 r2 r3 r4 now) # later) initial_analytics =
      initial_analytics\<lparr>ah_utilization := generateMockUtilization r1 now 90, ah_revenue := generateMockRevenueSeries r2 now 90,
        ah_cohorts := generateMockCohortData expf r3 r4 now 10 14, ah_historicalLoaded := True, ah_isLoading := False\<rparr>"
    by (simp only: fold_simps) (rule failing_fetches; simp add: initial_analytics_def)
qed

subsection \<open>Swaps from the browser\<close>

lemma swap_body_request:
  assumes "swapSchema (swap_body st a) = Inr ((u, b), m)"
  shows "publicKey st \<noteq> None \<longrightarrow> publicKey st = Some u" "b = a" "m = 0"
  using assms
  by (auto simp: swapSchema_def swap_body_def user_body_def zod_both_def zod_field_def address56_def positive_number_def
      minOut_field_def split: if_splits)

text \<open>A pool whose reserve of the input is what remains of the input after the fee, and that has two units of the output.\<close>

definition drained_pool :: "token \<Rightarrow> int \<Rightarrow> lp_state" where
  "drained_pool t n =
     \<lparr>lp_xlm = (if t = XLM then after_fee n 30 else 2), lp_sxlm = (if t = XLM then 2 else after_fee n 30), lp_fee_bps = 30,
      lp_protocol_fee_bps = 5, lp_accrued = 0\<rparr>"

lemma drained_pool_pays_one:
  assumes "2 \<le> n" "n * 10000 < 2^127"
  shows "\<exists>pool'. contract_swap t (drained_pool t n) n 0 = Some (1, pool')"
proof (rule contract_swap_pays)
  have f: "after_fee n 30 = n * 9970 div 10000" using assms(1) by (simp add: after_fee_def bdiv_nonneg)
  have b: "1 \<le> n * 9970 div 10000" "n * 9970 div 10000 \<le> n" using assms(1) by linarith+
  have "swap_out (n * 9970 div 10000) 2 n 30 0 = Some 1"
    using assms b by (simp add: swap_out_def checked_mul_div_def i128_def bdiv_nonneg Let_def)
  then show "swap_out (if t = XLM then lp_xlm (drained_pool t n) else lp_sxlm (drained_pool t n))
      (if t = XLM then lp_sxlm (drained_pool t n) else lp_xlm (drained_pool t n)) n (lp_fee_bps (drained_pool t n)) 0 = Some 1"
    by (simp add: drained_pool_def f)
qed (use assms in \<open>simp_all add: drained_pool_def\<close>)

text \<open>
  C32. A swap from the browser has no limit: whatever output was shown, the transaction the backend builds asks the contract
  for at least nothing, and there is a state of the pool in which the contract executes it for a single unit.\<close>

theorem web_swap_has_no_limit:
  assumes "publicKey st = Some w" "swap_route t bev (swap_body st a) = Inr (iv, xdr)" "amount_stroops a = Inr n" "2 \<le> n" "n * 10000 < 2^127"
  shows "call_args iv = [SC_address w, SC_i128 n, SC_i128 0] \<and>
    (\<exists>pool'. contract_swap t (drained_pool t n) n 0 = Some (1, pool'))"
proof
  obtain u b m where q: "swapSchema (swap_body st a) = Inr ((u, b), m)"
    using assms(2)
    by (cases "swapSchema (swap_body st a)")
       (auto simp: swap_route_def swap_xlm_route_def swap_sxlm_route_def lp_route_def map_parsed_def split: if_splits)
  have "to_args [a, 0] = Inr [SC_i128 n, SC_i128 0]"
    using assms(3-5) by (simp add: to_args_def to_stroops_def to_i128_def i128_def amount_stroops_def zero_number_def)
  then show "call_args iv = [SC_address w, SC_i128 n, SC_i128 0]"
    using assms(1,2) q swap_body_request [OF q]
    by (auto simp: swap_route_def swap_xlm_route_def swap_sxlm_route_def lp_route_def map_parsed_def buildLpTx_def
        split: if_splits sum.splits build_result.splits)
  show "\<exists>pool'. contract_swap t (drained_pool t n) n 0 = Some (1, pool')" by (rule drained_pool_pays_one [OF assms(4,5)])
qed

definition demo_trader :: wallet_state where
  "demo_trader = session_of (replicate 56 CHR ''G'') None"

theorem web_swap_has_no_limit_witness:
  "\<exists>iv. swap_route XLM demo_build (swap_body demo_trader (Fin 1000)) = Inr (iv, ''AAAA'') \<and>
     call_args iv = [SC_address (replicate 56 CHR ''G''), SC_i128 10000000000, SC_i128 0]"
proof -
  obtain iv where iv: "swap_route XLM demo_build (swap_body demo_trader (Fin 1000)) = Inr (iv, ''AAAA'')"
    by (simp add: swap_route_def swap_xlm_route_def lp_route_def map_parsed_def swapSchema_def swap_body_def user_body_def
        demo_trader_def session_of_def zod_both_def zod_field_def address56_def positive_number_def minOut_field_def
        to_args_def to_stroops_def to_i128_def i128_def amount_stroops_def zero_number_def buildLpTx_def demo_build_def build_tx_def)
  moreover have "amount_stroops (Fin 1000) = Inr 10000000000" by (simp add: amount_stroops_def)
  ultimately show ?thesis
    using web_swap_has_no_limit [of demo_trader "replicate 56 CHR ''G''" XLM demo_build "Fin 1000" iv "''AAAA''" 10000000000]
    by (auto simp: demo_trader_def session_of_def)
qed

end
