(* ===== verification/Spec2Isabelle.thy ===== *)
theory Spec2Isabelle
  imports Tx_Executor Risk_Engine Reward_Engine Leverage Dex_Oracle Keeper Event_Listener Bridge_Relayer Governance_Sync Hubble_Worker Metric_Aggregator Cohort_Aggregator Api_Governance Health_Checks Api_Analytics Api_Protocol Process Web_Hooks
begin

text \<open>
  The backend of a liquid-staking protocol on Stellar (\<open>src/backend/src\<close>), with the parts of its SDK and of
  its Soroban and EVM contracts that the backend's correctness rests on.

  \<^bold>\<open>The program.\<close>
  Users stake XLM for sXLM, whose exchange rate grows with the rewards; they borrow against sXLM, provide liquidity to
  an sXLM/XLM pool, vote on parameters, and bridge sXLM to EVM chains. The contracts hold the money. The backend is one
  process of cooperating services: it caches the exchange rate, claims withdrawals, watches and indexes the contracts'
  events, harvests and recycles fees, relays the bridge, synchronises governance, aggregates metrics, and serves an HTTP
  API that builds the users' transactions. Its services share the database, the event bus and the administrator's key.

  \<^bold>\<open>Conventions.\<close>
  A TypeScript \<open>number\<close> is an IEEE double (\<open>Js_Number\<close>): the finite ones are the rationals they are, each
  operation rounds to nearest even, and \<open>NaN\<close>, the infinities and their comparisons are the standard's. A
  \<open>bigint\<close> is an \<open>int\<close>, with the truncating division \<open>bdiv\<close>. A call that throws or a promise that
  rejects is \<open>Inl e\<close> of \<open>'e + 'a\<close>; what was written before it stays written. A contract's arithmetic is
  checked at 128 bits (\<open>add\<close>, \<open>mul\<close>, \<open>quo\<close> of \<open>Lending_Contract\<close>), its panic is
  \<open>None\<close>, and nothing is written then. State is passed explicitly, one record per service or table. Whatever a
  call cannot decide by itself (an answer of the RPC endpoint or the database, the clock) is a field of an
  \<open>env\<close> record given to the operation, so a theorem holds for every answer, failures included. A timer is
  its callback, and a run is a list of environments, one for each tick.

  \<^bold>\<open>Foundations.\<close>
  \<open>Stello_Prelude\<close> names the kinds of data, holds the result type, lemmas on lists, and the table with one row per key
  (\<open>write_by\<close>, \<open>lookup_by\<close>) and rows grouped by a key (\<open>group_rows\<close>). \<open>Js_Number\<close> and \<open>Js_Value\<close> model numbers, decimal printing
  and parsing, \<open>parseInt\<close>, and dynamic values. \<open>Protocol_Config\<close> is \<open>config/index.ts\<close>.
  \<open>Chain_Rpc\<close> has the arguments of contract calls and the RPC endpoint's replies.

  \<^bold>\<open>Staking.\<close>
  \<open>Exchange_Rate\<close> (\<open>exchangeRateManager.ts\<close>): cache, refreshes that interleave, conversions; every rate handed
  out is positive, and staking and unstaking at one rate gains nothing. \<open>Withdrawal_Store\<close> and
  \<open>Withdrawal_Queue\<close> (\<open>withdrawalQueueProcessor.ts\<close>): a pass settles every due row, and no row is claimed twice.
  \<open>Contract_Client\<close>, \<open>Tx_Executor\<close>: every contract call with polling and retries; success is reported exactly
  when the network reports it. \<open>Staking_Engine\<close>, \<open>Reward_Engine\<close>, \<open>Risk_Engine\<close>,
  \<open>Leverage\<close> (with the restaking simulator) and \<open>Keeper\<close>: statistics, snapshots with their timer, health checks with the
  emergency mode, simulations, the harvest cycle and the recycling of the treasury. \<open>Event_Bus\<close> connects them.

  \<^bold>\<open>Events.\<close>
  \<open>Event_Listener\<close> follows the staking contract's events into the withdrawals table. \<open>Hubble_Indexer\<close> parses and
  stores all contracts' events, \<open>Hubble_Worker\<close> is its rate limiter, its retries, cursors and paging: the
  tables stay free of duplicates whatever is answered, but prompt pages hang the worker.
  \<open>Metric_Aggregator\<close> and \<open>Cohort_Aggregator\<close> compute hourly and daily figures of these tables; n nightly jobs agree
  with one backfill. \<open>Bridge_Relayer\<close> is both directions of the bridge and the wrapped token's replay check.

  \<^bold>\<open>Exchange and governance.\<close>
  \<open>Dex_Quote\<close>, \<open>Dex_Oracle\<close>, \<open>Liquidity_Mining\<close> and \<open>Dex_Service\<close> are
  \<open>dex-integration/\<close> and the SDK: quotes equal the contract's swaps, the oracle's loop is the average of a step
  function. \<open>Governance_Sync\<close> reads proposals and applies them at most once.
  The contracts these depend on are \<open>Lp_Pool\<close> (\<open>contracts/lp-pool\<close>), \<open>Gov_Contract\<close>
  (\<open>contracts/governance\<close>) and \<open>Lending_Contract\<close> (\<open>contracts/lending\<close>), each with an inductive
  step relation over its operations and invariants of all runs: shares are backed, parameters come from passed
  proposals, totals are the sums of the positions.

  \<^bold>\<open>The API\<close> (\<open>api-gateway/\<close>).
  \<open>Api_Gateway\<close>: schemas, error handler, authentication, withdrawals. \<open>Api_Staking\<close>, \<open>Api_Lending\<close>,
  \<open>Api_Liquidity\<close>, \<open>Api_Governance\<close>: the routes that build transactions and show positions. They are related to
  the contracts: claims agree with the contract's queue, alerts with its liquidations, a quoted swap executes as shown, and
  every transaction is well typed for its contract. \<open>Health_Checks\<close>: \<open>utils/monitoring.ts\<close> and
  \<open>routes/health.ts\<close>. \<open>Api_Analytics\<close> (\<open>routes/analytics.ts\<close>): deposits, utilization, revenue and cohorts over
  the aggregated tables, and the CSV export, which reads back. \<open>Api_Protocol\<close>: statistics, yields, the administrator's
  routes, the leverage and restaking simulations, and the key of the rate limiter. \<open>Process\<close> (\<open>index.ts\<close>) starts all
  services in order and stops them; one unreadable stored proposal keeps it down.

  \<^bold>\<open>The frontend\<close> (\<open>src/frontend/src\<close>).
  \<open>Web_Client\<close>: the HTTP client (\<open>lib/apiClient.ts\<close>) with its time-out and its one retry, the wallet session
  (\<open>useWallet.ts\<close>) and the staking flows (\<open>useStaking.ts\<close>), run against the routes of the API: a session acts as
  the wallet it shows, but a confirmation later than eight seconds is shown as a failure, and a slow request
  is handled twice. \<open>Web_Hooks\<close>: the other hooks, their figures, fallbacks and transactions: swaps
  carry no limit, and generated series stand in for a backend whose database is down.

  \<^bold>\<open>Interfaces.\<close>
  \<open>poll_loop\<close>: a bounded loop that asks until an answer decides; interpreted by the six confirmation loops of client,
  executor, keeper, relayer and submit route. \<open>rounding\<close>: a monotone, idempotent rounding; interpreted by the doubles
  (\<open>dbl\<close>). \<open>copy_table\<close>: the read-then-update copy of a wallet's figures; interpreted by lending positions and
  liquidity shares. \<open>lending_invariant\<close>, \<open>indexer_invariant\<close>, \<open>cohort_invariant\<close>: what every operation of
  the component keeps holds of all runs; interpreted once for each invariant.

  \<^bold>\<open>Bounds.\<close>
  No definition runs on fuel of the model's own: the loops with a bound have it in the source (30, 20 and 18 polls, 3
  retries, pages of 100 or 200 events, 50 queue entries or proposals), and the others recurse over a list or a
  measure. The unbounded timers are runs of any length.

  \<^bold>\<open>Parameters.\<close>
  What is not in the repository is an argument: the XDR decoder, \<open>JSON.parse\<close>, the printing of a double, the check of an
  address's checksum, signing and verifying tokens, \<open>Math.pow\<close>, the SDK's transaction building.

  \<^bold>\<open>Not modelled.\<close>
  The frontend's pages and components (rendering and forms); the registration of plugins in
  \<open>server.ts\<close>; the settings of \<open>config/index.ts\<close> that are only strings; log output and metrics' labels; storage
  lifetimes, events and authorisation of the contracts, and of the bridge, token and staking contracts all but the
  functions the backend relies on; test code and scripts.
\<close>

end
